(* ===== verification/Prelude.thy ===== *)
theory Prelude
  imports Complex_Main "HOL-Library.List_Lexorder" "HOL-Library.Char_ord" "HOL-Library.Multiset"
begin

text \<open>
  Shared vocabulary of the development: results that may carry a thrown error, the string and
  array operations of the JavaScript standard library that several components use
  (\<open>startsWith\<close>, \<open>endsWith\<close>, decimal printing of counters, insertion-ordered \<open>Set\<close>, \<open>Map\<close> and
  object updates, stable \<open>Array.prototype.sort\<close>), and the generic facts about them.

  Strings are character lists ordered lexicographically by code unit, which is how JavaScript
  compares strings (for code units below 256).
\<close>

named_theorems res_simps \<open>unfolding of result-valued checks\<close>
named_theorems js_defs \<open>definitions of the JavaScript primitives\<close>

section \<open>Results: a thrown error or a value\<close>

type_synonym ('e, 'a) res = "'e + 'a"

definition bindR :: "('e, 'a) res \<Rightarrow> ('a \<Rightarrow> ('e, 'b) res) \<Rightarrow> ('e, 'b) res" where
  "bindR r k = (case r of Inl e \<Rightarrow> Inl e | Inr x \<Rightarrow> k x)"

definition ensure :: "bool \<Rightarrow> 'e \<Rightarrow> ('e, unit) res" where
  "ensure b e = (if b then Inr () else Inl e)"

text \<open>A \<open>for \<dots> of\<close> loop whose body may throw: the first error ends the loop.\<close>

fun eachR :: "('a \<Rightarrow> ('e, unit) res) \<Rightarrow> 'a list \<Rightarrow> ('e, unit) res" where
  "eachR f [] = Inr ()"
| "eachR f (x # xs) = bindR (f x) (\<lambda>_. eachR f xs)"

text \<open>The same loop with the running index \<open>i\<close>.\<close>

fun eachR_i :: "(nat \<Rightarrow> 'a \<Rightarrow> ('e, unit) res) \<Rightarrow> nat \<Rightarrow> 'a list \<Rightarrow> ('e, unit) res" where
  "eachR_i f i [] = Inr ()"
| "eachR_i f i (x # xs) = bindR (f i x) (\<lambda>_. eachR_i f (Suc i) xs)"

text \<open>\<open>Array.prototype.map\<close> with a callback that may throw.\<close>

fun mapR :: "('a \<Rightarrow> ('e, 'b) res) \<Rightarrow> 'a list \<Rightarrow> ('e, 'b list) res" where
  "mapR f [] = Inr []"
| "mapR f (x # xs) = bindR (f x) (\<lambda>y. bindR (mapR f xs) (\<lambda>ys. Inr (y # ys)))"

text \<open>A loop over a list that updates a state and may throw.\<close>

fun foldR :: "('s \<Rightarrow> 'a \<Rightarrow> ('e, 's) res) \<Rightarrow> 's \<Rightarrow> 'a list \<Rightarrow> ('e, 's) res" where
  "foldR f s [] = Inr s"
| "foldR f s (x # xs) = bindR (f s x) (\<lambda>s'. foldR f s' xs)"

lemma bindR_simps [simp]:
  "bindR (Inl e) k = Inl e"
  "bindR (Inr x) k = k x"
  by (simp_all add: bindR_def)

lemma bindR_Inr_iff [res_simps]: "bindR r k = Inr y \<longleftrightarrow> (\<exists>x. r = Inr x \<and> k x = Inr y)"
  by (cases r) auto

lemma bindR_unit_Inr_iff [res_simps]:
  fixes r :: "('e, unit) res"
  shows "bindR r k = Inr y \<longleftrightarrow> r = Inr () \<and> k () = Inr y"
  by (cases r) auto

lemma ensure_Inr_iff [simp]: "ensure b e = Inr u \<longleftrightarrow> b"
  by (simp add: ensure_def)

lemma ensure_Inl_iff [simp]: "ensure b e = Inl e' \<longleftrightarrow> \<not> b \<and> e' = e"
  by (auto simp: ensure_def)

lemma ensure_True [simp]: "ensure True e = Inr ()"
  and ensure_False [simp]: "ensure False e = Inl e"
  by (simp_all add: ensure_def)

lemma eachR_Inr_iff [res_simps]: "eachR f xs = Inr () \<longleftrightarrow> (\<forall>x \<in> set xs. f x = Inr ())"
  by (induction xs) (auto simp: bindR_unit_Inr_iff)

lemma eachR_i_Inr_iff [res_simps]:
  "eachR_i f i xs = Inr () \<longleftrightarrow> (\<forall>j < length xs. f (i + j) (xs ! j) = Inr ())"
proof (induction xs arbitrary: i)
  case Nil
  then show ?case by simp
next
  case (Cons x xs)
  have "eachR_i f i (x # xs) = Inr () \<longleftrightarrow>
      f i x = Inr () \<and> (\<forall>j < length xs. f (Suc i + j) (xs ! j) = Inr ())"
    by (simp add: bindR_unit_Inr_iff Cons.IH)
  also have "\<dots> \<longleftrightarrow> (\<forall>j < length (x # xs). f (i + j) ((x # xs) ! j) = Inr ())"
    by (simp add: All_less_Suc2)
  finally show ?case .
qed

lemma eachR_i_ignore: "eachR_i (\<lambda>_. f) i xs = eachR f xs"
  by (induction xs arbitrary: i) simp_all

lemma mapR_Inr_length: "mapR f xs = Inr ys \<Longrightarrow> length ys = length xs"
  by (induction xs arbitrary: ys) (auto simp: bindR_Inr_iff)

lemma mapR_Inr_iff [res_simps]: "mapR f xs = Inr ys \<longleftrightarrow> list_all2 (\<lambda>x y. f x = Inr y) xs ys"
  by (induction xs arbitrary: ys) (auto simp: bindR_Inr_iff list_all2_Cons1)

section \<open>Strings\<close>

definition startsWith :: "string \<Rightarrow> string \<Rightarrow> bool" where
  "startsWith s p \<longleftrightarrow> take (length p) s = p"

definition endsWith :: "string \<Rightarrow> string \<Rightarrow> bool" where
  "endsWith s p \<longleftrightarrow> length p \<le> length s \<and> drop (length s - length p) s = p"

lemma startsWith_iff: "startsWith s p \<longleftrightarrow> (\<exists>t. s = p @ t)"
  by (metis append_eq_conv_conj append_take_drop_id startsWith_def)

lemma startsWith_append [simp]: "startsWith (p @ t) p"
  by (simp add: startsWith_iff)

lemma endsWith_iff: "endsWith s p \<longleftrightarrow> (\<exists>t. s = t @ p)"
  unfolding endsWith_def by (metis append_take_drop_id diff_add_inverse2 drop_append
      append_eq_conv_conj length_append le_add2)

text \<open>\<open>s.includes(p)\<close>.\<close>

definition str_includes :: "string \<Rightarrow> string \<Rightarrow> bool" where
  "str_includes s p \<longleftrightarrow> list_ex (\<lambda>i. startsWith (drop i s) p) [0..<Suc (length s)]"

lemma str_includes_iff: "str_includes s p \<longleftrightarrow> (\<exists>a b. s = a @ p @ b)"
proof
  assume "str_includes s p"
  then obtain i where "startsWith (drop i s) p" unfolding str_includes_def list_ex_iff by blast
  then obtain b where "drop i s = p @ b" by (auto simp: startsWith_iff)
  then have "s = take i s @ p @ b" by (metis append_take_drop_id)
  then show "\<exists>a b. s = a @ p @ b" by blast
next
  assume "\<exists>a b. s = a @ p @ b"
  then obtain a b where s: "s = a @ p @ b" by blast
  then have "length a \<in> set [0..<Suc (length s)]" "startsWith (drop (length a) s) p" by simp_all
  then show "str_includes s p" unfolding str_includes_def list_ex_iff by blast
qed

text \<open>Decimal digits of a counter, as a template literal prints it.\<close>

definition digit_char :: "nat \<Rightarrow> char" where
  "digit_char d = char_of (48 + d)"

fun nat_str :: "nat \<Rightarrow> string" where
  "nat_str n = (if n < 10 then [digit_char n] else nat_str (n div 10) @ [digit_char (n mod 10)])"

declare nat_str.simps [simp del]

definition digit_val :: "char \<Rightarrow> nat" where
  "digit_val c = of_char c - 48"

definition str_nat :: "string \<Rightarrow> nat" where
  "str_nat s = foldl (\<lambda>n c. 10 * n + digit_val c) 0 s"

lemma digit_val_digit_char [simp]: "d < 10 \<Longrightarrow> digit_val (digit_char d) = d"
  by (simp add: digit_val_def digit_char_def)

lemma str_nat_snoc: "str_nat (s @ [c]) = 10 * str_nat s + digit_val c"
  by (simp add: str_nat_def)

lemma str_nat_nat_str [simp]: "str_nat (nat_str n) = n"
proof (induction n rule: nat_str.induct)
  case (1 n)
  show ?case
  proof (cases "n < 10")
    case True
    then show ?thesis by (simp add: nat_str.simps [of n] str_nat_def)
  next
    case False
    with 1 have "str_nat (nat_str (n div 10)) = n div 10" by simp
    with False show ?thesis by (simp add: nat_str.simps [of n] str_nat_snoc)
  qed
qed

lemma nat_str_inj [simp]: "nat_str m = nat_str n \<longleftrightarrow> m = n"
  by (metis str_nat_nat_str)

lemma nat_str_not_Nil [simp]: "nat_str n \<noteq> []"
  by (simp add: nat_str.simps [of n])

section \<open>Insertion-ordered sets, maps and objects\<close>

text \<open>\<open>Set.prototype.add\<close>: a new element goes to the end, a known one changes nothing.\<close>

definition set_add :: "'a \<Rightarrow> 'a list \<Rightarrow> 'a list" where
  "set_add x xs = (if x \<in> set xs then xs else xs @ [x])"

text \<open>\<open>new Set(xs)\<close>, read back in iteration order.\<close>

definition js_set :: "'a list \<Rightarrow> 'a list" where
  "js_set xs = foldl (\<lambda>acc x. set_add x acc) [] xs"

text \<open>\<open>Map.prototype.set\<close> and property assignment: a known key keeps its place.\<close>

fun alist_set :: "'k \<Rightarrow> 'v \<Rightarrow> ('k \<times> 'v) list \<Rightarrow> ('k \<times> 'v) list" where
  "alist_set k v [] = [(k, v)]"
| "alist_set k v ((k', v') # kvs) = (if k' = k then (k, v) # kvs else (k', v') # alist_set k v kvs)"

lemma set_set_add [simp]: "set (set_add x xs) = insert x (set xs)"
  by (auto simp: set_add_def)

lemma distinct_set_add [simp]: "distinct (set_add x xs) = distinct xs"
  by (simp add: set_add_def)

lemma foldl_set_add:
  "set (foldl (\<lambda>acc x. set_add x acc) acc xs) = set acc \<union> set xs"
  "distinct acc \<Longrightarrow> distinct (foldl (\<lambda>acc x. set_add x acc) acc xs)"
  by (induction xs arbitrary: acc) auto

lemma set_js_set [simp]: "set (js_set xs) = set xs"
  by (simp add: js_set_def foldl_set_add)

lemma distinct_js_set [simp]: "distinct (js_set xs)"
  by (simp add: js_set_def foldl_set_add)

lemma js_set_Nil [simp]: "js_set [] = []"
  by (simp add: js_set_def)

lemma foldl_set_add_distinct:
  "distinct (acc @ xs) \<Longrightarrow> foldl (\<lambda>acc x. set_add x acc) acc xs = acc @ xs"
  by (induction xs arbitrary: acc) (auto simp: set_add_def)

lemma js_set_distinct: "distinct xs \<Longrightarrow> js_set xs = xs"
  by (simp add: js_set_def foldl_set_add_distinct)

lemma map_of_alist_set [simp]: "map_of (alist_set k v kvs) = (map_of kvs)(k \<mapsto> v)"
  by (induction kvs) (auto simp: fun_eq_iff)

lemma keys_alist_set [simp]:
  "map fst (alist_set k v kvs) = (if k \<in> fst ` set kvs then map fst kvs else map fst kvs @ [k])"
  by (induction k v kvs rule: alist_set.induct) (auto simp: image_iff)

lemma set_keys_alist_set [simp]: "fst ` set (alist_set k v kvs) = insert k (fst ` set kvs)"
  by (induction k v kvs rule: alist_set.induct) (auto split: if_splits)

lemma alist_set_fresh: "k \<notin> fst ` set kvs \<Longrightarrow> alist_set k v kvs = kvs @ [(k, v)]"
  by (induction kvs) auto

lemma distinct_keys_alist_set: "distinct (map fst kvs) \<Longrightarrow> distinct (map fst (alist_set k v kvs))"
  by (simp add: image_set [symmetric] del: image_set)

lemma set_alist_set_subset: "set (alist_set k v kvs) \<subseteq> insert (k, v) (set kvs)"
  by (induction k v kvs rule: alist_set.induct) (auto split: if_splits)

section \<open>Stable sort by a comparator\<close>

text \<open>
  \<open>Array.prototype.sort(cmp)\<close> is stable. The model takes the test \<open>gt x y\<close>, which stands for
  \<open>cmp(x, y) > 0\<close>. For a consistent comparator every stable sort gives the same list; where the
  comparator is inconsistent (a \<open>NaN\<close> difference) the language leaves the order to the
  implementation and no property below depends on it.
\<close>

fun ins_by :: "('a \<Rightarrow> 'a \<Rightarrow> bool) \<Rightarrow> 'a \<Rightarrow> 'a list \<Rightarrow> 'a list" where
  "ins_by gt x [] = [x]"
| "ins_by gt x (y # ys) = (if gt x y then y # ins_by gt x ys else x # y # ys)"

fun js_sort_by :: "('a \<Rightarrow> 'a \<Rightarrow> bool) \<Rightarrow> 'a list \<Rightarrow> 'a list" where
  "js_sort_by gt [] = []"
| "js_sort_by gt (x # xs) = ins_by gt x (js_sort_by gt xs)"

lemma mset_ins_by [simp]: "mset (ins_by gt x ys) = add_mset x (mset ys)"
  by (induction ys) auto

lemma mset_js_sort_by [simp]: "mset (js_sort_by gt xs) = mset xs"
  by (induction xs) auto

lemma set_js_sort_by [simp]: "set (js_sort_by gt xs) = set xs"
  by (metis mset_js_sort_by set_mset_mset)

lemma length_js_sort_by [simp]: "length (js_sort_by gt xs) = length xs"
  by (metis mset_js_sort_by size_mset)

lemma distinct_js_sort_by [simp]: "distinct (js_sort_by gt xs) = distinct xs"
  by (metis mset_js_sort_by mset_eq_imp_distinct_iff)

lemma distinct_map_js_sort_by [simp]: "distinct (map f (js_sort_by gt xs)) = distinct (map f xs)"
  by (metis mset_js_sort_by mset_map mset_eq_imp_distinct_iff)

text \<open>
  The contract of a comparator on the values \<open>A\<close> it is used with: it never claims both
  \<open>x > y\<close> and \<open>y > x\<close>, and \<open>\<le>\<close> composes.
\<close>

locale js_comparator =
  fixes gt :: "'a \<Rightarrow> 'a \<Rightarrow> bool"
    and A :: "'a set"
  assumes gt_asym: "x \<in> A \<Longrightarrow> y \<in> A \<Longrightarrow> gt x y \<Longrightarrow> \<not> gt y x"
    and le_trans: "x \<in> A \<Longrightarrow> y \<in> A \<Longrightarrow> z \<in> A \<Longrightarrow> \<not> gt x y \<Longrightarrow> \<not> gt y z \<Longrightarrow> \<not> gt x z"
begin

lemma sorted_ins_by:
  assumes "x \<in> A" and "set ys \<subseteq> A" and "sorted_wrt (\<lambda>a b. \<not> gt a b) ys"
  shows "sorted_wrt (\<lambda>a b. \<not> gt a b) (ins_by gt x ys)"
  using assms
proof (induction ys)
  case Nil
  then show ?case by simp
next
  case (Cons y ys)
  have set_ins: "set (ins_by gt x ys) = insert x (set ys)"
    by (metis mset_ins_by set_mset_mset set_mset_add_mset_insert)
  show ?case
  proof (cases "gt x y")
    case True
    then have "\<not> gt y x" using Cons.prems gt_asym by simp
    with True Cons show ?thesis by (simp add: set_ins)
  next
    case False
    with Cons.prems le_trans [of x y] show ?thesis by (auto simp: subset_iff)
  qed
qed

lemma sorted_js_sort_by: "set xs \<subseteq> A \<Longrightarrow> sorted_wrt (\<lambda>a b. \<not> gt a b) (js_sort_by gt xs)"
  by (induction xs) (simp_all add: sorted_ins_by)

lemma ins_by_le_all: "\<forall>y \<in> set ys. \<not> gt x y \<Longrightarrow> ins_by gt x ys = x # ys"
  by (cases ys) simp_all

lemma js_sort_by_sorted: "sorted_wrt (\<lambda>a b. \<not> gt a b) xs \<Longrightarrow> js_sort_by gt xs = xs"
  by (induction xs) (simp_all add: ins_by_le_all)

lemma js_sort_by_idem: "set xs \<subseteq> A \<Longrightarrow> js_sort_by gt (js_sort_by gt xs) = js_sort_by gt xs"
  by (rule js_sort_by_sorted) (rule sorted_js_sort_by)

end

text \<open>The default comparator of \<open>sort()\<close> on strings, and on any linear order.\<close>

interpretation ord_cmp: js_comparator "\<lambda>x y :: 'a :: linorder. x > y" UNIV
  by unfold_locales auto

lemma js_sort_by_linorder: "js_sort_by (\<lambda>x y :: 'a :: linorder. x > y) xs = sort xs"
proof -
  have "sorted (js_sort_by (\<lambda>x y. x > y) xs)"
    using ord_cmp.sorted_js_sort_by [of xs] by (simp add: not_less)
  moreover have "mset (js_sort_by (\<lambda>x y. x > y) xs) = mset xs" by simp
  ultimately show ?thesis by (metis properties_for_sort)
qed

text \<open>Sorting by a key with that comparator is \<open>sort_key\<close>.\<close>

lemma js_sort_by_key: "js_sort_by (\<lambda>x y. f x > (f y :: 'k :: linorder)) xs = sort_key f xs"
proof -
  have "ins_by (\<lambda>x y. f x > f y) x ys = insort_key f x ys" for x ys by (induction ys) auto
  then show ?thesis by (induction xs) auto
qed

end
