(* ===== verification/JsValue.thy ===== *)
theory JsValue
  imports Prelude
begin

text \<open>
  Run-time values of the plan DSL. Plan authors call the DSL with untyped JavaScript values
  (TypeScript types are erased and the fixtures pass wrong ones on purpose), so every run-time
  check of the source is a check on this type. Values are finite trees: object graphs with
  cycles are outside the model. An object is its list of own properties in enumeration order.
  \<open>JCand c n\<close> is a \<open>CandidateSet\<close> with private fields \<open>ctx\<close> (the plan context number \<open>c\<close>) and
  \<open>nodeId = n\<close>; \<open>JCtx c\<close> is that context object itself.
\<close>

section \<open>Numbers\<close>

text \<open>
  A double is a finite rational or one of the three special values. Negative zero is identified
  with zero (\<open>===\<close>, \<open>Set\<close> and \<open>JSON.stringify\<close> do not separate them).
\<close>

datatype jnum = Fin rat | PInf | NInf | NaN

definition is_finite_num :: "jnum \<Rightarrow> bool" where
  "is_finite_num x = (case x of Fin _ \<Rightarrow> True | _ \<Rightarrow> False)"

text \<open>\<open>Number.isInteger\<close>.\<close>

definition is_int_num :: "jnum \<Rightarrow> bool" where
  "is_int_num x = (case x of Fin q \<Rightarrow> of_int \<lfloor>q\<rfloor> = q | _ \<Rightarrow> False)"

text \<open>\<open>x - y > 0\<close>: the test a numeric comparator \<open>(x, y) => x - y\<close> gives to \<open>sort\<close>.\<close>

fun num_gt :: "jnum \<Rightarrow> jnum \<Rightarrow> bool" where
  "num_gt (Fin x) (Fin y) = (x > y)"
| "num_gt PInf (Fin _) = True"
| "num_gt PInf NInf = True"
| "num_gt (Fin _) NInf = True"
| "num_gt _ _ = False"

abbreviation jint :: "int \<Rightarrow> jnum" where
  "jint n \<equiv> Fin (of_int n)"

lemma is_int_num_simps [simp]:
  "is_int_num (Fin q) \<longleftrightarrow> of_int \<lfloor>q\<rfloor> = q" "\<not> is_int_num PInf" "\<not> is_int_num NInf" "\<not> is_int_num NaN"
  by (simp_all add: is_int_num_def)

lemma is_finite_num_simps [simp]:
  "is_finite_num (Fin q)" "\<not> is_finite_num PInf" "\<not> is_finite_num NInf" "\<not> is_finite_num NaN"
  by (simp_all add: is_finite_num_def)

lemma is_int_num_iff: "is_int_num x \<longleftrightarrow> (\<exists>n. x = jint n)"
proof (cases x)
  case (Fin q)
  then show ?thesis by (metis is_int_num_simps(1) floor_of_int jnum.inject)
qed simp_all

interpretation num_cmp: js_comparator num_gt "- {NaN}"
proof
  show "\<not> num_gt y x" if "num_gt x y" for x y
    using that by (cases x; cases y) auto
  show "\<not> num_gt x z" if "\<not> num_gt x y" "\<not> num_gt y z" "x \<in> - {NaN}" "y \<in> - {NaN}" "z \<in> - {NaN}" for x y z
    using that by (cases x; cases y; cases z) auto
qed

section \<open>Values\<close>

datatype jsval =
    JUndef
  | JNull
  | JBool bool
  | JNum jnum
  | JBigInt int
  | JStr string
  | JSym
  | JFun
  | JArr "jsval list"
  | JObj "(string \<times> jsval) list"
  | JCand nat string
  | JCtx nat

fun typeof_js :: "jsval \<Rightarrow> string" where
  "typeof_js JUndef = ''undefined''"
| "typeof_js JNull = ''object''"
| "typeof_js (JBool _) = ''boolean''"
| "typeof_js (JNum _) = ''number''"
| "typeof_js (JBigInt _) = ''bigint''"
| "typeof_js (JStr _) = ''string''"
| "typeof_js JSym = ''symbol''"
| "typeof_js JFun = ''function''"
| "typeof_js (JArr _) = ''object''"
| "typeof_js (JObj _) = ''object''"
| "typeof_js (JCand _ _) = ''object''"
| "typeof_js (JCtx _) = ''object''"

fun is_array :: "jsval \<Rightarrow> bool" where
  "is_array (JArr _) = True"
| "is_array _ = False"

fun is_str :: "jsval \<Rightarrow> bool" where
  "is_str (JStr _) = True"
| "is_str _ = False"

text \<open>\<open>v !== null && typeof v === "object"\<close>, the test written all over the source.\<close>

definition is_object :: "jsval \<Rightarrow> bool" where
  "is_object v \<longleftrightarrow> v \<noteq> JNull \<and> typeof_js v = ''object''"

text \<open>A non-null object that is not an array.\<close>

definition is_plain :: "jsval \<Rightarrow> bool" where
  "is_plain v \<longleftrightarrow> is_object v \<and> \<not> is_array v"

definition truthy :: "jsval \<Rightarrow> bool" where
  "truthy v = (case v of JUndef \<Rightarrow> False | JNull \<Rightarrow> False | JBool b \<Rightarrow> b
     | JNum x \<Rightarrow> x \<noteq> Fin 0 \<and> x \<noteq> NaN | JBigInt n \<Rightarrow> n \<noteq> 0 | JStr s \<Rightarrow> s \<noteq> [] | _ \<Rightarrow> True)"

text \<open>\<open>v ?? d\<close>.\<close>

definition nullish :: "jsval \<Rightarrow> jsval \<Rightarrow> jsval" where
  "nullish v d = (if v = JUndef \<or> v = JNull then d else v)"

section \<open>Properties\<close>

text \<open>
  Names every plain object inherits from \<open>Object.prototype\<close>. A dynamic lookup \<open>o[k]\<close> or
  \<open>k in o\<close> finds them even when \<open>o\<close> has no such own property.
\<close>

definition object_proto :: "string list" where
  "object_proto = [''constructor'', ''__defineGetter__'', ''__defineSetter__'', ''hasOwnProperty'',
     ''__lookupGetter__'', ''__lookupSetter__'', ''isPrototypeOf'', ''propertyIsEnumerable'',
     ''toString'', ''valueOf'', ''__proto__'', ''toLocaleString'']"

definition proto_get :: "string \<Rightarrow> jsval" where
  "proto_get k = (if k = ''__proto__'' then JObj [] else if k \<in> set object_proto then JFun else JUndef)"

text \<open>Own property of an object, else what it inherits.\<close>

definition obj_get :: "(string \<times> jsval) list \<Rightarrow> string \<Rightarrow> jsval" where
  "obj_get kvs k = (case map_of kvs k of Some v \<Rightarrow> v | None \<Rightarrow> proto_get k)"

text \<open>
  \<open>v.k\<close> on any value other than \<open>undefined\<close> and \<open>null\<close> (which raise, see \<open>getP\<close>). The source
  reads only names that arrays, strings, numbers and functions do not have, so those give
  \<open>undefined\<close>.
\<close>

fun getp :: "jsval \<Rightarrow> string \<Rightarrow> jsval" where
  "getp (JObj kvs) k = obj_get kvs k"
| "getp (JCand c n) k = (if k = ''ctx'' then JCtx c else if k = ''nodeId'' then JStr n
     else if k = ''getNodeId'' then JFun else JUndef)"
| "getp _ k = JUndef"

text \<open>The methods and accessors of the class \<open>CandidateSet\<close>.\<close>

definition candidate_proto :: "string list" where
  "candidate_proto = [''vm'', ''filter'', ''sort'', ''media'', ''follow'', ''recommendation'', ''take'',
     ''concat'', ''getNodeId'', ''test'']"

text \<open>Own enumerable properties, as \<open>Object.entries\<close> lists them.\<close>

fun own_entries :: "jsval \<Rightarrow> (string \<times> jsval) list" where
  "own_entries (JObj kvs) = kvs"
| "own_entries (JArr xs) = zip (map nat_str [0..<length xs]) xs"
| "own_entries (JStr s) = zip (map nat_str [0..<length s]) (map (\<lambda>c. JStr [c]) s)"
| "own_entries (JCand c n) = [(''ctx'', JCtx c), (''nodeId'', JStr n)]"
| "own_entries _ = []"

text \<open>\<open>k in v\<close> for an object \<open>v\<close>.\<close>

definition hasp :: "jsval \<Rightarrow> string \<Rightarrow> bool" where
  "hasp v k \<longleftrightarrow> k \<in> fst ` set (own_entries v) \<or> k \<in> set object_proto \<or>
     (case v of JCand _ _ \<Rightarrow> k \<in> set candidate_proto | _ \<Rightarrow> False)"

section \<open>Errors thrown by the runtime\<close>

text \<open>The messages \<open>validatePayload\<close> returns: capability, then the property and types it names.\<close>

datatype payload_error =
    UnknownCapability string
  | PayloadNotAllowed string
  | PayloadNotObject string
  | UnexpectedProperty string string
  | MissingProperty string string
  | PropertyType string string string string

text \<open>
  One constructor per \<open>throw\<close> of the runtime packages; the arguments are the values the message
  interpolates. \<open>TypeError\<close> is the exception of the language itself.
\<close>

datatype (plugins only: code size) dsl_error =
    TypeError
  \<comment> \<open>guards.ts\<close>
  | UndefinedNotAllowed string
  | ExpectedObject string string
  | NotInteger string jsval
  | NotStringOrNull string string
  | EndpointNotString string string
  | EndpointPrefix string string
  | EndpointTooLong string nat
  | CapsNotArray string
  | CapNotString string nat
  | CapsNotSortedUnique string
  | ExtensionsNotPlain string
  | ExtensionNotRequired string string
  | NodeExtensionsNotPlain string
  | NodeExtensionNotRequired string string
  \<comment> \<open>expr.ts, pred.ts\<close>
  | ConstNotFinite jsval
  | CompileTimeOnly string
  | InNotArray
  | InBadType string
  | InNotHomogeneous string nat string
  | RegexFlags jsval
  \<comment> \<open>task-impl.ts\<close>
  | IsUndefined string
  | NotKeyToken string jsval
  | NotExprInput string jsval
  | NotPredInput string jsval
  | NotCandidateSet string jsval
  \<comment> \<open>plan.ts\<close>
  | CapabilityIdEmpty
  | ForeignPlanCtx
  \<comment> \<open>artifact-validation.ts\<close>
  | ArtifactNotObject string
  | BadSchemaVersion string
  | BadPlanName string
  | BadNodes string
  | BadOutputs string
  | NodeNotObject string nat
  | NodeBadId string nat
  | NodeBadOp string nat
  | NodeBadInputs string nat
  | InputNotString string nat nat
  | InputUnknown string nat nat string
  | OutputNotString string nat
  | OutputUnknown string nat string
  | BadExprTable string
  | BadPredTable string
  | PlanExtensionInvalid payload_error
  | NodeExtensionInvalid string payload_error

type_synonym check = "(dsl_error, unit) res"

text \<open>\<open>v.k\<close> with the \<open>TypeError\<close> of reading a property of \<open>undefined\<close> or \<open>null\<close>.\<close>

definition getP :: "jsval \<Rightarrow> string \<Rightarrow> (dsl_error, jsval) res" where
  "getP v k = (if v = JUndef \<or> v = JNull then Inl TypeError else Inr (getp v k))"

text \<open>\<open>Object.entries(v)\<close> and \<open>Object.keys(v)\<close>.\<close>

definition entriesR :: "jsval \<Rightarrow> (dsl_error, (string \<times> jsval) list) res" where
  "entriesR v = (if v = JUndef \<or> v = JNull then Inl TypeError else Inr (own_entries v))"

section \<open>Facts\<close>

lemma is_object_simps [simp]:
  "\<not> is_object JUndef" "\<not> is_object JNull" "\<not> is_object (JBool b)" "\<not> is_object (JNum x)"
  "\<not> is_object (JBigInt n)" "\<not> is_object (JStr s)" "\<not> is_object JSym" "\<not> is_object JFun"
  "is_object (JArr xs)" "is_object (JObj kvs)" "is_object (JCand c n')" "is_object (JCtx c)"
  by (simp_all add: is_object_def)

lemma is_plain_simps [simp]:
  "\<not> is_plain JUndef" "\<not> is_plain JNull" "\<not> is_plain (JBool b)" "\<not> is_plain (JNum x)"
  "\<not> is_plain (JBigInt n)" "\<not> is_plain (JStr s)" "\<not> is_plain JSym" "\<not> is_plain JFun"
  "\<not> is_plain (JArr xs)" "is_plain (JObj kvs)" "is_plain (JCand c n')" "is_plain (JCtx c)"
  by (simp_all add: is_plain_def)

lemma is_array_iff: "is_array v \<longleftrightarrow> (\<exists>xs. v = JArr xs)"
  by (cases v) auto

lemma is_str_iff: "is_str v \<longleftrightarrow> (\<exists>s. v = JStr s)"
  by (cases v) auto

lemma typeof_number_iff [simp]: "typeof_js v = ''number'' \<longleftrightarrow> (\<exists>x. v = JNum x)"
  by (cases v) auto

lemma typeof_string_iff [simp]: "typeof_js v = ''string'' \<longleftrightarrow> is_str v"
  by (cases v) auto

lemma typeof_function_iff [simp]: "typeof_js v = ''function'' \<longleftrightarrow> v = JFun"
  by (cases v) auto

lemma nullish_simps [simp]:
  "nullish JUndef d = d" "nullish JNull d = d" "nullish (JStr s) d = JStr s"
  "nullish (JObj kvs) d = JObj kvs" "nullish (JArr xs) d = JArr xs"
  by (simp_all add: nullish_def)

lemma truthy_simps [simp]:
  "\<not> truthy JUndef" "\<not> truthy JNull" "truthy (JBool b) = b" "truthy (JObj kvs)" "truthy (JArr xs)"
  "truthy (JStr s) \<longleftrightarrow> s \<noteq> []" "truthy JFun"
  by (simp_all add: truthy_def)

lemma getP_JObj [simp]: "getP (JObj kvs) k = Inr (obj_get kvs k)"
  by (simp add: getP_def)

lemma getP_simps [simp]: "getP JUndef k = Inl TypeError" "getP JNull k = Inl TypeError"
  by (simp_all add: getP_def)

lemma getP_Inr_iff [res_simps]: "getP v k = Inr x \<longleftrightarrow> v \<noteq> JUndef \<and> v \<noteq> JNull \<and> x = getp v k"
  by (auto simp: getP_def)

lemma entriesR_simps [simp]:
  "entriesR JUndef = Inl TypeError" "entriesR JNull = Inl TypeError" "entriesR (JObj kvs) = Inr kvs"
  by (simp_all add: entriesR_def)

lemma obj_get_own: "map_of kvs k = Some v \<Longrightarrow> obj_get kvs k = v"
  by (simp add: obj_get_def)

lemma obj_get_Nil [simp]: "obj_get [] k = proto_get k"
  by (simp add: obj_get_def)

lemma obj_get_Cons [simp]: "obj_get ((k', v) # kvs) k = (if k' = k then v else obj_get kvs k)"
  by (simp add: obj_get_def)

lemma proto_get_fresh: "k \<notin> set object_proto \<Longrightarrow> proto_get k = JUndef"
  by (auto simp: proto_get_def object_proto_def)

lemma obj_get_append:
  "obj_get (xs @ ys) k = (if k \<in> fst ` set xs then obj_get xs k else obj_get ys k)"
  by (induction xs) (force, fastforce)

end
