(* ===== verification/Guards.thy ===== *)
theory Guards
  imports JsValue
begin

text \<open>
  \<open>dsl/packages/runtime/src/guards.ts\<close>: the run-time guards every DSL entry point calls, and the
  RFC0001 checks of declared capabilities against extensions.
\<close>

section \<open>Definitions\<close>

definition assertNotUndefined :: "jsval \<Rightarrow> string \<Rightarrow> check" where
  "assertNotUndefined v path = (if v = JUndef then Inl (UndefinedNotAllowed path) else Inr ())"

definition assertObject :: "jsval \<Rightarrow> string \<Rightarrow> check" where
  "assertObject v path =
     (if typeof_js v \<noteq> ''object'' \<or> v = JNull \<or> is_array v
      then Inl (ExpectedObject path (typeof_js v)) else Inr ())"

text \<open>
  The loop over \<open>Object.entries\<close>. Nested plain objects are entered, arrays are not. A
  \<open>CandidateSet\<close> or a plan context holds no \<open>undefined\<close> field, so entering one finds nothing.
\<close>

function (sequential) checkNoUndefined :: "(string \<times> jsval) list \<Rightarrow> string \<Rightarrow> check" where
  "checkNoUndefined [] path = Inr ()"
| "checkNoUndefined ((k, v) # kvs) path =
     bindR (assertNotUndefined v (path @ ''.'' @ k)) (\<lambda>_.
     bindR (case v of JObj kvs' \<Rightarrow> checkNoUndefined kvs' (path @ ''.'' @ k) | _ \<Rightarrow> Inr ()) (\<lambda>_.
     checkNoUndefined kvs path))"
  by pat_completeness auto
termination
  by (relation "measure (\<lambda>(kvs, _). size_list (size_prod (\<lambda>_. 0) size) kvs)") auto

definition assertInteger :: "jsval \<Rightarrow> string \<Rightarrow> check" where
  "assertInteger v path =
     (case v of JNum x \<Rightarrow> if is_int_num x then Inr () else Inl (NotInteger path v)
      | _ \<Rightarrow> Inl (NotInteger path v))"

definition assertStringOrNull :: "jsval \<Rightarrow> string \<Rightarrow> check" where
  "assertStringOrNull v path =
     (if v \<noteq> JNull \<and> typeof_js v \<noteq> ''string'' then Inl (NotStringOrNull path (typeof_js v)) else Inr ())"

definition assertEndpointId :: "jsval \<Rightarrow> string \<Rightarrow> check" where
  "assertEndpointId v path =
     (case v of
        JStr s \<Rightarrow> if \<not> startsWith s ''ep_'' then Inl (EndpointPrefix path s)
                  else if length s > 64 then Inl (EndpointTooLong path (length s))
                  else Inr ()
      | _ \<Rightarrow> Inl (EndpointNotString path (typeof_js v)))"

text \<open>\<open>[...new Set(ids)].sort()\<close>.\<close>

definition normalizeCapabilitiesRequired :: "string list \<Rightarrow> string list" where
  "normalizeCapabilitiesRequired ids = js_sort_by (\<lambda>x y. x > y) (js_set ids)"

text \<open>The loop from index 1 that compares each element with its predecessor.\<close>

fun isSortedUnique :: "string list \<Rightarrow> bool" where
  "isSortedUnique (x # y # zs) = (if y \<le> x then False else isSortedUnique (y # zs))"
| "isSortedUnique _ = True"

text \<open>The strings of an array already known to hold only strings (\<open>as string[]\<close>).\<close>

definition as_strings :: "jsval list \<Rightarrow> string list" where
  "as_strings xs = map (\<lambda>v. case v of JStr s \<Rightarrow> s | _ \<Rightarrow> []) xs"

definition caps_list :: "jsval \<Rightarrow> string list" where
  "caps_list v = (case v of JArr xs \<Rightarrow> as_strings xs | _ \<Rightarrow> [])"

definition checkCapabilitiesRequired :: "jsval \<Rightarrow> string \<Rightarrow> check" where
  "checkCapabilitiesRequired capabilitiesRequired where' =
     (if capabilitiesRequired = JUndef then Inr ()
      else case capabilitiesRequired of
        JArr xs \<Rightarrow>
          bindR (eachR_i (\<lambda>i v. if typeof_js v \<noteq> ''string'' then Inl (CapNotString where' i) else Inr ()) 0 xs) (\<lambda>_.
          if \<not> isSortedUnique (as_strings xs) then Inl (CapsNotSortedUnique where') else Inr ())
      | _ \<Rightarrow> Inl (CapsNotArray where'))"

definition checkExtensions :: "jsval \<Rightarrow> jsval \<Rightarrow> string \<Rightarrow> check" where
  "checkExtensions capabilitiesRequired extensions where' =
     (if extensions = JUndef then Inr ()
      else if extensions = JNull \<or> typeof_js extensions \<noteq> ''object'' \<or> is_array extensions
      then Inl (ExtensionsNotPlain where')
      else eachR (\<lambda>k. if k \<notin> set (caps_list capabilitiesRequired)
                      then Inl (ExtensionNotRequired where' k) else Inr ())
             (map fst (own_entries extensions)))"

definition validateCapabilitiesAndExtensions :: "jsval \<Rightarrow> jsval \<Rightarrow> string \<Rightarrow> check" where
  "validateCapabilitiesAndExtensions capabilitiesRequired extensions where' =
     bindR (checkCapabilitiesRequired capabilitiesRequired where') (\<lambda>_.
     checkExtensions capabilitiesRequired extensions where')"

definition validateNodeExtensions :: "jsval \<Rightarrow> jsval \<Rightarrow> string \<Rightarrow> check" where
  "validateNodeExtensions nodeExtensions planCapabilities nodeId =
     (if nodeExtensions = JUndef then Inr ()
      else if nodeExtensions = JNull \<or> typeof_js nodeExtensions \<noteq> ''object'' \<or> is_array nodeExtensions
      then Inl (NodeExtensionsNotPlain nodeId)
      else eachR (\<lambda>k. if k \<notin> set (caps_list planCapabilities)
                      then Inl (NodeExtensionNotRequired nodeId k) else Inr ())
             (map fst (own_entries nodeExtensions)))"

section \<open>When each guard accepts\<close>

lemma assertNotUndefined_ok [simp]: "assertNotUndefined v p = Inr () \<longleftrightarrow> v \<noteq> JUndef"
  by (simp add: assertNotUndefined_def)

lemma assertObject_ok: "assertObject v p = Inr () \<longleftrightarrow> is_plain v"
  by (auto simp: assertObject_def is_plain_def is_object_def)

lemma assertInteger_ok: "assertInteger v p = Inr () \<longleftrightarrow> (\<exists>n. v = JNum (jint n))"
  by (auto simp: assertInteger_def is_int_num_iff split: jsval.splits)

lemma assertStringOrNull_ok: "assertStringOrNull v p = Inr () \<longleftrightarrow> v = JNull \<or> is_str v"
  by (auto simp: assertStringOrNull_def is_str_iff)

lemma assertEndpointId_ok:
  "assertEndpointId v p = Inr () \<longleftrightarrow> (\<exists>t. v = JStr (''ep_'' @ t) \<and> length t \<le> 61)"
  by (cases v) (auto simp: assertEndpointId_def startsWith_iff)

text \<open>
  What \<open>checkNoUndefined\<close> is for: no property, at any depth of nested plain objects, is
  \<open>undefined\<close>. The specification is a relation, not the loop.
\<close>

inductive undef_at :: "(string \<times> jsval) list \<Rightarrow> string list \<Rightarrow> bool" where
  here: "(k, JUndef) \<in> set kvs \<Longrightarrow> undef_at kvs [k]"
| below: "(k, JObj kvs') \<in> set kvs \<Longrightarrow> undef_at kvs' ks \<Longrightarrow> undef_at kvs (k # ks)"

lemma undef_at_Nil [simp]: "\<not> undef_at [] ks"
  by (auto elim: undef_at.cases)

lemma undef_at_Cons:
  "undef_at ((k, v) # kvs) ks \<longleftrightarrow>
     (ks = [k] \<and> v = JUndef) \<or> (\<exists>kvs' ks'. v = JObj kvs' \<and> ks = k # ks' \<and> undef_at kvs' ks') \<or> undef_at kvs ks"
  (is "?l \<longleftrightarrow> ?r")
proof
  show "?l \<Longrightarrow> ?r"
    by (cases rule: undef_at.cases) (auto intro: undef_at.intros)
  have mono: "undef_at kvs ks \<Longrightarrow> undef_at ((k, v) # kvs) ks"
    by (erule undef_at.cases) (auto intro: undef_at.intros)
  show "?r \<Longrightarrow> ?l"
    by (auto intro: undef_at.intros mono)
qed

lemma checkNoUndefined_ok: "checkNoUndefined kvs path = Inr () \<longleftrightarrow> \<not> (\<exists>ks. undef_at kvs ks)"
proof (induction kvs path rule: checkNoUndefined.induct)
  case (1 path)
  then show ?case by simp
next
  case (2 k v kvs path)
  from 2 show ?case
    by (cases v) (auto simp: bindR_unit_Inr_iff undef_at_Cons assertNotUndefined_def)
qed

lemma checkNoUndefined_no_undef: "checkNoUndefined kvs path = Inr () \<Longrightarrow> (k, v) \<in> set kvs \<Longrightarrow> v \<noteq> JUndef"
  using undef_at.here by (auto simp: checkNoUndefined_ok)

lemma isSortedUnique_iff: "isSortedUnique xs \<longleftrightarrow> sorted_wrt (<) xs"
proof (induction xs rule: isSortedUnique.induct)
  case (1 x y zs)
  show ?case
  proof (cases "y \<le> x")
    case True
    then show ?thesis by (auto simp: not_less)
  next
    case False
    then have "x < y" by simp
    with 1 show ?thesis by (auto intro: less_trans)
  qed
qed simp_all

lemma sorted_wrt_less_iff: "sorted_wrt (<) (xs :: 'a :: linorder list) \<longleftrightarrow> sorted xs \<and> distinct xs"
  by (simp add: strict_sorted_iff)

lemma normalize_set [simp]: "set (normalizeCapabilitiesRequired ids) = set ids"
  by (simp add: normalizeCapabilitiesRequired_def)

lemma normalize_sorted [simp]: "isSortedUnique (normalizeCapabilitiesRequired ids)"
  by (simp add: normalizeCapabilitiesRequired_def isSortedUnique_iff sorted_wrt_less_iff
      js_sort_by_linorder)

lemma sorted_unique_eqI:
  fixes xs ys :: "'a :: linorder list"
  assumes "sorted_wrt (<) xs" and "sorted_wrt (<) ys" and "set xs = set ys"
  shows "xs = ys"
  using assms by (simp add: sorted_wrt_less_iff sorted_distinct_set_unique)

lemma as_strings_JStr [simp]: "as_strings (map JStr xs) = xs"
  by (induction xs) (auto simp: as_strings_def)

lemma map_eq_map_JStr: "map JStr xs = map JStr ys \<longleftrightarrow> xs = ys"
  by (simp add: inj_map_eq_map inj_def)

lemma all_strings_conv: "\<forall>v \<in> set vs. is_str v \<Longrightarrow> \<exists>xs. vs = map JStr xs"
  by (induction vs) (auto simp: is_str_iff Cons_eq_map_conv)

lemma checkCapabilitiesRequired_ok:
  "checkCapabilitiesRequired caps w = Inr () \<longleftrightarrow>
     caps = JUndef \<or> (\<exists>xs. caps = JArr (map JStr xs) \<and> isSortedUnique xs)"
proof (cases caps)
  case (JArr vs)
  have strs: "eachR_i (\<lambda>i v. if \<not> is_str v then Inl (CapNotString w i) else Inr ()) 0 vs = Inr ()
      \<longleftrightarrow> (\<exists>xs. vs = map JStr xs)"
    using all_strings_conv [of vs] by (auto simp: eachR_i_Inr_iff all_set_conv_all_nth)
  show ?thesis
    by (auto simp: JArr checkCapabilitiesRequired_def bindR_unit_Inr_iff strs map_eq_map_JStr)
qed (simp_all add: checkCapabilitiesRequired_def)

lemma checkExtensions_ok:
  "checkExtensions caps ext w = Inr () \<longleftrightarrow>
     ext = JUndef \<or> (is_plain ext \<and> fst ` set (own_entries ext) \<subseteq> set (caps_list caps))"
  by (auto simp: checkExtensions_def eachR_Inr_iff is_plain_def is_object_def split: if_splits)

lemma validateNodeExtensions_ok:
  "validateNodeExtensions ext caps nid = Inr () \<longleftrightarrow>
     ext = JUndef \<or> (is_plain ext \<and> fst ` set (own_entries ext) \<subseteq> set (caps_list caps))"
  by (auto simp: validateNodeExtensions_def eachR_Inr_iff is_plain_def is_object_def split: if_splits)

lemma caps_list_simps [simp]: "caps_list JUndef = []" "caps_list (JArr (map JStr xs)) = xs"
  by (simp_all add: caps_list_def)

lemmas guard_ok = assertInteger_ok assertStringOrNull_ok assertEndpointId_ok checkNoUndefined_ok

end
