(* ===== verification/ExprPred.thy ===== *)
theory ExprPred
  imports Guards
begin

text \<open>
  Expression and predicate IR (\<open>dsl/packages/generated/tasks.ts\<close>) and the builders
  \<open>E\<close> (\<open>runtime/src/expr.ts\<close>) and \<open>Pred\<close> (\<open>runtime/src/pred.ts\<close>). The builders work on run-time
  values; \<open>expr_js\<close> and \<open>pred_js\<close> give the object literal of a typed IR node.
\<close>

section \<open>The IR\<close>

datatype expr_node =
    ConstNumber jnum
  | ConstNull
  | KeyRef jnum
  | ParamRef jnum
  | EAdd expr_node expr_node
  | ESub expr_node expr_node
  | EMul expr_node expr_node
  | ENeg expr_node
  | ECoalesce expr_node expr_node

datatype regex_pattern = RegexLiteral string | RegexParam jnum

datatype cmp_op = CmpEq | CmpNe | CmpLt | CmpLe | CmpGt | CmpGe

datatype lit = LitNum jnum | LitStr string

datatype pred_node =
    ConstBool bool
  | PAnd pred_node pred_node
  | POr pred_node pred_node
  | PNot pred_node
  | PCmp cmp_op expr_node expr_node
  | PIn expr_node "lit list"
  | IsNull expr_node
  | NotNull expr_node
  | PRegex jnum regex_pattern string

abbreviation op_obj :: "string \<Rightarrow> (string \<times> jsval) list \<Rightarrow> jsval" where
  "op_obj name fields \<equiv> JObj ((''op'', JStr name) # fields)"

fun expr_js :: "expr_node \<Rightarrow> jsval" where
  "expr_js (ConstNumber x) = op_obj ''const_number'' [(''value'', JNum x)]"
| "expr_js ConstNull = op_obj ''const_null'' []"
| "expr_js (KeyRef i) = op_obj ''key_ref'' [(''key_id'', JNum i)]"
| "expr_js (ParamRef i) = op_obj ''param_ref'' [(''param_id'', JNum i)]"
| "expr_js (EAdd a b) = op_obj ''add'' [(''a'', expr_js a), (''b'', expr_js b)]"
| "expr_js (ESub a b) = op_obj ''sub'' [(''a'', expr_js a), (''b'', expr_js b)]"
| "expr_js (EMul a b) = op_obj ''mul'' [(''a'', expr_js a), (''b'', expr_js b)]"
| "expr_js (ENeg x) = op_obj ''neg'' [(''x'', expr_js x)]"
| "expr_js (ECoalesce a b) = op_obj ''coalesce'' [(''a'', expr_js a), (''b'', expr_js b)]"

fun cmp_str :: "cmp_op \<Rightarrow> string" where
  "cmp_str CmpEq = ''==''" | "cmp_str CmpNe = ''!=''" | "cmp_str CmpLt = ''<''"
| "cmp_str CmpLe = ''<=''" | "cmp_str CmpGt = ''>''" | "cmp_str CmpGe = ''>=''"

fun lit_js :: "lit \<Rightarrow> jsval" where
  "lit_js (LitNum x) = JNum x"
| "lit_js (LitStr s) = JStr s"

fun pattern_js :: "regex_pattern \<Rightarrow> jsval" where
  "pattern_js (RegexLiteral s) = JObj [(''kind'', JStr ''literal''), (''value'', JStr s)]"
| "pattern_js (RegexParam i) = JObj [(''kind'', JStr ''param''), (''param_id'', JNum i)]"

fun pred_js :: "pred_node \<Rightarrow> jsval" where
  "pred_js (ConstBool b) = op_obj ''const_bool'' [(''value'', JBool b)]"
| "pred_js (PAnd a b) = op_obj ''and'' [(''a'', pred_js a), (''b'', pred_js b)]"
| "pred_js (POr a b) = op_obj ''or'' [(''a'', pred_js a), (''b'', pred_js b)]"
| "pred_js (PNot x) = op_obj ''not'' [(''x'', pred_js x)]"
| "pred_js (PCmp c a b) = op_obj ''cmp'' [(''cmp'', JStr (cmp_str c)), (''a'', expr_js a), (''b'', expr_js b)]"
| "pred_js (PIn l vs) = op_obj ''in'' [(''lhs'', expr_js l), (''list'', JArr (map lit_js vs))]"
| "pred_js (IsNull x) = op_obj ''is_null'' [(''x'', expr_js x)]"
| "pred_js (NotNull x) = op_obj ''not_null'' [(''x'', expr_js x)]"
| "pred_js (PRegex k p fl) = op_obj ''regex'' [(''key_id'', JNum k), (''pattern'', pattern_js p), (''flags'', JStr fl)]"

section \<open>Expression builder\<close>

definition E_const :: "jsval \<Rightarrow> (dsl_error, jsval) res" where
  "E_const value =
     bindR (assertNotUndefined value ''E.const(value)'') (\<lambda>_.
     case value of
       JNum x \<Rightarrow> if is_finite_num x then Inr (op_obj ''const_number'' [(''value'', value)])
                 else Inl (ConstNotFinite value)
     | _ \<Rightarrow> Inl (ConstNotFinite value))"

definition E_constNull :: "(dsl_error, jsval) res" where
  "E_constNull = Inr (op_obj ''const_null'' [])"

definition E_key :: "jsval \<Rightarrow> (dsl_error, jsval) res" where
  "E_key token =
     bindR (assertNotUndefined token ''E.key(token)'') (\<lambda>_.
     bindR (getP token ''id'') (\<lambda>i. Inr (op_obj ''key_ref'' [(''key_id'', i)])))"

definition E_param :: "jsval \<Rightarrow> (dsl_error, jsval) res" where
  "E_param token =
     bindR (assertNotUndefined token ''E.param(token)'') (\<lambda>_.
     bindR (getP token ''id'') (\<lambda>i. Inr (op_obj ''param_ref'' [(''param_id'', i)])))"

definition E_add :: "jsval \<Rightarrow> jsval \<Rightarrow> (dsl_error, jsval) res" where
  "E_add a b =
     bindR (assertNotUndefined a ''E.add(a, ...)'') (\<lambda>_.
     bindR (assertNotUndefined b ''E.add(..., b)'') (\<lambda>_.
     Inr (op_obj ''add'' [(''a'', a), (''b'', b)])))"

definition E_sub :: "jsval \<Rightarrow> jsval \<Rightarrow> (dsl_error, jsval) res" where
  "E_sub a b =
     bindR (assertNotUndefined a ''E.sub(a, ...)'') (\<lambda>_.
     bindR (assertNotUndefined b ''E.sub(..., b)'') (\<lambda>_.
     Inr (op_obj ''sub'' [(''a'', a), (''b'', b)])))"

definition E_mul :: "jsval \<Rightarrow> jsval \<Rightarrow> (dsl_error, jsval) res" where
  "E_mul a b =
     bindR (assertNotUndefined a ''E.mul(a, ...)'') (\<lambda>_.
     bindR (assertNotUndefined b ''E.mul(..., b)'') (\<lambda>_.
     Inr (op_obj ''mul'' [(''a'', a), (''b'', b)])))"

definition E_neg :: "jsval \<Rightarrow> (dsl_error, jsval) res" where
  "E_neg a = bindR (assertNotUndefined a ''E.neg(a)'') (\<lambda>_. Inr (op_obj ''neg'' [(''x'', a)]))"

definition E_coalesce :: "jsval \<Rightarrow> jsval \<Rightarrow> (dsl_error, jsval) res" where
  "E_coalesce a b =
     bindR (assertNotUndefined a ''E.coalesce(a, ...)'') (\<lambda>_.
     bindR (assertNotUndefined b ''E.coalesce(..., b)'') (\<lambda>_.
     Inr (op_obj ''coalesce'' [(''a'', a), (''b'', b)])))"

text \<open>The free function \<open>coalesce\<close> exists for the compiler only; at run time it throws.\<close>

definition coalesce :: "jsval \<Rightarrow> jsval \<Rightarrow> (dsl_error, jsval) res" where
  "coalesce a b = Inl (CompileTimeOnly ''coalesce'')"

section \<open>Predicate builder\<close>

definition Pred_constBool :: "jsval \<Rightarrow> (dsl_error, jsval) res" where
  "Pred_constBool value =
     bindR (assertNotUndefined value ''Pred.constBool(value)'') (\<lambda>_.
     Inr (op_obj ''const_bool'' [(''value'', value)]))"

definition Pred_and :: "jsval \<Rightarrow> jsval \<Rightarrow> (dsl_error, jsval) res" where
  "Pred_and a b =
     bindR (assertNotUndefined a ''Pred.and(a, ...)'') (\<lambda>_.
     bindR (assertNotUndefined b ''Pred.and(..., b)'') (\<lambda>_.
     Inr (op_obj ''and'' [(''a'', a), (''b'', b)])))"

definition Pred_or :: "jsval \<Rightarrow> jsval \<Rightarrow> (dsl_error, jsval) res" where
  "Pred_or a b =
     bindR (assertNotUndefined a ''Pred.or(a, ...)'') (\<lambda>_.
     bindR (assertNotUndefined b ''Pred.or(..., b)'') (\<lambda>_.
     Inr (op_obj ''or'' [(''a'', a), (''b'', b)])))"

definition Pred_not :: "jsval \<Rightarrow> (dsl_error, jsval) res" where
  "Pred_not a = bindR (assertNotUndefined a ''Pred.not(a)'') (\<lambda>_. Inr (op_obj ''not'' [(''x'', a)]))"

definition Pred_cmp :: "jsval \<Rightarrow> jsval \<Rightarrow> jsval \<Rightarrow> (dsl_error, jsval) res" where
  "Pred_cmp cmp a b =
     bindR (assertNotUndefined cmp ''Pred.cmp(cmp, ...)'') (\<lambda>_.
     bindR (assertNotUndefined a ''Pred.cmp(..., a, ...)'') (\<lambda>_.
     bindR (assertNotUndefined b ''Pred.cmp(..., b)'') (\<lambda>_.
     Inr (op_obj ''cmp'' [(''cmp'', cmp), (''a'', a), (''b'', b)]))))"

text \<open>The loop of \<open>Pred.in\<close> over the literal list, after the type of element 0 is known.\<close>

definition checkInElem :: "string \<Rightarrow> nat \<Rightarrow> jsval \<Rightarrow> check" where
  "checkInElem firstType i val =
     bindR (assertNotUndefined val (''Pred.in(..., list['' @ nat_str i @ ''])'')) (\<lambda>_.
     if typeof_js val \<noteq> firstType then Inl (InNotHomogeneous firstType i (typeof_js val)) else Inr ())"

definition checkInList :: "jsval list \<Rightarrow> check" where
  "checkInList xs =
     (case xs of [] \<Rightarrow> Inr ()
      | x # _ \<Rightarrow> if typeof_js x \<noteq> ''number'' \<and> typeof_js x \<noteq> ''string'' then Inl (InBadType (typeof_js x))
                 else eachR_i (checkInElem (typeof_js x)) 0 xs)"

definition Pred_in :: "jsval \<Rightarrow> jsval \<Rightarrow> (dsl_error, jsval) res" where
  "Pred_in lhs lst =
     bindR (assertNotUndefined lhs ''Pred.in(lhs, ...)'') (\<lambda>_.
     bindR (assertNotUndefined lst ''Pred.in(..., list)'') (\<lambda>_.
     case lst of
       JArr xs \<Rightarrow> bindR (checkInList xs) (\<lambda>_. Inr (op_obj ''in'' [(''lhs'', lhs), (''list'', lst)]))
     | _ \<Rightarrow> Inl InNotArray))"

definition Pred_isNull :: "jsval \<Rightarrow> (dsl_error, jsval) res" where
  "Pred_isNull a = bindR (assertNotUndefined a ''Pred.isNull(a)'') (\<lambda>_. Inr (op_obj ''is_null'' [(''x'', a)]))"

definition Pred_notNull :: "jsval \<Rightarrow> (dsl_error, jsval) res" where
  "Pred_notNull a = bindR (assertNotUndefined a ''Pred.notNull(a)'') (\<lambda>_. Inr (op_obj ''not_null'' [(''x'', a)]))"

text \<open>An omitted \<open>flags\<close> argument is \<open>undefined\<close> and takes the default \<open>""\<close>.\<close>

definition Pred_regex :: "jsval \<Rightarrow> jsval \<Rightarrow> jsval \<Rightarrow> (dsl_error, jsval) res" where
  "Pred_regex key pattern flags0 =
     (let flags = (if flags0 = JUndef then JStr [] else flags0) in
     bindR (assertNotUndefined key ''Pred.regex(key, ...)'') (\<lambda>_.
     bindR (assertNotUndefined pattern ''Pred.regex(..., pattern, ...)'') (\<lambda>_.
     bindR (assertNotUndefined flags ''Pred.regex(..., flags)'') (\<lambda>_.
     if flags \<noteq> JStr [] \<and> flags \<noteq> JStr ''i'' then Inl (RegexFlags flags)
     else
       bindR (case pattern of
                JStr s \<Rightarrow> Inr (JObj [(''kind'', JStr ''literal''), (''value'', pattern)])
              | _ \<Rightarrow> bindR (getP pattern ''id'') (\<lambda>i. Inr (JObj [(''kind'', JStr ''param''), (''param_id'', i)])))
         (\<lambda>regexPattern.
       bindR (getP key ''id'') (\<lambda>i.
       Inr (op_obj ''regex'' [(''key_id'', i), (''pattern'', regexPattern), (''flags'', flags)])))))))"

definition regex :: "jsval \<Rightarrow> jsval \<Rightarrow> jsval \<Rightarrow> (dsl_error, jsval) res" where
  "regex key pattern flags = Inl (CompileTimeOnly ''regex'')"

lemmas builder_defs = E_const_def E_constNull_def E_key_def E_param_def E_add_def E_sub_def E_mul_def
  E_neg_def E_coalesce_def Pred_constBool_def Pred_and_def Pred_or_def Pred_not_def Pred_cmp_def
  Pred_in_def Pred_isNull_def Pred_notNull_def Pred_regex_def

section \<open>The builders build exactly the IR\<close>

lemma expr_js_not_undef [simp]: "expr_js e \<noteq> JUndef"
  by (cases e) simp_all

lemma pred_js_not_undef [simp]: "pred_js p \<noteq> JUndef"
  by (cases p) simp_all

lemma expr_js_inj [simp]: "expr_js a = expr_js b \<longleftrightarrow> a = b"
proof (induction a arbitrary: b)
  case (ConstNumber x) then show ?case by (cases b) auto
next
  case ConstNull then show ?case by (cases b) auto
next
  case (KeyRef x) then show ?case by (cases b) auto
next
  case (ParamRef x) then show ?case by (cases b) auto
next
  case (EAdd a1 a2) then show ?case by (cases b) auto
next
  case (ESub a1 a2) then show ?case by (cases b) auto
next
  case (EMul a1 a2) then show ?case by (cases b) auto
next
  case (ENeg a) then show ?case by (cases b) auto
next
  case (ECoalesce a1 a2) then show ?case by (cases b) auto
qed

lemma cmp_str_inj [simp]: "cmp_str a = cmp_str b \<longleftrightarrow> a = b"
  by (cases a; cases b) simp_all

lemma lit_js_inj [simp]: "lit_js a = lit_js b \<longleftrightarrow> a = b"
  by (cases a; cases b) simp_all

lemma map_lit_js_inj [simp]: "map lit_js xs = map lit_js ys \<longleftrightarrow> xs = ys"
  by (simp add: inj_map_eq_map inj_def)

lemma pattern_js_inj [simp]: "pattern_js a = pattern_js b \<longleftrightarrow> a = b"
  by (cases a; cases b) simp_all

lemma pred_js_inj [simp]: "pred_js a = pred_js b \<longleftrightarrow> a = b"
proof (induction a arbitrary: b)
  case (ConstBool x) then show ?case by (cases b) auto
next
  case (PAnd a1 a2) then show ?case by (cases b) auto
next
  case (POr a1 a2) then show ?case by (cases b) auto
next
  case (PNot a) then show ?case by (cases b) auto
next
  case (PCmp c x y) then show ?case by (cases b) auto
next
  case (PIn l vs) then show ?case by (cases b) auto
next
  case (IsNull x) then show ?case by (cases b) auto
next
  case (NotNull x) then show ?case by (cases b) auto
next
  case (PRegex k p f) then show ?case by (cases b) auto
qed

text \<open>No IR object holds an \<open>undefined\<close> at any depth, so IR passes every \<open>checkNoUndefined\<close>.\<close>

lemma expr_js_JObj: "\<exists>kvs. expr_js e = JObj kvs"
  by (cases e) auto

lemma expr_js_clean: "expr_js e = JObj kvs \<Longrightarrow> checkNoUndefined kvs path = Inr ()"
proof (induction e arbitrary: kvs path)
  case (EAdd a b)
  then show ?case using expr_js_JObj [of a] expr_js_JObj [of b] by (auto simp: assertNotUndefined_def)
next
  case (ESub a b)
  then show ?case using expr_js_JObj [of a] expr_js_JObj [of b] by (auto simp: assertNotUndefined_def)
next
  case (EMul a b)
  then show ?case using expr_js_JObj [of a] expr_js_JObj [of b] by (auto simp: assertNotUndefined_def)
next
  case (ENeg a)
  then show ?case using expr_js_JObj [of a] by (auto simp: assertNotUndefined_def)
next
  case (ECoalesce a b)
  then show ?case using expr_js_JObj [of a] expr_js_JObj [of b] by (auto simp: assertNotUndefined_def)
qed (auto simp: assertNotUndefined_def)

lemma E_builders:
  "is_finite_num x \<Longrightarrow> E_const (JNum x) = Inr (expr_js (ConstNumber x))"
  "E_constNull = Inr (expr_js ConstNull)"
  "E_add (expr_js a) (expr_js b) = Inr (expr_js (EAdd a b))"
  "E_sub (expr_js a) (expr_js b) = Inr (expr_js (ESub a b))"
  "E_mul (expr_js a) (expr_js b) = Inr (expr_js (EMul a b))"
  "E_neg (expr_js a) = Inr (expr_js (ENeg a))"
  "E_coalesce (expr_js a) (expr_js b) = Inr (expr_js (ECoalesce a b))"
  by (simp_all add: builder_defs assertNotUndefined_def)

lemma checkInList_ok:
  "checkInList vs = Inr () \<longleftrightarrow> (\<exists>xs. vs = map (\<lambda>x. JNum x) xs) \<or> (\<exists>ss. vs = map JStr ss)"
proof (cases vs)
  case (Cons v vs')
  have loop: "eachR_i (checkInElem t) 0 vs = Inr () \<longleftrightarrow> (\<forall>x \<in> set vs. x \<noteq> JUndef \<and> typeof_js x = t)" for t
    by (auto simp: eachR_i_Inr_iff all_set_conv_all_nth checkInElem_def bindR_unit_Inr_iff)
  have nums: "(\<forall>x \<in> set us. \<exists>n. x = JNum n) \<longleftrightarrow> (\<exists>xs. us = map (\<lambda>x. JNum x) xs)" for us
    by (induction us) (auto simp: Cons_eq_map_conv)
  have strs: "(\<forall>x \<in> set us. is_str x) \<longleftrightarrow> (\<exists>xs. us = map JStr xs)" for us
    by (induction us) (auto simp: Cons_eq_map_conv is_str_iff)
  have "checkInList vs = Inr () \<longleftrightarrow>
      (\<forall>x \<in> set vs. \<exists>n. x = JNum n) \<or> (\<forall>x \<in> set vs. is_str x)"
    using loop Cons by (cases v) (auto simp: checkInList_def is_str_iff)
  then show ?thesis by (simp add: nums strs)
qed (simp add: checkInList_def)

text \<open>
  \<open>Pred.in\<close> accepts exactly the homogeneous lists: it returns an \<open>in\<close> node whose
  list is all numbers or all strings, and throws for every other list, for a non-array and for
  \<open>undefined\<close> arguments.
\<close>

theorem Pred_in_homogeneous:
  "(\<exists>r. Pred_in lhs lst = Inr r) \<longleftrightarrow>
     lhs \<noteq> JUndef \<and> (\<exists>vs. lst = JArr vs \<and> ((\<exists>xs. vs = map (\<lambda>x. JNum x) xs) \<or> (\<exists>ss. vs = map JStr ss)))"
proof (cases lst)
  case (JArr vs)
  then show ?thesis
    by (simp add: Pred_in_def res_simps checkInList_ok)
qed (auto simp: Pred_in_def res_simps)

end
