(* ===== verification/PlanContext.thy ===== *)
theory PlanContext
  imports ExprPred
begin

text \<open>
  \<open>PlanCtx\<close> of \<open>dsl/packages/runtime/src/plan.ts\<close>: the mutable context that accumulates nodes,
  expression and predicate tables, capabilities and extensions while a plan is built. Every
  operation returns its result together with the context it leaves behind: a JavaScript exception
  does not roll back what was written before it, and a plan may catch it.
\<close>

section \<open>State\<close>

record plan_node =
  node_id :: string
  node_op :: string
  node_inputs :: "string list"
  node_params :: "(string \<times> jsval) list"
  node_extensions :: "jsval option"

record plan_ctx =
  ctx_id :: nat
  nodeCounter :: nat
  ctx_nodes :: "plan_node list"
  exprTable :: "(string \<times> jsval) list"
  predTable :: "(string \<times> jsval) list"
  capabilitiesRequired :: "string list"
  planExtensions :: "(string \<times> jsval) list"

type_synonym 'a plan_m = "plan_ctx \<Rightarrow> (dsl_error, 'a) res \<times> plan_ctx"

definition new_PlanCtx :: "nat \<Rightarrow> plan_ctx" where
  "new_PlanCtx c = \<lparr>ctx_id = c, nodeCounter = 0, ctx_nodes = [], exprTable = [], predTable = [],
     capabilitiesRequired = [], planExtensions = []\<rparr>"

section \<open>Operations\<close>

definition node_name :: "nat \<Rightarrow> string" where
  "node_name i = ''n'' @ nat_str i"

definition allocateNodeId :: "plan_ctx \<Rightarrow> string \<times> plan_ctx" where
  "allocateNodeId ctx = (node_name (nodeCounter ctx), ctx\<lparr>nodeCounter := Suc (nodeCounter ctx)\<rparr>)"

definition push_node :: "plan_node \<Rightarrow> plan_ctx \<Rightarrow> plan_ctx" where
  "push_node n ctx = ctx\<lparr>ctx_nodes := ctx_nodes ctx @ [n]\<rparr>"

text \<open>
  The id is allocated first, so a throwing extension check leaves a gap in the numbering.
\<close>

definition addNode ::
  "string \<Rightarrow> string list \<Rightarrow> (string \<times> jsval) list \<Rightarrow> jsval \<Rightarrow> string plan_m" where
  "addNode op inputs params extensions ctx =
     (let (nodeId, ctx1) = allocateNodeId ctx;
          node = \<lparr>node_id = nodeId, node_op = op, node_inputs = inputs, node_params = params,
                  node_extensions = None\<rparr>
      in if extensions = JUndef then (Inr nodeId, push_node node ctx1)
         else case entriesR extensions of
           Inl e \<Rightarrow> (Inl e, ctx1)
         | Inr kvs \<Rightarrow>
             if kvs = [] then (Inr nodeId, push_node node ctx1)
             else (case checkNoUndefined kvs (''node['' @ nodeId @ ''].extensions'') of
                     Inl e \<Rightarrow> (Inl e, ctx1)
                   | Inr _ \<Rightarrow> (Inr nodeId, push_node (node\<lparr>node_extensions := Some extensions\<rparr>) ctx1)))"

definition expr_name :: "nat \<Rightarrow> string" where
  "expr_name i = ''e'' @ nat_str i"

definition pred_name :: "nat \<Rightarrow> string" where
  "pred_name i = ''p'' @ nat_str i"

definition addExpr :: "jsval \<Rightarrow> plan_ctx \<Rightarrow> string \<times> plan_ctx" where
  "addExpr expr ctx =
     (let exprId = expr_name (length (exprTable ctx))
      in (exprId, ctx\<lparr>exprTable := alist_set exprId expr (exprTable ctx)\<rparr>))"

definition addPred :: "jsval \<Rightarrow> plan_ctx \<Rightarrow> string \<times> plan_ctx" where
  "addPred pred ctx =
     (let predId = pred_name (length (predTable ctx))
      in (predId, ctx\<lparr>predTable := alist_set predId pred (predTable ctx)\<rparr>))"

text \<open>
  \<open>capId\<close> is a string of the typed API; \<open>None\<close> is an omitted argument. The capability is
  recorded before its payload is checked.
\<close>

definition requireCapability :: "string option \<Rightarrow> jsval \<Rightarrow> unit plan_m" where
  "requireCapability capId payload ctx =
     (case capId of
        None \<Rightarrow> (Inl (UndefinedNotAllowed ''requireCapability(capId)''), ctx)
      | Some cap \<Rightarrow>
          if length cap = 0 then (Inl CapabilityIdEmpty, ctx)
          else
            let ctx1 = ctx\<lparr>capabilitiesRequired := set_add cap (capabilitiesRequired ctx)\<rparr>;
                ctx2 = ctx1\<lparr>planExtensions := alist_set cap payload (planExtensions ctx1)\<rparr>
            in if payload = JUndef then (Inr (), ctx1)
               else case payload of
                 JObj kvs \<Rightarrow>
                   (case checkNoUndefined kvs (''extensions[\"'' @ cap @ ''\"]'') of
                      Inl e \<Rightarrow> (Inl e, ctx1)
                    | Inr _ \<Rightarrow> (Inr (), ctx2))
               | _ \<Rightarrow> (Inr (), ctx2))"

definition node_js :: "plan_node \<Rightarrow> jsval" where
  "node_js n = JObj ([(''node_id'', JStr (node_id n)), (''op'', JStr (node_op n)),
      (''inputs'', JArr (map JStr (node_inputs n))), (''params'', JObj (node_params n))]
      @ (case node_extensions n of None \<Rightarrow> [] | Some e \<Rightarrow> [(''extensions'', e)]))"

text \<open>
  \<open>Object.fromEntries\<close> keeps the order of the map (keys that are array indices, which no table id
  or capability id of the system is, would be enumerated first).
\<close>

definition finalize :: "string \<Rightarrow> jsval \<Rightarrow> plan_ctx \<Rightarrow> jsval" where
  "finalize outputNodeId planName ctx = JObj (
     [(''schema_version'', JNum (Fin 1)), (''plan_name'', planName),
      (''nodes'', JArr (map node_js (ctx_nodes ctx))), (''outputs'', JArr [JStr outputNodeId])]
     @ (if length (exprTable ctx) > 0 then [(''expr_table'', JObj (exprTable ctx))] else [])
     @ (if length (predTable ctx) > 0 then [(''pred_table'', JObj (predTable ctx))] else [])
     @ (if length (capabilitiesRequired ctx) > 0
        then [(''capabilities_required'', JArr (map JStr (js_sort_by (\<lambda>x y. x > y) (capabilitiesRequired ctx))))]
        else [])
     @ (if length (planExtensions ctx) > 0 then [(''extensions'', JObj (planExtensions ctx))] else []))"

section \<open>Names are fresh and tables are numbered\<close>

lemma node_name_inj [simp]: "node_name i = node_name j \<longleftrightarrow> i = j"
  by (simp add: node_name_def)

lemma expr_name_inj [simp]: "expr_name i = expr_name j \<longleftrightarrow> i = j"
  by (simp add: expr_name_def)

lemma pred_name_inj [simp]: "pred_name i = pred_name j \<longleftrightarrow> i = j"
  by (simp add: pred_name_def)

text \<open>A table whose keys are exactly \<open>name 0, \<dots>, name (n - 1)\<close> in this order.\<close>

definition numbered :: "(nat \<Rightarrow> string) \<Rightarrow> (string \<times> 'v) list \<Rightarrow> bool" where
  "numbered name t \<longleftrightarrow> map fst t = map name [0..<length t]"

text \<open>
  The contract of an identifier table: names are injective, so \<open>name (size)\<close> is always free and
  adding under it appends.
\<close>

locale id_table =
  fixes name :: "nat \<Rightarrow> string"
  assumes name_inj: "name i = name j \<Longrightarrow> i = j"
begin

lemma keys_numbered: "numbered name t \<Longrightarrow> fst ` set t = name ` {0..<length t}"
  unfolding numbered_def by (metis atLeastLessThan_upt image_set)

lemma fresh_name: "numbered name t \<Longrightarrow> name (length t) \<notin> fst ` set t"
  by (auto simp: keys_numbered dest: name_inj)

lemma alist_set_next: "numbered name t \<Longrightarrow> alist_set (name (length t)) v t = t @ [(name (length t), v)]"
  by (simp add: alist_set_fresh fresh_name)

lemma numbered_Nil: "numbered name []"
  by (simp add: numbered_def)

lemma numbered_snoc: "numbered name t \<Longrightarrow> numbered name (t @ [(name (length t), v)])"
  by (simp add: numbered_def)

lemma numbered_distinct: "numbered name t \<Longrightarrow> distinct (map fst t)"
  by (auto simp: numbered_def distinct_map inj_on_def dest: name_inj)

end

interpretation expr_ids: id_table expr_name
  by unfold_locales simp

interpretation pred_ids: id_table pred_name
  by unfold_locales simp

interpretation node_ids_tab: id_table node_name
  by unfold_locales simp

section \<open>What one call does to the context\<close>

text \<open>
  Everything \<open>addNode\<close> can do: the counter moves by one; either one node with the fresh id
  is appended, or an error is returned and the nodes are as before.
\<close>

lemma addNode_cases:
  assumes "addNode op ins params ext ctx = (r, ctx')"
  obtains (added) x where "r = Inr (node_name (nodeCounter ctx))"
      "ctx' = ctx\<lparr>nodeCounter := Suc (nodeCounter ctx),
         ctx_nodes := ctx_nodes ctx @ [\<lparr>node_id = node_name (nodeCounter ctx), node_op = op,
           node_inputs = ins, node_params = params, node_extensions = x\<rparr>]\<rparr>"
      "x = None \<or> (x = Some ext \<and> ext \<noteq> JUndef)"
  | (failed) e where "r = Inl e" "ctx' = ctx\<lparr>nodeCounter := Suc (nodeCounter ctx)\<rparr>"
  using assms
  by (auto simp: addNode_def allocateNodeId_def push_node_def Let_def split: if_splits sum.splits)

lemma addExpr_numbered:
  assumes "numbered expr_name (exprTable ctx)"
  shows "addExpr e ctx = (expr_name (length (exprTable ctx)),
           ctx\<lparr>exprTable := exprTable ctx @ [(expr_name (length (exprTable ctx)), e)]\<rparr>)"
  using assms by (simp add: addExpr_def expr_ids.alist_set_next Let_def)

lemma addPred_numbered:
  assumes "numbered pred_name (predTable ctx)"
  shows "addPred p ctx = (pred_name (length (predTable ctx)),
           ctx\<lparr>predTable := predTable ctx @ [(pred_name (length (predTable ctx)), p)]\<rparr>)"
  using assms by (simp add: addPred_def pred_ids.alist_set_next Let_def)

lemma requireCapability_cases:
  assumes "requireCapability capId payload ctx = (r, ctx')"
  obtains (rejected) e where "r = Inl e" "ctx' = ctx"
  | (declared) cap where "capId = Some cap" "cap \<noteq> []"
      "ctx' = ctx\<lparr>capabilitiesRequired := set_add cap (capabilitiesRequired ctx)\<rparr>"
  | (extended) cap where "capId = Some cap" "cap \<noteq> []" "r = Inr ()" "payload \<noteq> JUndef"
      "ctx' = ctx\<lparr>capabilitiesRequired := set_add cap (capabilitiesRequired ctx),
                  planExtensions := alist_set cap payload (planExtensions ctx)\<rparr>"
  using assms
  by (auto simp: requireCapability_def Let_def split: if_splits sum.splits option.splits jsval.splits)

end
