(* ===== verification/JsNumber.thy ===== *)
theory JsNumber
  imports JsValue
begin

text \<open>
  Number conversions of the language that the compiler relies on: rounding to the nearest
  double, \<open>Number(string)\<close>, and the decimal text of a number (template literals and
  \<open>JSON.stringify\<close>).
\<close>

section \<open>Rounding to binary64\<close>

definition rat_pow :: "nat \<Rightarrow> int \<Rightarrow> rat" where
  "rat_pow b e = (if 0 \<le> e then of_nat b ^ nat e else 1 / of_nat b ^ nat (- e))"

text \<open>Number of digits in base \<open>b\<close>.\<close>

function ndigits :: "int \<Rightarrow> int \<Rightarrow> int" where
  "ndigits b n = (if b < 2 \<or> n \<le> 0 then 0 else 1 + ndigits b (n div b))"
  by pat_completeness auto
termination
  by (relation "measure (\<lambda>(b, n). nat n)") (auto simp: int_div_less_self)

declare ndigits.simps [simp del]

text \<open>The exponent \<open>e\<close> with \<open>b\<^sup>e \<le> q < b\<^sup>e\<^sup>+\<^sup>1\<close>, for positive \<open>q\<close>.\<close>

definition floor_log :: "nat \<Rightarrow> rat \<Rightarrow> int" where
  "floor_log b q =
     (let (n, d) = quotient_of q;
          e0 = ndigits (int b) n - ndigits (int b) d
      in if rat_pow b e0 \<le> q then e0 else e0 - 1)"

definition round_half_even :: "rat \<Rightarrow> int" where
  "round_half_even q =
     (let f = \<lfloor>q\<rfloor>; r = q - of_int f
      in if r < 1 / 2 then f else if 1 / 2 < r then f + 1 else if even f then f else f + 1)"

definition to_double :: "rat \<Rightarrow> jnum" where
  "to_double q =
     (if q = 0 then Fin 0
      else let a = \<bar>q\<bar>;
               e = max (floor_log 2 a) (- 1022);
               u = rat_pow 2 (e - 52);
               v = of_int (round_half_even (a / u)) * u
           in if 2 ^ 1024 \<le> v then (if 0 < q then PInf else NInf)
              else Fin (if 0 < q then v else - v))"

section \<open>Number(string)\<close>

definition is_digit :: "char \<Rightarrow> bool" where
  "is_digit c \<longleftrightarrow> CHR ''0'' \<le> c \<and> c \<le> CHR ''9''"

definition is_ws :: "char \<Rightarrow> bool" where
  "is_ws c \<longleftrightarrow> c \<in> {CHR '' '', CHR 0x09, CHR 0x0A, CHR 0x0B, CHR 0x0C, CHR 0x0D, CHR 0xA0}"

definition trim :: "string \<Rightarrow> string" where
  "trim s = rev (dropWhile is_ws (rev (dropWhile is_ws s)))"

text \<open>Value of a string of decimal digits.\<close>

definition str_int :: "string \<Rightarrow> int" where
  "str_int s = foldl (\<lambda>n c. 10 * n + int (digit_val c)) 0 s"

text \<open>Value of a digit in bases up to 16.\<close>

definition hex_val :: "char \<Rightarrow> nat option" where
  "hex_val c =
     (if is_digit c then Some (of_char c - 48)
      else if CHR ''a'' \<le> c \<and> c \<le> CHR ''f'' then Some (of_char c - 87)
      else if CHR ''A'' \<le> c \<and> c \<le> CHR ''F'' then Some (of_char c - 55)
      else None)"

fun base_val :: "nat \<Rightarrow> int \<Rightarrow> string \<Rightarrow> int option" where
  "base_val b acc [] = Some acc"
| "base_val b acc (c # cs) =
     (case hex_val c of
        Some d \<Rightarrow> if d < b then base_val b (int b * acc + int d) cs else None
      | None \<Rightarrow> None)"

definition prefixed :: "nat \<Rightarrow> string \<Rightarrow> jnum" where
  "prefixed b s = (if s = [] then NaN else
     case base_val b 0 s of Some n \<Rightarrow> to_double (of_int n) | None \<Rightarrow> NaN)"

text \<open>The exponent part: absent, or \<open>e\<close> with an optional sign and at least one digit.\<close>

definition exponent_part :: "string \<Rightarrow> int option" where
  "exponent_part s =
     (case s of
        [] \<Rightarrow> Some 0
      | c # cs \<Rightarrow>
          if c = CHR ''e'' \<or> c = CHR ''E'' then
            (let neg = (cs \<noteq> [] \<and> hd cs = CHR ''-'');
                 ds = (if cs \<noteq> [] \<and> (hd cs = CHR ''-'' \<or> hd cs = CHR ''+'') then tl cs else cs)
             in if ds \<noteq> [] \<and> list_all is_digit ds
                then Some (if neg then - str_int ds else str_int ds)
                else None)
          else None)"

definition unsigned_decimal :: "string \<Rightarrow> rat option" where
  "unsigned_decimal s =
     (let ip = takeWhile is_digit s;
          r1 = dropWhile is_digit s;
          dot = (r1 \<noteq> [] \<and> hd r1 = CHR ''.'');
          fp = (if dot then takeWhile is_digit (tl r1) else []);
          r2 = (if dot then dropWhile is_digit (tl r1) else r1)
      in if ip = [] \<and> fp = [] then None
         else map_option (\<lambda>e. of_int (str_int (ip @ fp)) * rat_pow 10 (e - int (length fp)))
                (exponent_part r2))"

definition str_decimal :: "string \<Rightarrow> jnum" where
  "str_decimal s =
     (let neg = (s \<noteq> [] \<and> hd s = CHR ''-'');
          t = (if s \<noteq> [] \<and> (hd s = CHR ''-'' \<or> hd s = CHR ''+'') then tl s else s)
      in if t = ''Infinity'' then (if neg then NInf else PInf)
         else case unsigned_decimal t of
                None \<Rightarrow> NaN
              | Some q \<Rightarrow> to_double (if neg then - q else q))"

definition js_Number :: "string \<Rightarrow> jnum" where
  "js_Number str =
     (let s = trim str in
      if s = [] then Fin 0
      else if startsWith s ''0x'' \<or> startsWith s ''0X'' then prefixed 16 (drop 2 s)
      else if startsWith s ''0o'' \<or> startsWith s ''0O'' then prefixed 8 (drop 2 s)
      else if startsWith s ''0b'' \<or> startsWith s ''0B'' then prefixed 2 (drop 2 s)
      else str_decimal s)"

section \<open>Decimal text of a number\<close>

text \<open>Decimal digits of a non-negative integer.\<close>

function dec_str :: "int \<Rightarrow> string" where
  "dec_str n = (if n < 10 then [digit_char (nat n)] else dec_str (n div 10) @ [digit_char (nat (n mod 10))])"
  by pat_completeness auto
termination
  by (relation "measure nat") auto

declare dec_str.simps [simp del]

definition int_str :: "int \<Rightarrow> string" where
  "int_str n = (if n < 0 then ''-'' @ dec_str (- n) else dec_str n)"

text \<open>
  Shortest digits that read back as the same double: the smallest \<open>k \<le> 17\<close> for which the
  nearest \<open>k\<close>-digit decimal \<open>s * 10\<^sup>n\<^sup>-\<^sup>k\<close> rounds to \<open>q\<close>, with the position \<open>n\<close> of the decimal
  point. Rounding up to a power of ten carries into the next position.
\<close>

definition carry :: "int \<Rightarrow> nat \<Rightarrow> int \<Rightarrow> int \<times> int" where
  "carry s k n = (if s = 10 ^ k then (1, n + 1) else (s, n))"

fun shortest_from :: "nat \<Rightarrow> nat \<Rightarrow> int \<Rightarrow> rat \<Rightarrow> int \<times> int" where
  "shortest_from 0 k n q = carry (round_half_even (q / rat_pow 10 (n - int k))) k n"
| "shortest_from (Suc fuel) k n q =
     (let s = round_half_even (q / rat_pow 10 (n - int k))
      in if to_double (of_int s * rat_pow 10 (n - int k)) = Fin q then carry s k n
         else shortest_from fuel (Suc k) n q)"

text \<open>Layout of the digits \<open>ds\<close> with the decimal point after position \<open>n\<close> (Number::toString).\<close>

definition layout :: "string \<Rightarrow> int \<Rightarrow> string" where
  "layout ds n =
     (let k = int (length ds) in
      if k \<le> n \<and> n \<le> 21 then ds @ replicate (nat (n - k)) CHR ''0''
      else if 0 < n \<and> n \<le> 21 then take (nat n) ds @ ''.'' @ drop (nat n) ds
      else if - 6 < n \<and> n \<le> 0 then ''0.'' @ replicate (nat (- n)) CHR ''0'' @ ds
      else (let e = n - 1; es = (if e < 0 then ''-'' else ''+'') @ dec_str \<bar>e\<bar>
            in if k = 1 then ds @ ''e'' @ es else take 1 ds @ ''.'' @ drop 1 ds @ ''e'' @ es))"

definition pos_str :: "rat \<Rightarrow> string" where
  "pos_str q =
     (let (s, n) = shortest_from 16 1 (floor_log 10 q + 1) q in layout (dec_str s) n)"

text \<open>Safe integers print their digits; the general rule gives the same for them.\<close>

definition num_str :: "jnum \<Rightarrow> string" where
  "num_str x =
     (case x of
        NaN \<Rightarrow> ''NaN''
      | PInf \<Rightarrow> ''Infinity''
      | NInf \<Rightarrow> ''-Infinity''
      | Fin q \<Rightarrow>
          if of_int \<lfloor>q\<rfloor> = q \<and> \<bar>q\<bar> \<le> 2 ^ 53 then int_str \<lfloor>q\<rfloor>
          else if q < 0 then ''-'' @ pos_str (- q) else pos_str q)"

section \<open>Counters print and read back exactly\<close>

lemma dec_str_int [simp]: "dec_str (int n) = nat_str n"
proof (induction n rule: nat_str.induct)
  case (1 n)
  show ?case
  proof (cases "n < 10")
    case True
    then show ?thesis by (simp add: dec_str.simps [of "int n"] nat_str.simps [of n])
  next
    case False
    with 1 have "dec_str (int (n div 10)) = nat_str (n div 10)" by simp
    with False show ?thesis
      by (simp add: dec_str.simps [of "int n"] nat_str.simps [of n] zdiv_int zmod_int nat_mod_distrib)
  qed
qed

lemma num_str_nat: "n \<le> 2 ^ 53 \<Longrightarrow> num_str (jint (int n)) = nat_str n"
proof -
  assume "n \<le> 2 ^ 53"
  then have "(of_nat n :: rat) \<le> of_nat (2 ^ 53)" by (rule of_nat_mono)
  then show ?thesis by (simp add: num_str_def int_str_def)
qed

end
