(* ===== verification/TaskImpl.thy ===== *)
theory TaskImpl
  imports PlanContext JsNumber
begin

text \<open>
  \<open>dsl/packages/generated/task-impl.ts\<close>: the validation helpers of that file and the
  implementation of each task. A task implementation checks its options, may add an entry to the
  expression or predicate table, and adds one node. The helpers repeat those of \<open>guards.ts\<close> with
  other messages, as the generated file does.
\<close>

section \<open>Validation helpers\<close>

definition isExprPlaceholder :: "jsval \<Rightarrow> bool" where
  "isExprPlaceholder v \<longleftrightarrow> v \<noteq> JNull \<and> typeof_js v = ''object'' \<and> hasp v ''__expr_id'' \<and>
     typeof_js (getp v ''__expr_id'') = ''number''"

definition isPredPlaceholder :: "jsval \<Rightarrow> bool" where
  "isPredPlaceholder v \<longleftrightarrow> v \<noteq> JNull \<and> typeof_js v = ''object'' \<and> hasp v ''__pred_id'' \<and>
     typeof_js (getp v ''__pred_id'') = ''number''"

definition ti_assertNotUndefined :: "jsval \<Rightarrow> string \<Rightarrow> check" where
  "ti_assertNotUndefined v name = (if v = JUndef then Inl (IsUndefined name) else Inr ())"

definition ti_assertInteger :: "jsval \<Rightarrow> string \<Rightarrow> check" where
  "ti_assertInteger v name =
     (case v of JNum x \<Rightarrow> if is_int_num x then Inr () else Inl (NotInteger name v)
      | _ \<Rightarrow> Inl (NotInteger name v))"

definition assertKeyToken :: "jsval \<Rightarrow> string \<Rightarrow> check" where
  "assertKeyToken v name =
     (if v = JNull \<or> typeof_js v \<noteq> ''object'' then Inl (NotKeyToken name v)
      else case getp v ''id'' of
        JNum x \<Rightarrow> if is_int_num x then Inr () else Inl (NotInteger (name @ ''.id'') (getp v ''id''))
      | _ \<Rightarrow> Inl (NotInteger (name @ ''.id'') (getp v ''id'')))"

definition ti_assertStringOrNull :: "jsval \<Rightarrow> string \<Rightarrow> check" where
  "ti_assertStringOrNull v name =
     (if v \<noteq> JNull \<and> typeof_js v \<noteq> ''string'' then Inl (NotStringOrNull name (typeof_js v)) else Inr ())"

definition assertExprInput :: "jsval \<Rightarrow> string \<Rightarrow> check" where
  "assertExprInput v name =
     (if v = JNull \<or> typeof_js v \<noteq> ''object'' then Inl (NotExprInput name v)
      else if typeof_js (getp v ''__expr_id'') \<noteq> ''number'' \<and> typeof_js (getp v ''op'') \<noteq> ''string''
      then Inl (NotExprInput name v)
      else Inr ())"

definition assertPredInput :: "jsval \<Rightarrow> string \<Rightarrow> check" where
  "assertPredInput v name =
     (if v = JNull \<or> typeof_js v \<noteq> ''object'' then Inl (NotPredInput name v)
      else if typeof_js (getp v ''__pred_id'') \<noteq> ''number'' \<and> typeof_js (getp v ''op'') \<noteq> ''string''
      then Inl (NotPredInput name v)
      else Inr ())"

definition assertCandidateSet :: "jsval \<Rightarrow> string \<Rightarrow> check" where
  "assertCandidateSet v name =
     (if v = JNull \<or> typeof_js v \<noteq> ''object'' then Inl (NotCandidateSet name v)
      else if typeof_js (getp v ''getNodeId'') \<noteq> ''function'' then Inl (NotCandidateSet name v)
      else Inr ())"

function (sequential) ti_checkNoUndefined :: "(string \<times> jsval) list \<Rightarrow> string \<Rightarrow> check" where
  "ti_checkNoUndefined [] context' = Inr ()"
| "ti_checkNoUndefined ((k, v) # kvs) context' =
     (if v = JUndef then Inl (IsUndefined (context' @ ''.'' @ k))
      else bindR (case v of JObj kvs' \<Rightarrow> ti_checkNoUndefined kvs' (context' @ ''.'' @ k) | _ \<Rightarrow> Inr ()) (\<lambda>_.
           ti_checkNoUndefined kvs context'))"
  by pat_completeness auto
termination
  by (relation "measure (\<lambda>(kvs, _). size_list (size_prod (\<lambda>_. 0) size) kvs)") auto

definition ti_assertEndpointId :: "jsval \<Rightarrow> string \<Rightarrow> check" where
  "ti_assertEndpointId v name =
     (case v of
        JStr s \<Rightarrow> if \<not> startsWith s ''ep_'' then Inl (EndpointPrefix name s)
                  else if length s > 64 then Inl (EndpointTooLong name (length s))
                  else Inr ()
      | _ \<Rightarrow> Inl (EndpointNotString name (typeof_js v)))"

section \<open>Shared steps of the implementations\<close>

text \<open>\<open>const { extensions, ...rest } = opts\<close>.\<close>

definition split_opts :: "jsval \<Rightarrow> (dsl_error, jsval \<times> (string \<times> jsval) list) res" where
  "split_opts opts =
     (if opts = JUndef \<or> opts = JNull then Inl TypeError
      else Inr (getp opts ''extensions'', filter (\<lambda>(k, _). k \<noteq> ''extensions'') (own_entries opts)))"

text \<open>\<open>if (opts.trace !== undefined) assertStringOrNull(opts.trace, name)\<close>.\<close>

definition checkTrace :: "jsval \<Rightarrow> string \<Rightarrow> check" where
  "checkTrace opts name =
     (if getp opts ''trace'' \<noteq> JUndef then ti_assertStringOrNull (getp opts ''trace'') name else Inr ())"

text \<open>\<open>opts.trace ?? null\<close>.\<close>

definition trace_param :: "jsval \<Rightarrow> string \<times> jsval" where
  "trace_param opts = (''trace'', nullish (getp opts ''trace'') JNull)"

text \<open>
  The steps every implementation shares after its own checks: split off the extensions, reject
  \<open>undefined\<close> in the rest, validate the trace. The result is the extensions value.
\<close>

definition finish_opts :: "string \<Rightarrow> jsval \<Rightarrow> (dsl_error, jsval) res" where
  "finish_opts task opts =
     bindR (split_opts opts) (\<lambda>(extensions, rest).
     bindR (ti_checkNoUndefined rest (task @ ''(opts)'')) (\<lambda>_.
     bindR (checkTrace opts (task @ ''({ trace })'')) (\<lambda>_.
     Inr extensions)))"

text \<open>Checks that throw leave the context as it was.\<close>

definition guarded :: "(dsl_error, 'a) res \<Rightarrow> ('a \<Rightarrow> 'b plan_m) \<Rightarrow> 'b plan_m" where
  "guarded r k ctx = (case r of Inl e \<Rightarrow> (Inl e, ctx) | Inr x \<Rightarrow> k x ctx)"

text \<open>\<open>opts.rhs.getNodeId()\<close> of a candidate set; an object literal that imitates one with a
  \<open>getNodeId\<close> of its own is outside the model.\<close>

definition call_getNodeId :: "jsval \<Rightarrow> jsval" where
  "call_getNodeId v = (case v of JCand c n \<Rightarrow> JStr n | _ \<Rightarrow> JUndef)"

section \<open>Source tasks\<close>

definition viewerImpl :: "jsval \<Rightarrow> string plan_m" where
  "viewerImpl opts =
     guarded
       (bindR (ti_assertNotUndefined opts ''viewer(opts)'') (\<lambda>_.
        bindR (getP opts ''endpoint'') (\<lambda>endpoint.
        bindR (ti_assertNotUndefined endpoint ''viewer({ endpoint })'') (\<lambda>_.
        bindR (ti_assertEndpointId endpoint ''viewer({ endpoint })'') (\<lambda>_.
        bindR (finish_opts ''viewer'' opts) (\<lambda>extensions.
        Inr ([(''endpoint'', endpoint), trace_param opts], extensions)))))))
       (\<lambda>(params, extensions). addNode ''core::viewer'' [] params extensions)"

definition fixedSourceImpl :: "jsval \<Rightarrow> string plan_m" where
  "fixedSourceImpl opts =
     guarded
       (bindR (ti_assertNotUndefined opts ''fixedSource(opts)'') (\<lambda>_.
        bindR (finish_opts ''fixedSource'' opts) (\<lambda>extensions.
        Inr ([(''row_count'', getp opts ''rowCount''), trace_param opts], extensions))))
       (\<lambda>(params, extensions). addNode ''test::fixed_source'' [] params extensions)"

section \<open>Transform tasks\<close>

definition concatImpl :: "string \<Rightarrow> jsval \<Rightarrow> string plan_m" where
  "concatImpl inputNodeId opts =
     guarded
       (bindR (ti_assertNotUndefined opts ''concat(opts)'') (\<lambda>_.
        bindR (getP opts ''rhs'') (\<lambda>rhs.
        bindR (ti_assertNotUndefined rhs ''concat({ rhs })'') (\<lambda>_.
        bindR (assertCandidateSet rhs ''concat({ rhs })'') (\<lambda>_.
        bindR (finish_opts ''concat'' opts) (\<lambda>extensions.
        Inr ([(''rhs'', call_getNodeId rhs), trace_param opts], extensions)))))))
       (\<lambda>(params, extensions). addNode ''core::concat'' [inputNodeId] params extensions)"

definition filterImpl :: "string \<Rightarrow> jsval \<Rightarrow> string plan_m" where
  "filterImpl inputNodeId opts =
     guarded
       (bindR (ti_assertNotUndefined opts ''filter(opts)'') (\<lambda>_.
        bindR (getP opts ''pred'') (\<lambda>pred.
        bindR (ti_assertNotUndefined pred ''filter({ pred })'') (\<lambda>_.
        bindR (finish_opts ''filter'' opts) (\<lambda>extensions.
        bindR (assertPredInput pred ''filter({ pred })'') (\<lambda>_.
        Inr (pred, extensions)))))))
       (\<lambda>(pred, extensions) ctx.
          let (predId, ctx1) =
                (case getp pred ''__pred_id'' of
                   JNum i \<Rightarrow> if isPredPlaceholder pred then (''__static_p'' @ num_str i, ctx) else addPred pred ctx
                 | _ \<Rightarrow> addPred pred ctx)
          in addNode ''core::filter'' [inputNodeId] [(''pred_id'', JStr predId), trace_param opts] extensions ctx1)"

definition followImpl :: "string \<Rightarrow> jsval \<Rightarrow> string plan_m" where
  "followImpl inputNodeId opts =
     guarded
       (bindR (ti_assertNotUndefined opts ''follow(opts)'') (\<lambda>_.
        bindR (getP opts ''endpoint'') (\<lambda>endpoint.
        bindR (ti_assertNotUndefined endpoint ''follow({ endpoint })'') (\<lambda>_.
        bindR (ti_assertEndpointId endpoint ''follow({ endpoint })'') (\<lambda>_.
        bindR (getP opts ''fanout'') (\<lambda>fanout.
        bindR (ti_assertNotUndefined fanout ''follow({ fanout })'') (\<lambda>_.
        bindR (ti_assertInteger fanout ''follow({ fanout })'') (\<lambda>_.
        bindR (finish_opts ''follow'' opts) (\<lambda>extensions.
        Inr ([(''endpoint'', endpoint), (''fanout'', fanout), trace_param opts], extensions))))))))))
       (\<lambda>(params, extensions). addNode ''core::follow'' [inputNodeId] params extensions)"

definition mediaImpl :: "string \<Rightarrow> jsval \<Rightarrow> string plan_m" where
  "mediaImpl inputNodeId opts =
     guarded
       (bindR (ti_assertNotUndefined opts ''media(opts)'') (\<lambda>_.
        bindR (getP opts ''endpoint'') (\<lambda>endpoint.
        bindR (ti_assertNotUndefined endpoint ''media({ endpoint })'') (\<lambda>_.
        bindR (ti_assertEndpointId endpoint ''media({ endpoint })'') (\<lambda>_.
        bindR (getP opts ''fanout'') (\<lambda>fanout.
        bindR (ti_assertNotUndefined fanout ''media({ fanout })'') (\<lambda>_.
        bindR (ti_assertInteger fanout ''media({ fanout })'') (\<lambda>_.
        bindR (finish_opts ''media'' opts) (\<lambda>extensions.
        Inr ([(''endpoint'', endpoint), (''fanout'', fanout), trace_param opts], extensions))))))))))
       (\<lambda>(params, extensions). addNode ''core::media'' [inputNodeId] params extensions)"

definition recommendationImpl :: "string \<Rightarrow> jsval \<Rightarrow> string plan_m" where
  "recommendationImpl inputNodeId opts =
     guarded
       (bindR (ti_assertNotUndefined opts ''recommendation(opts)'') (\<lambda>_.
        bindR (getP opts ''endpoint'') (\<lambda>endpoint.
        bindR (ti_assertNotUndefined endpoint ''recommendation({ endpoint })'') (\<lambda>_.
        bindR (ti_assertEndpointId endpoint ''recommendation({ endpoint })'') (\<lambda>_.
        bindR (getP opts ''fanout'') (\<lambda>fanout.
        bindR (ti_assertNotUndefined fanout ''recommendation({ fanout })'') (\<lambda>_.
        bindR (ti_assertInteger fanout ''recommendation({ fanout })'') (\<lambda>_.
        bindR (finish_opts ''recommendation'' opts) (\<lambda>extensions.
        Inr ([(''endpoint'', endpoint), (''fanout'', fanout), trace_param opts], extensions))))))))))
       (\<lambda>(params, extensions). addNode ''core::recommendation'' [inputNodeId] params extensions)"

definition sortImpl :: "string \<Rightarrow> jsval \<Rightarrow> string plan_m" where
  "sortImpl inputNodeId opts =
     guarded
       (bindR (ti_assertNotUndefined opts ''sort(opts)'') (\<lambda>_.
        bindR (getP opts ''by'') (\<lambda>by'.
        bindR (ti_assertNotUndefined by' ''sort({ by })'') (\<lambda>_.
        bindR (assertKeyToken by' ''sort({ by })'') (\<lambda>_.
        bindR (finish_opts ''sort'' opts) (\<lambda>extensions.
        Inr ([(''by'', getp by' ''id''), (''order'', getp opts ''order''), trace_param opts], extensions)))))))
       (\<lambda>(params, extensions). addNode ''core::sort'' [inputNodeId] params extensions)"

definition takeImpl :: "string \<Rightarrow> jsval \<Rightarrow> string plan_m" where
  "takeImpl inputNodeId opts =
     guarded
       (bindR (ti_assertNotUndefined opts ''take(opts)'') (\<lambda>_.
        bindR (getP opts ''count'') (\<lambda>count.
        bindR (ti_assertNotUndefined count ''take({ count })'') (\<lambda>_.
        bindR (ti_assertInteger count ''take({ count })'') (\<lambda>_.
        bindR (finish_opts ''take'' opts) (\<lambda>extensions.
        Inr ([(''count'', count), trace_param opts], extensions)))))))
       (\<lambda>(params, extensions). addNode ''core::take'' [inputNodeId] params extensions)"

definition vmImpl :: "string \<Rightarrow> jsval \<Rightarrow> string plan_m" where
  "vmImpl inputNodeId opts =
     guarded
       (bindR (ti_assertNotUndefined opts ''vm(opts)'') (\<lambda>_.
        bindR (getP opts ''expr'') (\<lambda>expr.
        bindR (ti_assertNotUndefined expr ''vm({ expr })'') (\<lambda>_.
        bindR (getP opts ''outKey'') (\<lambda>outKey.
        bindR (ti_assertNotUndefined outKey ''vm({ outKey })'') (\<lambda>_.
        bindR (assertKeyToken outKey ''vm({ outKey })'') (\<lambda>_.
        bindR (finish_opts ''vm'' opts) (\<lambda>extensions.
        bindR (assertExprInput expr ''vm({ expr })'') (\<lambda>_.
        Inr (expr, getp outKey ''id'', extensions))))))))))
       (\<lambda>(expr, outKeyId, extensions) ctx.
          let (exprId, ctx1) =
                (case getp expr ''__expr_id'' of
                   JNum i \<Rightarrow> if isExprPlaceholder expr then (''__static_e'' @ num_str i, ctx) else addExpr expr ctx
                 | _ \<Rightarrow> addExpr expr ctx)
          in addNode ''core::vm'' [inputNodeId]
               [(''expr_id'', JStr exprId), (''out_key'', outKeyId), trace_param opts] extensions ctx1)"

definition busyCpuImpl :: "string \<Rightarrow> jsval \<Rightarrow> string plan_m" where
  "busyCpuImpl inputNodeId opts =
     guarded
       (bindR (ti_assertNotUndefined opts ''busyCpu(opts)'') (\<lambda>_.
        bindR (getP opts ''busyWaitMs'') (\<lambda>busyWaitMs.
        bindR (ti_assertNotUndefined busyWaitMs ''busyCpu({ busyWaitMs })'') (\<lambda>_.
        bindR (ti_assertInteger busyWaitMs ''busyCpu({ busyWaitMs })'') (\<lambda>_.
        bindR (finish_opts ''busyCpu'' opts) (\<lambda>extensions.
        Inr ([(''busy_wait_ms'', busyWaitMs), trace_param opts], extensions)))))))
       (\<lambda>(params, extensions). addNode ''test::busy_cpu'' [inputNodeId] params extensions)"

definition sleepImpl :: "string \<Rightarrow> jsval \<Rightarrow> string plan_m" where
  "sleepImpl inputNodeId opts =
     guarded
       (bindR (ti_assertNotUndefined opts ''sleep(opts)'') (\<lambda>_.
        bindR (getP opts ''durationMs'') (\<lambda>durationMs.
        bindR (ti_assertNotUndefined durationMs ''sleep({ durationMs })'') (\<lambda>_.
        bindR (ti_assertInteger durationMs ''sleep({ durationMs })'') (\<lambda>_.
        bindR (finish_opts ''sleep'' opts) (\<lambda>extensions.
        Inr ([(''duration_ms'', durationMs), (''fail_after_sleep'', getp opts ''failAfterSleep''),
              trace_param opts], extensions)))))))
       (\<lambda>(params, extensions). addNode ''test::sleep'' [inputNodeId] params extensions)"

text \<open>\<open>GENERATED_TASKS\<close>.\<close>

definition GENERATED_TASKS :: "(string \<times> string list) list" where
  "GENERATED_TASKS =
     [(''source'', [''viewer'', ''fixedSource'']),
      (''core'', [''concat'', ''filter'', ''follow'', ''media'', ''recommendation'', ''sort'', ''take'', ''vm'']),
      (''test'', [''busyCpu'', ''sleep''])]"

end
