(* ===== verification/TaskContract.thy ===== *)
theory TaskContract
  imports TaskImpl
begin

text \<open>
  The contract between task implementations and the plan builder, as a locale interpreted on
  every implementation of \<open>task-impl.ts\<close>, and the invariant of a plan context that the contract
  keeps: fresh ids, numbered tables, references to earlier nodes only.
\<close>

section \<open>The invariant of a plan context\<close>

text \<open>The references a node makes: its inputs and the \<open>rhs\<close> parameter of \<open>concat\<close>.\<close>

definition rhs_refs :: "(string \<times> jsval) list \<Rightarrow> string list" where
  "rhs_refs params = concat (map (\<lambda>(k, v). if k = ''rhs'' then (case v of JStr s \<Rightarrow> [s] | _ \<Rightarrow> []) else []) params)"

lemma rhs_refs_Cons:
  "rhs_refs ((k, v) # ps) = (if k = ''rhs'' then (case v of JStr s \<Rightarrow> [s] | _ \<Rightarrow> []) else []) @ rhs_refs ps"
  by (simp only: rhs_refs_def list.map concat.simps split)

definition node_refs :: "plan_node \<Rightarrow> string list" where
  "node_refs n = node_inputs n @ rhs_refs (node_params n)"

text \<open>Topological order: every reference is to a node listed before.\<close>

fun topo_from :: "string set \<Rightarrow> plan_node list \<Rightarrow> bool" where
  "topo_from seen [] \<longleftrightarrow> True"
| "topo_from seen (n # ns) \<longleftrightarrow> set (node_refs n) \<subseteq> seen \<and> topo_from (insert (node_id n) seen) ns"

definition ids :: "plan_ctx \<Rightarrow> string set" where
  "ids ctx = node_id ` set (ctx_nodes ctx)"

definition static_e :: string where "static_e = ''__static_e''"
definition static_p :: string where "static_p = ''__static_p''"

text \<open>
  Table references of a node: \<open>expr_id\<close> and \<open>pred_id\<close> name a table entry or carry the prefix of
  a compile-time placeholder.
\<close>

definition table_refs_ok :: "(string \<times> jsval) list \<Rightarrow> (string \<times> jsval) list \<Rightarrow> (string \<times> jsval) list \<Rightarrow> bool" where
  "table_refs_ok et pt params \<longleftrightarrow>
     (\<forall>v. (''expr_id'', v) \<in> set params \<longrightarrow>
        (\<exists>s. v = JStr s \<and> (s \<in> fst ` set et \<or> startsWith s static_e))) \<and>
     (\<forall>v. (''pred_id'', v) \<in> set params \<longrightarrow>
        (\<exists>s. v = JStr s \<and> (s \<in> fst ` set pt \<or> startsWith s static_p)))"

definition tables_numbered :: "plan_ctx \<Rightarrow> bool" where
  "tables_numbered ctx \<longleftrightarrow> numbered expr_name (exprTable ctx) \<and> numbered pred_name (predTable ctx)"

definition ids_increasing :: "plan_ctx \<Rightarrow> bool" where
  "ids_increasing ctx \<longleftrightarrow> (\<exists>ks. sorted_wrt (<) ks \<and> (\<forall>k \<in> set ks. k < nodeCounter ctx) \<and>
     map node_id (ctx_nodes ctx) = map node_name ks)"

definition caps_consistent :: "plan_ctx \<Rightarrow> bool" where
  "caps_consistent ctx \<longleftrightarrow> distinct (capabilitiesRequired ctx) \<and>
     fst ` set (planExtensions ctx) \<subseteq> set (capabilitiesRequired ctx) \<and> distinct (map fst (planExtensions ctx))"

definition plan_inv :: "plan_ctx \<Rightarrow> bool" where
  "plan_inv ctx \<longleftrightarrow> tables_numbered ctx \<and> ids_increasing ctx \<and> topo_from {} (ctx_nodes ctx) \<and>
     (\<forall>n \<in> set (ctx_nodes ctx). table_refs_ok (exprTable ctx) (predTable ctx) (node_params n) \<and>
        node_extensions n \<noteq> Some JUndef) \<and>
     caps_consistent ctx"

lemma topo_from_snoc:
  "topo_from seen (ns @ [n]) \<longleftrightarrow> topo_from seen ns \<and> set (node_refs n) \<subseteq> seen \<union> node_id ` set ns"
  by (induction ns arbitrary: seen) auto

lemma table_refs_ok_mono:
  "table_refs_ok et pt params \<Longrightarrow> table_refs_ok (et @ et') (pt @ pt') params"
  unfolding table_refs_ok_def by (auto simp: image_Un) metis+

lemma plan_inv_new: "plan_inv (new_PlanCtx c)"
  by (simp add: plan_inv_def new_PlanCtx_def tables_numbered_def numbered_def ids_increasing_def caps_consistent_def)

lemma ids_increasing_distinct: "ids_increasing ctx \<Longrightarrow> distinct (map node_id (ctx_nodes ctx))"
proof -
  assume "ids_increasing ctx"
  then obtain ks where "sorted_wrt (<) ks" "map node_id (ctx_nodes ctx) = map node_name ks"
    by (auto simp: ids_increasing_def)
  moreover from this have "distinct (map node_name ks)"
    by (auto simp: distinct_map strict_sorted_iff inj_on_def)
  ultimately show ?thesis by metis
qed

lemma ids_increasing_snoc:
  assumes "ids_increasing ctx" and "node_id n = node_name (nodeCounter ctx)"
  shows "ids_increasing (ctx\<lparr>nodeCounter := Suc (nodeCounter ctx), ctx_nodes := ctx_nodes ctx @ [n]\<rparr>)"
proof -
  from assms(1) obtain ks where ks: "sorted_wrt (<) ks" "\<forall>k \<in> set ks. k < nodeCounter ctx"
    "map node_id (ctx_nodes ctx) = map node_name ks"
    by (auto simp: ids_increasing_def)
  then have "sorted_wrt (<) (ks @ [nodeCounter ctx])" "\<forall>k \<in> set (ks @ [nodeCounter ctx]). k < Suc (nodeCounter ctx)"
    "map node_id (ctx_nodes ctx @ [n]) = map node_name (ks @ [nodeCounter ctx])"
    using assms(2) by (auto simp: sorted_wrt_append less_Suc_eq)
  then show ?thesis unfolding ids_increasing_def by (intro exI [of _ "ks @ [nodeCounter ctx]"]) simp
qed

lemma ids_increasing_counter:
  assumes "ids_increasing ctx" and "nodeCounter ctx \<le> k"
  shows "ids_increasing (ctx\<lparr>nodeCounter := k\<rparr>)"
proof -
  from assms(1) obtain ks where "sorted_wrt (<) ks" "\<forall>k \<in> set ks. k < nodeCounter ctx"
    "map node_id (ctx_nodes ctx) = map node_name ks"
    by (auto simp: ids_increasing_def)
  with assms(2) show ?thesis unfolding ids_increasing_def by (intro exI [of _ ks]) auto
qed

section \<open>The contract of a task implementation\<close>

text \<open>The context with entries appended to its tables.\<close>

definition with_tables :: "(string \<times> jsval) list \<Rightarrow> (string \<times> jsval) list \<Rightarrow> plan_ctx \<Rightarrow> plan_ctx" where
  "with_tables et pt ctx = ctx\<lparr>exprTable := exprTable ctx @ et, predTable := predTable ctx @ pt\<rparr>"

text \<open>
  What a task may do to a context. It may extend the tables; it appends at most one node, under
  the next id, with the given operator and inputs and with \<open>rhs\<close> references in \<open>R\<close>; when it
  throws, the nodes are untouched.
\<close>

inductive task_post ::
  "string \<Rightarrow> string list \<Rightarrow> string set \<Rightarrow> plan_ctx \<Rightarrow> (dsl_error, string) res \<Rightarrow> plan_ctx \<Rightarrow> bool"
  for op ins R ctx where
  thrown: "tables_numbered (with_tables et pt ctx) \<Longrightarrow> nodeCounter ctx \<le> k \<Longrightarrow>
    task_post op ins R ctx (Inl e) (with_tables et pt ctx\<lparr>nodeCounter := k\<rparr>)"
| added: "tables_numbered (with_tables et pt ctx) \<Longrightarrow> x \<noteq> Some JUndef \<Longrightarrow> set (rhs_refs params) \<subseteq> R \<Longrightarrow>
    table_refs_ok (exprTable ctx @ et) (predTable ctx @ pt) params \<Longrightarrow>
    task_post op ins R ctx (Inr (node_name (nodeCounter ctx)))
      (with_tables et pt ctx\<lparr>nodeCounter := Suc (nodeCounter ctx),
         ctx_nodes := ctx_nodes ctx @ [\<lparr>node_id = node_name (nodeCounter ctx), node_op = op,
           node_inputs = ins, node_params = params, node_extensions = x\<rparr>]\<rparr>)"

inductive_cases task_post_InlE: "task_post op ins R ctx (Inl e) ctx'"
inductive_cases task_post_InrE: "task_post op ins R ctx (Inr nid) ctx'"

lemma with_tables_simps [simp]:
  "ctx_id (with_tables et pt ctx) = ctx_id ctx"
  "nodeCounter (with_tables et pt ctx) = nodeCounter ctx"
  "ctx_nodes (with_tables et pt ctx) = ctx_nodes ctx"
  "exprTable (with_tables et pt ctx) = exprTable ctx @ et"
  "predTable (with_tables et pt ctx) = predTable ctx @ pt"
  "capabilitiesRequired (with_tables et pt ctx) = capabilitiesRequired ctx"
  "planExtensions (with_tables et pt ctx) = planExtensions ctx"
  by (simp_all add: with_tables_def)

lemma with_tables_Nil [simp]: "with_tables [] [] ctx = ctx"
  by (simp add: with_tables_def)

lemma with_tables_with_tables [simp]:
  "with_tables et' pt' (with_tables et pt ctx) = with_tables (et @ et') (pt @ pt') ctx"
  by (simp add: with_tables_def)

lemma plan_inv_with_tables:
  "plan_inv ctx \<Longrightarrow> tables_numbered (with_tables et pt ctx) \<Longrightarrow> plan_inv (with_tables et pt ctx)"
  by (auto simp: plan_inv_def ids_increasing_def caps_consistent_def intro: table_refs_ok_mono)

lemma plan_inv_counter: "plan_inv ctx \<Longrightarrow> nodeCounter ctx \<le> k \<Longrightarrow> plan_inv (ctx\<lparr>nodeCounter := k\<rparr>)"
  using ids_increasing_counter [of ctx k]
  by (simp add: plan_inv_def tables_numbered_def caps_consistent_def)

lemma plan_inv_snoc:
  assumes "plan_inv ctx" and "node_id n = node_name (nodeCounter ctx)" and "node_extensions n \<noteq> Some JUndef"
    and "set (node_refs n) \<subseteq> ids ctx" and "table_refs_ok (exprTable ctx) (predTable ctx) (node_params n)"
  shows "plan_inv (ctx\<lparr>nodeCounter := Suc (nodeCounter ctx), ctx_nodes := ctx_nodes ctx @ [n]\<rparr>)"
  using assms ids_increasing_snoc [of ctx n]
  by (simp add: plan_inv_def tables_numbered_def caps_consistent_def topo_from_snoc ids_def)

locale task_impl =
  fixes impl :: "string plan_m"
    and op :: string
    and ins :: "string list"
    and R :: "string set"
  assumes contract: "tables_numbered ctx \<Longrightarrow> impl ctx = (r, ctx') \<Longrightarrow> task_post op ins R ctx r ctx'"
begin

lemma impl_inv:
  assumes inv: "plan_inv ctx" and ins: "set ins \<subseteq> ids ctx" and R: "R \<subseteq> ids ctx" and run: "impl ctx = (r, ctx')"
  shows "plan_inv ctx'"
proof -
  from inv have "tables_numbered ctx" by (simp add: plan_inv_def)
  from contract [OF this run] show ?thesis
  proof cases
    case (thrown et pt k e)
    with inv show ?thesis by (simp add: plan_inv_counter plan_inv_with_tables)
  next
    case (added et pt x params)
    let ?n = "\<lparr>node_id = node_name (nodeCounter ctx), node_op = op,
           node_inputs = ins, node_params = params, node_extensions = x\<rparr>"
    from added inv ins R show ?thesis
      using plan_inv_snoc [OF plan_inv_with_tables [OF inv], of et pt ?n]
      by (auto simp: node_refs_def ids_def)
  qed
qed

lemma impl_frame:
  assumes "tables_numbered ctx" and "impl ctx = (r, ctx')"
  shows "ctx_id ctx' = ctx_id ctx" "ids ctx \<subseteq> ids ctx'" "\<And>nid. r = Inr nid \<Longrightarrow> nid \<in> ids ctx'"
    "capabilitiesRequired ctx' = capabilitiesRequired ctx" "planExtensions ctx' = planExtensions ctx"
  using contract [OF assms] by (auto simp: ids_def elim!: task_post.cases)

lemma impl_throw: "tables_numbered ctx \<Longrightarrow> impl ctx = (Inl e, ctx') \<Longrightarrow> ctx_nodes ctx' = ctx_nodes ctx"
  using contract [of ctx "Inl e" ctx'] by (auto elim!: task_post_InlE)

lemma impl_adds:
  assumes "tables_numbered ctx" and "impl ctx = (Inr nid, ctx')"
  shows "\<exists>n. ctx_nodes ctx' = ctx_nodes ctx @ [n] \<and> node_id n = nid \<and> node_op n = op \<and> node_inputs n = ins"
  using contract [OF assms] by (auto elim!: task_post_InrE)

end

section \<open>Every implementation satisfies the contract\<close>

lemma addNode_post:
  assumes "tables_numbered ctx" and "addNode op ins params ext ctx = (r, ctx')"
    and "set (rhs_refs params) \<subseteq> R" and "table_refs_ok (exprTable ctx) (predTable ctx) params"
  shows "task_post op ins R ctx r ctx'"
  using assms(2)
proof (cases rule: addNode_cases)
  case (added x)
  then show ?thesis
    using assms task_post.added [of "[]" "[]" ctx x params R op ins] by auto
next
  case (failed e)
  then show ?thesis
    using assms task_post.thrown [of "[]" "[]" ctx "Suc (nodeCounter ctx)" op ins R e] by simp
qed

lemma guarded_post:
  assumes "\<And>x. r0 = Inr x \<Longrightarrow> k x ctx = (r, ctx') \<Longrightarrow> task_post op ins R ctx r ctx'"
    and "tables_numbered ctx" and "guarded r0 k ctx = (r, ctx')"
  shows "task_post op ins R ctx r ctx'"
proof (cases r0)
  case (Inl e)
  with assms show ?thesis
    using task_post.thrown [of "[]" "[]" ctx "nodeCounter ctx" op ins R e] by (simp add: guarded_def)
next
  case (Inr x)
  with assms show ?thesis by (simp add: guarded_def)
qed

text \<open>A table entry added first, then the node.\<close>

lemma task_post_extend:
  assumes "task_post op ins R (with_tables et pt ctx) r ctx'"
  shows "task_post op ins R ctx r ctx'"
  using assms
proof cases
  case (thrown et' pt' k e)
  then show ?thesis using task_post.thrown [of "et @ et'" "pt @ pt'" ctx k] by simp
next
  case (added et' pt' x params)
  then show ?thesis using task_post.added [of "et @ et'" "pt @ pt'" ctx x params R op ins] by simp
qed

text \<open>Parameters without \<open>rhs\<close>, \<open>expr_id\<close> and \<open>pred_id\<close> refer to nothing.\<close>

definition plain_params :: "(string \<times> jsval) list \<Rightarrow> bool" where
  "plain_params params \<longleftrightarrow> ''rhs'' \<notin> fst ` set params \<and> ''expr_id'' \<notin> fst ` set params \<and> ''pred_id'' \<notin> fst ` set params"

lemma plain_params_refs: "plain_params params \<Longrightarrow> rhs_refs params = []"
  by (induction params) (auto simp: plain_params_def rhs_refs_def)

lemma plain_params_tables: "plain_params params \<Longrightarrow> table_refs_ok et pt params"
  unfolding plain_params_def table_refs_ok_def by (metis fst_conv image_eqI)

lemma simple_task_contract:
  assumes "\<And>params ext. checks = Inr (params, ext) \<Longrightarrow> plain_params params"
  shows "task_impl (guarded checks (\<lambda>(params, ext). addNode op ins params ext)) op ins {}"
proof
  fix ctx r ctx'
  assume tn: "tables_numbered ctx"
    and run: "guarded checks (\<lambda>(params, ext). addNode op ins params ext) ctx = (r, ctx')"
  show "task_post op ins {} ctx r ctx'"
    by (rule guarded_post [OF _ tn run])
      (auto intro!: addNode_post [OF tn] simp: plain_params_refs plain_params_tables assms)
qed

lemmas task_simps = bindR_Inr_iff plain_params_def trace_param_def

interpretation viewer_task: task_impl "viewerImpl opts" "''core::viewer''" "[]" "{}" for opts
  unfolding viewerImpl_def by (rule simple_task_contract) (auto simp: task_simps)

interpretation fixedSource_task: task_impl "fixedSourceImpl opts" "''test::fixed_source''" "[]" "{}" for opts
  unfolding fixedSourceImpl_def by (rule simple_task_contract) (auto simp: task_simps)

interpretation follow_task: task_impl "followImpl h opts" "''core::follow''" "[h]" "{}" for h opts
  unfolding followImpl_def by (rule simple_task_contract) (auto simp: task_simps)

interpretation media_task: task_impl "mediaImpl h opts" "''core::media''" "[h]" "{}" for h opts
  unfolding mediaImpl_def by (rule simple_task_contract) (auto simp: task_simps)

interpretation recommendation_task: task_impl "recommendationImpl h opts" "''core::recommendation''" "[h]" "{}" for h opts
  unfolding recommendationImpl_def by (rule simple_task_contract) (auto simp: task_simps)

interpretation sort_task: task_impl "sortImpl h opts" "''core::sort''" "[h]" "{}" for h opts
  unfolding sortImpl_def by (rule simple_task_contract) (auto simp: task_simps)

interpretation take_task: task_impl "takeImpl h opts" "''core::take''" "[h]" "{}" for h opts
  unfolding takeImpl_def by (rule simple_task_contract) (auto simp: task_simps)

interpretation busyCpu_task: task_impl "busyCpuImpl h opts" "''test::busy_cpu''" "[h]" "{}" for h opts
  unfolding busyCpuImpl_def by (rule simple_task_contract) (auto simp: task_simps)

interpretation sleep_task: task_impl "sleepImpl h opts" "''test::sleep''" "[h]" "{}" for h opts
  unfolding sleepImpl_def by (rule simple_task_contract) (auto simp: task_simps)

text \<open>The \<open>rhs\<close> of a \<open>concat\<close>: the node of the candidate set that is passed.\<close>

definition rhs_nodes :: "jsval \<Rightarrow> string set" where
  "rhs_nodes opts = (case getp opts ''rhs'' of JCand c n \<Rightarrow> {n} | _ \<Rightarrow> {})"

lemma rhs_refs_concat: "set (rhs_refs [(''rhs'', call_getNodeId (getp opts ''rhs'')), trace_param opts]) \<subseteq> rhs_nodes opts"
  by (simp add: rhs_refs_def trace_param_def call_getNodeId_def rhs_nodes_def split: jsval.splits)

interpretation concat_task: task_impl "concatImpl h opts" "''core::concat''" "[h]" "rhs_nodes opts" for h opts
proof
  fix ctx r ctx'
  assume tn: "tables_numbered ctx" and run: "concatImpl h opts ctx = (r, ctx')"
  have tables: "table_refs_ok (exprTable ctx) (predTable ctx)
      [(''rhs'', call_getNodeId (getp opts ''rhs'')), trace_param opts]"
    by (simp add: table_refs_ok_def trace_param_def)
  show "task_post ''core::concat'' [h] (rhs_nodes opts) ctx r ctx'"
    by (rule guarded_post [OF _ tn run [unfolded concatImpl_def]])
      (clarsimp simp: bindR_Inr_iff getP_Inr_iff, rule addNode_post [OF tn _ rhs_refs_concat tables])
qed

text \<open>A table entry (or a placeholder) first, then the node that refers to it.\<close>

lemma pred_entry:
  assumes tn: "tables_numbered ctx"
    and entry: "(case getp pred ''__pred_id'' of
        JNum i \<Rightarrow> if isPredPlaceholder pred then (''__static_p'' @ num_str i, ctx) else addPred pred ctx
      | _ \<Rightarrow> addPred pred ctx) = (predId, ctx1)"
  obtains pt where "ctx1 = with_tables [] pt ctx" "tables_numbered ctx1"
    "predId \<in> fst ` set (predTable ctx1) \<or> startsWith predId static_p"
proof (cases "addPred pred ctx = (predId, ctx1)")
  case True
  with tn show ?thesis
    by (intro that [of "[(pred_name (length (predTable ctx)), pred)]"])
      (auto simp: tables_numbered_def addPred_numbered with_tables_def pred_ids.numbered_snoc)
next
  case False
  with entry tn show ?thesis
    by (intro that [of "[]"]) (auto simp: static_p_def startsWith_iff split: jsval.splits if_splits)
qed

lemma expr_entry:
  assumes tn: "tables_numbered ctx"
    and entry: "(case getp expr ''__expr_id'' of
        JNum i \<Rightarrow> if isExprPlaceholder expr then (''__static_e'' @ num_str i, ctx) else addExpr expr ctx
      | _ \<Rightarrow> addExpr expr ctx) = (exprId, ctx1)"
  obtains et where "ctx1 = with_tables et [] ctx" "tables_numbered ctx1"
    "exprId \<in> fst ` set (exprTable ctx1) \<or> startsWith exprId static_e"
proof (cases "addExpr expr ctx = (exprId, ctx1)")
  case True
  with tn show ?thesis
    by (intro that [of "[(expr_name (length (exprTable ctx)), expr)]"])
      (auto simp: tables_numbered_def addExpr_numbered with_tables_def expr_ids.numbered_snoc)
next
  case False
  with entry tn show ?thesis
    by (intro that [of "[]"]) (auto simp: static_e_def startsWith_iff split: jsval.splits if_splits)
qed

interpretation filter_task: task_impl "filterImpl h opts" "''core::filter''" "[h]" "{}" for h opts
proof
  fix ctx r ctx'
  assume tn: "tables_numbered ctx" and run: "filterImpl h opts ctx = (r, ctx')"
  show "task_post ''core::filter'' [h] {} ctx r ctx'"
  proof (rule guarded_post [OF _ tn run [unfolded filterImpl_def]], clarsimp split: prod.splits)
    fix pred extensions predId ctx1
    assume entry: "(case getp pred ''__pred_id'' of
        JNum i \<Rightarrow> if isPredPlaceholder pred then (''__static_p'' @ num_str i, ctx) else addPred pred ctx
      | _ \<Rightarrow> addPred pred ctx) = (predId, ctx1)"
      and add: "addNode ''core::filter'' [h] [(''pred_id'', JStr predId), trace_param opts] extensions ctx1 = (r, ctx')"
    from tn entry obtain pt where c1: "ctx1 = with_tables [] pt ctx" "tables_numbered ctx1"
      "predId \<in> fst ` set (predTable ctx1) \<or> startsWith predId static_p" by (rule pred_entry)
    from c1(2) add have "task_post ''core::filter'' [h] {} ctx1 r ctx'"
      by (rule addNode_post) (use c1(3) in \<open>auto simp: rhs_refs_def trace_param_def table_refs_ok_def\<close>)
    then show "task_post ''core::filter'' [h] {} ctx r ctx'"
      by (simp add: c1(1)) (rule task_post_extend)
  qed
qed

interpretation vm_task: task_impl "vmImpl h opts" "''core::vm''" "[h]" "{}" for h opts
proof
  fix ctx r ctx'
  assume tn: "tables_numbered ctx" and run: "vmImpl h opts ctx = (r, ctx')"
  show "task_post ''core::vm'' [h] {} ctx r ctx'"
  proof (rule guarded_post [OF _ tn run [unfolded vmImpl_def]], clarsimp split: prod.splits)
    fix expr k extensions exprId ctx1
    assume entry: "(case getp expr ''__expr_id'' of
        JNum i \<Rightarrow> if isExprPlaceholder expr then (''__static_e'' @ num_str i, ctx) else addExpr expr ctx
      | _ \<Rightarrow> addExpr expr ctx) = (exprId, ctx1)"
      and add: "addNode ''core::vm'' [h] [(''expr_id'', JStr exprId), (''out_key'', k), trace_param opts] extensions ctx1 = (r, ctx')"
    from tn entry obtain et where c1: "ctx1 = with_tables et [] ctx" "tables_numbered ctx1"
      "exprId \<in> fst ` set (exprTable ctx1) \<or> startsWith exprId static_e" by (rule expr_entry)
    from c1(2) add have "task_post ''core::vm'' [h] {} ctx1 r ctx'"
      by (rule addNode_post) (use c1(3) in \<open>auto simp: rhs_refs_def trace_param_def table_refs_ok_def\<close>)
    then show "task_post ''core::vm'' [h] {} ctx r ctx'"
      by (simp add: c1(1)) (rule task_post_extend)
  qed
qed

section \<open>Topologically ordered plans have no cycles\<close>

text \<open>The edges of a plan: from a referenced node to the node that refers to it.\<close>

definition edges :: "plan_node list \<Rightarrow> (string \<times> string) set" where
  "edges ns = {(r, node_id n) |r n. n \<in> set ns \<and> r \<in> set (node_refs n)}"

lemma edges_snoc: "edges (ns @ [n]) = edges ns \<union> (\<lambda>r. (r, node_id n)) ` set (node_refs n)"
  by (auto simp: edges_def)

lemma finite_edges: "finite (edges ns)"
proof -
  have "edges ns = (\<Union>n \<in> set ns. (\<lambda>r. (r, node_id n)) ` set (node_refs n))" by (auto simp: edges_def)
  then show ?thesis by simp
qed

lemma topo_edges_Domain: "topo_from {} ns \<Longrightarrow> fst ` edges ns \<subseteq> node_id ` set ns"
  by (induction ns rule: rev_induct) (auto simp: edges_snoc topo_from_snoc, auto simp: edges_def)

lemma topo_refs: "topo_from {} ns \<Longrightarrow> n \<in> set ns \<Longrightarrow> set (node_refs n) \<subseteq> node_id ` set ns"
  by (induction ns rule: rev_induct) (auto simp: topo_from_snoc)

lemma topo_acyclic: "topo_from {} ns \<Longrightarrow> distinct (map node_id ns) \<Longrightarrow> acyclic (edges ns)"
proof (induction ns rule: rev_induct)
  case Nil
  then show ?case by (simp add: edges_def acyclic_def)
next
  case (snoc n ns)
  then have IH: "acyclic (edges ns)" and topo: "topo_from {} ns" "set (node_refs n) \<subseteq> node_id ` set ns"
    and fresh: "node_id n \<notin> node_id ` set ns" by (auto simp: topo_from_snoc)
  have "wf (edges ns)" using IH by (intro finite_acyclic_wf finite_edges)
  moreover have "wf ((\<lambda>r. (r, node_id n)) ` set (node_refs n))"
    by (rule wf_subset [OF wf_measure [of "\<lambda>x. if x = node_id n then 1 else 0"]]) (use topo fresh in auto)
  moreover have "Domain (edges ns) \<inter> Range ((\<lambda>r. (r, node_id n)) ` set (node_refs n)) = {}"
    using topo_edges_Domain [OF topo(1)] fresh by (auto simp: Domain_fst)
  ultimately have "wf (edges ns \<union> (\<lambda>r. (r, node_id n)) ` set (node_refs n))" by (rule wf_Un)
  then show ?case by (simp add: edges_snoc wf_acyclic)
qed

end
