(* ===== verification/Capabilities.thy ===== *)
theory Capabilities
  imports Guards
begin

text \<open>
  \<open>dsl/packages/generated/capabilities.ts\<close>: the capability registry and the check of an
  extension payload against the JSON schema of its capability. \<open>JsonSchema\<close> is the subset
  declared in \<open>dsl/src/codegen/types.ts\<close>.
\<close>

section \<open>Definitions\<close>

datatype json_schema = JsonSchema
  (schema_type: "string option")
  (schema_properties: "(string \<times> json_schema) list option")
  (schema_additional: "bool option")
  (schema_required: "string list option")

datatype capability_status = CapImplemented | CapDraft | CapDeprecated | CapBlocked

record capability_meta =
  cap_id :: string
  cap_rfc :: string
  cap_name :: string
  cap_status :: capability_status
  cap_doc :: string
  cap_payload_schema :: "json_schema option"

type_synonym capability_registry = "(string \<times> capability_meta) list"

definition CAP_RFC_0001 :: string where
  "CAP_RFC_0001 = ''cap.rfc.0001.extensions_capabilities.v1''"

definition CAP_RFC_0005 :: string where
  "CAP_RFC_0005 = ''cap.rfc.0005.key_effects_writes_exact.v1''"

definition empty_object_schema :: json_schema where
  "empty_object_schema = JsonSchema (Some ''object'') None (Some False) None"

definition CapabilityRegistry :: capability_registry where
  "CapabilityRegistry =
     [(CAP_RFC_0001, \<lparr>cap_id = CAP_RFC_0001, cap_rfc = ''0001'', cap_name = ''extensions_capabilities'',
         cap_status = CapImplemented,
         cap_doc = ''Base extensions/capabilities mechanism for IR evolution'',
         cap_payload_schema = Some empty_object_schema\<rparr>),
      (CAP_RFC_0005, \<lparr>cap_id = CAP_RFC_0005, cap_rfc = ''0005'', cap_name = ''key_effects_writes_exact'',
         cap_status = CapDraft,
         cap_doc = ''Strict shape enforcement for branching meta-tasks (RFC0005)'',
         cap_payload_schema = Some empty_object_schema\<rparr>)]"

definition ALL_CAPABILITY_IDS :: "string list" where
  "ALL_CAPABILITY_IDS = [CAP_RFC_0001, CAP_RFC_0005]"

definition SUPPORTED_CAPABILITIES :: "string list" where
  "SUPPORTED_CAPABILITIES = [CAP_RFC_0001]"

text \<open>\<open>value === null ? "null" : Array.isArray(value) ? "array" : typeof value\<close>.\<close>

definition actualType :: "jsval \<Rightarrow> string" where
  "actualType v = (if v = JNull then ''null'' else if is_array v then ''array'' else typeof_js v)"

definition expectedType :: "string \<Rightarrow> string" where
  "expectedType t = (if t = ''integer'' then ''number'' else t)"

text \<open>The three loops over the payload; each returns at its first violation.\<close>

fun first_unexpected :: "string \<Rightarrow> string list \<Rightarrow> string list \<Rightarrow> payload_error option" where
  "first_unexpected capId allowed [] = None"
| "first_unexpected capId allowed (k # ks) =
     (if k \<notin> set allowed then Some (UnexpectedProperty capId k) else first_unexpected capId allowed ks)"

fun first_missing :: "string \<Rightarrow> jsval \<Rightarrow> string list \<Rightarrow> payload_error option" where
  "first_missing capId payload [] = None"
| "first_missing capId payload (k # ks) =
     (if \<not> hasp payload k then Some (MissingProperty capId k) else first_missing capId payload ks)"

fun first_mistyped :: "string \<Rightarrow> jsval \<Rightarrow> (string \<times> json_schema) list \<Rightarrow> payload_error option" where
  "first_mistyped capId payload [] = None"
| "first_mistyped capId payload ((k, ps) # rest) =
     (case schema_type ps of
        None \<Rightarrow> first_mistyped capId payload rest
      | Some t \<Rightarrow>
          if hasp payload k \<and> t \<noteq> [] \<and> expectedType t \<noteq> actualType (getp payload k)
          then Some (PropertyType capId k t (actualType (getp payload k)))
          else first_mistyped capId payload rest)"

definition orElse :: "'a option \<Rightarrow> 'a option \<Rightarrow> 'a option" where
  "orElse a b = (case a of None \<Rightarrow> b | Some x \<Rightarrow> Some x)"

definition checkPayload :: "string \<Rightarrow> json_schema option \<Rightarrow> jsval \<Rightarrow> payload_error option" where
  "checkPayload capId schema payload =
     (case schema of
        None \<Rightarrow> if payload \<noteq> JUndef \<and> payload \<noteq> JNull then Some (PayloadNotAllowed capId) else None
      | Some sch \<Rightarrow>
          if schema_type sch = Some ''object'' then
            (if typeof_js payload \<noteq> ''object'' \<or> payload = JNull \<or> is_array payload
             then Some (PayloadNotObject capId)
             else orElse
               (if schema_additional sch = Some False
                then first_unexpected capId
                  (case schema_properties sch of None \<Rightarrow> [] | Some ps \<Rightarrow> map fst ps)
                  (map fst (own_entries payload))
                else None)
               (orElse
                 (case schema_required sch of None \<Rightarrow> None | Some ks \<Rightarrow> first_missing capId payload ks)
                 (case schema_properties sch of None \<Rightarrow> None | Some ps \<Rightarrow> first_mistyped capId payload ps)))
          else None)"

text \<open>
  \<open>CapabilityRegistry[capId]\<close> also finds what a plain object inherits: an inherited member has
  no \<open>payload_schema\<close>, and reading \<open>.type\<close> of that \<open>undefined\<close> raises.
\<close>

definition validatePayload_in ::
  "capability_registry \<Rightarrow> string \<Rightarrow> jsval \<Rightarrow> (dsl_error, payload_error option) res" where
  "validatePayload_in reg capId payload =
     (case map_of reg capId of
        Some meta \<Rightarrow> Inr (checkPayload capId (cap_payload_schema meta) payload)
      | None \<Rightarrow> if capId \<in> set object_proto then Inl TypeError else Inr (Some (UnknownCapability capId)))"

definition validatePayload :: "string \<Rightarrow> jsval \<Rightarrow> (dsl_error, payload_error option) res" where
  "validatePayload = validatePayload_in CapabilityRegistry"

section \<open>What an accepted payload satisfies\<close>

text \<open>The declarative reading of the schema subset.\<close>

definition prop_ok :: "jsval \<Rightarrow> string \<Rightarrow> json_schema \<Rightarrow> bool" where
  "prop_ok payload k s \<longleftrightarrow>
     (\<forall>t. schema_type s = Some t \<longrightarrow> t \<noteq> [] \<longrightarrow> hasp payload k \<longrightarrow> expectedType t = actualType (getp payload k))"

definition conforms :: "json_schema option \<Rightarrow> jsval \<Rightarrow> bool" where
  "conforms schema payload =
     (case schema of
        None \<Rightarrow> payload = JUndef \<or> payload = JNull
      | Some sch \<Rightarrow> schema_type sch = Some ''object'' \<longrightarrow>
          is_plain payload \<and>
          (schema_additional sch = Some False \<longrightarrow>
             fst ` set (own_entries payload) \<subseteq> (case schema_properties sch of None \<Rightarrow> {} | Some ps \<Rightarrow> fst ` set ps)) \<and>
          (\<forall>ks. schema_required sch = Some ks \<longrightarrow> (\<forall>k \<in> set ks. hasp payload k)) \<and>
          (\<forall>ps. schema_properties sch = Some ps \<longrightarrow> (\<forall>(k, s) \<in> set ps. prop_ok payload k s)))"

lemma orElse_None_iff [simp]: "orElse a b = None \<longleftrightarrow> a = None \<and> b = None"
  by (simp add: orElse_def split: option.splits)

lemma first_unexpected_None [simp]: "first_unexpected c allowed ks = None \<longleftrightarrow> set ks \<subseteq> set allowed"
  by (induction ks) auto

lemma first_missing_None [simp]: "first_missing c p ks = None \<longleftrightarrow> (\<forall>k \<in> set ks. hasp p k)"
  by (induction ks) auto

lemma first_mistyped_Cons:
  "first_mistyped c p ((k, s) # ps) = None \<longleftrightarrow> prop_ok p k s \<and> first_mistyped c p ps = None"
  by (cases "schema_type s") (auto simp: prop_ok_def)

lemma first_mistyped_None [simp]:
  "first_mistyped c p ps = None \<longleftrightarrow> (\<forall>(k, s) \<in> set ps. prop_ok p k s)"
  by (induction ps) (auto simp: first_mistyped_Cons simp del: first_mistyped.simps(2))

lemma checkPayload_None: "checkPayload c schema p = None \<longleftrightarrow> conforms schema p"
proof (cases schema)
  case (Some sch)
  show ?thesis
  proof (cases "schema_type sch = Some ''object'' \<and> is_plain p")
    case True
    with Some show ?thesis
      by (auto simp: checkPayload_def conforms_def is_plain_def is_object_def split: option.splits)
  qed (auto simp: Some checkPayload_def conforms_def is_plain_def is_object_def)
qed (simp add: checkPayload_def conforms_def)

lemma validatePayload_in_ok:
  "validatePayload_in reg c p = Inr None \<longleftrightarrow> (\<exists>m. map_of reg c = Some m \<and> conforms (cap_payload_schema m) p)"
  by (auto simp: validatePayload_in_def checkPayload_None split: option.splits)

lemma conforms_empty_object_schema [simp]:
  "conforms (Some empty_object_schema) p \<longleftrightarrow> is_plain p \<and> own_entries p = []"
  by (auto simp: conforms_def empty_object_schema_def)

lemma validatePayload_ok:
  "validatePayload c p = Inr None \<longleftrightarrow> c \<in> set ALL_CAPABILITY_IDS \<and> is_plain p \<and> own_entries p = []"
  by (auto simp: validatePayload_def validatePayload_in_ok CapabilityRegistry_def ALL_CAPABILITY_IDS_def
      split: if_splits)

lemma CapabilityRegistry_keys: "map fst CapabilityRegistry = ALL_CAPABILITY_IDS"
  by (simp add: CapabilityRegistry_def ALL_CAPABILITY_IDS_def)

end
