(* ===== verification/ArtifactValidation.thy ===== *)
theory ArtifactValidation
  imports Capabilities
begin

text \<open>
  \<open>dsl/packages/runtime/src/artifact-validation.ts\<close>: the structural validation both compilers
  run on an emitted artifact, and what an accepted artifact guarantees.
\<close>

section \<open>Definitions\<close>

text \<open>First pass over the nodes: each has a string id, a string op and an input array.\<close>

definition checkNode :: "string \<Rightarrow> nat \<Rightarrow> jsval \<Rightarrow> check" where
  "checkNode f i node =
     (if node = JNull \<or> typeof_js node \<noteq> ''object'' then Inl (NodeNotObject f i)
      else if typeof_js (getp node ''node_id'') \<noteq> ''string'' then Inl (NodeBadId f i)
      else if typeof_js (getp node ''op'') \<noteq> ''string'' then Inl (NodeBadOp f i)
      else if \<not> is_array (getp node ''inputs'') then Inl (NodeBadInputs f i)
      else Inr ())"

text \<open>The set of ids collected by that pass.\<close>

definition node_ids :: "jsval list \<Rightarrow> string list" where
  "node_ids nodes = js_set (map (\<lambda>n. case getp n ''node_id'' of JStr s \<Rightarrow> s | _ \<Rightarrow> []) nodes)"

text \<open>Elements of an array value; the callers have checked that it is one.\<close>

definition elems :: "jsval \<Rightarrow> jsval list" where
  "elems v = (case v of JArr xs \<Rightarrow> xs | _ \<Rightarrow> [])"

text \<open>Second pass: every input is a string and names a node.\<close>

definition checkInput :: "string \<Rightarrow> string list \<Rightarrow> nat \<Rightarrow> nat \<Rightarrow> jsval \<Rightarrow> check" where
  "checkInput f ids i j inp =
     (case inp of JStr s \<Rightarrow> if s \<notin> set ids then Inl (InputUnknown f i j s) else Inr ()
      | _ \<Rightarrow> Inl (InputNotString f i j))"

definition checkOutput :: "string \<Rightarrow> string list \<Rightarrow> nat \<Rightarrow> jsval \<Rightarrow> check" where
  "checkOutput f ids i out =
     (case out of JStr s \<Rightarrow> if s \<notin> set ids then Inl (OutputUnknown f i s) else Inr ()
      | _ \<Rightarrow> Inl (OutputNotString f i))"

text \<open>\<open>t !== undefined && (t === null || typeof t !== "object")\<close>.\<close>

definition bad_table :: "jsval \<Rightarrow> bool" where
  "bad_table t \<longleftrightarrow> t \<noteq> JUndef \<and> (t = JNull \<or> typeof_js t \<noteq> ''object'')"

text \<open>The loop over the payloads of an extensions object.\<close>

definition checkPayloads :: "(payload_error \<Rightarrow> dsl_error) \<Rightarrow> jsval \<Rightarrow> check" where
  "checkPayloads err ext =
     (if truthy ext \<and> typeof_js ext = ''object''
      then eachR (\<lambda>(capId, payload). bindR (validatePayload capId payload)
             (\<lambda>r. case r of None \<Rightarrow> Inr () | Some e \<Rightarrow> Inl (err e))) (own_entries ext)
      else Inr ())"

definition checkNodeExtensions :: "jsval \<Rightarrow> jsval \<Rightarrow> check" where
  "checkNodeExtensions caps node =
     (let nid = (case getp node ''node_id'' of JStr s \<Rightarrow> s | _ \<Rightarrow> []);
          ext = getp node ''extensions''
      in bindR (validateNodeExtensions ext caps nid) (\<lambda>_.
         checkPayloads (NodeExtensionInvalid nid) ext))"

definition validateArtifact :: "jsval \<Rightarrow> string \<Rightarrow> check" where
  "validateArtifact artifact f =
     (if artifact = JNull \<or> typeof_js artifact \<noteq> ''object'' then Inl (ArtifactNotObject f)
      else if typeof_js (getp artifact ''schema_version'') \<noteq> ''number'' then Inl (BadSchemaVersion f)
      else if typeof_js (getp artifact ''plan_name'') \<noteq> ''string'' \<or> getp artifact ''plan_name'' = JStr []
      then Inl (BadPlanName f)
      else if \<not> is_array (getp artifact ''nodes'') then Inl (BadNodes f)
      else if \<not> is_array (getp artifact ''outputs'') then Inl (BadOutputs f)
      else
        let nodes = elems (getp artifact ''nodes'');
            ids = node_ids nodes
        in
        bindR (eachR_i (checkNode f) 0 nodes) (\<lambda>_.
        bindR (eachR_i (\<lambda>i n. eachR_i (checkInput f ids i) 0 (elems (getp n ''inputs''))) 0 nodes) (\<lambda>_.
        bindR (eachR_i (checkOutput f ids) 0 (elems (getp artifact ''outputs''))) (\<lambda>_.
        bindR (if bad_table (getp artifact ''expr_table'') then Inl (BadExprTable f) else Inr ()) (\<lambda>_.
        bindR (if bad_table (getp artifact ''pred_table'') then Inl (BadPredTable f) else Inr ()) (\<lambda>_.
        bindR (validateCapabilitiesAndExtensions (getp artifact ''capabilities_required'')
                 (getp artifact ''extensions'') (''artifact from '' @ f)) (\<lambda>_.
        bindR (checkPayloads PlanExtensionInvalid (getp artifact ''extensions'')) (\<lambda>_.
        eachR (checkNodeExtensions (getp artifact ''capabilities_required'')) nodes))))))))"

section \<open>When the validator accepts\<close>

definition node_ok :: "jsval \<Rightarrow> bool" where
  "node_ok n \<longleftrightarrow> is_object n \<and> is_str (getp n ''node_id'') \<and> is_str (getp n ''op'') \<and> is_array (getp n ''inputs'')"

definition ref_ok :: "string list \<Rightarrow> jsval \<Rightarrow> bool" where
  "ref_ok ids v \<longleftrightarrow> (\<exists>s. v = JStr s \<and> s \<in> set ids)"

definition table_ok :: "jsval \<Rightarrow> bool" where
  "table_ok t \<longleftrightarrow> t = JUndef \<or> is_object t"

definition payloads_ok :: "jsval \<Rightarrow> bool" where
  "payloads_ok ext \<longleftrightarrow> (is_object ext \<longrightarrow> (\<forall>(c, p) \<in> set (own_entries ext). validatePayload c p = Inr None))"

text \<open>Extensions are absent, or a plain object whose keys the plan declares.\<close>

definition ext_declared :: "jsval \<Rightarrow> jsval \<Rightarrow> bool" where
  "ext_declared caps ext \<longleftrightarrow> ext = JUndef \<or> (is_plain ext \<and> fst ` set (own_entries ext) \<subseteq> set (caps_list caps))"

lemma checkNode_ok: "checkNode f i n = Inr () \<longleftrightarrow> node_ok n"
  by (auto simp: checkNode_def node_ok_def is_object_def)

lemma checkInput_ok: "checkInput f ids i j v = Inr () \<longleftrightarrow> ref_ok ids v"
  by (auto simp: checkInput_def ref_ok_def split: jsval.splits)

lemma checkOutput_ok: "checkOutput f ids i v = Inr () \<longleftrightarrow> ref_ok ids v"
  by (auto simp: checkOutput_def ref_ok_def split: jsval.splits)

lemma bad_table_iff: "bad_table t \<longleftrightarrow> \<not> table_ok t"
  by (auto simp: bad_table_def table_ok_def is_object_def)

lemma checkPayloads_ok: "checkPayloads err ext = Inr () \<longleftrightarrow> payloads_ok ext"
proof -
  have step: "bindR r (\<lambda>r. case r of None \<Rightarrow> Inr () | Some e \<Rightarrow> Inl (err e)) = Inr () \<longleftrightarrow> r = Inr None" for r
    by (auto simp: bindR_Inr_iff split: option.splits)
  have "truthy ext \<and> typeof_js ext = ''object'' \<longleftrightarrow> is_object ext"
    by (cases ext) (auto simp: truthy_def)
  then show ?thesis
    by (auto simp: checkPayloads_def payloads_ok_def eachR_Inr_iff step)
qed

lemma checkNodeExtensions_ok:
  "checkNodeExtensions caps n = Inr () \<longleftrightarrow>
     ext_declared caps (getp n ''extensions'') \<and> payloads_ok (getp n ''extensions'')"
  by (simp add: checkNodeExtensions_def Let_def bindR_unit_Inr_iff validateNodeExtensions_ok
      checkPayloads_ok ext_declared_def)

lemmas validate_step_ok = checkNode_ok checkInput_ok checkOutput_ok bad_table_iff checkPayloads_ok
  checkNodeExtensions_ok checkCapabilitiesRequired_ok checkExtensions_ok

text \<open>The declarative shape of an artifact.\<close>

definition wf_artifact :: "jsval \<Rightarrow> bool" where
  "wf_artifact a \<longleftrightarrow>
     is_object a \<and>
     (\<exists>x. getp a ''schema_version'' = JNum x) \<and>
     (\<exists>s. getp a ''plan_name'' = JStr s \<and> s \<noteq> []) \<and>
     (\<exists>nodes outs. getp a ''nodes'' = JArr nodes \<and> getp a ''outputs'' = JArr outs \<and>
        (\<forall>n \<in> set nodes. node_ok n) \<and>
        (\<forall>n \<in> set nodes. \<forall>v \<in> set (elems (getp n ''inputs'')). ref_ok (node_ids nodes) v) \<and>
        (\<forall>v \<in> set outs. ref_ok (node_ids nodes) v) \<and>
        (\<forall>n \<in> set nodes. ext_declared (getp a ''capabilities_required'') (getp n ''extensions'') \<and>
           payloads_ok (getp n ''extensions''))) \<and>
     table_ok (getp a ''expr_table'') \<and> table_ok (getp a ''pred_table'') \<and>
     (getp a ''capabilities_required'' = JUndef \<or>
        (\<exists>xs. getp a ''capabilities_required'' = JArr (map JStr xs) \<and> sorted_wrt (<) xs)) \<and>
     ext_declared (getp a ''capabilities_required'') (getp a ''extensions'') \<and>
     payloads_ok (getp a ''extensions'')"

lemma eachR_i_all: "(\<And>i x. f i x = Inr () \<longleftrightarrow> P x) \<Longrightarrow> eachR_i f k xs = Inr () \<longleftrightarrow> (\<forall>x \<in> set xs. P x)"
  by (simp add: eachR_i_Inr_iff all_set_conv_all_nth)

lemma validate_loops:
  "eachR_i (checkNode f) k ns = Inr () \<longleftrightarrow> (\<forall>n \<in> set ns. node_ok n)"
  "eachR_i (checkInput f ids i) k vs = Inr () \<longleftrightarrow> (\<forall>v \<in> set vs. ref_ok ids v)"
  "eachR_i (checkOutput f ids) k vs = Inr () \<longleftrightarrow> (\<forall>v \<in> set vs. ref_ok ids v)"
  by (rule eachR_i_all, simp add: validate_step_ok)+

lemma validate_inputs:
  "eachR_i (\<lambda>i n. eachR_i (checkInput f ids i) 0 (g n)) k ns = Inr () \<longleftrightarrow>
     (\<forall>n \<in> set ns. \<forall>v \<in> set (g n). ref_ok ids v)"
  by (rule eachR_i_all) (rule validate_loops)

lemma validateCapabilitiesAndExtensions_ok:
  "validateCapabilitiesAndExtensions caps ext w = Inr () \<longleftrightarrow>
     (caps = JUndef \<or> (\<exists>xs. caps = JArr (map JStr xs) \<and> sorted_wrt (<) xs)) \<and> ext_declared caps ext"
  by (simp add: validateCapabilitiesAndExtensions_def bindR_unit_Inr_iff checkCapabilitiesRequired_ok
      checkExtensions_ok ext_declared_def isSortedUnique_iff)

lemma validateArtifact_wf: "validateArtifact a f = Inr () \<longleftrightarrow> wf_artifact a"
proof (cases "is_object a \<and> is_array (getp a ''nodes'') \<and> is_array (getp a ''outputs'')")
  case True
  then obtain ns os where arr: "getp a ''nodes'' = JArr ns" "getp a ''outputs'' = JArr os" and obj: "is_object a"
    by (auto simp: is_array_iff)
  have ifs: "(if b then Inl e else r) = Inr () \<longleftrightarrow> \<not> b \<and> r = Inr ()" for b and e :: dsl_error and r :: check
    by simp
  show ?thesis
    using obj unfolding validateArtifact_def wf_artifact_def Let_def is_object_def
    by (auto simp: arr elems_def ifs bindR_unit_Inr_iff validate_loops validate_inputs eachR_Inr_iff
        bad_table_iff checkPayloads_ok checkNodeExtensions_ok validateCapabilitiesAndExtensions_ok is_str_iff)
next
  case False
  then show ?thesis
    by (auto simp: validateArtifact_def wf_artifact_def is_object_def is_array_iff)
qed

text \<open>
  Property C16. The validator accepts exactly the well-formed artifacts: a plain object with a numeric schema
  version, a non-empty plan name, nodes with id, op and inputs, inputs and outputs that name
  nodes of the artifact, object tables, sorted duplicate-free capabilities, and extensions (of the
  plan and of every node) whose keys are declared capabilities and whose payloads conform.
\<close>

theorem validateArtifact_iff: "validateArtifact a f = Inr () \<longleftrightarrow> wf_artifact a"
  by (rule validateArtifact_wf)

end
