(* ===== verification/PlanApi.thy ===== *)
theory PlanApi
  imports TaskContract ArtifactValidation
begin

text \<open>
  The authoring API of \<open>dsl/packages/runtime/src/plan.ts\<close>: the source constructors of
  \<open>PlanCtx\<close>, the methods of \<open>CandidateSet\<close> and of the \<open>test\<close> namespaces, and \<open>definePlan\<close>; then
  the reachable contexts of a build function (any interleaving of successful calls, calls that
  throw and are caught, and capability declarations) and what holds in all of them.
\<close>

section \<open>The methods\<close>

text \<open>\<open>new CandidateSet(this.ctx, nodeId)\<close> around the id a task returns.\<close>

definition wrap :: "string plan_m \<Rightarrow> jsval plan_m" where
  "wrap m ctx = (case m ctx of (Inl e, ctx') \<Rightarrow> (Inl e, ctx') | (Inr nid, ctx') \<Rightarrow> (Inr (JCand (ctx_id ctx) nid), ctx'))"

definition PlanCtx_viewer_node :: "jsval \<Rightarrow> string plan_m" where
  "PlanCtx_viewer_node opts =
     guarded
       (bindR (assertNotUndefined opts ''viewer(opts)'') (\<lambda>_.
        bindR (getP opts ''endpoint'') (\<lambda>endpoint.
        bindR (assertNotUndefined endpoint ''viewer({ endpoint })'') (\<lambda>_.
        bindR (assertEndpointId endpoint ''viewer({ endpoint })'') (\<lambda>_.
        bindR (split_opts opts) (\<lambda>(extensions, rest).
        bindR (checkNoUndefined rest ''viewer(opts)'') (\<lambda>_.
        bindR (if getp opts ''trace'' \<noteq> JUndef then assertStringOrNull (getp opts ''trace'') ''viewer({ trace })''
               else Inr ()) (\<lambda>_.
        Inr ([(''endpoint'', endpoint), trace_param opts], extensions)))))))))
       (\<lambda>(params, extensions). addNode ''core::viewer'' [] params extensions)"

definition PlanCtx_viewer :: "jsval \<Rightarrow> jsval plan_m" where
  "PlanCtx_viewer opts = wrap (PlanCtx_viewer_node opts)"

definition TestSourceTasks_fixedSource_node :: "jsval \<Rightarrow> string plan_m" where
  "TestSourceTasks_fixedSource_node opts =
     guarded
       (bindR (assertNotUndefined opts ''fixedSource(opts)'') (\<lambda>_.
        bindR (split_opts opts) (\<lambda>(extensions, rest).
        bindR (checkNoUndefined rest ''fixedSource(opts)'') (\<lambda>_.
        bindR (if getp opts ''trace'' \<noteq> JUndef then assertStringOrNull (getp opts ''trace'') ''fixedSource({ trace })''
               else Inr ()) (\<lambda>_.
        Inr ([(''row_count'', getp opts ''rowCount''), trace_param opts], extensions))))))
       (\<lambda>(params, extensions). addNode ''test::fixed_source'' [] params extensions)"

definition TestSourceTasks_fixedSource :: "jsval \<Rightarrow> jsval plan_m" where
  "TestSourceTasks_fixedSource opts = wrap (TestSourceTasks_fixedSource_node opts)"

text \<open>A \<open>CandidateSet\<close> method gets the node of its receiver first.\<close>

definition CandidateSet_vm :: "string \<Rightarrow> jsval \<Rightarrow> jsval plan_m" where
  "CandidateSet_vm nodeId opts = wrap (vmImpl nodeId opts)"

definition CandidateSet_filter :: "string \<Rightarrow> jsval \<Rightarrow> jsval plan_m" where
  "CandidateSet_filter nodeId opts = wrap (filterImpl nodeId opts)"

definition CandidateSet_sort :: "string \<Rightarrow> jsval \<Rightarrow> jsval plan_m" where
  "CandidateSet_sort nodeId opts = wrap (sortImpl nodeId opts)"

definition CandidateSet_media :: "string \<Rightarrow> jsval \<Rightarrow> jsval plan_m" where
  "CandidateSet_media nodeId opts = wrap (mediaImpl nodeId opts)"

definition CandidateSet_follow :: "string \<Rightarrow> jsval \<Rightarrow> jsval plan_m" where
  "CandidateSet_follow nodeId opts = wrap (followImpl nodeId opts)"

definition CandidateSet_recommendation :: "string \<Rightarrow> jsval \<Rightarrow> jsval plan_m" where
  "CandidateSet_recommendation nodeId opts = wrap (recommendationImpl nodeId opts)"

definition CandidateSet_take :: "string \<Rightarrow> jsval \<Rightarrow> jsval plan_m" where
  "CandidateSet_take nodeId opts = wrap (takeImpl nodeId opts)"

text \<open>\<open>opts.rhs.ctx !== this.ctx\<close> is checked before the task runs.\<close>

definition concat_checks :: "jsval \<Rightarrow> nat \<Rightarrow> check" where
  "concat_checks opts c =
     bindR (assertNotUndefined opts ''concat(opts)'') (\<lambda>_.
     bindR (getP opts ''rhs'') (\<lambda>rhs.
     bindR (assertNotUndefined rhs ''concat({ rhs })'') (\<lambda>_.
     bindR (getP rhs ''ctx'') (\<lambda>rc.
     if rc \<noteq> JCtx c then Inl ForeignPlanCtx else Inr ()))))"

definition CandidateSet_concat_node :: "string \<Rightarrow> jsval \<Rightarrow> string plan_m" where
  "CandidateSet_concat_node nodeId opts ctx =
     guarded (concat_checks opts (ctx_id ctx)) (\<lambda>_. concatImpl nodeId opts) ctx"

definition CandidateSet_concat :: "string \<Rightarrow> jsval \<Rightarrow> jsval plan_m" where
  "CandidateSet_concat nodeId opts = wrap (CandidateSet_concat_node nodeId opts)"

definition TestTasks_sleep :: "string \<Rightarrow> jsval \<Rightarrow> jsval plan_m" where
  "TestTasks_sleep nodeId opts = wrap (sleepImpl nodeId opts)"

definition TestTasks_busyCpu :: "string \<Rightarrow> jsval \<Rightarrow> jsval plan_m" where
  "TestTasks_busyCpu nodeId opts = wrap (busyCpuImpl nodeId opts)"

text \<open>\<open>result.getNodeId()\<close>.\<close>

definition getNodeId :: "jsval \<Rightarrow> (dsl_error, string) res" where
  "getNodeId v = (case v of JCand c n \<Rightarrow> Inr n | _ \<Rightarrow> Inl TypeError)"

text \<open>
  \<open>definePlan\<close>. \<open>build\<close> is what the function \<open>spec.build\<close> does, \<open>c\<close> numbers the context it gets,
  and \<open>sandbox\<close> tells whether \<open>globalThis.__emitPlan\<close> is a function. The second result lists the
  artifacts given to \<open>__emitPlan\<close>.
\<close>

definition definePlan :: "jsval \<Rightarrow> jsval plan_m \<Rightarrow> nat \<Rightarrow> bool \<Rightarrow> (dsl_error, jsval) res \<times> jsval list" where
  "definePlan spec build c sandbox =
     (case bindR (assertNotUndefined spec ''definePlan(spec)'') (\<lambda>_.
           bindR (getP spec ''name'') (\<lambda>name.
           bindR (assertNotUndefined name ''definePlan({ name })'') (\<lambda>_.
           bindR (getP spec ''build'') (\<lambda>b.
           bindR (assertNotUndefined b ''definePlan({ build })'') (\<lambda>_.
           bindR (checkNoUndefined (own_entries spec) ''definePlan(spec)'') (\<lambda>_.
           Inr (name, b))))))) of
        Inl e \<Rightarrow> (Inl e, [])
      | Inr (name, b) \<Rightarrow>
          let planDef = JObj [(''name'', name), (''build'', b)]
          in if \<not> sandbox then (Inr planDef, [])
             else case build (new_PlanCtx c) of
               (Inl e, ctx) \<Rightarrow> (Inl e, [])
             | (Inr result, ctx) \<Rightarrow>
                 (case getNodeId result of
                    Inl e \<Rightarrow> (Inl e, [])
                  | Inr h \<Rightarrow> (Inr planDef, [finalize h name ctx])))"

section \<open>Calls\<close>

text \<open>One call of the API on the context: the method, its receiver and its options.\<close>

datatype api_call =
    Viewer jsval | FixedSource jsval
  | Vm string jsval | Filter string jsval | Sort string jsval | Media string jsval | Follow string jsval
  | Recommendation string jsval | Take string jsval | Concat string jsval | Sleep string jsval | BusyCpu string jsval

fun run_call :: "api_call \<Rightarrow> string plan_m" where
  "run_call (Viewer opts) = PlanCtx_viewer_node opts"
| "run_call (FixedSource opts) = TestSourceTasks_fixedSource_node opts"
| "run_call (Vm h opts) = vmImpl h opts"
| "run_call (Filter h opts) = filterImpl h opts"
| "run_call (Sort h opts) = sortImpl h opts"
| "run_call (Media h opts) = mediaImpl h opts"
| "run_call (Follow h opts) = followImpl h opts"
| "run_call (Recommendation h opts) = recommendationImpl h opts"
| "run_call (Take h opts) = takeImpl h opts"
| "run_call (Concat h opts) = CandidateSet_concat_node h opts"
| "run_call (Sleep h opts) = sleepImpl h opts"
| "run_call (BusyCpu h opts) = busyCpuImpl h opts"

fun exec_call :: "api_call \<Rightarrow> jsval plan_m" where
  "exec_call (Viewer opts) = PlanCtx_viewer opts"
| "exec_call (FixedSource opts) = TestSourceTasks_fixedSource opts"
| "exec_call (Vm h opts) = CandidateSet_vm h opts"
| "exec_call (Filter h opts) = CandidateSet_filter h opts"
| "exec_call (Sort h opts) = CandidateSet_sort h opts"
| "exec_call (Media h opts) = CandidateSet_media h opts"
| "exec_call (Follow h opts) = CandidateSet_follow h opts"
| "exec_call (Recommendation h opts) = CandidateSet_recommendation h opts"
| "exec_call (Take h opts) = CandidateSet_take h opts"
| "exec_call (Concat h opts) = CandidateSet_concat h opts"
| "exec_call (Sleep h opts) = TestTasks_sleep h opts"
| "exec_call (BusyCpu h opts) = TestTasks_busyCpu h opts"

fun call_op :: "api_call \<Rightarrow> string" where
  "call_op (Viewer _) = ''core::viewer''"
| "call_op (FixedSource _) = ''test::fixed_source''"
| "call_op (Vm _ _) = ''core::vm''"
| "call_op (Filter _ _) = ''core::filter''"
| "call_op (Sort _ _) = ''core::sort''"
| "call_op (Media _ _) = ''core::media''"
| "call_op (Follow _ _) = ''core::follow''"
| "call_op (Recommendation _ _) = ''core::recommendation''"
| "call_op (Take _ _) = ''core::take''"
| "call_op (Concat _ _) = ''core::concat''"
| "call_op (Sleep _ _) = ''test::sleep''"
| "call_op (BusyCpu _ _) = ''test::busy_cpu''"

fun call_ins :: "api_call \<Rightarrow> string list" where
  "call_ins (Viewer _) = []"
| "call_ins (FixedSource _) = []"
| "call_ins (Vm h _) = [h]"
| "call_ins (Filter h _) = [h]"
| "call_ins (Sort h _) = [h]"
| "call_ins (Media h _) = [h]"
| "call_ins (Follow h _) = [h]"
| "call_ins (Recommendation h _) = [h]"
| "call_ins (Take h _) = [h]"
| "call_ins (Concat h _) = [h]"
| "call_ins (Sleep h _) = [h]"
| "call_ins (BusyCpu h _) = [h]"

fun call_rhs :: "api_call \<Rightarrow> string set" where
  "call_rhs (Concat _ opts) = rhs_nodes opts"
| "call_rhs _ = {}"

text \<open>The candidate set passed as \<open>rhs\<close>, when it belongs to the context \<open>c\<close>.\<close>

fun own_rhs :: "nat \<Rightarrow> api_call \<Rightarrow> string set" where
  "own_rhs c (Concat _ opts) = (case getp opts ''rhs'' of JCand c' n \<Rightarrow> if c' = c then {n} else {} | _ \<Rightarrow> {})"
| "own_rhs c _ = {}"

lemma exec_call_wrap: "exec_call cl = wrap (run_call cl)"
  by (cases cl) (simp_all add: PlanCtx_viewer_def TestSourceTasks_fixedSource_def CandidateSet_vm_def
      CandidateSet_filter_def CandidateSet_sort_def CandidateSet_media_def CandidateSet_follow_def
      CandidateSet_recommendation_def CandidateSet_take_def CandidateSet_concat_def TestTasks_sleep_def
      TestTasks_busyCpu_def)

interpretation viewer_api: task_impl "PlanCtx_viewer_node opts" "''core::viewer''" "[]" "{}" for opts
  unfolding PlanCtx_viewer_node_def by (rule simple_task_contract) (auto simp: task_simps)

interpretation fixedSource_api: task_impl "TestSourceTasks_fixedSource_node opts" "''test::fixed_source''" "[]" "{}" for opts
  unfolding TestSourceTasks_fixedSource_node_def by (rule simple_task_contract) (auto simp: task_simps)

interpretation concat_api: task_impl "CandidateSet_concat_node h opts" "''core::concat''" "[h]" "rhs_nodes opts" for h opts
proof
  fix ctx r ctx'
  assume tn: "tables_numbered ctx" and run: "CandidateSet_concat_node h opts ctx = (r, ctx')"
  show "task_post ''core::concat'' [h] (rhs_nodes opts) ctx r ctx'"
    by (rule guarded_post [OF _ tn run [unfolded CandidateSet_concat_node_def]]) (rule concat_task.contract [OF tn])
qed

lemmas call_contracts = viewer_api.contract fixedSource_api.contract vm_task.contract filter_task.contract
  sort_task.contract media_task.contract follow_task.contract recommendation_task.contract
  take_task.contract concat_api.contract sleep_task.contract busyCpu_task.contract

text \<open>Every call of the API satisfies the task contract.\<close>

interpretation api: task_impl "run_call cl" "call_op cl" "call_ins cl" "call_rhs cl" for cl
  by unfold_locales (cases cl; simp add: call_contracts)

text \<open>A \<open>concat\<close> with a candidate set of another context throws before it does anything.\<close>

lemma foreign_concat:
  assumes "run_call cl ctx = (r, ctx')"
  shows "call_rhs cl = own_rhs (ctx_id ctx) cl \<or> ((\<exists>e. r = Inl e) \<and> ctx' = ctx)"
proof (cases "\<exists>h opts c n. cl = Concat h opts \<and> getp opts ''rhs'' = JCand c n \<and> c \<noteq> ctx_id ctx")
  case True
  then obtain h opts c n where cl: "cl = Concat h opts" "getp opts ''rhs'' = JCand c n" "c \<noteq> ctx_id ctx" by blast
  then have "\<exists>e. concat_checks opts (ctx_id ctx) = Inl e"
    by (cases "opts = JUndef \<or> opts = JNull") (auto simp: concat_checks_def getP_def assertNotUndefined_def)
  with assms cl show ?thesis by (auto simp: CandidateSet_concat_node_def guarded_def)
next
  case False
  then have "call_rhs cl = own_rhs (ctx_id ctx) cl"
    by (cases cl) (auto simp: rhs_nodes_def split: jsval.splits)
  then show ?thesis ..
qed

lemma run_call_inv:
  assumes inv: "plan_inv ctx" and "set (call_ins cl) \<subseteq> ids ctx" and "own_rhs (ctx_id ctx) cl \<subseteq> ids ctx"
    and run: "run_call cl ctx = (r, ctx')"
  shows "plan_inv ctx'"
  using foreign_concat [OF run] api.impl_inv [OF inv assms(2) _ run] assms(3) inv by auto

end
