(* ===== verification/PlanSession.thy ===== *)
theory PlanSession
  imports PlanApi
begin

text \<open>
  The states a build function can bring its context into, as an inductive relation, with the
  properties that hold in every one of them: unique ids, resolved references, no cycles, and
  artifacts that pass \<open>validateArtifact\<close>.
\<close>

section \<open>Reachable contexts\<close>

text \<open>
  \<open>session c ctx hs\<close>: the context numbered \<open>c\<close> can be in state \<open>ctx\<close> after some calls, and \<open>hs\<close>
  are the nodes of the candidate sets the build function has been given so far. Receivers and own
  \<open>rhs\<close> arguments are candidate sets it has; options are arbitrary values. A call that throws may
  be caught, so the session goes on from the state it leaves.
\<close>

inductive session :: "nat \<Rightarrow> plan_ctx \<Rightarrow> string set \<Rightarrow> bool" for c where
  start: "session c (new_PlanCtx c) {}"
| call: "session c ctx hs \<Longrightarrow> set (call_ins cl) \<subseteq> hs \<Longrightarrow> own_rhs c cl \<subseteq> hs \<Longrightarrow>
    exec_call cl ctx = (Inr (JCand c' n), ctx') \<Longrightarrow> session c ctx' (insert n hs)"
| throw: "session c ctx hs \<Longrightarrow> set (call_ins cl) \<subseteq> hs \<Longrightarrow> own_rhs c cl \<subseteq> hs \<Longrightarrow>
    exec_call cl ctx = (Inl e, ctx') \<Longrightarrow> session c ctx' hs"
| capability: "session c ctx hs \<Longrightarrow> requireCapability capId payload ctx = (r, ctx') \<Longrightarrow> session c ctx' hs"

lemma exec_call_InrE:
  assumes "exec_call cl ctx = (Inr v, ctx')"
  obtains n where "run_call cl ctx = (Inr n, ctx')" "v = JCand (ctx_id ctx) n"
  using assms by (auto simp: exec_call_wrap wrap_def split: prod.splits sum.splits)

lemma exec_call_InlE:
  assumes "exec_call cl ctx = (Inl e, ctx')"
  obtains "run_call cl ctx = (Inl e, ctx')"
  using assms by (auto simp: exec_call_wrap wrap_def split: prod.splits sum.splits)

lemma requireCapability_inv:
  assumes "plan_inv ctx" and "requireCapability capId payload ctx = (r, ctx')"
  shows "plan_inv ctx' \<and> ids ctx' = ids ctx \<and> ctx_id ctx' = ctx_id ctx \<and> ctx_nodes ctx' = ctx_nodes ctx"
  using assms(2)
proof (cases rule: requireCapability_cases)
  case (extended cap)
  with assms(1) show ?thesis
    by (auto simp: plan_inv_def tables_numbered_def ids_increasing_def caps_consistent_def ids_def
        distinct_keys_alist_set simp del: keys_alist_set)
qed (use assms(1) in \<open>auto simp: plan_inv_def tables_numbered_def ids_increasing_def caps_consistent_def ids_def\<close>)

text \<open>The invariant of every session: the plan invariant, and all handles name nodes.\<close>

lemma session_invariant:
  assumes "session c ctx hs"
  shows "plan_inv ctx \<and> hs \<subseteq> ids ctx \<and> ctx_id ctx = c"
  using assms
proof induction
  case start
  then show ?case by (simp add: plan_inv_new) (simp add: new_PlanCtx_def)
next
  case (call ctx hs cl c' n ctx')
  from call.hyps(4) obtain m where run: "run_call cl ctx = (Inr m, ctx')" "JCand c' n = JCand (ctx_id ctx) m"
    by (rule exec_call_InrE)
  have tn: "tables_numbered ctx" using call.IH by (simp add: plan_inv_def)
  have "plan_inv ctx'" using call.IH call.hyps(2,3) by (intro run_call_inv [OF _ _ _ run(1)]) auto
  with api.impl_frame [OF tn run(1)] run(2) call.IH show ?case by auto
next
  case (throw ctx hs cl e ctx')
  from throw.hyps(4) have run: "run_call cl ctx = (Inl e, ctx')" by (rule exec_call_InlE)
  have tn: "tables_numbered ctx" using throw.IH by (simp add: plan_inv_def)
  have "plan_inv ctx'" using throw.IH throw.hyps(2,3) by (intro run_call_inv [OF _ _ _ run]) auto
  with api.impl_frame [OF tn run] throw.IH show ?case by auto
next
  case (capability ctx hs capId payload r ctx')
  then show ?case using requireCapability_inv [of ctx capId payload r ctx'] by auto
qed

lemma session_tables: "session c ctx hs \<Longrightarrow> tables_numbered ctx"
  using session_invariant by (simp add: plan_inv_def)

section \<open>Artifacts of a session\<close>

definition node_ext :: "plan_node \<Rightarrow> jsval" where
  "node_ext n = (case node_extensions n of None \<Rightarrow> JUndef | Some e \<Rightarrow> e)"

lemma node_js_props [simp]:
  "getp (node_js n) ''node_id'' = JStr (node_id n)"
  "getp (node_js n) ''op'' = JStr (node_op n)"
  "getp (node_js n) ''inputs'' = JArr (map JStr (node_inputs n))"
  "getp (node_js n) ''extensions'' = node_ext n"
  by (auto simp: node_js_def node_ext_def proto_get_def object_proto_def split: option.splits)

definition caps_js :: "plan_ctx \<Rightarrow> jsval" where
  "caps_js ctx = (if capabilitiesRequired ctx = [] then JUndef
     else JArr (map JStr (sort (capabilitiesRequired ctx))))"

definition table_js :: "(string \<times> jsval) list \<Rightarrow> jsval" where
  "table_js t = (if t = [] then JUndef else JObj t)"

lemma finalize_props:
  "getp (finalize h name ctx) ''schema_version'' = JNum (Fin 1)"
  "getp (finalize h name ctx) ''plan_name'' = name"
  "getp (finalize h name ctx) ''nodes'' = JArr (map node_js (ctx_nodes ctx))"
  "getp (finalize h name ctx) ''outputs'' = JArr [JStr h]"
  "getp (finalize h name ctx) ''expr_table'' = table_js (exprTable ctx)"
  "getp (finalize h name ctx) ''pred_table'' = table_js (predTable ctx)"
  "getp (finalize h name ctx) ''capabilities_required'' = caps_js ctx"
  "getp (finalize h name ctx) ''extensions'' = table_js (planExtensions ctx)"
  by (auto simp: finalize_def table_js_def caps_js_def obj_get_append proto_get_def object_proto_def js_sort_by_linorder)

lemma caps_list_caps_js: "set (caps_list (caps_js ctx)) = set (capabilitiesRequired ctx)"
  by (simp add: caps_js_def)

lemma finalize_wf:
  assumes inv: "plan_inv ctx" and h: "h \<in> ids ctx"
  shows "wf_artifact (finalize h (JStr name) ctx) \<longleftrightarrow>
     name \<noteq> [] \<and>
     (\<forall>n \<in> set (ctx_nodes ctx). ext_declared (caps_js ctx) (node_ext n) \<and> payloads_ok (node_ext n)) \<and>
     (\<forall>(cap, p) \<in> set (planExtensions ctx). validatePayload cap p = Inr None)"
proof -
  let ?ns = "map node_js (ctx_nodes ctx)"
  have ids: "set (node_ids ?ns) = ids ctx" by (simp add: node_ids_def ids_def image_image)
  have "topo_from {} (ctx_nodes ctx)" using inv by (simp add: plan_inv_def)
  then have "\<forall>n \<in> set (ctx_nodes ctx). set (node_inputs n) \<subseteq> ids ctx"
    using topo_refs [of "ctx_nodes ctx"] by (auto simp: ids_def node_refs_def)
  then have inputs: "\<forall>n \<in> set ?ns. \<forall>v \<in> set (elems (getp n ''inputs'')). ref_ok (node_ids ?ns) v"
    by (auto simp: elems_def ref_ok_def ids)
  have nodes: "\<forall>n \<in> set ?ns. node_ok n" by (auto simp: node_ok_def) (simp add: node_js_def)
  have caps: "caps_js ctx = JUndef \<or> (\<exists>xs. caps_js ctx = JArr (map JStr xs) \<and> sorted_wrt (<) xs)"
    using inv by (auto simp: caps_js_def plan_inv_def caps_consistent_def sorted_wrt_less_iff)
  have ext: "ext_declared (caps_js ctx) (table_js (planExtensions ctx))"
    using inv by (auto simp: ext_declared_def table_js_def caps_list_caps_js plan_inv_def caps_consistent_def)
  have pay: "payloads_ok (table_js (planExtensions ctx)) \<longleftrightarrow>
      (\<forall>(cap, p) \<in> set (planExtensions ctx). validatePayload cap p = Inr None)"
    by (simp add: payloads_ok_def table_js_def)
  have "is_object (finalize h (JStr name) ctx)" by (simp add: finalize_def)
  with h nodes inputs caps ext pay ids show ?thesis
    unfolding wf_artifact_def finalize_props by (auto simp: ref_ok_def table_ok_def table_js_def)
qed

section \<open>Properties of every plan\<close>

text \<open>A concrete session: a viewer, its follows, and the concatenation of the two.\<close>

definition ex_source :: jsval where
  "ex_source = JObj [(''endpoint'', JStr ''ep_0001''), (''trace'', JStr ''src'')]"

definition ex_follow :: jsval where
  "ex_follow = JObj [(''endpoint'', JStr ''ep_0002''), (''fanout'', JNum (Fin 10))]"

definition ex_concat :: "nat \<Rightarrow> jsval" where
  "ex_concat c = JObj [(''rhs'', JCand c ''n1'')]"

definition ex_ctx :: "nat \<Rightarrow> plan_ctx" where
  "ex_ctx k =
     (let c1 = snd (exec_call (Viewer ex_source) (new_PlanCtx 0));
          c2 = snd (exec_call (Follow ''n0'' ex_follow) c1);
          c3 = snd (exec_call (Concat ''n0'' (ex_concat 0)) c2)
      in if k = 1 then c1 else if k = 2 then c2 else c3)"

lemma ex_calls:
  "exec_call (Viewer ex_source) (new_PlanCtx 0) = (Inr (JCand 0 ''n0''), ex_ctx 1)"
  "exec_call (Follow ''n0'' ex_follow) (ex_ctx 1) = (Inr (JCand 0 ''n1''), ex_ctx 2)"
  "exec_call (Concat ''n0'' (ex_concat 0)) (ex_ctx 2) = (Inr (JCand 0 ''n2''), ex_ctx 3)"
  by code_simp+

lemma ex_sessions:
  "session 0 (ex_ctx 1) {''n0''}"
  "session 0 (ex_ctx 2) {''n1'', ''n0''}"
  "session 0 (ex_ctx 3) {''n2'', ''n1'', ''n0''}"
proof -
  show s1: "session 0 (ex_ctx 1) {''n0''}"
    by (rule session.call [OF session.start _ _ ex_calls(1)]) simp_all
  show s2: "session 0 (ex_ctx 2) {''n1'', ''n0''}"
    by (rule session.call [OF s1 _ _ ex_calls(2)]) simp_all
  show "session 0 (ex_ctx 3) {''n2'', ''n1'', ''n0''}"
    by (rule session.call [OF s2 _ _ ex_calls(3)]) (simp_all add: ex_concat_def)
qed

text \<open>
  Property C1. Whatever a build function does with its context, the plan it has built is a DAG in
  topological order: node ids are unique, every input and every \<open>rhs\<close> reference names a node that
  was added earlier, and the reference graph has no cycle.
\<close>

theorem session_dag:
  assumes "session c ctx hs"
  shows "distinct (map node_id (ctx_nodes ctx)) \<and> topo_from {} (ctx_nodes ctx) \<and> acyclic (edges (ctx_nodes ctx))"
proof -
  have inv: "plan_inv ctx" using session_invariant [OF assms] ..
  then have "distinct (map node_id (ctx_nodes ctx))" by (intro ids_increasing_distinct) (simp add: plan_inv_def)
  with inv show ?thesis by (simp add: plan_inv_def topo_acyclic)
qed

theorem session_dag_witness:
  "length (ctx_nodes (ex_ctx 3)) = 3 \<and> acyclic (edges (ctx_nodes (ex_ctx 3)))"
proof -
  have "length (ctx_nodes (ex_ctx 3)) = 3" by code_simp
  then show ?thesis using session_dag [OF ex_sessions(3)] by blast
qed

text \<open>
  Property C15. In every plan that can be built, each \<open>expr_id\<close> and \<open>pred_id\<close> parameter names an entry
  of the plan's own expression or predicate table, or is a placeholder that the compiler resolves
  later, and the tables are keyed \<open>e0, e1, \<dots>\<close> and \<open>p0, p1, \<dots>\<close> without gaps.
\<close>

theorem session_tables_closed:
  assumes "session c ctx hs" and "n \<in> set (ctx_nodes ctx)"
  shows "table_refs_ok (exprTable ctx) (predTable ctx) (node_params n) \<and>
    map fst (exprTable ctx) = map expr_name [0..<length (exprTable ctx)] \<and>
    map fst (predTable ctx) = map pred_name [0..<length (predTable ctx)]"
  using session_invariant [OF assms(1)] assms(2) by (simp add: plan_inv_def tables_numbered_def numbered_def)

text \<open>A session with an expression in its table.\<close>

definition ex_vm :: jsval where
  "ex_vm = JObj [(''outKey'', JObj [(''id'', JNum (Fin 7))]), (''expr'', expr_js (KeyRef (Fin 3)))]"

definition ex_vm_ctx :: plan_ctx where
  "ex_vm_ctx = snd (exec_call (Vm ''n0'' ex_vm) (ex_ctx 1))"

lemma ex_vm_session: "session 0 ex_vm_ctx {''n1'', ''n0''}"
proof (rule session.call [OF ex_sessions(1)])
  show "exec_call (Vm ''n0'' ex_vm) (ex_ctx 1) = (Inr (JCand 0 ''n1''), ex_vm_ctx)" by code_simp
qed simp_all

theorem session_tables_closed_witness:
  "node_params (ctx_nodes ex_vm_ctx ! 1) = [(''expr_id'', JStr ''e0''), (''out_key'', JNum (Fin 7)), (''trace'', JNull)] \<and>
   map fst (exprTable ex_vm_ctx) = [''e0'']"
proof -
  have n: "ctx_nodes ex_vm_ctx ! 1 \<in> set (ctx_nodes ex_vm_ctx)" by code_simp
  have "map expr_name [0..<length (exprTable ex_vm_ctx)] = [''e0'']" by code_simp
  moreover have "node_params (ctx_nodes ex_vm_ctx ! 1) =
      [(''expr_id'', JStr ''e0''), (''out_key'', JNum (Fin 7)), (''trace'', JNull)]" by code_simp
  ultimately show ?thesis using session_tables_closed [OF ex_vm_session n] by simp
qed

text \<open>
  Property C14. A call that throws leaves no trace in the plan's nodes, capabilities and extensions,
  and never removes or changes a table entry.
\<close>

theorem failed_call_keeps_plan:
  assumes "session c ctx hs" and "exec_call cl ctx = (Inl e, ctx')"
  shows "ctx_nodes ctx' = ctx_nodes ctx \<and> capabilitiesRequired ctx' = capabilitiesRequired ctx \<and>
    planExtensions ctx' = planExtensions ctx \<and>
    (\<exists>et pt. exprTable ctx' = exprTable ctx @ et \<and> predTable ctx' = predTable ctx @ pt)"
proof -
  from assms(2) have "run_call cl ctx = (Inl e, ctx')" by (rule exec_call_InlE)
  from api.contract [OF session_tables [OF assms(1)] this] show ?thesis by (auto elim: task_post_InlE)
qed

theorem failed_call_keeps_plan_witness:
  "exec_call (Concat ''n0'' (ex_concat 1)) (ex_ctx 2) = (Inl ForeignPlanCtx, ex_ctx 2) \<and>
   ctx_nodes (snd (exec_call (Concat ''n0'' (ex_concat 1)) (ex_ctx 2))) = ctx_nodes (ex_ctx 2)"
proof -
  have e: "exec_call (Concat ''n0'' (ex_concat 1)) (ex_ctx 2) = (Inl ForeignPlanCtx, ex_ctx 2)" by code_simp
  with failed_call_keeps_plan [OF ex_sessions(2) e] show ?thesis by simp
qed

text \<open>
  Property C13. A call that succeeds appends exactly one node, whose id is fresh, whose operator is the
  one of the method and whose only input is the receiver, and returns a candidate set of the same
  context for that node; earlier nodes are unchanged.
\<close>

theorem successful_call_appends:
  assumes "session c ctx hs" and "exec_call cl ctx = (Inr v, ctx')"
  shows "\<exists>n. ctx_nodes ctx' = ctx_nodes ctx @ [n] \<and> v = JCand c (node_id n) \<and>
    node_id n \<notin> ids ctx \<and> node_op n = call_op cl \<and> node_inputs n = call_ins cl"
proof -
  have inv: "plan_inv ctx" "ctx_id ctx = c" using session_invariant [OF assms(1)] by auto
  from assms(2) obtain m where run: "run_call cl ctx = (Inr m, ctx')" "v = JCand (ctx_id ctx) m" by (rule exec_call_InrE)
  have m: "m = node_name (nodeCounter ctx)"
    using api.contract [OF session_tables [OF assms(1)] run(1)] by (auto elim: task_post_InrE)
  from inv obtain ks where "\<forall>k \<in> set ks. k < nodeCounter ctx" "map node_id (ctx_nodes ctx) = map node_name ks"
    by (auto simp: plan_inv_def ids_increasing_def)
  then have "m \<notin> ids ctx" unfolding m ids_def by (metis imageE image_set less_irrefl node_name_inj)
  with api.impl_adds [OF session_tables [OF assms(1)] run(1)] run(2) inv(2) show ?thesis by auto
qed

theorem successful_call_appends_witness:
  "\<exists>n. ctx_nodes (ex_ctx 3) = ctx_nodes (ex_ctx 2) @ [n] \<and> JCand 0 ''n2'' = JCand 0 (node_id n) \<and>
    node_id n \<notin> ids (ex_ctx 2) \<and> node_op n = ''core::concat'' \<and> node_inputs n = [''n0'']"
  using successful_call_appends [OF ex_sessions(2) ex_calls(3)] by simp

text \<open>
  Property C2. The artifact finalized from any reachable context for a candidate set of that context
  passes \<open>validateArtifact\<close> exactly when the plan name is non-empty, every node's extensions use
  declared capabilities with conforming payloads, and every plan-level payload conforms: all other
  checks of the validator hold by construction.
\<close>

theorem finalize_validates:
  assumes "session c ctx hs" and "h \<in> hs"
  shows "validateArtifact (finalize h (JStr name) ctx) f = Inr () \<longleftrightarrow>
     name \<noteq> [] \<and>
     (\<forall>n \<in> set (ctx_nodes ctx). ext_declared (caps_js ctx) (node_ext n) \<and> payloads_ok (node_ext n)) \<and>
     (\<forall>(cap, p) \<in> set (planExtensions ctx). validatePayload cap p = Inr None)"
  using session_invariant [OF assms(1)] assms(2)
  by (simp add: validateArtifact_wf finalize_wf subset_iff)

theorem finalize_validates_witness:
  "validateArtifact (finalize ''n2'' (JStr ''demo'') (ex_ctx 3)) ''demo.plan.ts'' = Inr ()"
proof -
  have "list_all (\<lambda>n. node_ext n = JUndef) (ctx_nodes (ex_ctx 3))" "planExtensions (ex_ctx 3) = []" by code_simp+
  then show ?thesis
    using finalize_validates [OF ex_sessions(3), of "''n2''" "''demo''" "''demo.plan.ts''"]
    by (auto simp: list_all_iff ext_declared_def payloads_ok_def)
qed

text \<open>
  \<open>definePlan\<close> in the sandbox either throws and emits nothing, or returns and has emitted
  exactly one artifact: the one finalized from the context \<open>build\<close> left, for the candidate set it
  returned. Outside the sandbox it emits nothing.
\<close>

theorem definePlan_emits:
  "case definePlan spec build c sandbox of
     (Inl e, emitted) \<Rightarrow> emitted = []
   | (Inr planDef, emitted) \<Rightarrow>
       (if sandbox then \<exists>c' h ctx. build (new_PlanCtx c) = (Inr (JCand c' h), ctx) \<and>
           emitted = [finalize h (getp spec ''name'') ctx]
        else emitted = []) \<and>
       getp planDef ''name'' = getp spec ''name'' \<and> getp spec ''name'' \<noteq> JUndef"
  by (auto simp: definePlan_def Let_def bindR_Inr_iff getP_Inr_iff getNodeId_def
      split: sum.splits prod.splits jsval.splits)

end
