(* ===== verification/WritesEffect.thy ===== *)
theory WritesEffect
  imports Guards
begin

text \<open>
  \<open>dsl/packages/runtime/src/writes-effect.ts\<close>: the expression language for the keys a task writes
  (RFC 0005), its evaluator under a partial parameter environment, and the canonical
  serialization. The evaluator is related to a concrete semantics of the same expressions under a
  run-time environment. Case names are not array indices and not \<open>__proto__\<close>, which JavaScript
  objects order and assign in their own way.
\<close>

section \<open>Definitions\<close>

datatype writes_expr =
    EffectKeys "jnum list"
  | EffectFromParam string
  | EffectSwitchEnum string "(string \<times> writes_expr) list"
  | EffectUnion "writes_expr list"

datatype writes_effect = ExactEffect "jnum list" | MayEffect "jnum list" | UnknownEffect

datatype gamma_val = GNum jnum | GStr string

type_synonym effect_gamma = "string \<rightharpoonup> gamma_val"

definition sort_keys :: "jnum list \<Rightarrow> jnum list" where
  "sort_keys ks = js_sort_by num_gt (js_set ks)"

definition mergeKeys :: "jnum list \<Rightarrow> jnum list \<Rightarrow> jnum list" where
  "mergeKeys a b = sort_keys (a @ b)"

fun combineEffects :: "writes_effect \<Rightarrow> writes_effect \<Rightarrow> writes_effect" where
  "combineEffects UnknownEffect _ = UnknownEffect"
| "combineEffects _ UnknownEffect = UnknownEffect"
| "combineEffects (ExactEffect a) (ExactEffect b) = ExactEffect (mergeKeys a b)"
| "combineEffects (ExactEffect a) (MayEffect b) = MayEffect (mergeKeys a b)"
| "combineEffects (MayEffect a) (ExactEffect b) = MayEffect (mergeKeys a b)"
| "combineEffects (MayEffect a) (MayEffect b) = MayEffect (mergeKeys a b)"

text \<open>
  \<open>evalWrites\<close> returns \<open>undefined\<close> (\<open>None\<close>) when \<open>expr.cases[val]\<close> finds a member of
  \<open>Object.prototype\<close> and the switch meets no known kind; reading \<open>kind\<close> of that result is a
  \<open>TypeError\<close>. \<open>eval_case\<close> is the lookup and evaluation of the selected case, \<open>eval_cases\<close> the
  loop over all cases with the key set gathered so far, \<open>eval_items\<close> the loop of \<open>Union\<close> with the
  running result.
\<close>

function (sequential)
  evalWrites :: "writes_expr \<Rightarrow> effect_gamma \<Rightarrow> (dsl_error, writes_effect option) res" and
  eval_case :: "(string \<times> writes_expr) list \<Rightarrow> string \<Rightarrow> effect_gamma \<Rightarrow> (dsl_error, writes_effect option) res" and
  eval_cases :: "(string \<times> writes_expr) list \<Rightarrow> jnum list \<Rightarrow> effect_gamma \<Rightarrow> (dsl_error, writes_effect option) res" and
  eval_items :: "writes_expr list \<Rightarrow> writes_effect \<Rightarrow> effect_gamma \<Rightarrow> (dsl_error, writes_effect option) res"
where
  "evalWrites (EffectKeys keyIds) gamma = Inr (Some (ExactEffect (sort_keys keyIds)))"
| "evalWrites (EffectFromParam param) gamma =
     (case gamma param of
        Some (GNum val) \<Rightarrow> Inr (Some (ExactEffect [val]))
      | _ \<Rightarrow> Inr (Some UnknownEffect))"
| "evalWrites (EffectSwitchEnum param cases) gamma =
     (case gamma param of
        Some (GStr val) \<Rightarrow> eval_case cases val gamma
      | _ \<Rightarrow> if cases = [] then Inr (Some (ExactEffect [])) else eval_cases cases [] gamma)"
| "evalWrites (EffectUnion items) gamma =
     (if items = [] then Inr (Some (ExactEffect [])) else eval_items items (ExactEffect []) gamma)"
| "eval_case [] val gamma = (if val \<in> set object_proto then Inr None else Inr (Some UnknownEffect))"
| "eval_case ((name, e) # cases) val gamma =
     (if name = val then evalWrites e gamma else eval_case cases val gamma)"
| "eval_cases [] allKeys gamma = Inr (Some (MayEffect (js_sort_by num_gt allKeys)))"
| "eval_cases ((name, e) # cases) allKeys gamma =
     bindR (evalWrites e gamma) (\<lambda>r.
       case r of
         None \<Rightarrow> Inl TypeError
       | Some UnknownEffect \<Rightarrow> Inr (Some UnknownEffect)
       | Some (ExactEffect ks) \<Rightarrow> eval_cases cases (foldl (\<lambda>acc k. set_add k acc) allKeys ks) gamma
       | Some (MayEffect ks) \<Rightarrow> eval_cases cases (foldl (\<lambda>acc k. set_add k acc) allKeys ks) gamma)"
| "eval_items [] result gamma = Inr (Some result)"
| "eval_items (item # items) result gamma =
     bindR (evalWrites item gamma) (\<lambda>r.
       case r of
         None \<Rightarrow> Inl TypeError
       | Some itemResult \<Rightarrow>
           (let result' = combineEffects result itemResult
            in if result' = UnknownEffect then Inr (Some UnknownEffect) else eval_items items result' gamma))"
  by pat_completeness auto
termination
  by (relation "measure (\<lambda>x. case x of
        Inl (Inl (e, _)) \<Rightarrow> 2 * size e
      | Inl (Inr (cs, _, _)) \<Rightarrow> 2 * size_list (size_prod (\<lambda>_. 0) size) cs + 1
      | Inr (Inl (cs, _, _)) \<Rightarrow> 2 * size_list (size_prod (\<lambda>_. 0) size) cs + 1
      | Inr (Inr (es, _, _)) \<Rightarrow> 2 * size_list size es + 1)") auto

text \<open>\<open>serializeWritesEffect\<close>; the recursion over the cases keeps the pairing of the object.\<close>

fun serializeWritesEffect :: "writes_expr \<Rightarrow> jsval" where
  "serializeWritesEffect (EffectKeys keyIds) =
     JObj [(''kind'', JStr ''Keys''), (''key_ids'', JArr (map (\<lambda>k. JNum k) (sort_keys keyIds)))]"
| "serializeWritesEffect (EffectFromParam param) =
     JObj [(''kind'', JStr ''FromParam''), (''param'', JStr param)]"
| "serializeWritesEffect (EffectSwitchEnum param cases) =
     JObj [(''kind'', JStr ''SwitchEnum''), (''param'', JStr param),
           (''cases'', JObj (js_sort_by (\<lambda>x y. fst x > fst y) (map (\<lambda>(k, e). (k, serializeWritesEffect e)) cases)))]"
| "serializeWritesEffect (EffectUnion items) =
     JObj [(''kind'', JStr ''Union''), (''items'', JArr (map serializeWritesEffect items))]"

definition effectKeys :: "jnum list \<Rightarrow> writes_expr" where
  "effectKeys keyIds = EffectKeys keyIds"

definition effectFromParam :: "string \<Rightarrow> writes_expr" where
  "effectFromParam param = EffectFromParam param"

definition effectSwitchEnum :: "string \<Rightarrow> (string \<times> writes_expr) list \<Rightarrow> writes_expr" where
  "effectSwitchEnum param cases = EffectSwitchEnum param cases"

definition effectUnion :: "writes_expr list \<Rightarrow> writes_expr" where
  "effectUnion items = EffectUnion items"

section \<open>Concrete semantics\<close>

text \<open>
  The keys a task writes when its parameters have the run-time values \<open>rho\<close>; \<open>None\<close> when a
  parameter the expression consults is missing, of the wrong type, or names no case.
\<close>

fun concrete_writes :: "writes_expr \<Rightarrow> effect_gamma \<Rightarrow> jnum set option" and
    concrete_case :: "(string \<times> writes_expr) list \<Rightarrow> string \<Rightarrow> effect_gamma \<Rightarrow> jnum set option" and
    concrete_items :: "writes_expr list \<Rightarrow> effect_gamma \<Rightarrow> jnum set option" where
  "concrete_writes (EffectKeys ks) rho = Some (set ks)"
| "concrete_writes (EffectFromParam p) rho = (case rho p of Some (GNum k) \<Rightarrow> Some {k} | _ \<Rightarrow> None)"
| "concrete_writes (EffectSwitchEnum p cases) rho =
     (case rho p of Some (GStr s) \<Rightarrow> concrete_case cases s rho | _ \<Rightarrow> None)"
| "concrete_writes (EffectUnion items) rho = concrete_items items rho"
| "concrete_case [] s rho = None"
| "concrete_case ((k, e) # cases) s rho = (if k = s then concrete_writes e rho else concrete_case cases s rho)"
| "concrete_items [] rho = Some {}"
| "concrete_items (e # es) rho =
     (case (concrete_writes e rho, concrete_items es rho) of
        (Some A, Some B) \<Rightarrow> Some (A \<union> B) | _ \<Rightarrow> None)"

fun effect_keys :: "writes_effect \<Rightarrow> jnum list" where
  "effect_keys (ExactEffect ks) = ks"
| "effect_keys (MayEffect ks) = ks"
| "effect_keys UnknownEffect = []"

text \<open>What an effect says about the set of keys actually written.\<close>

fun covers :: "writes_effect \<Rightarrow> jnum set \<Rightarrow> bool" where
  "covers (ExactEffect ks) W \<longleftrightarrow> W = set ks"
| "covers (MayEffect ks) W \<longleftrightarrow> W \<subseteq> set ks"
| "covers UnknownEffect W \<longleftrightarrow> True"

lemma set_sort_keys [simp]: "set (sort_keys ks) = set ks"
  by (simp add: sort_keys_def)

lemma set_mergeKeys [simp]: "set (mergeKeys a b) = set a \<union> set b"
  by (simp add: mergeKeys_def)

lemma covers_combine: "covers a A \<Longrightarrow> covers b B \<Longrightarrow> covers (combineEffects a b) (A \<union> B)"
  by (cases a; cases b) auto

section \<open>Soundness and exactness\<close>

lemma map_leD: "m \<subseteq>\<^sub>m m' \<Longrightarrow> m k = Some v \<Longrightarrow> m' k = Some v"
  by (auto simp: map_le_def dom_def)

lemma eval_sound:
  "\<And>r W. gamma \<subseteq>\<^sub>m rho \<Longrightarrow> evalWrites e gamma = Inr (Some r) \<Longrightarrow> concrete_writes e rho = Some W \<Longrightarrow> covers r W"
  "\<And>r W. gamma \<subseteq>\<^sub>m rho \<Longrightarrow> eval_case cases s gamma = Inr (Some r) \<Longrightarrow> concrete_case cases s rho = Some W \<Longrightarrow> covers r W"
  "\<And>r s W. gamma \<subseteq>\<^sub>m rho \<Longrightarrow> eval_cases cases acc gamma = Inr (Some r) \<Longrightarrow>
     (\<forall>X. X \<subseteq> set acc \<longrightarrow> covers r X) \<and> (concrete_case cases s rho = Some W \<longrightarrow> covers r W)"
  "\<And>r A B. gamma \<subseteq>\<^sub>m rho \<Longrightarrow> eval_items items result gamma = Inr (Some r) \<Longrightarrow> covers result A \<Longrightarrow>
     concrete_items items rho = Some B \<Longrightarrow> covers r (A \<union> B)"
proof (induction e gamma and cases s gamma and cases acc gamma and items result gamma
    rule: evalWrites_eval_case_eval_cases_eval_items.induct)
  case (2 param gamma)
  then show ?case by (auto split: option.splits gamma_val.splits dest: map_leD)
next
  case (3 param cases gamma)
  from "3.prems" obtain s where rho: "rho param = Some (GStr s)" "concrete_case cases s rho = Some W"
    by (auto split: option.splits gamma_val.splits)
  show ?case
  proof (cases "\<exists>v. gamma param = Some (GStr v)")
    case True
    with 3 rho show ?thesis by (auto dest: map_leD)
  next
    case False
    then have "evalWrites (EffectSwitchEnum param cases) gamma =
        (if cases = [] then Inr (Some (ExactEffect [])) else eval_cases cases [] gamma)"
      by (auto split: option.splits gamma_val.splits)
    moreover have ne: "cases \<noteq> []" using rho(2) by auto
    ultimately have "eval_cases cases [] gamma = Inr (Some r)" using "3.prems"(2) by simp
    with 3 rho False ne show ?thesis by (cases "gamma param") (auto split: gamma_val.splits)
  qed
next
  case (4 items gamma)
  then show ?case by (fastforce split: if_splits)
next
  case (8 name e cases allKeys gamma)
  from "8.prems"(2) obtain q where q: "evalWrites e gamma = Inr (Some q)"
    by (auto simp: bindR_Inr_iff split: option.splits)
  show ?case
  proof (cases q)
    case UnknownEffect
    with q "8.prems"(2) show ?thesis by simp
  next
    case (ExactEffect ks)
    with q "8.prems" have rest: "eval_cases cases (foldl (\<lambda>acc k. set_add k acc) allKeys ks) gamma = Inr (Some r)" by simp
    from 8(2) [OF "8.prems"(1) rest] have acc: "\<And>X. X \<subseteq> set allKeys \<union> set ks \<Longrightarrow> covers r X"
      and rec: "\<And>s W. concrete_case cases s rho = Some W \<Longrightarrow> covers r W" by (simp_all add: foldl_set_add)
    from acc rec 8(1) [OF "8.prems"(1) q] ExactEffect show ?thesis by (auto simp: le_supI1 le_supI2)
  next
    case (MayEffect ks)
    with q "8.prems" have rest: "eval_cases cases (foldl (\<lambda>acc k. set_add k acc) allKeys ks) gamma = Inr (Some r)" by simp
    from 8(3) [OF "8.prems"(1) rest] have acc: "\<And>X. X \<subseteq> set allKeys \<union> set ks \<Longrightarrow> covers r X"
      and rec: "\<And>s W. concrete_case cases s rho = Some W \<Longrightarrow> covers r W" by (simp_all add: foldl_set_add)
    from acc rec 8(1) [OF "8.prems"(1) q] MayEffect show ?thesis by (auto simp: le_supI1 le_supI2)
  qed
next
  case (10 item items result gamma)
  from "10.prems"(2) obtain q where q: "evalWrites item gamma = Inr (Some q)"
    by (auto simp: bindR_Inr_iff split: option.splits)
  from "10.prems"(4) obtain C D where CD: "concrete_writes item rho = Some C" "concrete_items items rho = Some D" "B = C \<union> D"
    by (auto split: option.splits)
  from 10(1) [OF "10.prems"(1) q CD(1)] have "covers (combineEffects result q) (A \<union> C)"
    using "10.prems"(3) by (intro covers_combine)
  then show ?case
    using 10(2) [OF refl _ "10.prems"(1), of q r "A \<union> C" D] "10.prems"(2) q CD
    by (auto simp: Let_def Un_assoc split: if_splits)
qed (auto split: if_splits)

lemma eval_exact:
  "\<And>W. concrete_writes e gamma = Some W \<Longrightarrow> \<exists>ks. evalWrites e gamma = Inr (Some (ExactEffect ks)) \<and> set ks = W"
  "\<And>W. concrete_case cases s gamma = Some W \<Longrightarrow> \<exists>ks. eval_case cases s gamma = Inr (Some (ExactEffect ks)) \<and> set ks = W"
  "\<And>B a. concrete_items items gamma = Some B \<Longrightarrow>
     \<exists>ks. eval_items items (ExactEffect a) gamma = Inr (Some (ExactEffect ks)) \<and> set ks = set a \<union> B"
proof (induction e gamma and cases s gamma and items gamma rule: concrete_writes_concrete_case_concrete_items.induct)
  case (8 e es rho)
  from "8.prems" obtain C D where CD: "concrete_writes e rho = Some C" "concrete_items es rho = Some D" "B = C \<union> D"
    by (auto split: option.splits)
  from 8(1) [OF CD(1)] obtain ks where "evalWrites e rho = Inr (Some (ExactEffect ks))" "set ks = C" by blast
  with 8(2) [OF CD(2), of "mergeKeys a ks"] CD(3) show ?case by (auto simp: Let_def)
qed (fastforce split: option.splits gamma_val.splits if_splits)+

lemma canonical_merge: "NaN \<notin> set (mergeKeys a b) \<Longrightarrow> distinct (mergeKeys a b) \<and> sorted_wrt (\<lambda>x y. \<not> num_gt x y) (mergeKeys a b)"
  unfolding mergeKeys_def sort_keys_def by (simp add: num_cmp.sorted_js_sort_by subset_Compl_singleton)

definition canonical_keys :: "jnum list \<Rightarrow> bool" where
  "canonical_keys ks \<longleftrightarrow> distinct ks \<and> (NaN \<notin> set ks \<longrightarrow> sorted_wrt (\<lambda>x y. \<not> num_gt x y) ks)"

lemma canonical_sort: "distinct ks \<Longrightarrow> canonical_keys (js_sort_by num_gt ks)"
  by (simp add: canonical_keys_def num_cmp.sorted_js_sort_by subset_Compl_singleton)

lemma canonical_sort_keys [simp]: "canonical_keys (sort_keys ks)"
  unfolding sort_keys_def by (rule canonical_sort) simp

lemma canonical_simple [simp]: "canonical_keys []" "canonical_keys [k]"
  by (simp_all add: canonical_keys_def)

lemma canonical_combine: "canonical_keys (effect_keys (combineEffects a b))"
  by (cases a; cases b) (simp_all add: mergeKeys_def)

lemma eval_canonical:
  "\<And>r. evalWrites e gamma = Inr (Some r) \<Longrightarrow> canonical_keys (effect_keys r)"
  "\<And>r. eval_case cases s gamma = Inr (Some r) \<Longrightarrow> canonical_keys (effect_keys r)"
  "\<And>r. eval_cases cases acc gamma = Inr (Some r) \<Longrightarrow> distinct acc \<Longrightarrow> canonical_keys (effect_keys r)"
  "\<And>r. eval_items items result gamma = Inr (Some r) \<Longrightarrow> canonical_keys (effect_keys result) \<Longrightarrow> canonical_keys (effect_keys r)"
proof (induction e gamma and cases s gamma and cases acc gamma and items result gamma
    rule: evalWrites_eval_case_eval_cases_eval_items.induct)
  case (8 name e cases allKeys gamma)
  from "8.prems"(1) obtain q where "evalWrites e gamma = Inr (Some q)"
    by (auto simp: bindR_Inr_iff split: option.splits)
  with 8 show ?case by (cases q) (auto simp: foldl_set_add)
next
  case (10 item items result gamma)
  then show ?case
    by (auto simp: bindR_Inr_iff Let_def canonical_combine split: option.splits if_splits)
qed (auto simp: canonical_sort split: option.splits gamma_val.splits if_splits)

section \<open>Properties\<close>

text \<open>A task that writes a fixed key, a key named by a parameter, and keys selected by an enum.\<close>

definition ex_effect :: writes_expr where
  "ex_effect = effectUnion [effectKeys [Fin 3, Fin 1, Fin 3], effectFromParam ''out_key'',
     effectSwitchEnum ''mode'' [(''a'', effectKeys [Fin 7]), (''b'', effectKeys [Fin 5])]]"

text \<open>
  Property C17. The evaluator is sound: if the compile-time environment agrees with the run-time
  parameters wherever it is defined, then an \<open>Exact\<close> answer is the set of keys actually written and
  a \<open>May\<close> answer contains it.
\<close>

theorem evalWrites_sound:
  assumes "gamma \<subseteq>\<^sub>m rho" and "evalWrites e gamma = Inr (Some r)" and "concrete_writes e rho = Some W"
  shows "covers r W"
  using assms by (rule eval_sound)

theorem evalWrites_sound_witness:
  "covers (MayEffect [Fin 1, Fin 3, Fin 5, Fin 7, Fin 9]) {Fin 1, Fin 3, Fin 7, Fin 9}"
proof (rule evalWrites_sound [of "[''out_key'' \<mapsto> GNum (Fin 9)]" "[''out_key'' \<mapsto> GNum (Fin 9), ''mode'' \<mapsto> GStr ''a'']" ex_effect])
  show "[''out_key'' \<mapsto> GNum (Fin 9)] \<subseteq>\<^sub>m [''out_key'' \<mapsto> GNum (Fin 9), ''mode'' \<mapsto> GStr ''a'']"
    by (simp add: map_le_def)
  show "evalWrites ex_effect [''out_key'' \<mapsto> GNum (Fin 9)] = Inr (Some (MayEffect [Fin 1, Fin 3, Fin 5, Fin 7, Fin 9]))"
    by code_simp
  show "concrete_writes ex_effect [''out_key'' \<mapsto> GNum (Fin 9), ''mode'' \<mapsto> GStr ''a''] = Some {Fin 1, Fin 3, Fin 7, Fin 9}"
    by (auto simp: ex_effect_def effectUnion_def effectKeys_def effectFromParam_def effectSwitchEnum_def)
qed

text \<open>
  The evaluator is exact where the environment decides the parameters: when the
  expression has a concrete meaning under \<open>gamma\<close>, the result is \<open>Exact\<close> with precisely those keys,
  never \<open>May\<close>, \<open>Unknown\<close> or an error.
\<close>

theorem evalWrites_exact:
  assumes "concrete_writes e gamma = Some W"
  shows "\<exists>ks. evalWrites e gamma = Inr (Some (ExactEffect ks)) \<and> set ks = W"
  using assms by (rule eval_exact)

theorem evalWrites_exact_witness:
  "\<exists>ks. evalWrites ex_effect [''out_key'' \<mapsto> GNum (Fin 9), ''mode'' \<mapsto> GStr ''b''] = Inr (Some (ExactEffect ks)) \<and>
     set ks = {Fin 1, Fin 3, Fin 5, Fin 9}"
  by (rule evalWrites_exact)
    (auto simp: ex_effect_def effectUnion_def effectKeys_def effectFromParam_def effectSwitchEnum_def)

text \<open>
  The keys of every result are free of duplicates, and in ascending order unless one of
  them is \<open>NaN\<close>.
\<close>

theorem evalWrites_canonical:
  assumes "evalWrites e gamma = Inr (Some r)"
  shows "distinct (effect_keys r) \<and> (NaN \<notin> set (effect_keys r) \<longrightarrow> sorted_wrt (\<lambda>x y. \<not> num_gt x y) (effect_keys r))"
  using eval_canonical(1) [OF assms] by (simp add: canonical_keys_def)

theorem evalWrites_canonical_witness:
  "distinct (effect_keys (MayEffect [Fin 5, Fin 7]))"
proof -
  have "evalWrites (effectSwitchEnum ''mode'' [(''a'', effectKeys [Fin 7]), (''b'', effectKeys [Fin 5, Fin 7])]) Map.empty =
      Inr (Some (MayEffect [Fin 5, Fin 7]))" by code_simp
  from evalWrites_canonical [OF this] show ?thesis by blast
qed

end
