(* ===== verification/TsAst.thy ===== *)
theory TsAst
  imports JsNumber ExprPred
begin

text \<open>
  The part of the TypeScript syntax tree that the plan compiler and the lint rules look at. The
  TypeScript parser is not part of the repository: a tree (with its source text and the function
  from offsets to lines) is an input of every definition below. Nodes the sources never inspect
  are \<open>OtherNode\<close> with their kind and children.
\<close>

section \<open>Trees\<close>

datatype ts_token =
    PlusToken | MinusToken | AsteriskToken | SlashToken | ExclamationToken
  | AmpersandAmpersandToken | BarBarToken
  | EqualsEqualsToken | EqualsEqualsEqualsToken | ExclamationEqualsToken | ExclamationEqualsEqualsToken
  | LessThanToken | LessThanEqualsToken | GreaterThanToken | GreaterThanEqualsToken
  | OtherToken string

text \<open>
  The first two arguments of every constructor are \<open>getStart\<close> and \<open>getEnd\<close>. Type arguments of a
  call and operator tokens contain no calls and are left out.
\<close>

datatype (plugins only: code size) ts_ast =
    NumericLiteral nat nat string
  | StringLiteral nat nat string
  | Identifier nat nat string
  | NullKeyword nat nat
  | TrueKeyword nat nat
  | FalseKeyword nat nat
  | PrefixUnary nat nat ts_token ts_ast
  | Binary nat nat ts_token ts_ast ts_ast
  | PropertyAccess nat nat ts_ast string
  | Call nat nat ts_ast "ts_ast list"
  | Paren nat nat ts_ast
  | ObjectLiteral nat nat "ts_ast list"
  | PropertyAssignment nat nat ts_ast ts_ast
  | OtherNode nat nat string "ts_ast list"

fun getStart :: "ts_ast \<Rightarrow> nat" where
  "getStart (NumericLiteral s e t) = s"
| "getStart (StringLiteral s e t) = s"
| "getStart (Identifier s e t) = s"
| "getStart (NullKeyword s e) = s"
| "getStart (TrueKeyword s e) = s"
| "getStart (FalseKeyword s e) = s"
| "getStart (PrefixUnary s e u x) = s"
| "getStart (Binary s e u l r) = s"
| "getStart (PropertyAccess s e x n) = s"
| "getStart (Call s e f as) = s"
| "getStart (Paren s e x) = s"
| "getStart (ObjectLiteral s e ps) = s"
| "getStart (PropertyAssignment s e n i) = s"
| "getStart (OtherNode s e k cs) = s"

fun getEnd :: "ts_ast \<Rightarrow> nat" where
  "getEnd (NumericLiteral s e t) = e"
| "getEnd (StringLiteral s e t) = e"
| "getEnd (Identifier s e t) = e"
| "getEnd (NullKeyword s e) = e"
| "getEnd (TrueKeyword s e) = e"
| "getEnd (FalseKeyword s e) = e"
| "getEnd (PrefixUnary s e u x) = e"
| "getEnd (Binary s e u l r) = e"
| "getEnd (PropertyAccess s e x n) = e"
| "getEnd (Call s e f as) = e"
| "getEnd (Paren s e x) = e"
| "getEnd (ObjectLiteral s e ps) = e"
| "getEnd (PropertyAssignment s e n i) = e"
| "getEnd (OtherNode s e k cs) = e"

text \<open>\<open>ts.forEachChild\<close> visits these in this order.\<close>

fun children :: "ts_ast \<Rightarrow> ts_ast list" where
  "children (PrefixUnary s e u x) = [x]"
| "children (Binary s e u l r) = [l, r]"
| "children (PropertyAccess s e x n) = [x]"
| "children (Call s e f as) = f # as"
| "children (Paren s e x) = [x]"
| "children (ObjectLiteral s e ps) = ps"
| "children (PropertyAssignment s e n i) = [n, i]"
| "children (OtherNode s e k cs) = cs"
| "children _ = []"

text \<open>\<open>ts.SyntaxKind[node.kind]\<close>.\<close>

fun kind_name :: "ts_ast \<Rightarrow> string" where
  "kind_name (NumericLiteral s e t) = ''NumericLiteral''"
| "kind_name (StringLiteral s e t) = ''StringLiteral''"
| "kind_name (Identifier s e t) = ''Identifier''"
| "kind_name (NullKeyword s e) = ''NullKeyword''"
| "kind_name (TrueKeyword s e) = ''TrueKeyword''"
| "kind_name (FalseKeyword s e) = ''FalseKeyword''"
| "kind_name (PrefixUnary s e u x) = ''PrefixUnaryExpression''"
| "kind_name (Binary s e u l r) = ''BinaryExpression''"
| "kind_name (PropertyAccess s e x n) = ''PropertyAccessExpression''"
| "kind_name (Call s e f as) = ''CallExpression''"
| "kind_name (Paren s e x) = ''ParenthesizedExpression''"
| "kind_name (ObjectLiteral s e ps) = ''ObjectLiteralExpression''"
| "kind_name (PropertyAssignment s e n i) = ''PropertyAssignment''"
| "kind_name (OtherNode s e k cs) = k"

text \<open>\<open>node.getText(sourceFile)\<close>: the slice of the source between start and end.\<close>

definition slice :: "string \<Rightarrow> nat \<Rightarrow> nat \<Rightarrow> string" where
  "slice src i j = take (j - i) (drop i src)"

definition getText :: "string \<Rightarrow> ts_ast \<Rightarrow> string" where
  "getText src n = slice src (getStart n) (getEnd n)"

lemma children_size: "c \<in> set (children n) \<Longrightarrow> size c < size n"
  by (cases n) (auto simp: less_Suc_eq_le dest!: size_list_estimation' [where f = size, OF _ order_refl])

lemma length_slice: "i \<le> j \<Longrightarrow> j \<le> length src \<Longrightarrow> length (slice src i j) = j - i"
  by (simp add: slice_def)

end
