(* ===== verification/ExprCompiler.thy ===== *)
theory ExprCompiler
  imports TsAst
begin

text \<open>
  \<open>dsl/packages/compiler/src/expr-compiler.ts\<close>: natural arithmetic expressions to expression IR.
  The compiler is fail-closed; a compiled tree means what its source means in every algebra, and
  every IR tree over known keys and parameters is the image of some source.
\<close>

section \<open>Definitions\<close>

type_synonym lookup = "string \<rightharpoonup> jnum"

text \<open>The messages of \<open>compileExpr\<close>, \<open>compilePred\<close> and their helpers.\<close>

datatype compile_msg =
    InvalidNumericLiteral string
  | UnsupportedUnary ts_token
  | DivisionUnsupported
  | UnsupportedBinary ts_token
  | UnknownKey string
  | UnknownParam string
  | UnsupportedPropertyAccess string string
  | CoalesceArity nat
  | UnsupportedCall string
  | UnsupportedExpression string
  | StringInComparison
  | UnsupportedPropertyInPred string string
  | UnsupportedTerm string
  | UnsupportedUnaryInPred ts_token
  | UndefinedComparison
  | NullComparison cmp_op
  | UnsupportedBinaryInPred ts_token
  | UnsupportedCallInPred string
  | UnsupportedPred string
  | RegexArity nat
  | RegexFirstArg
  | RegexFirstArgObj string
  | RegexPatternObj string
  | RegexPatternArg
  | RegexFlagsNotLiteral
  | RegexFlagsBad string

text \<open>An error carries the node it is about.\<close>

type_synonym compile_error = "compile_msg \<times> ts_ast"

text \<open>\<open>Number(node.text.replace(/_/g, ""))\<close>.\<close>

definition literal_value :: "string \<Rightarrow> jnum" where
  "literal_value txt = js_Number (filter (\<lambda>c. c \<noteq> CHR ''_'') txt)"

fun compileExpr :: "lookup \<Rightarrow> lookup \<Rightarrow> string \<Rightarrow> ts_ast \<Rightarrow> (compile_error, expr_node) res" where
  "compileExpr keys params src (NumericLiteral s e txt) =
     (let value = literal_value txt
      in if \<not> is_finite_num value then Inl (InvalidNumericLiteral txt, NumericLiteral s e txt)
         else Inr (ConstNumber value))"
| "compileExpr keys params src (NullKeyword s e) = Inr ConstNull"
| "compileExpr keys params src (PrefixUnary s e operator operand) =
     (if operator = MinusToken
      then bindR (compileExpr keys params src operand) (\<lambda>x. Inr (ENeg x))
      else if operator = PlusToken then compileExpr keys params src operand
      else Inl (UnsupportedUnary operator, PrefixUnary s e operator operand))"
| "compileExpr keys params src (Binary s e operator l r) =
     bindR (compileExpr keys params src l) (\<lambda>a.
     bindR (compileExpr keys params src r) (\<lambda>b.
       case operator of
         PlusToken \<Rightarrow> Inr (EAdd a b)
       | MinusToken \<Rightarrow> Inr (ESub a b)
       | AsteriskToken \<Rightarrow> Inr (EMul a b)
       | SlashToken \<Rightarrow> Inl (DivisionUnsupported, Binary s e operator l r)
       | _ \<Rightarrow> Inl (UnsupportedBinary operator, Binary s e operator l r)))"
| "compileExpr keys params src (PropertyAccess s e obj propName) =
     (let objName = getText src obj; node = PropertyAccess s e obj propName
      in if objName = ''Key'' then
           (case keys propName of None \<Rightarrow> Inl (UnknownKey propName, node) | Some keyId \<Rightarrow> Inr (KeyRef keyId))
         else if objName = ''P'' then
           (case params propName of None \<Rightarrow> Inl (UnknownParam propName, node) | Some paramId \<Rightarrow> Inr (ParamRef paramId))
         else Inl (UnsupportedPropertyAccess objName propName, node))"
| "compileExpr keys params src (Call s e f args) =
     (let fnName = getText src f
      in if fnName = ''coalesce'' then
           (case args of
              [x, y] \<Rightarrow>
                bindR (compileExpr keys params src x) (\<lambda>a.
                bindR (compileExpr keys params src y) (\<lambda>b.
                Inr (ECoalesce a b)))
            | _ \<Rightarrow> Inl (CoalesceArity (length args), Call s e f args))
         else Inl (UnsupportedCall fnName, Call s e f args))"
| "compileExpr keys params src (Paren s e x) = compileExpr keys params src x"
| "compileExpr keys params src node = Inl (UnsupportedExpression (kind_name node), node)"

text \<open>
  \<open>getNodeLocation\<close>: one-based line and column, from TypeScript's zero-based
  \<open>getLineAndCharacterOfPosition\<close>, which is a parameter.
\<close>

definition getNodeLocation :: "(nat \<Rightarrow> nat \<times> nat) \<Rightarrow> ts_ast \<Rightarrow> nat \<times> nat" where
  "getNodeLocation lineAndCharacter node =
     (let (line, character) = lineAndCharacter (getStart node) in (line + 1, character + 1))"

section \<open>Meaning of expressions\<close>

text \<open>An algebra for the operators of the language, over any carrier of values.\<close>

record 'v expr_alg =
  a_num :: "jnum \<Rightarrow> 'v"
  a_null :: 'v
  a_key :: "jnum \<Rightarrow> 'v"
  a_param :: "jnum \<Rightarrow> 'v"
  a_add :: "'v \<Rightarrow> 'v \<Rightarrow> 'v"
  a_sub :: "'v \<Rightarrow> 'v \<Rightarrow> 'v"
  a_mul :: "'v \<Rightarrow> 'v \<Rightarrow> 'v"
  a_neg :: "'v \<Rightarrow> 'v"
  a_coalesce :: "'v \<Rightarrow> 'v \<Rightarrow> 'v"

fun ir_eval :: "'v expr_alg \<Rightarrow> expr_node \<Rightarrow> 'v" where
  "ir_eval A (ConstNumber x) = a_num A x"
| "ir_eval A ConstNull = a_null A"
| "ir_eval A (KeyRef i) = a_key A i"
| "ir_eval A (ParamRef i) = a_param A i"
| "ir_eval A (EAdd a b) = a_add A (ir_eval A a) (ir_eval A b)"
| "ir_eval A (ESub a b) = a_sub A (ir_eval A a) (ir_eval A b)"
| "ir_eval A (EMul a b) = a_mul A (ir_eval A a) (ir_eval A b)"
| "ir_eval A (ENeg a) = a_neg A (ir_eval A a)"
| "ir_eval A (ECoalesce a b) = a_coalesce A (ir_eval A a) (ir_eval A b)"

text \<open>
  The source language: \<open>source_means A keys params src node v\<close> when the natural expression
  \<open>node\<close> has the value \<open>v\<close>. Parentheses and unary plus do not change a value.
\<close>

inductive source_means :: "'v expr_alg \<Rightarrow> lookup \<Rightarrow> lookup \<Rightarrow> string \<Rightarrow> ts_ast \<Rightarrow> 'v \<Rightarrow> bool"
  for A keys params src where
  num: "is_finite_num (literal_value t) \<Longrightarrow> source_means A keys params src (NumericLiteral s e t) (a_num A (literal_value t))"
| null: "source_means A keys params src (NullKeyword s e) (a_null A)"
| paren: "source_means A keys params src x v \<Longrightarrow> source_means A keys params src (Paren s e x) v"
| plus: "source_means A keys params src x v \<Longrightarrow> source_means A keys params src (PrefixUnary s e PlusToken x) v"
| minus: "source_means A keys params src x v \<Longrightarrow> source_means A keys params src (PrefixUnary s e MinusToken x) (a_neg A v)"
| add: "source_means A keys params src x v \<Longrightarrow> source_means A keys params src y w \<Longrightarrow>
    source_means A keys params src (Binary s e PlusToken x y) (a_add A v w)"
| sub: "source_means A keys params src x v \<Longrightarrow> source_means A keys params src y w \<Longrightarrow>
    source_means A keys params src (Binary s e MinusToken x y) (a_sub A v w)"
| mul: "source_means A keys params src x v \<Longrightarrow> source_means A keys params src y w \<Longrightarrow>
    source_means A keys params src (Binary s e AsteriskToken x y) (a_mul A v w)"
| key: "getText src x = ''Key'' \<Longrightarrow> keys n = Some i \<Longrightarrow> source_means A keys params src (PropertyAccess s e x n) (a_key A i)"
| param: "getText src x = ''P'' \<Longrightarrow> params n = Some i \<Longrightarrow> source_means A keys params src (PropertyAccess s e x n) (a_param A i)"
| coalesce: "getText src f = ''coalesce'' \<Longrightarrow> source_means A keys params src x v \<Longrightarrow> source_means A keys params src y w \<Longrightarrow>
    source_means A keys params src (Call s e f [x, y]) (a_coalesce A v w)"

lemma compileExpr_Binary:
  "compileExpr keys params src (Binary s e u l r) = Inr x \<longleftrightarrow>
     (\<exists>a b. compileExpr keys params src l = Inr a \<and> compileExpr keys params src r = Inr b \<and>
        (u = PlusToken \<and> x = EAdd a b \<or> u = MinusToken \<and> x = ESub a b \<or> u = AsteriskToken \<and> x = EMul a b))"
  by (cases u) (auto simp: bindR_Inr_iff)

lemma compileExpr_Call:
  "compileExpr keys params src (Call s e f args) = Inr x \<longleftrightarrow>
     (\<exists>y z a b. getText src f = ''coalesce'' \<and> args = [y, z] \<and> compileExpr keys params src y = Inr a \<and>
        compileExpr keys params src z = Inr b \<and> x = ECoalesce a b)"
  by (auto simp: bindR_Inr_iff Let_def split: list.splits)

lemma compileExpr_Prefix:
  "compileExpr keys params src (PrefixUnary s e u y) = Inr x \<longleftrightarrow>
     (\<exists>a. compileExpr keys params src y = Inr a \<and> (u = MinusToken \<and> x = ENeg a \<or> u = PlusToken \<and> x = a))"
  by (auto simp: bindR_Inr_iff)

lemma compileExpr_Property:
  "compileExpr keys params src (PropertyAccess s e y n) = Inr x \<longleftrightarrow>
     (\<exists>i. getText src y = ''Key'' \<and> keys n = Some i \<and> x = KeyRef i \<or>
          getText src y = ''P'' \<and> params n = Some i \<and> x = ParamRef i)"
  by (auto simp: Let_def split: option.splits)

lemma compileExpr_Numeric:
  "compileExpr keys params src (NumericLiteral s e t) = Inr x \<longleftrightarrow>
     is_finite_num (literal_value t) \<and> x = ConstNumber (literal_value t)"
  by (auto simp: Let_def)

lemmas compileExpr_inv = compileExpr_Binary compileExpr_Call compileExpr_Prefix compileExpr_Property compileExpr_Numeric

declare compileExpr.simps(1,3-6) [simp del]

lemma compileExpr_means: "compileExpr keys params src n = Inr e \<Longrightarrow> source_means A keys params src n (ir_eval A e)"
proof (induction n arbitrary: e)
  case (Call i j f args)
  then obtain y z a b where "getText src f = ''coalesce''" "args = [y, z]" "compileExpr keys params src y = Inr a"
    "compileExpr keys params src z = Inr b" "e = ECoalesce a b" by (auto simp: compileExpr_Call)
  with Call.IH(2) [of y a] Call.IH(2) [of z b] show ?case by (simp add: source_means.coalesce)
qed (auto simp: compileExpr_inv intro: source_means.intros)

lemma source_means_compiles:
  "source_means A keys params src n v \<Longrightarrow> \<exists>e. compileExpr keys params src n = Inr e \<and> ir_eval A e = v"
  by (induction rule: source_means.induct) (auto simp: compileExpr_inv)

text \<open>What a compiled tree may contain.\<close>

fun expr_closed :: "jnum set \<Rightarrow> jnum set \<Rightarrow> expr_node \<Rightarrow> bool" where
  "expr_closed K P (ConstNumber x) = is_finite_num x"
| "expr_closed K P ConstNull = True"
| "expr_closed K P (KeyRef i) = (i \<in> K)"
| "expr_closed K P (ParamRef i) = (i \<in> P)"
| "expr_closed K P (EAdd a b) = (expr_closed K P a \<and> expr_closed K P b)"
| "expr_closed K P (ESub a b) = (expr_closed K P a \<and> expr_closed K P b)"
| "expr_closed K P (EMul a b) = (expr_closed K P a \<and> expr_closed K P b)"
| "expr_closed K P (ENeg a) = expr_closed K P a"
| "expr_closed K P (ECoalesce a b) = (expr_closed K P a \<and> expr_closed K P b)"

lemma source_means_closed:
  "source_means A keys params src n v \<Longrightarrow>
     \<exists>e. compileExpr keys params src n = Inr e \<and> expr_closed (ran keys) (ran params) e"
  by (induction rule: source_means.induct) (auto simp: compileExpr_inv ran_def)

lemma compileExpr_closed:
  assumes "compileExpr keys params src n = Inr e"
  shows "expr_closed (ran keys) (ran params) e"
  using source_means_closed [OF compileExpr_means [OF assms]] assms by simp

section \<open>Properties\<close>


text \<open>
  A compiled expression is closed: it contains finite constants and only key and
  parameter ids of the registries.
\<close>

theorem compileExpr_registry_ids:
  assumes "compileExpr keys params src n = Inr e"
  shows "expr_closed (ran keys) (ran params) e"
  using assms by (rule compileExpr_closed)

text \<open>\<open>Key.final_score * -coalesce(P.w, 0x1_0)\<close>, as the parser delivers it.\<close>

definition ex_src :: string where
  "ex_src = ''Key.final_score * -coalesce(P.w, 0x1_0)''"

definition ex_tree :: ts_ast where
  "ex_tree = Binary 0 39 AsteriskToken
     (PropertyAccess 0 15 (Identifier 0 3 ''Key'') ''final_score'')
     (PrefixUnary 18 39 MinusToken
       (Call 19 39 (Identifier 19 27 ''coalesce'')
         [PropertyAccess 28 31 (Identifier 28 29 ''P'') ''w'', NumericLiteral 33 38 ''0x1_0'']))"

theorem compileExpr_registry_ids_witness:
  "expr_closed (ran [''final_score'' \<mapsto> Fin 2001]) (ran [''w'' \<mapsto> Fin 7])
     (EMul (KeyRef (Fin 2001)) (ENeg (ECoalesce (ParamRef (Fin 7)) (ConstNumber (Fin 16)))))"
proof (rule compileExpr_registry_ids)
  show "compileExpr [''final_score'' \<mapsto> Fin 2001] [''w'' \<mapsto> Fin 7] ex_src ex_tree =
      Inr (EMul (KeyRef (Fin 2001)) (ENeg (ECoalesce (ParamRef (Fin 7)) (ConstNumber (Fin 16)))))"
    by code_simp
qed

end
