(* ===== verification/PredCompiler.thy ===== *)
theory PredCompiler
  imports ExprCompiler
begin

text \<open>
  \<open>dsl/packages/compiler/src/pred-compiler.ts\<close>: natural predicates to predicate IR, with the same
  two guarantees as for expressions.
\<close>

section \<open>Definitions\<close>

fun compileTerm :: "lookup \<Rightarrow> lookup \<Rightarrow> string \<Rightarrow> ts_ast \<Rightarrow> (compile_error, expr_node) res" where
  "compileTerm keys params src (NumericLiteral s e txt) =
     (let value = literal_value txt
      in if \<not> is_finite_num value then Inl (InvalidNumericLiteral txt, NumericLiteral s e txt)
         else Inr (ConstNumber value))"
| "compileTerm keys params src (StringLiteral s e txt) = Inl (StringInComparison, StringLiteral s e txt)"
| "compileTerm keys params src (NullKeyword s e) = Inr ConstNull"
| "compileTerm keys params src (PropertyAccess s e obj propName) =
     (let objName = getText src obj; node = PropertyAccess s e obj propName
      in if objName = ''Key'' then
           (case keys propName of None \<Rightarrow> Inl (UnknownKey propName, node) | Some keyId \<Rightarrow> Inr (KeyRef keyId))
         else if objName = ''P'' then
           (case params propName of None \<Rightarrow> Inl (UnknownParam propName, node) | Some paramId \<Rightarrow> Inr (ParamRef paramId))
         else Inl (UnsupportedPropertyInPred objName propName, node))"
| "compileTerm keys params src (Paren s e x) = compileTerm keys params src x"
| "compileTerm keys params src node = Inl (UnsupportedTerm (kind_name node), node)"

fun isNullLiteral :: "ts_ast \<Rightarrow> bool" where
  "isNullLiteral (NullKeyword s e) = True"
| "isNullLiteral _ = False"

fun isUndefinedLiteral :: "string \<Rightarrow> ts_ast \<Rightarrow> bool" where
  "isUndefinedLiteral src (Identifier s e t) = (getText src (Identifier s e t) = ''undefined'')"
| "isUndefinedLiteral src _ = False"

text \<open>The table \<open>cmpOps\<close>.\<close>

fun cmpOps :: "ts_token \<Rightarrow> cmp_op option" where
  "cmpOps EqualsEqualsToken = Some CmpEq"
| "cmpOps EqualsEqualsEqualsToken = Some CmpEq"
| "cmpOps ExclamationEqualsToken = Some CmpNe"
| "cmpOps ExclamationEqualsEqualsToken = Some CmpNe"
| "cmpOps LessThanToken = Some CmpLt"
| "cmpOps LessThanEqualsToken = Some CmpLe"
| "cmpOps GreaterThanToken = Some CmpGt"
| "cmpOps GreaterThanEqualsToken = Some CmpGe"
| "cmpOps _ = None"

text \<open>The three arguments of \<open>regex()\<close>.\<close>

fun regexKey :: "lookup \<Rightarrow> string \<Rightarrow> ts_ast \<Rightarrow> (compile_error, jnum) res" where
  "regexKey keys src (PropertyAccess s e obj keyName) =
     (let keyArg = PropertyAccess s e obj keyName; keyObjName = getText src obj
      in if keyObjName \<noteq> ''Key'' then Inl (RegexFirstArgObj keyObjName, keyArg)
         else case keys keyName of None \<Rightarrow> Inl (UnknownKey keyName, keyArg) | Some keyId \<Rightarrow> Inr keyId)"
| "regexKey keys src keyArg = Inl (RegexFirstArg, keyArg)"

fun regexPattern :: "lookup \<Rightarrow> string \<Rightarrow> ts_ast \<Rightarrow> (compile_error, regex_pattern) res" where
  "regexPattern params src (StringLiteral s e txt) = Inr (RegexLiteral txt)"
| "regexPattern params src (PropertyAccess s e obj paramName) =
     (let patternArg = PropertyAccess s e obj paramName; patternObjName = getText src obj
      in if patternObjName \<noteq> ''P'' then Inl (RegexPatternObj patternObjName, patternArg)
         else case params paramName of
           None \<Rightarrow> Inl (UnknownParam paramName, patternArg) | Some paramId \<Rightarrow> Inr (RegexParam paramId))"
| "regexPattern params src patternArg = Inl (RegexPatternArg, patternArg)"

fun regexFlags :: "ts_ast list \<Rightarrow> (compile_error, string) res" where
  "regexFlags [] = Inr []"
| "regexFlags (StringLiteral s e flags # _) =
     (if flags \<noteq> [] \<and> flags \<noteq> ''i'' then Inl (RegexFlagsBad flags, StringLiteral s e flags) else Inr flags)"
| "regexFlags (flagsArg # _) = Inl (RegexFlagsNotLiteral, flagsArg)"

definition compileRegexCall :: "lookup \<Rightarrow> lookup \<Rightarrow> string \<Rightarrow> ts_ast list \<Rightarrow> ts_ast \<Rightarrow> (compile_error, pred_node) res" where
  "compileRegexCall keys params src args node =
     (if length args < 2 \<or> length args > 3 then Inl (RegexArity (length args), node)
      else bindR (regexKey keys src (args ! 0)) (\<lambda>keyId.
           bindR (regexPattern params src (args ! 1)) (\<lambda>pattern.
           bindR (regexFlags (drop 2 args)) (\<lambda>flags.
           Inr (PRegex keyId pattern flags)))))"

text \<open>A comparison, once its operator is known.\<close>

definition compileCmp :: "lookup \<Rightarrow> lookup \<Rightarrow> string \<Rightarrow> cmp_op \<Rightarrow> ts_ast \<Rightarrow> ts_ast \<Rightarrow> ts_ast \<Rightarrow> (compile_error, pred_node) res" where
  "compileCmp keys params src cmpOp l r node =
     (if isUndefinedLiteral src l \<or> isUndefinedLiteral src r then Inl (UndefinedComparison, node)
      else if isNullLiteral l \<or> isNullLiteral r then
        bindR (compileTerm keys params src (if isNullLiteral l then r else l)) (\<lambda>x.
          if cmpOp = CmpEq then Inr (IsNull x)
          else if cmpOp = CmpNe then Inr (NotNull x)
          else Inl (NullComparison cmpOp, node))
      else bindR (compileTerm keys params src l) (\<lambda>a.
           bindR (compileTerm keys params src r) (\<lambda>b.
           Inr (PCmp cmpOp a b))))"

fun compilePred :: "lookup \<Rightarrow> lookup \<Rightarrow> string \<Rightarrow> ts_ast \<Rightarrow> (compile_error, pred_node) res" where
  "compilePred keys params src (TrueKeyword s e) = Inr (ConstBool True)"
| "compilePred keys params src (FalseKeyword s e) = Inr (ConstBool False)"
| "compilePred keys params src (Paren s e x) = compilePred keys params src x"
| "compilePred keys params src (PrefixUnary s e operator operand) =
     (if operator = ExclamationToken
      then bindR (compilePred keys params src operand) (\<lambda>x. Inr (PNot x))
      else Inl (UnsupportedUnaryInPred operator, PrefixUnary s e operator operand))"
| "compilePred keys params src (Binary s e opKind l r) =
     (if opKind = AmpersandAmpersandToken then
        bindR (compilePred keys params src l) (\<lambda>a. bindR (compilePred keys params src r) (\<lambda>b. Inr (PAnd a b)))
      else if opKind = BarBarToken then
        bindR (compilePred keys params src l) (\<lambda>a. bindR (compilePred keys params src r) (\<lambda>b. Inr (POr a b)))
      else case cmpOps opKind of
        Some cmpOp \<Rightarrow> compileCmp keys params src cmpOp l r (Binary s e opKind l r)
      | None \<Rightarrow> Inl (UnsupportedBinaryInPred opKind, Binary s e opKind l r))"
| "compilePred keys params src (Call s e f args) =
     (let fnName = getText src f
      in if fnName = ''regex'' then compileRegexCall keys params src args (Call s e f args)
         else Inl (UnsupportedCallInPred fnName, Call s e f args))"
| "compilePred keys params src node = Inl (UnsupportedPred (kind_name node), node)"

section \<open>Meaning of predicates\<close>

record ('v, 'b) pred_alg =
  p_bool :: "bool \<Rightarrow> 'b"
  p_and :: "'b \<Rightarrow> 'b \<Rightarrow> 'b"
  p_or :: "'b \<Rightarrow> 'b \<Rightarrow> 'b"
  p_not :: "'b \<Rightarrow> 'b"
  p_cmp :: "cmp_op \<Rightarrow> 'v \<Rightarrow> 'v \<Rightarrow> 'b"
  p_in :: "'v \<Rightarrow> lit list \<Rightarrow> 'b"
  p_null :: "'v \<Rightarrow> 'b"
  p_notnull :: "'v \<Rightarrow> 'b"
  p_regex :: "jnum \<Rightarrow> regex_pattern \<Rightarrow> string \<Rightarrow> 'b"

fun pred_eval :: "'v expr_alg \<Rightarrow> ('v, 'b) pred_alg \<Rightarrow> pred_node \<Rightarrow> 'b" where
  "pred_eval A B (ConstBool b) = p_bool B b"
| "pred_eval A B (PAnd a b) = p_and B (pred_eval A B a) (pred_eval A B b)"
| "pred_eval A B (POr a b) = p_or B (pred_eval A B a) (pred_eval A B b)"
| "pred_eval A B (PNot a) = p_not B (pred_eval A B a)"
| "pred_eval A B (PCmp c a b) = p_cmp B c (ir_eval A a) (ir_eval A b)"
| "pred_eval A B (PIn a ls) = p_in B (ir_eval A a) ls"
| "pred_eval A B (IsNull a) = p_null B (ir_eval A a)"
| "pred_eval A B (NotNull a) = p_notnull B (ir_eval A a)"
| "pred_eval A B (PRegex k p f) = p_regex B k p f"

text \<open>Terms of a comparison: the expressions without operators and calls.\<close>

fun is_term :: "ts_ast \<Rightarrow> bool" where
  "is_term (NumericLiteral s e t) = True"
| "is_term (NullKeyword s e) = True"
| "is_term (PropertyAccess s e x n) = True"
| "is_term (Paren s e x) = is_term x"
| "is_term _ = False"

lemma compileTerm_iff: "compileTerm keys params src n = Inr e \<longleftrightarrow> is_term n \<and> compileExpr keys params src n = Inr e"
  by (induction keys params src n arbitrary: e rule: compileTerm.induct) (auto simp: compileExpr_inv Let_def split: option.splits)

abbreviation term_means :: "'v expr_alg \<Rightarrow> lookup \<Rightarrow> lookup \<Rightarrow> string \<Rightarrow> ts_ast \<Rightarrow> 'v \<Rightarrow> bool" where
  "term_means A keys params src n v \<equiv> is_term n \<and> source_means A keys params src n v"

text \<open>\<open>regex(Key.k, pattern, flags)\<close> as a value of its argument list.\<close>

inductive regex_means :: "('v, 'b) pred_alg \<Rightarrow> lookup \<Rightarrow> lookup \<Rightarrow> string \<Rightarrow> ts_ast list \<Rightarrow> 'b \<Rightarrow> bool"
  for B keys params src where
  literal: "getText src k = ''Key'' \<Longrightarrow> keys n = Some i \<Longrightarrow> regexFlags fl = Inr flags \<Longrightarrow> length fl \<le> 1 \<Longrightarrow>
    regex_means B keys params src (PropertyAccess s e k n # StringLiteral s' e' t # fl) (p_regex B i (RegexLiteral t) flags)"
| param: "getText src k = ''Key'' \<Longrightarrow> keys n = Some i \<Longrightarrow> regexFlags fl = Inr flags \<Longrightarrow> length fl \<le> 1 \<Longrightarrow>
    getText src p = ''P'' \<Longrightarrow> params m = Some j \<Longrightarrow>
    regex_means B keys params src (PropertyAccess s e k n # PropertyAccess s' e' p m # fl) (p_regex B i (RegexParam j) flags)"

inductive pred_means ::
  "'v expr_alg \<Rightarrow> ('v, 'b) pred_alg \<Rightarrow> lookup \<Rightarrow> lookup \<Rightarrow> string \<Rightarrow> ts_ast \<Rightarrow> 'b \<Rightarrow> bool"
  for A B keys params src where
  true: "pred_means A B keys params src (TrueKeyword s e) (p_bool B True)"
| false: "pred_means A B keys params src (FalseKeyword s e) (p_bool B False)"
| paren: "pred_means A B keys params src x v \<Longrightarrow> pred_means A B keys params src (Paren s e x) v"
| not: "pred_means A B keys params src x v \<Longrightarrow> pred_means A B keys params src (PrefixUnary s e ExclamationToken x) (p_not B v)"
| conj: "pred_means A B keys params src x v \<Longrightarrow> pred_means A B keys params src y w \<Longrightarrow>
    pred_means A B keys params src (Binary s e AmpersandAmpersandToken x y) (p_and B v w)"
| disj: "pred_means A B keys params src x v \<Longrightarrow> pred_means A B keys params src y w \<Longrightarrow>
    pred_means A B keys params src (Binary s e BarBarToken x y) (p_or B v w)"
| null: "cmpOps u = Some CmpEq \<Longrightarrow> term_means A keys params src x v \<Longrightarrow>
    isNullLiteral l \<and> x = r \<or> \<not> isNullLiteral l \<and> isNullLiteral r \<and> x = l \<Longrightarrow>
    pred_means A B keys params src (Binary s e u l r) (p_null B v)"
| notnull: "cmpOps u = Some CmpNe \<Longrightarrow> term_means A keys params src x v \<Longrightarrow>
    isNullLiteral l \<and> x = r \<or> \<not> isNullLiteral l \<and> isNullLiteral r \<and> x = l \<Longrightarrow>
    pred_means A B keys params src (Binary s e u l r) (p_notnull B v)"
| cmp: "cmpOps u = Some c \<Longrightarrow> \<not> isNullLiteral x \<Longrightarrow> \<not> isNullLiteral y \<Longrightarrow> term_means A keys params src x v \<Longrightarrow>
    term_means A keys params src y w \<Longrightarrow> pred_means A B keys params src (Binary s e u x y) (p_cmp B c v w)"
| regex: "getText src f = ''regex'' \<Longrightarrow> regex_means B keys params src args v \<Longrightarrow>
    pred_means A B keys params src (Call s e f args) v"

lemma term_means_iff:
  "term_means A keys params src n v \<longleftrightarrow> (\<exists>e. compileTerm keys params src n = Inr e \<and> ir_eval A e = v)"
  by (auto simp: compileTerm_iff dest: source_means_compiles intro: compileExpr_means)

lemma regexKey_iff:
  "regexKey keys src n = Inr i \<longleftrightarrow> (\<exists>s e k m. n = PropertyAccess s e k m \<and> getText src k = ''Key'' \<and> keys m = Some i)"
  by (cases n) (auto simp: Let_def split: option.splits)

lemma regexPattern_iff:
  "regexPattern params src n = Inr p \<longleftrightarrow>
     (\<exists>s e t. n = StringLiteral s e t \<and> p = RegexLiteral t) \<or>
     (\<exists>s e k m j. n = PropertyAccess s e k m \<and> getText src k = ''P'' \<and> params m = Some j \<and> p = RegexParam j)"
  by (cases n) (auto simp: Let_def split: option.splits)

lemma two_or_three: "\<not> (length xs < 2 \<or> length xs > 3) \<longleftrightarrow> (\<exists>a b fl. xs = a # b # fl \<and> length fl \<le> 1)"
  by (cases xs; cases "tl xs") auto

lemma compileRegexCall_iff:
  "compileRegexCall keys params src args node = Inr p \<longleftrightarrow>
     (\<exists>a b fl i q flags. args = a # b # fl \<and> length fl \<le> 1 \<and> regexKey keys src a = Inr i \<and>
        regexPattern params src b = Inr q \<and> regexFlags fl = Inr flags \<and> p = PRegex i q flags)"
proof (cases "\<exists>a b fl. args = a # b # fl \<and> length fl \<le> 1")
  case True
  then show ?thesis by (auto simp: compileRegexCall_def bindR_Inr_iff)
next
  case False
  then show ?thesis using two_or_three [of args] by (auto simp: compileRegexCall_def)
qed

lemma regex_means_iff:
  "regex_means B keys params src args v \<longleftrightarrow>
     (\<exists>p. compileRegexCall keys params src args node = Inr p \<and> pred_eval A B p = v)"
  unfolding compileRegexCall_iff regexKey_iff regexPattern_iff regex_means.simps by fastforce

lemma undefined_not_term: "isUndefinedLiteral src n \<Longrightarrow> \<not> is_term n"
  by (cases n) auto

lemma null_not_undefined: "isNullLiteral n \<Longrightarrow> \<not> isUndefinedLiteral src n"
  by (cases n) auto

lemma compileCmp_means:
  assumes "cmpOps u = Some c" and "compileCmp keys params src c l r node = Inr p"
  shows "pred_means A B keys params src (Binary s e u l r) (pred_eval A B p)"
proof (cases "isNullLiteral l \<or> isNullLiteral r")
  case True
  with assms obtain x where x: "compileTerm keys params src (if isNullLiteral l then r else l) = Inr x"
    "c = CmpEq \<and> p = IsNull x \<or> c = CmpNe \<and> p = NotNull x"
    by (auto simp: compileCmp_def bindR_Inr_iff split: if_splits)
  then have "term_means A keys params src (if isNullLiteral l then r else l) (ir_eval A x)"
    unfolding term_means_iff by blast
  with x(2) True assms(1) show ?thesis
    by (auto intro: pred_means.null pred_means.notnull split: if_splits)
next
  case False
  with assms obtain a b where ab: "compileTerm keys params src l = Inr a" "compileTerm keys params src r = Inr b" "p = PCmp c a b"
    by (auto simp: compileCmp_def bindR_Inr_iff split: if_splits)
  then have "term_means A keys params src l (ir_eval A a)" "term_means A keys params src r (ir_eval A b)"
    unfolding term_means_iff by blast+
  with False ab(3) assms(1) show ?thesis by (simp add: pred_means.cmp)
qed

lemma compilePred_means: "compilePred keys params src n = Inr p \<Longrightarrow> pred_means A B keys params src n (pred_eval A B p)"
proof (induction n arbitrary: p)
  case (Call s e f args)
  then show ?case
    by (auto simp: Let_def regex_means_iff [of B keys params src args _ "Call s e f args" A] intro!: pred_means.regex split: if_splits)
next
  case (Binary s e u l r)
  then show ?case
    by (auto simp: bindR_Inr_iff intro: pred_means.intros compileCmp_means split: if_splits option.splits)
qed (auto simp: bindR_Inr_iff intro: pred_means.intros split: if_splits)

lemma cmp_not_logical: "cmpOps u = Some c \<Longrightarrow> u \<noteq> AmpersandAmpersandToken \<and> u \<noteq> BarBarToken"
  by (cases u) auto

lemma compileTerm_not_undefined: "compileTerm keys params src n = Inr e \<Longrightarrow> \<not> isUndefinedLiteral src n"
  using undefined_not_term by (auto simp: compileTerm_iff)

lemma pred_means_compiles:
  "pred_means A B keys params src n v \<Longrightarrow> \<exists>p. compilePred keys params src n = Inr p \<and> pred_eval A B p = v"
proof (induction rule: pred_means.induct)
  case (null u x v l r s e)
  then obtain a where "compileTerm keys params src x = Inr a" "ir_eval A a = v" unfolding term_means_iff by blast
  with null show ?case
    by (auto simp: cmp_not_logical compileCmp_def compileTerm_not_undefined null_not_undefined)
next
  case (notnull u x v l r s e)
  then obtain a where "compileTerm keys params src x = Inr a" "ir_eval A a = v" unfolding term_means_iff by blast
  with notnull show ?case
    by (auto simp: cmp_not_logical compileCmp_def compileTerm_not_undefined null_not_undefined)
next
  case (cmp u c x y v w s e)
  then obtain a b where "compileTerm keys params src x = Inr a" "ir_eval A a = v"
    "compileTerm keys params src y = Inr b" "ir_eval A b = w" unfolding term_means_iff by blast
  with cmp show ?case by (auto simp: cmp_not_logical compileCmp_def compileTerm_not_undefined)
next
  case (regex f args v s e)
  then show ?case using regex_means_iff [of B keys params src args v "Call s e f args" A] by simp
qed auto

section \<open>Properties\<close>


end
