(* ===== verification/AstExtractor.thy ===== *)
theory AstExtractor
  imports PredCompiler
begin

text \<open>
  \<open>dsl/packages/compiler/src/ast-extractor.ts\<close>: finds task calls in a plan source, compiles the
  natural expressions and predicates in their options and replaces them by placeholders. The
  registries come from \<open>dsl/packages/generated\<close> (\<open>keys.ts\<close>, \<open>params.ts\<close>, \<open>tasks.ts\<close>).
\<close>

section \<open>Registries\<close>

definition Key_tokens :: "(string \<times> jnum) list" where
  "Key_tokens = [(''id'', Fin 1), (''model_score_1'', Fin 1001), (''model_score_2'', Fin 1002), (''final_score'', Fin 2001),
     (''country'', Fin 3001), (''title'', Fin 3002), (''features_esr'', Fin 4001), (''features_lsr'', Fin 4002)]"

definition P_tokens :: "(string \<times> jnum) list" where
  "P_tokens = [(''media_age_penalty_weight'', Fin 1), (''blocklist_regex'', Fin 2), (''esr_cutoff'', Fin 3)]"

definition keyLookup :: lookup where
  "keyLookup = map_of Key_tokens"

definition paramLookup :: lookup where
  "paramLookup = map_of P_tokens"

record extraction_info =
  exprProp :: "string option"
  predProp :: "string option"

definition TASK_EXTRACTION_INFO :: "string \<Rightarrow> extraction_info option" where
  "TASK_EXTRACTION_INFO op =
     map_of [(''core::filter'', \<lparr>exprProp = None, predProp = Some ''pred''\<rparr>),
             (''core::vm'', \<lparr>exprProp = Some ''expr'', predProp = None\<rparr>)] op"

section \<open>Which options are natural\<close>

text \<open>\<open>methodName.replace(/[A-Z]/g, letter => `_${letter.toLowerCase()}`)\<close>.\<close>

definition is_upper :: "char \<Rightarrow> bool" where
  "is_upper c \<longleftrightarrow> 65 \<le> (of_char c :: nat) \<and> (of_char c :: nat) \<le> 90"

definition to_lower :: "char \<Rightarrow> char" where
  "to_lower c = (if is_upper c then char_of (of_char c + 32 :: nat) else c)"

definition methodNameToSnakeCase :: "string \<Rightarrow> string" where
  "methodNameToSnakeCase m = concat (map (\<lambda>c. if is_upper c then [CHR ''_'', to_lower c] else [c]) m)"

text \<open>An \<open>op\<close> property among those of an object literal.\<close>

definition has_op_prop :: "ts_ast list \<Rightarrow> bool" where
  "has_op_prop props \<longleftrightarrow>
     list_ex (\<lambda>p. case p of PropertyAssignment s e (Identifier s' e' n) i \<Rightarrow> n = ''op'' | _ \<Rightarrow> False) props"

fun isExprBuilderStyle :: "string \<Rightarrow> ts_ast \<Rightarrow> bool" where
  "isExprBuilderStyle src (Call s e (PropertyAccess s' e' obj n) args) = (getText src obj = ''E'')"
| "isExprBuilderStyle src (ObjectLiteral s e props) = has_op_prop props"
| "isExprBuilderStyle src _ = False"

fun isPredBuilderStyle :: "string \<Rightarrow> ts_ast \<Rightarrow> bool" where
  "isPredBuilderStyle src (Call s e (PropertyAccess s' e' obj n) args) = (getText src obj = ''Pred'')"
| "isPredBuilderStyle src (ObjectLiteral s e props) = has_op_prop props"
| "isPredBuilderStyle src _ = False"

fun isNaturalExpr :: "string \<Rightarrow> ts_ast \<Rightarrow> bool" where
  "isNaturalExpr src (NumericLiteral s e t) = True"
| "isNaturalExpr src (NullKeyword s e) = True"
| "isNaturalExpr src (PrefixUnary s e u x) = True"
| "isNaturalExpr src (Binary s e u l r) = True"
| "isNaturalExpr src (Paren s e x) = isNaturalExpr src x"
| "isNaturalExpr src (PropertyAccess s e obj n) = (getText src obj = ''Key'' \<or> getText src obj = ''P'')"
| "isNaturalExpr src (Call s e f args) =
     (\<not> isExprBuilderStyle src (Call s e f args) \<and> getText src f = ''coalesce'')"
| "isNaturalExpr src _ = False"

definition pred_operators :: "ts_token list" where
  "pred_operators = [AmpersandAmpersandToken, BarBarToken, EqualsEqualsToken, EqualsEqualsEqualsToken,
     ExclamationEqualsToken, ExclamationEqualsEqualsToken, LessThanToken, LessThanEqualsToken, GreaterThanToken,
     GreaterThanEqualsToken]"

fun isNaturalPred :: "string \<Rightarrow> ts_ast \<Rightarrow> bool" where
  "isNaturalPred src (TrueKeyword s e) = True"
| "isNaturalPred src (FalseKeyword s e) = True"
| "isNaturalPred src (Paren s e x) = isNaturalPred src x"
| "isNaturalPred src (PrefixUnary s e u x) = (u = ExclamationToken)"
| "isNaturalPred src (Binary s e u l r) = (u \<in> set pred_operators)"
| "isNaturalPred src (Call s e f args) =
     (\<not> isPredBuilderStyle src (Call s e f args) \<and> getText src f = ''regex'')"
| "isNaturalPred src _ = False"

section \<open>Extraction\<close>

datatype repl_kind = ReplExpr | ReplPred

record replacement =
  r_kind :: repl_kind
  r_start :: nat
  r_end :: nat
  r_id :: nat

record extraction_error =
  message :: compile_msg
  err_line :: nat
  err_column :: nat

text \<open>The variables that \<open>extractExpressions\<close> closes over.\<close>

record extraction =
  extractedExprs :: "(nat \<times> expr_node) list"
  extractedPreds :: "(nat \<times> pred_node) list"
  errors :: "extraction_error list"
  replacements :: "replacement list"
  exprCounter :: nat
  predCounter :: nat

definition new_extraction :: extraction where
  "new_extraction = \<lparr>extractedExprs = [], extractedPreds = [], errors = [], replacements = [],
     exprCounter = 0, predCounter = 0\<rparr>"

text \<open>A source file as \<open>ts.createSourceFile\<close> delivers it.\<close>

record source_file =
  sf_text :: string
  sf_tree :: ts_ast
  sf_lineAndCharacter :: "nat \<Rightarrow> nat \<times> nat"

definition push_error :: "source_file \<Rightarrow> compile_error \<Rightarrow> extraction \<Rightarrow> extraction" where
  "push_error sf err st =
     (let (msg, node) = err; (line, column) = getNodeLocation (sf_lineAndCharacter sf) node
      in st\<lparr>errors := errors st @ [\<lparr>message = msg, err_line = line, err_column = column\<rparr>]\<rparr>)"

definition tryExtractExpr :: "source_file \<Rightarrow> ts_ast \<Rightarrow> extraction \<Rightarrow> extraction" where
  "tryExtractExpr sf exprNode st =
     (if \<not> isNaturalExpr (sf_text sf) exprNode then st
      else case compileExpr keyLookup paramLookup (sf_text sf) exprNode of
        Inl err \<Rightarrow> push_error sf err st
      | Inr expr \<Rightarrow>
          st\<lparr>exprCounter := exprCounter st + 1,
             extractedExprs := alist_set (exprCounter st) expr (extractedExprs st),
             replacements := replacements st @ [\<lparr>r_kind = ReplExpr, r_start = getStart exprNode,
               r_end = getEnd exprNode, r_id = exprCounter st\<rparr>]\<rparr>)"

definition tryExtractPred :: "source_file \<Rightarrow> ts_ast \<Rightarrow> extraction \<Rightarrow> extraction" where
  "tryExtractPred sf predNode st =
     (if \<not> isNaturalPred (sf_text sf) predNode then st
      else case compilePred keyLookup paramLookup (sf_text sf) predNode of
        Inl err \<Rightarrow> push_error sf err st
      | Inr pred \<Rightarrow>
          st\<lparr>predCounter := predCounter st + 1,
             extractedPreds := alist_set (predCounter st) pred (extractedPreds st),
             replacements := replacements st @ [\<lparr>r_kind = ReplPred, r_start = getStart predNode,
               r_end = getEnd predNode, r_id = predCounter st\<rparr>]\<rparr>)"

fun getNamespaceFromCall :: "ts_ast \<Rightarrow> string" where
  "getNamespaceFromCall (Call s e (PropertyAccess s1 e1 (PropertyAccess s2 e2 x namespace) n) args) = namespace"
| "getNamespaceFromCall _ = ''core''"

text \<open>The innermost part of the two loops: one property of an options object.\<close>

fun processProp :: "source_file \<Rightarrow> extraction_info \<Rightarrow> ts_ast \<Rightarrow> extraction \<Rightarrow> extraction" where
  "processProp sf info (PropertyAssignment s e (Identifier s' e' name) initializer) st =
     (if exprProp info = Some name then tryExtractExpr sf initializer st
      else if predProp info = Some name then tryExtractPred sf initializer st
      else st)"
| "processProp sf info _ st = st"

fun processArg :: "source_file \<Rightarrow> extraction_info \<Rightarrow> ts_ast \<Rightarrow> extraction \<Rightarrow> extraction" where
  "processArg sf info (ObjectLiteral s e props) st = foldl (\<lambda>st p. processProp sf info p st) st props"
| "processArg sf info _ st = st"

definition processMethodCall :: "source_file \<Rightarrow> string \<Rightarrow> ts_ast \<Rightarrow> ts_ast list \<Rightarrow> extraction \<Rightarrow> extraction" where
  "processMethodCall sf methodName call args st =
     (let namespace = getNamespaceFromCall call;
          snakeCaseName = methodNameToSnakeCase methodName;
          qualifiedOp = namespace @ ''::'' @ snakeCaseName
      in case TASK_EXTRACTION_INFO qualifiedOp of
           None \<Rightarrow> st
         | Some info \<Rightarrow> foldl (\<lambda>st arg. processArg sf info arg st) st args)"

text \<open>The body of \<open>visit\<close> before it turns to the children.\<close>

fun visitNode :: "source_file \<Rightarrow> ts_ast \<Rightarrow> extraction \<Rightarrow> extraction" where
  "visitNode sf (Call s e (PropertyAccess s' e' obj methodName) args) st =
     processMethodCall sf methodName (Call s e (PropertyAccess s' e' obj methodName) args) args st"
| "visitNode sf _ st = st"

function visit :: "source_file \<Rightarrow> ts_ast \<Rightarrow> extraction \<Rightarrow> extraction" where
  "visit sf node st = foldl (\<lambda>st c. visit sf c st) (visitNode sf node st) (children node)"
  by pat_completeness auto
termination
  by (relation "measure (\<lambda>(_, n, _). size n)") (auto simp: children_size)

declare visit.simps [simp del]

definition placeholder :: "replacement \<Rightarrow> string" where
  "placeholder r = (case r_kind r of
     ReplExpr \<Rightarrow> ''{ __expr_id: '' @ nat_str (r_id r) @ '' }''
   | ReplPred \<Rightarrow> ''{ __pred_id: '' @ nat_str (r_id r) @ '' }'')"

definition replace_one :: "string \<Rightarrow> replacement \<Rightarrow> string" where
  "replace_one src r = take (r_start r) src @ placeholder r @ drop (r_end r) src"

definition applyReplacements :: "string \<Rightarrow> replacement list \<Rightarrow> string" where
  "applyReplacements src rs = foldl replace_one src (js_sort_by (\<lambda>a b. r_start b > r_start a) rs)"

text \<open>The rewritten source and the final state, which holds the two maps and the errors.\<close>

definition extractExpressions :: "source_file \<Rightarrow> string \<times> extraction" where
  "extractExpressions sf =
     (let st = visit sf (sf_tree sf) new_extraction
      in if errors st \<noteq> [] then (sf_text sf, st)
         else (applyReplacements (sf_text sf) (replacements st), st))"

end
