(* ===== verification/Executor.thy ===== *)
theory Executor
  imports JsNumber Guards
begin

text \<open>
  \<open>dsl/packages/compiler/src/executor.ts\<close>: runs a bundled plan in the QuickJS sandbox and accepts
  what it emits. QuickJS is not part of the repository: \<open>sandbox\<close> gives the outcome of the setup
  script, and of the plan code together with the artifacts it passed to \<open>__emitPlan\<close>, each as
  \<open>vm.dump\<close> returns it.
\<close>

section \<open>Definitions\<close>

record sandbox =
  vm_setup :: "(jsval, unit) res"
  vm_run :: "string \<Rightarrow> string \<Rightarrow> (jsval, unit) res \<times> jsval list"

text \<open>Text of an error: a message, or \<open>String(error)\<close> of any other value.\<close>

datatype error_text = ErrorText string | ErrorCoerced jsval

datatype exec_error =
    SandboxSetupFailed jsval
  | ExecutionFailed string error_text
  | NothingEmitted string
  | EmittedTwice string nat
  | EmittedUndefined string string
  | EmittedFunction string string
  | EmittedSymbol string string

definition formatQuickJSError :: "jsval \<Rightarrow> error_text" where
  "formatQuickJSError error =
     (case error of
        JStr s \<Rightarrow> ErrorText s
      | _ \<Rightarrow>
          if is_object error \<and> hasp error ''message'' then
            (case getp error ''message'' of
               JStr m \<Rightarrow>
                 (case (if hasp error ''stack'' then getp error ''stack'' else JUndef) of
                    JStr st \<Rightarrow> ErrorText (m @ [CHR 0x0A] @ st)
                  | _ \<Rightarrow> ErrorText m)
             | _ \<Rightarrow> ErrorCoerced error)
          else ErrorCoerced error)"

text \<open>
  The nested function \<open>visit\<close> of \<open>validateArtifact\<close>. Values are finite trees, so the search for
  cycles never succeeds; class instances do not occur in dumped data.
\<close>

fun visitValue :: "string \<Rightarrow> jsval \<Rightarrow> string \<Rightarrow> (exec_error, unit) res" and
    visitItems :: "string \<Rightarrow> nat \<Rightarrow> jsval list \<Rightarrow> string \<Rightarrow> (exec_error, unit) res" and
    visitEntries :: "string \<Rightarrow> (string \<times> jsval) list \<Rightarrow> string \<Rightarrow> (exec_error, unit) res" where
  "visitValue planPath JUndef path = Inl (EmittedUndefined planPath path)"
| "visitValue planPath JFun path = Inl (EmittedFunction planPath path)"
| "visitValue planPath JSym path = Inl (EmittedSymbol planPath path)"
| "visitValue planPath (JArr vs) path = visitItems planPath 0 vs path"
| "visitValue planPath (JObj kvs) path = visitEntries planPath kvs path"
| "visitValue planPath _ path = Inr ()"
| "visitItems planPath i [] path = Inr ()"
| "visitItems planPath i (v # vs) path =
     bindR (visitValue planPath v (path @ ''['' @ nat_str i @ '']'')) (\<lambda>_. visitItems planPath (Suc i) vs path)"
| "visitEntries planPath [] path = Inr ()"
| "visitEntries planPath ((k, v) # kvs) path =
     bindR (if v \<noteq> JUndef then visitValue planPath v (path @ ''.'' @ k) else Inr ()) (\<lambda>_. visitEntries planPath kvs path)"

definition validateSerializable :: "jsval \<Rightarrow> string \<Rightarrow> (exec_error, unit) res" where
  "validateSerializable artifact planPath = visitValue planPath artifact ''artifact''"

definition executePlan :: "sandbox \<Rightarrow> string \<Rightarrow> string \<Rightarrow> (exec_error, jsval) res" where
  "executePlan vm code planPath =
     (case vm_setup vm of
        Inl err \<Rightarrow> Inl (SandboxSetupFailed err)
      | Inr _ \<Rightarrow>
          (case vm_run vm code planPath of
             (Inl err, emitted) \<Rightarrow> Inl (ExecutionFailed planPath (formatQuickJSError err))
           | (Inr _, emitted) \<Rightarrow>
               let emitCount = length emitted;
                   capturedArtifact = (if emitted = [] then JNull else last emitted)
               in if emitCount = 0 then Inl (NothingEmitted planPath)
                  else if emitCount > 1 then Inl (EmittedTwice planPath emitCount)
                  else bindR (validateSerializable capturedArtifact planPath) (\<lambda>_. Inr capturedArtifact)))"

section \<open>When an artifact is accepted\<close>

text \<open>Data without functions and symbols, and with \<open>undefined\<close> only as a property value.\<close>

fun serializable :: "jsval \<Rightarrow> bool" where
  "serializable JUndef = False"
| "serializable JFun = False"
| "serializable JSym = False"
| "serializable (JArr vs) = list_all serializable vs"
| "serializable (JObj kvs) = list_all (\<lambda>(k, v). v = JUndef \<or> serializable v) kvs"
| "serializable _ = True"

lemma visit_ok:
  "visitValue p v path = Inr () \<longleftrightarrow> serializable v"
  "visitItems p i vs path = Inr () \<longleftrightarrow> list_all serializable vs"
  "visitEntries p kvs path = Inr () \<longleftrightarrow> list_all (\<lambda>(k, v). v = JUndef \<or> serializable v) kvs"
  by (induction p v path and p i vs path and p kvs path rule: visitValue_visitItems_visitEntries.induct)
    (auto simp: bindR_unit_Inr_iff)

text \<open>
  The executor returns an artifact exactly when the sandbox ran without error, the plan
  called \<open>__emitPlan\<close> exactly once, with that artifact, and the artifact is free of functions and
  symbols, with \<open>undefined\<close> at most as an (omitted) object property.
\<close>

theorem executePlan_accepts:
  "executePlan vm code planPath = Inr artifact \<longleftrightarrow>
     vm_setup vm = Inr () \<and> vm_run vm code planPath = (Inr (), [artifact]) \<and> serializable artifact"
proof (cases "\<exists>emitted. vm_setup vm = Inr () \<and> vm_run vm code planPath = (Inr (), emitted)")
  case True
  then obtain emitted where "vm_setup vm = Inr ()" "vm_run vm code planPath = (Inr (), emitted)" by blast
  then show ?thesis
    by (cases emitted; cases "tl emitted")
      (auto simp: executePlan_def bindR_unit_Inr_iff validateSerializable_def visit_ok(1))
next
  case False
  then show ?thesis by (auto simp: executePlan_def split: sum.splits prod.splits)
qed

end
