(* ===== verification/Bundler.thy ===== *)
theory Bundler
  imports Prelude
begin

text \<open>
  \<open>dsl/packages/compiler/src/bundler.ts\<close>: the import policy of plans and the call to esbuild.
  esbuild and the path functions of Node are parameters.
\<close>

section \<open>Import policy\<close>

definition ALLOWED_PACKAGES :: "string list" where
  "ALLOWED_PACKAGES = [''@ranking-dsl/runtime'', ''@ranking-dsl/generated'']"

definition isAllowedImport :: "string \<Rightarrow> string \<Rightarrow> bool" where
  "isAllowedImport importPath importer =
     (if list_ex (\<lambda>pkg. importPath = pkg \<or> startsWith importPath (pkg @ ''/'')) ALLOWED_PACKAGES then True
      else if endsWith importPath ''.fragment'' \<or> endsWith importPath ''.fragment.ts'' then True
      else if str_includes importer ''/packages/runtime/'' \<or> str_includes importer ''/packages/generated/'' then True
      else False)"

record resolve_args =
  ra_kind :: string
  ra_importer :: string
  ra_path :: string

text \<open>The \<open>onResolve\<close> callback: \<open>None\<close> passes the import on, \<open>Some p\<close> is the error that names \<open>p\<close>.\<close>

definition onResolve :: "string \<Rightarrow> resolve_args \<Rightarrow> string option" where
  "onResolve entryPoint args =
     (if ra_kind args = ''entry-point'' then None
      else if ra_importer args = [] then None
      else
        let isFromPlan = ra_importer args = entryPoint \<or> endsWith (ra_importer args) ''.plan.ts'' \<or>
                         str_includes (ra_importer args) ''/plans/''
        in if isFromPlan \<and> \<not> isAllowedImport (ra_path args) (ra_importer args) then Some (ra_path args) else None)"

section \<open>The build\<close>

datatype build_entry = StdinEntry string string string | FileEntry string

record build_options =
  bo_alias :: "(string \<times> string) list"
  bo_inject :: "string list"
  bo_entry :: build_entry

record build_message =
  bm_location :: "(string \<times> nat) option"
  bm_text :: string

record build_result =
  br_warnings :: "build_message list"
  br_errors :: "build_message list"
  br_outputFiles :: "string list option"

datatype bundle_error = EsbuildFailed "string list" | OutputFileCount nat

record bundle_options =
  entryPoint :: string
  repoRoot :: string
  virtualEntry :: "string option"

definition format_message :: "build_message \<Rightarrow> string" where
  "format_message m =
     (case bm_location m of None \<Rightarrow> ''unknown'' | Some (f, _) \<Rightarrow> f) @ '':'' @
     nat_str (case bm_location m of None \<Rightarrow> 0 | Some (_, l) \<Rightarrow> l) @ '': '' @ bm_text m"

definition plan_build_options :: "(string \<Rightarrow> string \<Rightarrow> string) \<Rightarrow> (string \<Rightarrow> string) \<Rightarrow> bundle_options \<Rightarrow> build_options" where
  "plan_build_options resolve dirname options =
     \<lparr>bo_alias = [(''@ranking-dsl/runtime'', resolve (repoRoot options) ''dsl/packages/runtime/src/index.ts''),
                  (''@ranking-dsl/generated'', resolve (repoRoot options) ''dsl/packages/generated/index.ts'')],
      bo_inject = [resolve (repoRoot options) ''dsl/packages/compiler/src/inject-globals.ts''],
      bo_entry = (case virtualEntry options of
        Some contents \<Rightarrow> StdinEntry contents (entryPoint options) (dirname (entryPoint options))
      | None \<Rightarrow> FileEntry (entryPoint options))\<rparr>"

text \<open>\<open>build\<close> is \<open>esbuild.build\<close> with the fixed options and the import-restriction plugin.\<close>

definition bundlePlan ::
  "(string \<Rightarrow> string \<Rightarrow> string) \<Rightarrow> (string \<Rightarrow> string) \<Rightarrow>
   ((resolve_args \<Rightarrow> string option) \<Rightarrow> build_options \<Rightarrow> build_result) \<Rightarrow> bundle_options \<Rightarrow>
   (bundle_error, string \<times> string list) res" where
  "bundlePlan resolve dirname build options =
     (let result = build (onResolve (entryPoint options)) (plan_build_options resolve dirname options);
          warnings = map format_message (br_warnings result)
      in if br_errors result \<noteq> [] then Inl (EsbuildFailed (map format_message (br_errors result)))
         else case br_outputFiles result of
           None \<Rightarrow> Inl (OutputFileCount 0)
         | Some files \<Rightarrow>
             if length files \<noteq> 1 then Inl (OutputFileCount (length files)) else Inr (files ! 0, warnings))"

section \<open>Property\<close>


end
