(* ===== verification/StableStringify.thy ===== *)
theory StableStringify
  imports JsNumber Guards
begin

text \<open>
  \<open>dsl/packages/compiler/src/stable-stringify.ts\<close>: \<open>JSON.stringify\<close> with a replacer that sorts the
  keys of every object, and the fact that the text does not depend on the order in which
  properties were added. Artifacts come out of the sandbox as plain data; class instances are
  serialized as their listed properties. Keys are not array indices, which JavaScript enumerates
  before all others.
\<close>

section \<open>Definitions\<close>

definition hex_digit :: "nat \<Rightarrow> char" where
  "hex_digit n = (if n < 10 then char_of (48 + n) else char_of (87 + n))"

text \<open>QuoteJSONString.\<close>

definition json_char :: "char \<Rightarrow> string" where
  "json_char c =
     (if c = CHR 0x22 then [CHR 0x5C, CHR 0x22]
      else if c = CHR 0x5C then [CHR 0x5C, CHR 0x5C]
      else if c = CHR 0x08 then [CHR 0x5C, CHR ''b'']
      else if c = CHR 0x0C then [CHR 0x5C, CHR ''f'']
      else if c = CHR 0x0A then [CHR 0x5C, CHR ''n'']
      else if c = CHR 0x0D then [CHR 0x5C, CHR ''r'']
      else if c = CHR 0x09 then [CHR 0x5C, CHR ''t'']
      else if (of_char c :: nat) < 32
      then [CHR 0x5C, CHR ''u'', CHR ''0'', CHR ''0'', hex_digit (of_char c div 16), hex_digit (of_char c mod 16)]
      else [c])"

definition json_quote :: "string \<Rightarrow> string" where
  "json_quote s = [CHR 0x22] @ concat (map json_char s) @ [CHR 0x22]"

text \<open>The order \<open>Object.keys(value).sort()\<close> gives, with the values alongside.\<close>

definition sort_entries :: "(string \<times> jsval) list \<Rightarrow> (string \<times> jsval) list" where
  "sort_entries kvs = js_sort_by (\<lambda>x y. fst x > fst y) kvs"

definition stableReplacer :: "jsval \<Rightarrow> jsval" where
  "stableReplacer value =
     (if value = JNull \<or> typeof_js value \<noteq> ''object'' then value
      else if is_array value then value
      else JObj (sort_entries (own_entries value)))"

definition newline :: char where "newline = CHR 0x0A"

definition join_lines :: "string \<Rightarrow> string list \<Rightarrow> string" where
  "join_lines ind parts = concat (case parts of [] \<Rightarrow> [] | p # ps \<Rightarrow> p # map (\<lambda>q. '','' @ [newline] @ ind @ q) ps)"

text \<open>A bracketed block: empty on one line, otherwise one member per line.\<close>

definition json_block :: "char \<Rightarrow> char \<Rightarrow> string \<Rightarrow> string \<Rightarrow> string list \<Rightarrow> string" where
  "json_block l r stepback ind parts =
     (if parts = [] then [l, r]
      else [l, newline] @ ind @ join_lines ind parts @ [newline] @ stepback @ [r])"

lemma mapR_cong [fundef_cong]: "xs = ys \<Longrightarrow> (\<And>x. x \<in> set ys \<Longrightarrow> f x = g x) \<Longrightarrow> mapR f xs = mapR g ys"
  by (induction xs arbitrary: ys) auto

lemma size_arr: "v \<in> set vs \<Longrightarrow> size v < size (JArr vs)"
  using size_list_estimation' [of v vs "size v" size] by (simp add: less_Suc_eq_le)

lemma size_obj: "(k, v) \<in> set kvs \<Longrightarrow> size v < size (JObj kvs)"
  using size_list_estimation' [of "(k, v)" kvs "size v" "size_prod (\<lambda>_. 0) size"] by (simp add: less_Suc_eq_le)

lemma set_sort_entries [simp]: "set (sort_entries kvs) = set kvs"
  by (simp add: sort_entries_def)

lemma stableReplacer_obj: "stableReplacer v = JObj kvs \<longleftrightarrow> is_plain v \<and> kvs = sort_entries (own_entries v)"
  by (cases v) (auto simp: stableReplacer_def)

lemma stableReplacer_arr: "stableReplacer v = JArr vs \<longleftrightarrow> v = JArr vs"
  by (cases v) (auto simp: stableReplacer_def)

definition json_size :: "jsval \<Rightarrow> nat" where
  "json_size v = 2 * size v + (case v of JCand _ _ \<Rightarrow> 1 | _ \<Rightarrow> 0)"

lemma json_size_less: "size v < size w \<Longrightarrow> json_size v < json_size w"
  by (auto simp: json_size_def split: jsval.splits)

lemma json_size_member: "is_plain u \<Longrightarrow> (k, v) \<in> set (own_entries u) \<Longrightarrow> json_size v < json_size u"
proof (cases u)
  case (JObj kvs)
  assume "(k, v) \<in> set (own_entries u)"
  with JObj show ?thesis using size_obj by (auto intro: json_size_less)
next
  case (JCand c n)
  assume "(k, v) \<in> set (own_entries u)"
  with JCand show ?thesis by (auto simp: json_size_def)
qed auto

text \<open>
  SerializeJSONProperty: the replacer first, then by type. \<open>None\<close> is \<open>undefined\<close>, a \<open>BigInt\<close>
  raises. \<open>gap\<close> is the indentation unit, \<open>cur\<close> the current indentation.
\<close>

function json_value :: "string \<Rightarrow> string \<Rightarrow> jsval \<Rightarrow> (dsl_error, string option) res" where
  "json_value gap cur value =
     (case stableReplacer value of
        JNull \<Rightarrow> Inr (Some ''null'')
      | JBool b \<Rightarrow> Inr (Some (if b then ''true'' else ''false''))
      | JStr s \<Rightarrow> Inr (Some (json_quote s))
      | JNum x \<Rightarrow> Inr (Some (if is_finite_num x then num_str x else ''null''))
      | JBigInt n \<Rightarrow> Inl TypeError
      | JArr vs \<Rightarrow>
          bindR (mapR (json_value gap (cur @ gap)) vs) (\<lambda>parts.
          Inr (Some (json_block CHR ''['' CHR '']'' cur (cur @ gap)
            (map (\<lambda>p. case p of None \<Rightarrow> ''null'' | Some s \<Rightarrow> s) parts))))
      | JObj kvs \<Rightarrow>
          bindR (mapR (\<lambda>(k, v). bindR (json_value gap (cur @ gap) v) (\<lambda>r.
                   Inr (map_option (\<lambda>s. json_quote k @ '': '' @ s) r))) kvs) (\<lambda>members.
          Inr (Some (json_block CHR ''{'' CHR ''}'' cur (cur @ gap)
            (concat (map (\<lambda>m. case m of None \<Rightarrow> [] | Some s \<Rightarrow> [s]) members)))))
      | _ \<Rightarrow> Inr None)"
  by pat_completeness auto
termination
proof (relation "measure (\<lambda>(_, _, v). json_size v)", goal_cases)
  case (2 gap cur u vs v)
  then show ?case using size_arr [of v vs] by (simp add: stableReplacer_arr json_size_less)
next
  case (3 gap cur u kvs x k v)
  then show ?case using json_size_member [of u k v] by (auto simp: stableReplacer_obj)
qed simp

declare json_value.simps [simp del]

definition stableStringify :: "jsval \<Rightarrow> nat \<Rightarrow> (dsl_error, string option) res" where
  "stableStringify value indent = json_value (replicate indent CHR '' '') [] value"

section \<open>Independence of property order\<close>

text \<open>
  Values that differ only in the order of object properties, at any depth.
\<close>

inductive same_data :: "jsval \<Rightarrow> jsval \<Rightarrow> bool" where
  refl: "same_data v v"
| arr: "list_all2 same_data vs ws \<Longrightarrow> same_data (JArr vs) (JArr ws)"
| obj: "distinct (map fst kvs) \<Longrightarrow> map fst kvs = map fst kvs'' \<Longrightarrow> list_all2 same_data (map snd kvs) (map snd kvs'') \<Longrightarrow>
    mset kvs' = mset kvs'' \<Longrightarrow> same_data (JObj kvs) (JObj kvs')"

lemma sort_entries_key: "sort_entries kvs = sort_key fst kvs"
  by (simp add: sort_entries_def js_sort_by_key)

lemma sort_entries_perm:
  assumes "mset kvs = mset kvs'" and "distinct (map fst kvs)"
  shows "sort_entries kvs = sort_entries kvs'"
  unfolding sort_entries_key
  by (rule sort_key_inj_key_eq) (use assms in \<open>auto simp: distinct_map sorted_sort_key\<close>)

lemma insort_pair:
  "map fst kvs = map fst kvs' \<Longrightarrow> list_all2 R (map snd kvs) (map snd kvs') \<Longrightarrow> R v v' \<Longrightarrow>
     map fst (insort_key fst (k, v) kvs) = map fst (insort_key fst (k, v') kvs') \<and>
     list_all2 R (map snd (insort_key fst (k, v) kvs)) (map snd (insort_key fst (k, v') kvs'))"
proof (induction kvs arbitrary: kvs')
  case (Cons a kvs)
  then obtain b ws where "kvs' = b # ws" "fst a = fst b" "R (snd a) (snd b)" by (cases kvs') auto
  with Cons show ?case by auto
qed simp

lemma sort_pair:
  "map fst kvs = map fst kvs' \<Longrightarrow> list_all2 R (map snd kvs) (map snd kvs') \<Longrightarrow>
     map fst (sort_entries kvs) = map fst (sort_entries kvs') \<and>
     list_all2 R (map snd (sort_entries kvs)) (map snd (sort_entries kvs'))"
  unfolding sort_entries_key
proof (induction kvs arbitrary: kvs')
  case (Cons a kvs)
  then obtain b ws where b: "kvs' = b # ws" "fst a = fst b" "R (snd a) (snd b)" "map fst kvs = map fst ws"
    "list_all2 R (map snd kvs) (map snd ws)" by (cases kvs') auto
  from Cons.IH [OF b(4,5)] insort_pair [of "sort_key fst kvs" "sort_key fst ws" R "snd a" "snd b" "fst a"] b(2,3)
  show ?case by (simp add: b(1)) (metis prod.collapse)
qed simp

lemma mapR_pairs:
  "map fst kvs = map fst kvs' \<Longrightarrow> list_all2 (\<lambda>v v'. \<forall>k. f (k, v) = f (k, v')) (map snd kvs) (map snd kvs') \<Longrightarrow>
     mapR f kvs = mapR f kvs'"
proof (induction kvs arbitrary: kvs')
  case (Cons a kvs)
  then obtain b ws where "kvs' = b # ws" "fst a = fst b" "f a = f b" "map fst kvs = map fst ws"
    "list_all2 (\<lambda>v v'. \<forall>k. f (k, v) = f (k, v')) (map snd kvs) (map snd ws)" by (cases kvs') (auto, metis prod.collapse)
  with Cons.IH [of ws] show ?case by simp
qed simp

lemma mapR_list_all2: "list_all2 (\<lambda>v w. f v = f w) vs ws \<Longrightarrow> mapR f vs = mapR f ws"
  by (induction rule: list_all2_induct) auto

lemma same_data_json: "same_data v w \<Longrightarrow> json_value gap cur v = json_value gap cur w"
proof (induction arbitrary: cur rule: same_data.induct)
  case (arr vs ws)
  then have "mapR (json_value gap (cur @ gap)) vs = mapR (json_value gap (cur @ gap)) ws"
    by (intro mapR_list_all2) (auto elim: list_all2_mono)
  then show ?case by (simp add: json_value.simps [of gap cur "JArr _"] stableReplacer_def)
next
  case (obj kvs kvs'' kvs')
  let ?f = "\<lambda>(k, v). bindR (json_value gap (cur @ gap) v) (\<lambda>r. Inr (map_option (\<lambda>s. json_quote k @ '': '' @ s) r))"
  have "sort_entries kvs' = sort_entries kvs''"
    using obj.hyps by (intro sort_entries_perm) (metis mset_eq_imp_distinct_iff mset_map)+
  moreover have "mapR ?f (sort_entries kvs) = mapR ?f (sort_entries kvs'')"
  proof (rule mapR_pairs)
    have "list_all2 (\<lambda>v v'. json_value gap (cur @ gap) v = json_value gap (cur @ gap) v') (map snd kvs) (map snd kvs'')"
      using obj.IH by (auto elim: list_all2_mono)
    from sort_pair [OF obj.hyps(2) this]
    show "map fst (sort_entries kvs) = map fst (sort_entries kvs'')"
      "list_all2 (\<lambda>v v'. \<forall>k. ?f (k, v) = ?f (k, v')) (map snd (sort_entries kvs)) (map snd (sort_entries kvs''))"
      by (auto elim: list_all2_mono)
  qed
  ultimately show ?case by (simp add: json_value.simps [of gap cur "JObj _"] stableReplacer_def)
qed simp

section \<open>Property\<close>

text \<open>
  The emitted text is deterministic: two values that differ only in the order of object
  properties, at any depth, have the same serialization (or raise the same error).
\<close>

theorem stableStringify_deterministic:
  assumes "same_data v w"
  shows "stableStringify v indent = stableStringify w indent"
  unfolding stableStringify_def using assms by (rule same_data_json)

theorem stableStringify_deterministic_witness:
  "stableStringify (JObj [(''b'', JNull), (''a'', JObj [(''y'', JBool True), (''x'', JArr [])])]) 2 =
   stableStringify (JObj [(''a'', JObj [(''x'', JArr []), (''y'', JBool True)]), (''b'', JNull)]) 2"
proof (rule stableStringify_deterministic)
  have "same_data (JObj [(''y'', JBool True), (''x'', JArr [])]) (JObj [(''x'', JArr []), (''y'', JBool True)])"
    by (rule same_data.obj [of _ "[(''y'', JBool True), (''x'', JArr [])]"]) (auto intro: same_data.refl)
  then show "same_data (JObj [(''b'', JNull), (''a'', JObj [(''y'', JBool True), (''x'', JArr [])])])
      (JObj [(''a'', JObj [(''x'', JArr []), (''y'', JBool True)]), (''b'', JNull)])"
    by (intro same_data.obj [of _ "[(''b'', JNull), (''a'', JObj [(''x'', JArr []), (''y'', JBool True)])]"])
      (auto intro: same_data.refl)
qed

end
