(* ===== verification/Cli.thy ===== *)
theory Cli
  imports AstExtractor Executor Bundler StableStringify ArtifactValidation PlanContext
begin

text \<open>
  \<open>dsl/packages/compiler/src/cli.ts\<close>, the driver \<open>dslc\<close>: command line, search of the repository
  root, the nine steps of \<open>compilePlan\<close>, and the merge of extracted trees into the artifact's
  tables. File system, parser, bundler, sandbox and hash are parameters. Console output is left
  out.
\<close>

section \<open>Command line\<close>

datatype cli_exit = ShowHelp nat | UnknownCommand string | OutNeedsArgument | UnknownOption string | NoPlans | NoOutputDir

text \<open>The loop over the arguments after the command.\<close>

fun parseLoop :: "string list \<Rightarrow> string list \<Rightarrow> string option \<Rightarrow> (cli_exit, string list \<times> string option) res" where
  "parseLoop [] planPaths outputDir = Inr (planPaths, outputDir)"
| "parseLoop (a # as) planPaths outputDir =
     (if a = ''--out'' then
        (case as of [] \<Rightarrow> Inl OutNeedsArgument | d # as' \<Rightarrow> parseLoop as' planPaths (Some d))
      else if startsWith a ''-'' then Inl (UnknownOption a)
      else parseLoop as (planPaths @ [a]) outputDir)"

definition parseArgs :: "string list \<Rightarrow> (cli_exit, string list \<times> string) res" where
  "parseArgs args =
     (case args of
        [] \<Rightarrow> Inl (ShowHelp 1)
      | a # as \<Rightarrow>
          if a = ''--help'' \<or> a = ''-h'' then Inl (ShowHelp 0)
          else if a \<noteq> ''build'' then Inl (UnknownCommand a)
          else bindR (parseLoop as [] None) (\<lambda>(planPaths, outputDir).
            if planPaths = [] then Inl NoPlans
            else case outputDir of None \<Rightarrow> Inl NoOutputDir | Some d \<Rightarrow> Inr (planPaths, d)))"

text \<open>
  The walk to the root: an absolute directory is the list of its segments (\<open>/\<close> is the empty
  list), \<open>dirname\<close> drops the last one; \<open>access\<close> tells whether a directory holds
  \<open>pnpm-workspace.yaml\<close>.
\<close>

function findRepoRoot :: "(string list \<Rightarrow> bool) \<Rightarrow> string list \<Rightarrow> string list \<Rightarrow> string list" where
  "findRepoRoot access dir cwd =
     (if dir \<noteq> [] then (if access dir then dir else findRepoRoot access (butlast dir) cwd) else cwd)"
  by pat_completeness auto
termination
  by (relation "measure (\<lambda>(_, d, _). length d)") auto

declare findRepoRoot.simps [simp del]

section \<open>Merging extracted trees\<close>

text \<open>\<open>obj[k] = v\<close>. A named property of an array is invisible to what follows.\<close>

fun set_prop :: "jsval \<Rightarrow> string \<Rightarrow> jsval \<Rightarrow> jsval" where
  "set_prop (JObj kvs) k v = JObj (alist_set k v kvs)"
| "set_prop obj k v = obj"

text \<open>The loop that adds the extracted trees under fresh ids and fills \<open>idRemap\<close>.\<close>

fun addExtracted ::
  "string \<Rightarrow> string \<Rightarrow> nat \<Rightarrow> (nat \<times> jsval) list \<Rightarrow> jsval \<Rightarrow> (string \<times> string) list \<Rightarrow> jsval \<times> (string \<times> string) list" where
  "addExtracted idPrefix staticPrefix nextId [] table idRemap = (table, idRemap)"
| "addExtracted idPrefix staticPrefix nextId ((staticId, tree) # extracted) table idRemap =
     (let newId = idPrefix @ nat_str nextId
      in addExtracted idPrefix staticPrefix (nextId + 1) extracted (set_prop table newId tree)
           (alist_set (staticPrefix @ nat_str staticId) newId idRemap))"

text \<open>The loop body over the nodes: a placeholder reference in the params is replaced.\<close>

definition remapParams :: "string \<Rightarrow> string \<Rightarrow> (string \<times> string) list \<Rightarrow> jsval \<Rightarrow> jsval" where
  "remapParams key staticPrefix idRemap params =
     (case getp params key of
        JStr ref \<Rightarrow>
          if startsWith ref staticPrefix
          then (case map_of idRemap ref of Some newId \<Rightarrow> set_prop params key (JStr newId) | None \<Rightarrow> params)
          else params
      | _ \<Rightarrow> params)"

definition remapNode :: "string \<Rightarrow> string \<Rightarrow> (string \<times> string) list \<Rightarrow> jsval \<Rightarrow> jsval" where
  "remapNode key staticPrefix idRemap node =
     (let params = getp node ''params''
      in if truthy params \<and> is_str (getp params key)
         then set_prop node ''params'' (remapParams key staticPrefix idRemap params)
         else node)"

definition mergeExtractedExprs :: "(string \<times> jsval) list \<Rightarrow> (nat \<times> expr_node) list \<Rightarrow> (string \<times> jsval) list" where
  "mergeExtractedExprs artifact exprs =
     (let exprTable = nullish (obj_get artifact ''expr_table'') (JObj []);
          nextId = length (own_entries exprTable);
          (exprTable', idRemap) = addExtracted ''e'' ''__static_e'' nextId
             (map (\<lambda>(i, e). (i, expr_js e)) exprs) exprTable [];
          nodes = map (remapNode ''expr_id'' ''__static_e'' idRemap) (elems (obj_get artifact ''nodes''))
      in alist_set ''nodes'' (JArr nodes) (alist_set ''expr_table'' exprTable' artifact))"

definition mergeExtractedPreds :: "(string \<times> jsval) list \<Rightarrow> (nat \<times> pred_node) list \<Rightarrow> (string \<times> jsval) list" where
  "mergeExtractedPreds artifact preds =
     (let predTable = nullish (obj_get artifact ''pred_table'') (JObj []);
          nextId = length (own_entries predTable);
          (predTable', idRemap) = addExtracted ''p'' ''__static_p'' nextId
             (map (\<lambda>(i, p). (i, pred_js p)) preds) predTable [];
          nodes = map (remapNode ''pred_id'' ''__static_p'' idRemap) (elems (obj_get artifact ''nodes''))
      in alist_set ''nodes'' (JArr nodes) (alist_set ''pred_table'' predTable' artifact))"

section \<open>The pipeline\<close>

text \<open>\<open>Validation.patterns.plan_name.test\<close>: \<open>/^[A-Za-z0-9_]+$/\<close>.\<close>

definition is_word_char :: "char \<Rightarrow> bool" where
  "is_word_char c \<longleftrightarrow> (CHR ''A'' \<le> c \<and> c \<le> CHR ''Z'') \<or> (CHR ''a'' \<le> c \<and> c \<le> CHR ''z'') \<or>
     (CHR ''0'' \<le> c \<and> c \<le> CHR ''9'') \<or> c = CHR ''_''"

definition isValidPlanName :: "string \<Rightarrow> bool" where
  "isValidPlanName s \<longleftrightarrow> s \<noteq> [] \<and> list_all is_word_char s"

definition isValidNodeId :: "string \<Rightarrow> bool" where
  "isValidNodeId s \<longleftrightarrow> s \<noteq> [] \<and> list_all is_word_char s"

text \<open>\<open>planFileName.replace(/\.plan\.ts$/, "")\<close>.\<close>

definition stripPlanSuffix :: "string \<Rightarrow> string" where
  "stripPlanSuffix s = (if endsWith s ''.plan.ts'' then take (length s - 8) s else s)"

text \<open>\<open>basename\<close> of an absolute path without a trailing slash.\<close>

definition basename :: "string \<Rightarrow> string" where
  "basename p = rev (takeWhile (\<lambda>c. c \<noteq> CHR ''/'') (rev p))"

datatype cli_error =
    ReadFailed string
  | ExtractionFailed "extraction_error list"
  | BundleFailed bundle_error
  | ExecFailed exec_error
  | ArtifactInvalid dsl_error
  | PlanNameMismatch string string string
  | InvalidPlanName string
  | SerializeFailed dsl_error

text \<open>Everything outside the repository that \<open>compilePlan\<close> uses.\<close>

record toolchain =
  tc_version :: string
  tc_resolve :: "string \<Rightarrow> string \<Rightarrow> string"
  tc_dirname :: "string \<Rightarrow> string"
  tc_cwd :: string
  tc_readFile :: "string \<Rightarrow> string option"
  tc_parse :: "string \<Rightarrow> string \<Rightarrow> source_file"
  tc_esbuild :: "(resolve_args \<Rightarrow> string option) \<Rightarrow> build_options \<Rightarrow> build_result"
  tc_sandbox :: sandbox
  tc_sha256 :: "string \<Rightarrow> string"

definition mapErr :: "('e \<Rightarrow> 'f) \<Rightarrow> ('e, 'a) res \<Rightarrow> ('f, 'a) res" where
  "mapErr f r = (case r of Inl e \<Rightarrow> Inl (f e) | Inr x \<Rightarrow> Inr x)"

text \<open>Steps 6 to 8: merges, plan name, metadata.\<close>

definition finishArtifact ::
  "string \<Rightarrow> string \<Rightarrow> string \<Rightarrow> extraction \<Rightarrow> (string \<times> jsval) list \<Rightarrow> (cli_error, string \<times> jsval) res" where
  "finishArtifact version digest planFileName ex artifact =
     (let planName = (case obj_get artifact ''plan_name'' of JStr s \<Rightarrow> s | _ \<Rightarrow> []);
          a1 = (if length (extractedExprs ex) > 0 then mergeExtractedExprs artifact (extractedExprs ex) else artifact);
          a2 = (if length (extractedPreds ex) > 0 then mergeExtractedPreds a1 (extractedPreds ex) else a1);
          expectedName = stripPlanSuffix planFileName
      in if planName \<noteq> expectedName then Inl (PlanNameMismatch planName planFileName expectedName)
         else if \<not> isValidPlanName planName then Inl (InvalidPlanName planName)
         else Inr (planName, JObj (alist_set ''built_by''
                (JObj [(''backend'', JStr ''quickjs''), (''tool'', JStr ''dslc''), (''tool_version'', JStr version),
                       (''bundle_digest'', JStr (take 16 digest))]) a2)))"

text \<open>The result is the path written and its contents.\<close>

definition compilePlan :: "toolchain \<Rightarrow> string \<Rightarrow> string \<Rightarrow> string \<Rightarrow> (cli_error, string \<times> string) res" where
  "compilePlan tc planPath outputDir repo =
     (let absPath = tc_resolve tc (tc_cwd tc) planPath; planFileName = basename absPath in
      case tc_readFile tc absPath of None \<Rightarrow> Inl (ReadFailed absPath) | Some sourceCode \<Rightarrow>
      let (rewrittenSource, ex) = extractExpressions (tc_parse tc sourceCode planFileName) in
      if errors ex \<noteq> [] then Inl (ExtractionFailed (errors ex)) else
      let hasExtractions = length (extractedExprs ex) > 0 \<or> length (extractedPreds ex) > 0 in
      bindR (mapErr BundleFailed (bundlePlan (tc_resolve tc) (tc_dirname tc) (tc_esbuild tc)
        \<lparr>entryPoint = absPath, repoRoot = repo, virtualEntry = (if hasExtractions then Some rewrittenSource else None)\<rparr>))
        (\<lambda>(code, warnings).
      bindR (mapErr ExecFailed (executePlan (tc_sandbox tc) code planFileName)) (\<lambda>artifact.
      bindR (mapErr ArtifactInvalid (validateArtifact artifact planFileName)) (\<lambda>_.
      bindR (finishArtifact (tc_version tc) (tc_sha256 tc code) planFileName ex (own_entries artifact)) (\<lambda>(planName, final).
      bindR (mapErr SerializeFailed (stableStringify final 2)) (\<lambda>json.
      Inr (tc_resolve tc (tc_resolve tc (tc_cwd tc) outputDir) (planName @ ''.plan.json''),
           (case json of Some s \<Rightarrow> s | None \<Rightarrow> ''undefined'') @ [CHR 0x0A])))))))"

text \<open>
  The loop of \<open>main\<close>: the files written, in order, and the exit code; the first failure ends the
  process.
\<close>

fun compileAll :: "toolchain \<Rightarrow> string \<Rightarrow> string \<Rightarrow> string list \<Rightarrow> (string \<times> string) list \<times> nat" where
  "compileAll tc outputDir repo [] = ([], 0)"
| "compileAll tc outputDir repo (p # ps) =
     (case compilePlan tc p outputDir repo of
        Inl e \<Rightarrow> ([], 1)
      | Inr file \<Rightarrow> (let (files, rc) = compileAll tc outputDir repo ps in (file # files, rc)))"

definition path_of :: "string list \<Rightarrow> string" where
  "path_of segs = (if segs = [] then ''/'' else concat (map (\<lambda>s. ''/'' @ s) segs))"

definition main :: "toolchain \<Rightarrow> (string list \<Rightarrow> bool) \<Rightarrow> string list \<Rightarrow> string list \<Rightarrow> string list \<Rightarrow> (string \<times> string) list \<times> nat" where
  "main tc access scriptDir cwd args =
     (case parseArgs args of
        Inl (ShowHelp rc) \<Rightarrow> ([], rc)
      | Inl e \<Rightarrow> ([], 1)
      | Inr (planPaths, outputDir) \<Rightarrow> compileAll tc outputDir (path_of (findRepoRoot access scriptDir cwd)) planPaths)"

section \<open>Facts about the merge\<close>

lemma obj_get_alist_set: "obj_get (alist_set k v kvs) k' = (if k' = k then v else obj_get kvs k')"
  by (simp add: obj_get_def)

lemma getp_remapNode: "k \<noteq> ''params'' \<Longrightarrow> getp (remapNode key sp rm node) k = getp node k"
  by (cases node) (auto simp: remapNode_def Let_def obj_get_alist_set)

lemma is_object_remapNode [simp]: "is_object (remapNode key sp rm node) = is_object node"
  by (cases node) (auto simp: remapNode_def Let_def)

lemma node_ids_remap: "node_ids (map (remapNode key sp rm) ns) = node_ids ns"
  by (simp add: node_ids_def getp_remapNode comp_def)

lemma node_ok_remap: "node_ok (remapNode key sp rm n) = node_ok n"
  by (simp add: node_ok_def getp_remapNode)

lemma is_object_set_prop [simp]: "is_object (set_prop v k w) = is_object v"
  by (cases v) auto

lemma is_object_addExtracted: "is_object (fst (addExtracted ip sp n ex t rm)) = is_object t"
  by (induction ip sp n ex t rm rule: addExtracted.induct) (auto simp: Let_def)

lemma table_ok_nullish: "table_ok t \<Longrightarrow> is_object (nullish t (JObj []))"
  by (auto simp: table_ok_def nullish_def)

text \<open>Replacing the nodes by remapped ones and a table by an object keeps an artifact well-formed.\<close>

lemma wf_artifact_merge:
  assumes "wf_artifact (JObj a)" and "is_object t" and "k = ''expr_table'' \<or> k = ''pred_table''"
  shows "wf_artifact (JObj (alist_set ''nodes'' (JArr (map (remapNode key sp rm) (elems (obj_get a ''nodes'')))) (alist_set k t a)))"
proof -
  from assms(1) obtain ns os where a: "obj_get a ''nodes'' = JArr ns" "obj_get a ''outputs'' = JArr os"
    by (auto simp: wf_artifact_def)
  from assms a show ?thesis
    unfolding wf_artifact_def getp.simps obj_get_alist_set
    by (auto simp: elems_def node_ok_remap node_ids_remap getp_remapNode table_ok_def)
qed

end
