(* ===== verification/ExtractionCorrect.thy ===== *)
theory ExtractionCorrect
  imports AstExtractor
begin

text \<open>
  Correctness of the extraction: what is found (every natural option of a task call, once), what is
  recorded (numbered compiled trees), and what the rewriting does to the source text (each found
  span, and nothing else, is replaced).
\<close>

section \<open>Sites\<close>

text \<open>The nodes in the order \<open>visit\<close> reaches them.\<close>

function preorder :: "ts_ast \<Rightarrow> ts_ast list" where
  "preorder n = n # concat (map preorder (children n))"
  by pat_completeness auto
termination
  by (relation "measure size") (auto simp: children_size)

declare preorder.simps [simp del]

lemma visit_preorder [code]: "visit sf n st = foldl (\<lambda>st m. visitNode sf m st) st (preorder n)"
proof (induction n arbitrary: st rule: preorder.induct)
  case (1 n)
  have kids: "foldl (\<lambda>st c. visit sf c st) st cs = foldl (\<lambda>st m. visitNode sf m st) st (concat (map preorder cs))"
    if "set cs \<subseteq> set (children n)" for cs st
    using that by (induction cs arbitrary: st) (auto simp: 1)
  show ?case by (simp add: visit.simps [of sf n] preorder.simps [of n] kids)
qed

text \<open>The options of one call that the extractor looks at, with the kind the task declares.\<close>

fun prop_sites :: "extraction_info \<Rightarrow> ts_ast \<Rightarrow> (repl_kind \<times> ts_ast) list" where
  "prop_sites info (PropertyAssignment s e (Identifier s' e' name) initializer) =
     (if exprProp info = Some name then [(ReplExpr, initializer)]
      else if predProp info = Some name then [(ReplPred, initializer)] else [])"
| "prop_sites info _ = []"

fun arg_sites :: "extraction_info \<Rightarrow> ts_ast \<Rightarrow> (repl_kind \<times> ts_ast) list" where
  "arg_sites info (ObjectLiteral s e props) = concat (map (prop_sites info) props)"
| "arg_sites info _ = []"

text \<open>The task a call resolves to: namespace and method name against the registry.\<close>

fun call_info :: "ts_ast \<Rightarrow> extraction_info option" where
  "call_info (Call s e (PropertyAccess s' e' obj m) args) =
     TASK_EXTRACTION_INFO (getNamespaceFromCall (Call s e (PropertyAccess s' e' obj m) args) @ ''::'' @ methodNameToSnakeCase m)"
| "call_info _ = None"

fun call_args :: "ts_ast \<Rightarrow> ts_ast list" where
  "call_args (Call s e f args) = args"
| "call_args _ = []"

definition node_sites :: "ts_ast \<Rightarrow> (repl_kind \<times> ts_ast) list" where
  "node_sites n = (case call_info n of None \<Rightarrow> [] | Some info \<Rightarrow> concat (map (arg_sites info) (call_args n)))"

fun is_natural :: "string \<Rightarrow> repl_kind \<times> ts_ast \<Rightarrow> bool" where
  "is_natural src (ReplExpr, n) = isNaturalExpr src n"
| "is_natural src (ReplPred, n) = isNaturalPred src n"

definition sites :: "string \<Rightarrow> ts_ast \<Rightarrow> (repl_kind \<times> ts_ast) list" where
  "sites src n = filter (is_natural src) (concat (map node_sites (preorder n)))"

text \<open>What the extractor does with one site.\<close>

fun record_site :: "source_file \<Rightarrow> extraction \<Rightarrow> repl_kind \<times> ts_ast \<Rightarrow> extraction" where
  "record_site sf st (ReplExpr, n) = tryExtractExpr sf n st"
| "record_site sf st (ReplPred, n) = tryExtractPred sf n st"

lemma foldl_concat_map: "foldl f a (concat (map g xs)) = foldl (\<lambda>a x. foldl f a (g x)) a xs"
  by (induction xs arbitrary: a) auto

lemma processProp_sites: "processProp sf info p st = foldl (record_site sf) st (prop_sites info p)"
  by (cases "(info, p)" rule: prop_sites.cases) auto

lemma processArg_sites: "processArg sf info a st = foldl (record_site sf) st (arg_sites info a)"
  by (cases a) (simp_all add: processProp_sites foldl_concat_map)

lemma visitNode_sites: "visitNode sf n st = foldl (record_site sf) st (node_sites n)"
proof (cases "\<exists>s e s' e' obj m args. n = Call s e (PropertyAccess s' e' obj m) args")
  case True
  then show ?thesis
    by (auto simp: processMethodCall_def node_sites_def Let_def processArg_sites foldl_concat_map split: option.splits)
next
  case False
  then have "call_info n = None" "visitNode sf n st = st"
    by (cases n; auto; rename_tac f args; case_tac f; auto)+
  then show ?thesis by (simp add: node_sites_def)
qed

lemma record_site_unnatural: "\<not> is_natural (sf_text sf) x \<Longrightarrow> record_site sf st x = st"
  by (cases "(sf_text sf, x)" rule: is_natural.cases) (auto simp: tryExtractExpr_def tryExtractPred_def)

lemma foldl_record_filter: "foldl (record_site sf) st xs = foldl (record_site sf) st (filter (is_natural (sf_text sf)) xs)"
  by (induction xs arbitrary: st) (simp_all add: record_site_unnatural)

lemma visit_sites: "visit sf n st = foldl (record_site sf) st (sites (sf_text sf) n)"
  unfolding visit_preorder visitNode_sites sites_def
  by (simp add: foldl_record_filter [symmetric] foldl_concat_map)

section \<open>What is recorded\<close>

datatype compiled = CompExpr expr_node | CompPred pred_node

fun compile_site :: "string \<Rightarrow> repl_kind \<times> ts_ast \<Rightarrow> (compile_error, compiled) res" where
  "compile_site src (ReplExpr, n) = (case compileExpr keyLookup paramLookup src n of Inl e \<Rightarrow> Inl e | Inr x \<Rightarrow> Inr (CompExpr x))"
| "compile_site src (ReplPred, n) = (case compilePred keyLookup paramLookup src n of Inl e \<Rightarrow> Inl e | Inr x \<Rightarrow> Inr (CompPred x))"

definition is_ok :: "string \<Rightarrow> repl_kind \<times> ts_ast \<Rightarrow> bool" where
  "is_ok src x \<longleftrightarrow> (\<exists>c. compile_site src x = Inr c)"

text \<open>The compiled tree a replacement points at.\<close>

definition repl_target :: "extraction \<Rightarrow> replacement \<Rightarrow> compiled option" where
  "repl_target st r = (case r_kind r of
     ReplExpr \<Rightarrow> map_option CompExpr (map_of (extractedExprs st) (r_id r))
   | ReplPred \<Rightarrow> map_option CompPred (map_of (extractedPreds st) (r_id r)))"

definition points_at :: "string \<Rightarrow> extraction \<Rightarrow> replacement \<Rightarrow> repl_kind \<times> ts_ast \<Rightarrow> bool" where
  "points_at src st r x \<longleftrightarrow> r_kind r = fst x \<and> r_start r = getStart (snd x) \<and> r_end r = getEnd (snd x) \<and>
     (\<exists>c. repl_target st r = Some c \<and> compile_site src x = Inr c)"

text \<open>
  The state after a list of sites: the two maps are numbered from zero, there is one replacement per
  site that compiles, pointing at the compiled tree of that site, and one error per other site.
\<close>

definition recorded :: "string \<Rightarrow> (repl_kind \<times> ts_ast) list \<Rightarrow> extraction \<Rightarrow> bool" where
  "recorded src xs st \<longleftrightarrow>
     map fst (extractedExprs st) = [0..<exprCounter st] \<and>
     map fst (extractedPreds st) = [0..<predCounter st] \<and>
     list_all2 (points_at src st) (replacements st) (filter (is_ok src) xs) \<and>
     length (errors st) = length (filter (\<lambda>x. \<not> is_ok src x) xs)"

lemma recorded_new: "recorded src [] new_extraction"
  by (simp add: recorded_def new_extraction_def)

lemma numbered_keys: "map fst t = [0..<k] \<Longrightarrow> (n \<in> fst ` set t) = (n < (k :: nat))"
  by (metis atLeastLessThan_iff atLeastLessThan_upt image_set le0)

lemma numbered_set: "map fst t = [0..<k] \<Longrightarrow> alist_set k v t = t @ [(k, v)] \<and> map fst (t @ [(k, v)]) = [0..<Suc k]"
  by (simp add: numbered_keys alist_set_fresh)

lemma numbered_lookup_old: "map fst t = [0..<k] \<Longrightarrow> map_of t n = Some c \<Longrightarrow> map_of (t @ [(k, v)]) n = Some c"
  by (simp add: map_add_Some_iff)

lemma points_at_expr:
  assumes "map fst (extractedExprs st) = [0..<k]" and "points_at src st r x"
  shows "points_at src (st\<lparr>exprCounter := c, extractedExprs := extractedExprs st @ [(k, e)], replacements := rs\<rparr>) r x"
  using assms by (auto simp: points_at_def repl_target_def numbered_lookup_old simp del: map_of_append split: repl_kind.splits)

lemma points_at_pred:
  assumes "map fst (extractedPreds st) = [0..<k]" and "points_at src st r x"
  shows "points_at src (st\<lparr>predCounter := c, extractedPreds := extractedPreds st @ [(k, e)], replacements := rs\<rparr>) r x"
  using assms by (auto simp: points_at_def repl_target_def numbered_lookup_old simp del: map_of_append split: repl_kind.splits)

lemma map_of_snoc_fresh: "map fst t = [0..<k] \<Longrightarrow> map_of (t @ [(k, v)]) k = Some v"
proof -
  assume "map fst t = [0..<k]"
  then have "map_of t k = None" by (simp add: numbered_keys map_of_eq_None_iff)
  then show ?thesis by (simp add: map_add_def)
qed

lemma push_error_simps:
  "points_at src (push_error sf err st) = points_at src st"
  "extractedExprs (push_error sf err st) = extractedExprs st"
  "extractedPreds (push_error sf err st) = extractedPreds st"
  "exprCounter (push_error sf err st) = exprCounter st"
  "predCounter (push_error sf err st) = predCounter st"
  "replacements (push_error sf err st) = replacements st"
  "length (errors (push_error sf err st)) = Suc (length (errors st))"
  by (auto simp: push_error_def points_at_def repl_target_def fun_eq_iff Let_def split: prod.splits repl_kind.splits)

lemma recorded_step_expr:
  assumes rec: "recorded (sf_text sf) xs st" and nat: "isNaturalExpr (sf_text sf) n"
  shows "recorded (sf_text sf) (xs @ [(ReplExpr, n)]) (tryExtractExpr sf n st)"
proof (cases "compileExpr keyLookup paramLookup (sf_text sf) n")
  case (Inl err)
  with assms show ?thesis by (simp add: recorded_def tryExtractExpr_def push_error_simps is_ok_def)
next
  case (Inr e)
  from rec have num: "map fst (extractedExprs st) = [0..<exprCounter st]" by (simp add: recorded_def)
  let ?r = "\<lparr>r_kind = ReplExpr, r_start = getStart n, r_end = getEnd n, r_id = exprCounter st\<rparr>"
  have st': "tryExtractExpr sf n st = st\<lparr>exprCounter := Suc (exprCounter st),
      extractedExprs := extractedExprs st @ [(exprCounter st, e)], replacements := replacements st @ [?r]\<rparr>"
    using nat Inr numbered_set [OF num] by (simp add: tryExtractExpr_def)
  have "points_at (sf_text sf) (tryExtractExpr sf n st) ?r (ReplExpr, n)"
    using Inr map_of_snoc_fresh [OF num] by (simp add: st' points_at_def repl_target_def)
  moreover have "list_all2 (points_at (sf_text sf) (tryExtractExpr sf n st)) (replacements st) (filter (is_ok (sf_text sf)) xs)"
    using rec points_at_expr [OF num] by (auto simp: recorded_def st' elim: list_all2_mono)
  ultimately show ?thesis
    using rec Inr numbered_set [OF num] by (simp add: recorded_def st' is_ok_def list_all2_appendI)
qed

lemma recorded_step_pred:
  assumes rec: "recorded (sf_text sf) xs st" and nat: "isNaturalPred (sf_text sf) n"
  shows "recorded (sf_text sf) (xs @ [(ReplPred, n)]) (tryExtractPred sf n st)"
proof (cases "compilePred keyLookup paramLookup (sf_text sf) n")
  case (Inl err)
  with assms show ?thesis by (simp add: recorded_def tryExtractPred_def push_error_simps is_ok_def)
next
  case (Inr e)
  from rec have num: "map fst (extractedPreds st) = [0..<predCounter st]" by (simp add: recorded_def)
  let ?r = "\<lparr>r_kind = ReplPred, r_start = getStart n, r_end = getEnd n, r_id = predCounter st\<rparr>"
  have st': "tryExtractPred sf n st = st\<lparr>predCounter := Suc (predCounter st),
      extractedPreds := extractedPreds st @ [(predCounter st, e)], replacements := replacements st @ [?r]\<rparr>"
    using nat Inr numbered_set [OF num] by (simp add: tryExtractPred_def)
  have "points_at (sf_text sf) (tryExtractPred sf n st) ?r (ReplPred, n)"
    using Inr map_of_snoc_fresh [OF num] by (simp add: st' points_at_def repl_target_def)
  moreover have "list_all2 (points_at (sf_text sf) (tryExtractPred sf n st)) (replacements st) (filter (is_ok (sf_text sf)) xs)"
    using rec points_at_pred [OF num] by (auto simp: recorded_def st' elim: list_all2_mono)
  ultimately show ?thesis
    using rec Inr numbered_set [OF num] by (simp add: recorded_def st' is_ok_def list_all2_appendI)
qed

lemma recorded_step:
  assumes "recorded (sf_text sf) xs st" and "is_natural (sf_text sf) x"
  shows "recorded (sf_text sf) (xs @ [x]) (record_site sf st x)"
  using assms by (cases x; cases "fst x") (auto simp: recorded_step_expr recorded_step_pred)

lemma recorded_all:
  "\<forall>x \<in> set ys. is_natural (sf_text sf) x \<Longrightarrow> recorded (sf_text sf) xs st \<Longrightarrow>
     recorded (sf_text sf) (xs @ ys) (foldl (record_site sf) st ys)"
proof (induction ys arbitrary: xs st)
  case (Cons y ys)
  then show ?case using recorded_step [of sf xs st y] Cons.IH [of "xs @ [y]" "record_site sf st y"] by simp
qed simp

lemma visit_recorded: "recorded (sf_text sf) (sites (sf_text sf) n) (visit sf n new_extraction)"
  using recorded_all [of "sites (sf_text sf) n" sf "[]" new_extraction] recorded_new
  by (simp add: visit_sites) (simp add: sites_def)

section \<open>Replacing disjoint spans from the right\<close>

text \<open>
  The specification of the rewriting: one pass from left to right that copies the text between the
  replacements and emits the placeholders.
\<close>

fun splice_from :: "nat \<Rightarrow> string \<Rightarrow> replacement list \<Rightarrow> string" where
  "splice_from pos src [] = drop pos src"
| "splice_from pos src (r # rs) = slice src pos (r_start r) @ placeholder r @ splice_from (r_end r) src rs"

text \<open>Replacements in ascending order that do not overlap.\<close>

fun ascending :: "nat \<Rightarrow> nat \<Rightarrow> replacement list \<Rightarrow> bool" where
  "ascending lo hi [] \<longleftrightarrow> lo \<le> hi"
| "ascending lo hi (r # rs) \<longleftrightarrow> lo \<le> r_start r \<and> r_start r \<le> r_end r \<and> ascending (r_end r) hi rs"

lemma ascending_bound: "ascending lo hi rs \<Longrightarrow> lo \<le> hi"
  by (induction lo hi rs rule: ascending.induct) auto

lemma replace_right_to_left:
  "ascending lo (length src) rs \<Longrightarrow>
     take lo (foldr (\<lambda>r s. replace_one s r) rs src) = take lo src \<and>
     drop lo (foldr (\<lambda>r s. replace_one s r) rs src) = splice_from lo src rs"
proof (induction rs arbitrary: lo)
  case Nil
  then show ?case by simp
next
  case (Cons r rs)
  let ?S = "foldr (\<lambda>r s. replace_one s r) rs src"
  from Cons.prems have asc: "lo \<le> r_start r" "r_start r \<le> r_end r" "ascending (r_end r) (length src) rs" by auto
  from Cons.IH [OF asc(3)] have IH: "take (r_end r) ?S = take (r_end r) src" "drop (r_end r) ?S = splice_from (r_end r) src rs" by auto
  have len: "r_end r \<le> length src" using ascending_bound [OF asc(3)] .
  have start: "take (r_start r) ?S = take (r_start r) src"
    using arg_cong [OF IH(1), of "take (r_start r)"] asc(2) by (simp add: min_def)
  then have "foldr (\<lambda>r s. replace_one s r) (r # rs) src = take (r_start r) src @ placeholder r @ splice_from (r_end r) src rs"
    by (simp add: replace_one_def [of ?S r] IH(2))
  then show ?case using asc len by (simp add: slice_def drop_take min_def)
qed

lemma replace_descending:
  assumes "ascending 0 (length src) (rev rs)"
  shows "foldl replace_one src rs = splice_from 0 src (rev rs)"
  using replace_right_to_left [OF assms] by (simp add: foldl_conv_foldr)

interpretation repl_order: js_comparator "\<lambda>a b :: replacement. r_start b > r_start a" UNIV
  by unfold_locales auto

text \<open>Non-empty spans, pairwise disjoint, become ascending by sorting on the start offset.\<close>

definition span_disjoint :: "nat \<times> nat \<Rightarrow> nat \<times> nat \<Rightarrow> bool" where
  "span_disjoint a b \<longleftrightarrow> snd a \<le> fst b \<or> snd b \<le> fst a"

definition r_span :: "replacement \<Rightarrow> nat \<times> nat" where
  "r_span r = (r_start r, r_end r)"

definition pairwise_disjoint :: "(nat \<times> nat) list \<Rightarrow> bool" where
  "pairwise_disjoint xs \<longleftrightarrow> sorted_wrt span_disjoint xs"

lemma span_disjoint_sym: "span_disjoint a b = span_disjoint b a"
  by (auto simp: span_disjoint_def)

lemma pairwise_disjoint_Cons: "pairwise_disjoint (x # xs) \<longleftrightarrow> (\<forall>y \<in> set xs. span_disjoint x y) \<and> pairwise_disjoint xs"
  by (simp add: pairwise_disjoint_def)

lemma pairwise_disjoint_append:
  "pairwise_disjoint (xs @ ys) \<longleftrightarrow> pairwise_disjoint xs \<and> pairwise_disjoint ys \<and> (\<forall>x \<in> set xs. \<forall>y \<in> set ys. span_disjoint x y)"
  by (auto simp: pairwise_disjoint_def sorted_wrt_append)

lemma pairwise_ins_by:
  "pairwise_disjoint (map r_span (ins_by gt x ys)) \<longleftrightarrow> pairwise_disjoint (map r_span (x # ys))"
proof (induction ys)
  case (Cons y ys)
  have "set (ins_by gt x ys) = insert x (set ys)" by (metis mset_ins_by set_mset_mset set_mset_add_mset_insert)
  with Cons show ?case by (auto simp: pairwise_disjoint_Cons span_disjoint_sym)
qed simp

lemma pairwise_sort: "pairwise_disjoint (map r_span (js_sort_by gt xs)) \<longleftrightarrow> pairwise_disjoint (map r_span xs)"
  by (induction xs) (auto simp: pairwise_ins_by pairwise_disjoint_Cons)

lemma ascending_if_disjoint:
  "sorted_wrt (\<lambda>a b. r_start a \<le> r_start b) rs \<Longrightarrow> pairwise_disjoint (map r_span rs) \<Longrightarrow>
   \<forall>r \<in> set rs. lo \<le> r_start r \<and> r_start r < r_end r \<and> r_end r \<le> hi \<Longrightarrow> lo \<le> hi \<Longrightarrow> ascending lo hi rs"
proof (induction rs arbitrary: lo)
  case (Cons r rs)
  have "r_end r \<le> r_start q" if "q \<in> set rs" for q
    using that Cons.prems by (fastforce simp: pairwise_disjoint_Cons span_disjoint_def r_span_def)
  with Cons show ?case by (auto simp: pairwise_disjoint_Cons)
qed simp

lemma applyReplacements_splice:
  assumes "pairwise_disjoint (map r_span rs)" and "\<forall>r \<in> set rs. r_start r < r_end r \<and> r_end r \<le> length src"
  shows "applyReplacements src rs = splice_from 0 src (rev (js_sort_by (\<lambda>a b. r_start b > r_start a) rs))"
proof -
  let ?sorted = "js_sort_by (\<lambda>a b. r_start b > r_start a) rs"
  have "sorted_wrt (\<lambda>a b. \<not> r_start b > r_start a) ?sorted" using repl_order.sorted_js_sort_by by blast
  then have "sorted_wrt (\<lambda>a b. r_start a \<le> r_start b) (rev ?sorted)" by (simp add: sorted_wrt_rev not_less)
  moreover have "pairwise_disjoint (map r_span (rev ?sorted))"
  proof -
    have "pairwise_disjoint (map r_span ?sorted)" using assms(1) by (simp add: pairwise_sort)
    then show ?thesis
      unfolding pairwise_disjoint_def rev_map [symmetric] sorted_wrt_rev by (simp add: span_disjoint_sym)
  qed
  ultimately have "ascending 0 (length src) (rev ?sorted)" using assms(2) by (intro ascending_if_disjoint) auto
  then show ?thesis by (simp add: applyReplacements_def replace_descending)
qed

section \<open>Well-formed trees\<close>

text \<open>
  What the parser of a syntactically correct file guarantees: the children of a node lie in its
  span in source order without overlap, nodes other than auxiliary ones are not empty, and the text
  of a call contains its parenthesis, that of a property access its dot.
\<close>

fun in_order :: "nat \<Rightarrow> ts_ast list \<Rightarrow> nat \<Rightarrow> bool" where
  "in_order lo [] hi \<longleftrightarrow> lo \<le> hi"
| "in_order lo (c # cs) hi \<longleftrightarrow> lo \<le> getStart c \<and> getStart c \<le> getEnd c \<and> in_order (getEnd c) cs hi"

fun is_aux :: "ts_ast \<Rightarrow> bool" where
  "is_aux (OtherNode s e k cs) = True"
| "is_aux _ = False"

fun is_call :: "ts_ast \<Rightarrow> bool" where
  "is_call (Call s e f args) = True"
| "is_call _ = False"

fun is_property :: "ts_ast \<Rightarrow> bool" where
  "is_property (PropertyAccess s e x m) = True"
| "is_property _ = False"

definition wf_node :: "string \<Rightarrow> ts_ast \<Rightarrow> bool" where
  "wf_node src n \<longleftrightarrow> in_order (getStart n) (children n) (getEnd n) \<and> (\<not> is_aux n \<longrightarrow> getStart n < getEnd n) \<and>
     getEnd n \<le> length src \<and> (is_call n \<longrightarrow> CHR ''('' \<in> set (getText src n)) \<and>
     (is_property n \<longrightarrow> CHR ''.'' \<in> set (getText src n))"

definition wf_tree :: "string \<Rightarrow> ts_ast \<Rightarrow> bool" where
  "wf_tree src n \<longleftrightarrow> (\<forall>m \<in> set (preorder n). wf_node src m)"

lemma preorder_self [simp]: "n \<in> set (preorder n)"
  by (simp add: preorder.simps [of n])

lemma preorder_child: "c \<in> set (children n) \<Longrightarrow> set (preorder c) \<subseteq> set (preorder n)"
  by (auto simp: preorder.simps [of n])

lemma wf_tree_child: "wf_tree src n \<Longrightarrow> c \<in> set (children n) \<Longrightarrow> wf_tree src c"
  using preorder_child by (fastforce simp: wf_tree_def)

lemma wf_tree_node: "wf_tree src n \<Longrightarrow> wf_node src n"
  by (simp add: wf_tree_def)

definition inside :: "ts_ast \<Rightarrow> ts_ast \<Rightarrow> bool" where
  "inside m n \<longleftrightarrow> getStart n \<le> getStart m \<and> getEnd m \<le> getEnd n"

lemma in_order_bounds: "in_order lo cs hi \<Longrightarrow> lo \<le> hi \<and> (\<forall>c \<in> set cs. lo \<le> getStart c \<and> getStart c \<le> getEnd c \<and> getEnd c \<le> hi)"
  by (induction lo cs hi rule: in_order.induct) auto

lemma child_within: "wf_node src n \<Longrightarrow> c \<in> set (children n) \<Longrightarrow> inside c n"
  using in_order_bounds [of "getStart n" "children n" "getEnd n"] by (auto simp: wf_node_def inside_def)

lemma within_trans: "inside a b \<Longrightarrow> inside b c \<Longrightarrow> inside a c"
  by (auto simp: inside_def)

lemma preorder_within: "wf_tree src n \<Longrightarrow> m \<in> set (preorder n) \<Longrightarrow> inside m n"
proof (induction n rule: preorder.induct)
  case (1 n)
  show ?case
  proof (cases "m = n")
    case True
    then show ?thesis by (simp add: inside_def)
  next
    case False
    with 1 obtain c where "c \<in> set (children n)" "m \<in> set (preorder c)" by (auto simp: preorder.simps [of n])
    with 1 show ?thesis by (meson child_within wf_tree_child wf_tree_node within_trans)
  qed
qed

lemma slice_nth: "slice src s e = map ((!) src) [s..<min e (length src)]"
  by (rule nth_equalityI) (auto simp: slice_def nth_append less_diff_conv add.commute)

lemma slice_subset: "s \<le> s' \<Longrightarrow> e' \<le> e \<Longrightarrow> set (slice src s' e') \<subseteq> set (slice src s e)"
  by (auto simp: slice_nth)

text \<open>A node whose text has no parenthesis contains no call.\<close>

lemma no_call_inside:
  assumes "wf_tree src n" and "CHR ''('' \<notin> set (getText src n)" and "m \<in> set (preorder n)"
  shows "\<not> is_call m"
proof
  assume "is_call m"
  with assms have "CHR ''('' \<in> set (getText src m)" by (simp add: wf_tree_def wf_node_def)
  moreover have "set (getText src m) \<subseteq> set (getText src n)"
    using preorder_within [OF assms(1,3)] unfolding getText_def inside_def by (intro slice_subset) auto
  ultimately show False using assms(2) by auto
qed

lemma sites_no_call: "\<forall>m \<in> set (preorder n). \<not> is_call m \<Longrightarrow> concat (map node_sites (preorder n)) = []"
proof -
  have "call_info m = None" if "\<not> is_call m" for m using that by (cases m) auto
  then show "\<forall>m \<in> set (preorder n). \<not> is_call m \<Longrightarrow> concat (map node_sites (preorder n)) = []"
    by (auto simp: node_sites_def)
qed

text \<open>All sites of a tree, natural or not, split by child.\<close>

definition all_sites :: "ts_ast \<Rightarrow> (repl_kind \<times> ts_ast) list" where
  "all_sites n = concat (map node_sites (preorder n))"

lemma concat_map_concat: "concat (map f (concat xss)) = concat (map (\<lambda>xs. concat (map f xs)) xss)"
  by (induction xss) auto

lemma all_sites_unfold: "all_sites n = node_sites n @ concat (map all_sites (children n))"
  by (simp add: all_sites_def [abs_def] preorder.simps [of n] concat_map_concat comp_def)

lemma all_sites_name:
  "wf_tree src n \<Longrightarrow> getText src n \<in> {''Key'', ''P'', ''coalesce'', ''regex''} \<Longrightarrow> all_sites n = []"
  unfolding all_sites_def by (rule sites_no_call) (auto dest: no_call_inside)

lemma node_sites_named_call:
  assumes "wf_tree src f" and "getText src f \<in> {''Key'', ''P'', ''coalesce'', ''regex''}"
  shows "node_sites (Call s e f args) = []"
proof -
  have "\<not> is_property f" using wf_tree_node [OF assms(1)] assms(2) by (auto simp: wf_node_def)
  then show ?thesis by (cases f) (auto simp: node_sites_def)
qed

lemma node_sites_not_call: "\<not> is_call n \<Longrightarrow> node_sites n = []"
  by (cases n) (auto simp: node_sites_def)

lemma all_sites_leaf: "children n = [] \<Longrightarrow> \<not> is_call n \<Longrightarrow> all_sites n = []"
  by (simp add: all_sites_unfold [of n] node_sites_not_call)

text \<open>A tree that compiles contains no further sites.\<close>

lemma all_sites_compiled_expr:
  "compileExpr keys params src n = Inr x \<Longrightarrow> wf_tree src n \<Longrightarrow> all_sites n = []"
proof (induction n arbitrary: x)
  case (Call s e f args)
  then obtain y z a b where c: "getText src f = ''coalesce''" "args = [y, z]" "compileExpr keys params src y = Inr a"
    "compileExpr keys params src z = Inr b" by (auto simp: compileExpr_Call)
  have wf: "wf_tree src f" "wf_tree src y" "wf_tree src z" using wf_tree_child [OF Call.prems(2)] c(2) by auto
  show ?case
    using Call.IH(2) [of y a] Call.IH(2) [of z b] c wf all_sites_name [OF wf(1)] node_sites_named_call [OF wf(1)]
    by (simp add: all_sites_unfold [of "Call s e f [y, z]"])
next
  case (PropertyAccess s e y m)
  then show ?case
    using wf_tree_child [OF PropertyAccess.prems(2)] all_sites_name [of src y]
    by (auto simp: all_sites_unfold [of "PropertyAccess s e y m"] node_sites_not_call compileExpr_Property)
next
  case (PrefixUnary s e u y)
  then show ?case
    using wf_tree_child [OF PrefixUnary.prems(2)]
    by (auto simp: all_sites_unfold [of "PrefixUnary s e u y"] node_sites_not_call compileExpr_Prefix)
next
  case (Binary s e u l r)
  then show ?case
    using wf_tree_child [OF Binary.prems(2)]
    by (auto simp: all_sites_unfold [of "Binary s e u l r"] node_sites_not_call compileExpr_Binary)
next
  case (Paren s e y)
  then show ?case
    using wf_tree_child [OF Paren.prems(2)]
    by (auto simp: all_sites_unfold [of "Paren s e y"] node_sites_not_call)
qed (auto simp: all_sites_leaf)

lemma all_sites_compiled_term: "compileTerm keys params src n = Inr x \<Longrightarrow> wf_tree src n \<Longrightarrow> all_sites n = []"
  using all_sites_compiled_expr by (auto simp: compileTerm_iff)

lemma all_sites_property: "wf_tree src (PropertyAccess s e k m) \<Longrightarrow> getText src k \<in> {''Key'', ''P''} \<Longrightarrow> all_sites (PropertyAccess s e k m) = []"
  using wf_tree_child [of src "PropertyAccess s e k m" k] all_sites_name [of src k]
  by (auto simp: all_sites_unfold [of "PropertyAccess s e k m"] node_sites_not_call)

lemma all_sites_regex_args:
  assumes "compileRegexCall keys params src args node = Inr x" and "\<forall>a \<in> set args. wf_tree src a"
  shows "concat (map all_sites args) = []"
proof -
  from assms(1) obtain a b fl i q flags where args: "args = a # b # fl" "length fl \<le> 1" "regexKey keys src a = Inr i"
    "regexPattern params src b = Inr q" "regexFlags fl = Inr flags" by (auto simp: compileRegexCall_iff)
  have "all_sites a = []" using args assms(2) by (auto simp: regexKey_iff intro: all_sites_property)
  moreover have "all_sites b = []" using args assms(2) by (auto simp: regexPattern_iff all_sites_leaf intro: all_sites_property)
  moreover have "concat (map all_sites fl) = []"
    using args(2,5) by (cases fl rule: regexFlags.cases) (auto simp: all_sites_leaf)
  ultimately show ?thesis using args(1) by simp
qed

lemma all_sites_compiled_cmp:
  assumes "compileCmp keys params src c l r node = Inr x" and "wf_tree src l" and "wf_tree src r"
  shows "all_sites l = [] \<and> all_sites r = []"
proof -
  have null: "isNullLiteral n \<Longrightarrow> all_sites n = []" for n by (cases n) (auto simp: all_sites_leaf)
  show ?thesis
    using assms null by (auto simp: compileCmp_def bindR_Inr_iff dest: all_sites_compiled_term split: if_splits)
qed

lemma all_sites_compiled_pred:
  "compilePred keys params src n = Inr x \<Longrightarrow> wf_tree src n \<Longrightarrow> all_sites n = []"
proof (induction n arbitrary: x)
  case (Call s e f args)
  then have f: "getText src f = ''regex''" "compileRegexCall keys params src args (Call s e f args) = Inr x"
    by (auto simp: Let_def split: if_splits)
  have wf: "wf_tree src f" "\<forall>a \<in> set args. wf_tree src a" using wf_tree_child [OF Call.prems(2)] by auto
  show ?case
    using f all_sites_regex_args [OF f(2) wf(2)] all_sites_name [OF wf(1)] node_sites_named_call [OF wf(1)]
    by (simp add: all_sites_unfold [of "Call s e f args"])
next
  case (PrefixUnary s e u y)
  then show ?case
    using wf_tree_child [OF PrefixUnary.prems(2)]
    by (auto simp: all_sites_unfold [of "PrefixUnary s e u y"] node_sites_not_call bindR_Inr_iff split: if_splits)
next
  case (Binary s e u l r)
  then show ?case
    using wf_tree_child [OF Binary.prems(2)]
    by (auto simp: all_sites_unfold [of "Binary s e u l r"] node_sites_not_call bindR_Inr_iff
        dest: all_sites_compiled_cmp split: if_splits option.splits)
next
  case (Paren s e y)
  then show ?case
    using wf_tree_child [OF Paren.prems(2)]
    by (auto simp: all_sites_unfold [of "Paren s e y"] node_sites_not_call)
qed (auto simp: all_sites_leaf)

lemma all_sites_ok: "is_ok src x \<Longrightarrow> wf_tree src (snd x) \<Longrightarrow> all_sites (snd x) = []"
  by (cases "(src, x)" rule: compile_site.cases)
    (auto simp: is_ok_def split: sum.splits dest: all_sites_compiled_expr all_sites_compiled_pred)

section \<open>Sites do not overlap\<close>

definition site_span :: "repl_kind \<times> ts_ast \<Rightarrow> nat \<times> nat" where
  "site_span x = (getStart (snd x), getEnd (snd x))"

lemma pairwise_disjoint_mset_iff:
  "pairwise_disjoint xs \<longleftrightarrow> (\<forall>x \<in># mset xs. \<forall>y \<in># mset xs - {#x#}. span_disjoint x y)"
proof (induction xs)
  case Nil
  then show ?case by (simp add: pairwise_disjoint_def)
next
  case (Cons a xs)
  have diff: "add_mset a (mset xs) - {#x#} = add_mset a (mset xs - {#x#})" if "x \<in> set xs" for x
    using that by (simp add: multiset_diff_union_assoc)
  show ?case
    by (auto simp: pairwise_disjoint_Cons Cons.IH diff span_disjoint_sym)
qed

lemma pairwise_disjoint_perm: "mset xs = mset ys \<Longrightarrow> pairwise_disjoint xs = pairwise_disjoint ys"
  by (simp add: pairwise_disjoint_mset_iff)

lemma children_disjoint:
  assumes "in_order lo cs hi"
    and "\<forall>c \<in> set cs. pairwise_disjoint (map site_span (F c)) \<and> (\<forall>x \<in> set (F c). inside (snd x) c)"
  shows "pairwise_disjoint (map site_span (concat (map F cs))) \<and>
    (\<forall>x \<in> set (concat (map F cs)). lo \<le> getStart (snd x) \<and> getEnd (snd x) \<le> hi)"
  using assms
proof (induction lo cs hi rule: in_order.induct)
  case (1 lo hi)
  then show ?case by (simp add: pairwise_disjoint_def)
next
  case (2 lo c cs hi)
  then have IH: "pairwise_disjoint (map site_span (concat (map F cs)))"
    "\<forall>x \<in> set (concat (map F cs)). getEnd c \<le> getStart (snd x) \<and> getEnd (snd x) \<le> hi" by auto
  have c: "lo \<le> getStart c" "getEnd c \<le> hi" "getStart c \<le> getEnd c" using 2(2) in_order_bounds by auto
  have Fc: "pairwise_disjoint (map site_span (F c))" "\<forall>x \<in> set (F c). getStart c \<le> getStart (snd x) \<and> getEnd (snd x) \<le> getEnd c"
    using 2(3) by (auto simp: inside_def)
  have "\<forall>x \<in> set (F c). \<forall>y \<in> set (concat (map F cs)). span_disjoint (site_span x) (site_span y)"
    using Fc(2) IH(2) unfolding span_disjoint_def site_span_def fst_conv snd_conv by (meson order_trans)
  then have "pairwise_disjoint (map site_span (F c @ concat (map F cs)))"
    unfolding map_append pairwise_disjoint_append using Fc(1) IH(1) by simp
  moreover have "\<forall>x \<in> set (F c @ concat (map F cs)). lo \<le> getStart (snd x) \<and> getEnd (snd x) \<le> hi"
    unfolding set_append ball_Un using Fc(2) IH(2) c by (meson order_trans)
  ultimately show ?case by simp
qed

lemma regroup: "mset (concat (map g cs) @ concat (map h cs)) = mset (concat (map (\<lambda>c. g c @ h c) cs))"
  by (induction cs) (auto simp: ac_simps)

text \<open>
  The natural sites of one property, argument or call, together with those further inside. A
  natural option that compiles contains none, so what is left are disjoint children.
\<close>

definition nats :: "string \<Rightarrow> (repl_kind \<times> ts_ast) list \<Rightarrow> (repl_kind \<times> ts_ast) list" where
  "nats src xs = filter (is_natural src) xs"

abbreviation good :: "string \<Rightarrow> ts_ast \<Rightarrow> (repl_kind \<times> ts_ast) list \<Rightarrow> bool" where
  "good src n xs \<equiv> pairwise_disjoint (map site_span xs) \<and> (\<forall>x \<in> set xs. inside (snd x) n)"

lemma sites_nats: "sites src n = nats src (all_sites n)"
  by (simp add: sites_def nats_def all_sites_def)

lemma sites_unfold: "sites src n = nats src (node_sites n) @ concat (map (sites src) (children n))"
  by (simp add: sites_nats [abs_def] all_sites_unfold [of n] nats_def filter_concat comp_def)

lemma good_perm: "mset xs = mset ys \<Longrightarrow> good src n xs \<longleftrightarrow> good src n ys"
  using pairwise_disjoint_perm [of "map site_span xs" "map site_span ys"]
  by (metis mset_map set_mset_mset)

text \<open>Sites \<open>g c\<close> of the children themselves and those found inside the children.\<close>

lemma good_node:
  assumes "wf_node src n" and "\<forall>c \<in> set (children n). good src c (g c @ sites src c)"
  shows "good src n (concat (map g (children n)) @ concat (map (sites src) (children n)))"
proof -
  have "in_order (getStart n) (children n) (getEnd n)" using assms(1) by (simp add: wf_node_def)
  from children_disjoint [OF this, of "\<lambda>c. g c @ sites src c"] assms(2)
  have "good src n (concat (map (\<lambda>c. g c @ sites src c) (children n)))" by (auto simp: inside_def)
  then show ?thesis using good_perm [OF regroup] by blast
qed

lemma good_prop:
  assumes "wf_tree src p" and "\<forall>x \<in> set (nats src (prop_sites info p)). is_ok src x" and "good src p (sites src p)"
  shows "good src p (nats src (prop_sites info p) @ sites src p)"
proof (cases "nats src (prop_sites info p) = []")
  case True
  with assms(3) show ?thesis by simp
next
  case False
  then obtain s e s' e' name ini k where p: "p = PropertyAssignment s e (Identifier s' e' name) ini"
    "nats src (prop_sites info p) = [(k, ini)]"
    by (cases "(info, p)" rule: prop_sites.cases) (auto simp: nats_def split: if_splits)
  have ini: "wf_tree src ini" "inside ini p"
    using wf_tree_child [OF assms(1)] child_within [OF wf_tree_node [OF assms(1)]] p(1) by auto
  have "is_ok src (k, ini)" using assms(2) p(2) by simp
  then have "all_sites ini = []" using all_sites_ok [of src "(k, ini)"] ini(1) by simp
  then have "sites src p = []"
    unfolding p(1) sites_unfold [of src "PropertyAssignment s e (Identifier s' e' name) ini"]
    by (simp add: node_sites_not_call sites_nats all_sites_leaf nats_def)
  with p(2) ini(2) show ?thesis by (simp add: pairwise_disjoint_def)
qed

lemma nats_concat: "nats src (concat (map f xs)) = concat (map (\<lambda>x. nats src (f x)) xs)"
  by (simp add: nats_def filter_concat comp_def)

lemma good_arg:
  assumes wf: "wf_tree src a" and ok: "\<forall>x \<in> set (nats src (arg_sites info a)). is_ok src x" and good: "good src a (sites src a)"
    and props: "\<forall>p \<in> set (children a). good src p (sites src p)"
  shows "good src a (nats src (arg_sites info a) @ sites src a)"
proof (cases "\<exists>s e ps. a = ObjectLiteral s e ps")
  case True
  then obtain s e ps where a: "a = ObjectLiteral s e ps" by blast
  have sites: "sites src a = concat (map (sites src) (children a))"
    unfolding a sites_unfold [of src "ObjectLiteral s e ps"] by (simp add: node_sites_not_call nats_def)
  have args: "nats src (arg_sites info a) = concat (map (\<lambda>p. nats src (prop_sites info p)) (children a))"
    by (simp add: a nats_concat)
  have "good src p (nats src (prop_sites info p) @ sites src p)" if p: "p \<in> set (children a)" for p
    using p props ok by (intro good_prop wf_tree_child [OF wf]) (auto simp: args)
  then show ?thesis unfolding sites args by (intro good_node wf_tree_node [OF wf]) blast
next
  case False
  then have "arg_sites info a = []" by (cases a) auto
  with good show ?thesis by (simp add: nats_def)
qed

lemma good_sites:
  assumes "wf_tree src n" and "\<forall>x \<in> set (sites src n). is_ok src x"
  shows "good src n (sites src n) \<and> (\<forall>c \<in> set (children n). good src c (sites src c))"
  using assms
proof (induction n rule: preorder.induct)
  case (1 n)
  have kids: "good src c (sites src c) \<and> (\<forall>d \<in> set (children c). good src d (sites src d))" if "c \<in> set (children n)" for c
    using that 1 by (intro "1.IH" wf_tree_child [OF "1.prems"(1)]) (auto simp: sites_unfold [of src n])
  have "good src n (sites src n)"
  proof (cases "call_info n")
    case None
    then have "sites src n = concat (map (\<lambda>_. []) (children n)) @ concat (map (sites src) (children n))"
      by (simp add: sites_unfold [of src n] node_sites_def nats_def)
    moreover have "good src n \<dots>" using kids by (intro good_node wf_tree_node [OF "1.prems"(1)]) simp
    ultimately show ?thesis by simp
  next
    case (Some info)
    then obtain s e s' e' obj m args where n: "n = Call s e (PropertyAccess s' e' obj m) args"
      by (cases n rule: call_info.cases) auto
    have own: "nats src (node_sites n) = concat (map (\<lambda>c. nats src (arg_sites info c)) (children n))"
      using Some unfolding node_sites_def n by (simp add: nats_concat) (simp add: nats_def)
    have "good src c (nats src (arg_sites info c) @ sites src c)" if c: "c \<in> set (children n)" for c
      using c kids [OF c] "1.prems"(2)
      by (intro good_arg wf_tree_child [OF "1.prems"(1) c]) (auto simp: sites_unfold [of src n] own)
    then show ?thesis
      unfolding sites_unfold [of src n] own by (intro good_node wf_tree_node [OF "1.prems"(1)]) blast
  qed
  with kids show ?case by blast
qed

section \<open>Properties\<close>

lemma prop_sites_child: "x \<in> set (prop_sites info p) \<Longrightarrow> snd x \<in> set (children p)"
  by (cases "(info, p)" rule: prop_sites.cases) (auto split: if_splits)

lemma arg_sites_preorder: "x \<in> set (arg_sites info a) \<Longrightarrow> snd x \<in> set (preorder a)"
proof (cases a)
  case (ObjectLiteral s e ps)
  assume "x \<in> set (arg_sites info a)"
  with ObjectLiteral obtain p where p: "p \<in> set (children a)" "x \<in> set (prop_sites info p)" by auto
  from preorder_child [OF prop_sites_child [OF p(2)]] have "snd x \<in> set (preorder p)" by auto
  with preorder_child [OF p(1)] show ?thesis by blast
qed auto

lemma node_sites_preorder: "x \<in> set (node_sites n) \<Longrightarrow> snd x \<in> set (preorder n)"
proof -
  assume "x \<in> set (node_sites n)"
  then obtain info a where a: "a \<in> set (call_args n)" "x \<in> set (arg_sites info a)"
    by (auto simp: node_sites_def split: option.splits)
  then have "a \<in> set (children n)" by (cases n) auto
  with arg_sites_preorder [OF a(2)] preorder_child show ?thesis by blast
qed

lemma all_sites_preorder: "x \<in> set (all_sites n) \<Longrightarrow> snd x \<in> set (preorder n)"
proof (induction n rule: preorder.induct)
  case (1 n)
  show ?case
  proof (cases "x \<in> set (node_sites n)")
    case True
    then show ?thesis by (rule node_sites_preorder)
  next
    case False
    with 1 obtain c where "c \<in> set (children n)" "snd x \<in> set (preorder c)" by (auto simp: all_sites_unfold [of n])
    with preorder_child show ?thesis by blast
  qed
qed

lemma natural_not_aux: "is_natural src x \<Longrightarrow> \<not> is_aux (snd x)"
  by (cases "(src, x)" rule: is_natural.cases; cases "snd x") auto

lemma site_nonempty:
  assumes "wf_tree src n" and "x \<in> set (sites src n)"
  shows "getStart (snd x) < getEnd (snd x) \<and> getEnd (snd x) \<le> length src"
proof -
  from assms(2) have x: "x \<in> set (all_sites n)" "is_natural src x" by (auto simp: sites_nats nats_def)
  have "wf_node src (snd x)" using assms(1) all_sites_preorder [OF x(1)] by (simp add: wf_tree_def)
  then show ?thesis using natural_not_aux [OF x(2)] by (simp add: wf_node_def)
qed

lemma points_at_spans: "list_all2 (points_at src st) rs xs \<Longrightarrow> map r_span rs = map site_span xs"
  by (induction rule: list_all2_induct) (auto simp: points_at_def r_span_def site_span_def)

lemma errors_none: "recorded src xs st \<Longrightarrow> errors st = [] \<longleftrightarrow> (\<forall>x \<in> set xs. is_ok src x)"
  unfolding recorded_def by (metis (no_types, lifting) filter_empty_conv length_0_conv)

lemma extract_splice:
  assumes wf: "wf_tree (sf_text sf) (sf_tree sf)" and run: "extractExpressions sf = (out, st)" and ok: "errors st = []"
  shows "\<exists>rs. mset rs = mset (replacements st) \<and> ascending 0 (length (sf_text sf)) rs \<and> out = splice_from 0 (sf_text sf) rs"
proof -
  let ?src = "sf_text sf" and ?xs = "sites (sf_text sf) (sf_tree sf)"
  from run ok have st: "st = visit sf (sf_tree sf) new_extraction" "out = applyReplacements ?src (replacements st)"
    by (auto simp: extractExpressions_def Let_def split: if_splits)
  have rec: "recorded ?src ?xs st" unfolding st(1) by (rule visit_recorded)
  then have all_ok: "\<forall>x \<in> set ?xs. is_ok ?src x" using ok errors_none by blast
  then have "filter (is_ok ?src) ?xs = ?xs" by simp
  with rec have spans: "map r_span (replacements st) = map site_span ?xs"
    by (intro points_at_spans [of "sf_text sf" st]) (simp add: recorded_def)
  have disj: "pairwise_disjoint (map r_span (replacements st))" unfolding spans using good_sites [OF wf all_ok] by blast
  have "r_start r < r_end r \<and> r_end r \<le> length ?src" if "r \<in> set (replacements st)" for r
  proof -
    from that have "r_span r \<in> set (map site_span ?xs)" unfolding spans [symmetric] by simp
    with site_nonempty [OF wf] show ?thesis by (auto simp: r_span_def site_span_def)
  qed
  then have bounds: "\<forall>r \<in> set (replacements st). r_start r < r_end r \<and> r_end r \<le> length ?src" by blast
  let ?rs = "rev (js_sort_by (\<lambda>a b. r_start b > r_start a) (replacements st))"
  have "sorted_wrt (\<lambda>a b. r_start a \<le> r_start b) ?rs"
    using repl_order.sorted_js_sort_by [of "replacements st"] by (simp add: sorted_wrt_rev not_less)
  moreover have "pairwise_disjoint (map r_span ?rs)"
    using disj by (subst pairwise_disjoint_perm [of _ "map r_span (replacements st)"]) auto
  ultimately have "ascending 0 (length ?src) ?rs" using bounds by (intro ascending_if_disjoint) auto
  then show ?thesis
    using st(2) applyReplacements_splice [OF disj bounds] by (intro exI [of _ ?rs]) simp
qed

text \<open>A plan with one expression and one predicate, and its tree.\<close>

definition ex_plan :: source_file where
  "ex_plan = \<lparr>sf_text = ''c.vm({ expr: -Key.id }).filter({ pred: Key.id == null })'',
     sf_tree = OtherNode 0 56 ''SourceFile'' [
       Call 0 56
         (PropertyAccess 0 30
           (Call 0 23 (PropertyAccess 0 4 (Identifier 0 1 ''c'') ''vm'')
             [ObjectLiteral 5 22
               [PropertyAssignment 7 20 (Identifier 7 11 ''expr'')
                  (PrefixUnary 13 20 MinusToken (PropertyAccess 14 20 (Identifier 14 17 ''Key'') ''id''))]])
           ''filter'')
         [ObjectLiteral 31 55
           [PropertyAssignment 33 53 (Identifier 33 37 ''pred'')
             (Binary 39 53 EqualsEqualsToken (PropertyAccess 39 45 (Identifier 39 42 ''Key'') ''id'') (NullKeyword 49 53))]]],
     sf_lineAndCharacter = (\<lambda>i. (0, i))\<rparr>"

definition ex_rewritten :: string where
  "ex_rewritten = ''c.vm({ expr: { __expr_id: 0 } }).filter({ pred: { __pred_id: 0 } })''"

lemma ex_plan_wf: "wf_tree (sf_text ex_plan) (sf_tree ex_plan)"
  by code_simp

lemma ex_plan_out: "fst (extractExpressions ex_plan) = ex_rewritten"
  by code_simp

lemma ex_plan_no_errors: "errors (snd (extractExpressions ex_plan)) = []"
  by code_simp

lemma ex_plan_run: "extractExpressions ex_plan = (ex_rewritten, snd (extractExpressions ex_plan))"
  by (simp add: prod_eq_iff ex_plan_out)

text \<open>
  Property C4. Rewriting is exact. For a well-formed tree without extraction errors the rewritten source
  is the original with the span of each extracted option replaced by its placeholder and every
  other character kept: applying the replacements one by one from the highest offset equals a
  single left-to-right pass over non-overlapping spans, although calls are visited outside in.
\<close>

theorem extraction_rewrites:
  assumes "wf_tree (sf_text sf) (sf_tree sf)" and "extractExpressions sf = (out, st)" and "errors st = []"
  shows "\<exists>rs. mset rs = mset (replacements st) \<and> ascending 0 (length (sf_text sf)) rs \<and> out = splice_from 0 (sf_text sf) rs"
  using assms by (rule extract_splice)

theorem extraction_rewrites_witness:
  "\<exists>rs. mset rs = mset (replacements (snd (extractExpressions ex_plan))) \<and> ascending 0 56 rs \<and>
     ex_rewritten = splice_from 0 (sf_text ex_plan) rs"
proof -
  have len: "length (sf_text ex_plan) = 56" by code_simp
  from extraction_rewrites [OF ex_plan_wf ex_plan_run ex_plan_no_errors] show ?thesis by (simp only: len)
qed

text \<open>
  Property C8. Extraction is complete and consistent: exactly one replacement is recorded for every
  natural option of a task call that compiles, in visit order, and its placeholder id is bound to
  the IR compiled from that option; the expression and predicate maps are numbered from zero
  without gaps; there is one error for every natural option that does not compile.
\<close>

theorem extraction_records:
  "let st = snd (extractExpressions sf); xs = sites (sf_text sf) (sf_tree sf) in
     list_all2 (points_at (sf_text sf) st) (replacements st) (filter (is_ok (sf_text sf)) xs) \<and>
     map fst (extractedExprs st) = [0..<exprCounter st] \<and>
     map fst (extractedPreds st) = [0..<predCounter st] \<and>
     length (errors st) = length (filter (\<lambda>x. \<not> is_ok (sf_text sf) x) xs)"
proof -
  have "snd (extractExpressions sf) = visit sf (sf_tree sf) new_extraction" by (simp add: extractExpressions_def Let_def)
  then show ?thesis using visit_recorded [of sf "sf_tree sf"] by (simp add: recorded_def Let_def)
qed

text \<open>
  Property C9. A source in which some natural option of a task call fails to compile is returned
  unchanged, with errors; otherwise there are no errors and the recorded replacements are applied.
\<close>

theorem extraction_fails_closed:
  "let ok = list_all (is_ok (sf_text sf)) (sites (sf_text sf) (sf_tree sf)); st = snd (extractExpressions sf) in
     (errors st = [] \<longleftrightarrow> ok) \<and>
     fst (extractExpressions sf) = (if ok then applyReplacements (sf_text sf) (replacements st) else sf_text sf)"
proof -
  have "snd (extractExpressions sf) = visit sf (sf_tree sf) new_extraction" by (simp add: extractExpressions_def Let_def)
  then show ?thesis
    using errors_none [OF visit_recorded [of sf "sf_tree sf"]] by (auto simp: extractExpressions_def Let_def list_all_iff)
qed

end
