(* ===== verification/CompileCorrect.thy ===== *)
theory CompileCorrect
  imports Cli ExtractionCorrect PlanSession
begin

text \<open>
  Correctness of the compile pipeline: the merge binds every placeholder to the tree extracted for
  it and keeps the artifact valid; a file is written only for a valid artifact whose plan name
  matches the file name.
\<close>

section \<open>The merge binds placeholders\<close>

definition tab_name :: "string \<Rightarrow> nat \<Rightarrow> string" where
  "tab_name ip i = ip @ nat_str i"

interpretation tab: id_table "tab_name ip" for ip
  by unfold_locales (simp add: tab_name_def)

lemma tab_name_expr: "tab_name ''e'' = expr_name" and tab_name_pred: "tab_name ''p'' = pred_name"
  by (auto simp: tab_name_def expr_name_def pred_name_def)

text \<open>The new entries and the remapping that the loop produces for a numbered table.\<close>

fun new_entries :: "string \<Rightarrow> nat \<Rightarrow> (nat \<times> jsval) list \<Rightarrow> (string \<times> jsval) list" where
  "new_entries ip n [] = []"
| "new_entries ip n ((i, v) # ex) = (tab_name ip n, v) # new_entries ip (Suc n) ex"

fun new_remap :: "string \<Rightarrow> string \<Rightarrow> nat \<Rightarrow> (nat \<times> jsval) list \<Rightarrow> (string \<times> string) list" where
  "new_remap ip sp n [] = []"
| "new_remap ip sp n ((i, v) # ex) = (sp @ nat_str i, tab_name ip n) # new_remap ip sp (Suc n) ex"

lemma new_entries_keys: "map fst (new_entries ip n ex) = map (tab_name ip) [n..<n + length ex]"
  by (induction ip n ex rule: new_entries.induct) (simp_all add: upt_conv_Cons del: upt_Suc)

lemma new_entries_nth: "i < length ex \<Longrightarrow> (tab_name ip (n + i), snd (ex ! i)) \<in> set (new_entries ip n ex)"
proof (induction ip n ex arbitrary: i rule: new_entries.induct)
  case (2 ip n k v ex)
  then show ?case by (cases i) (auto dest: "2.IH")
qed simp

lemma new_remap_keys: "map fst (new_remap ip sp n ex) = map (\<lambda>k. sp @ nat_str k) (map fst ex)"
  by (induction ip sp n ex rule: new_remap.induct) simp_all

lemma new_remap_nth: "i < length ex \<Longrightarrow> (sp @ nat_str (fst (ex ! i)), tab_name ip (n + i)) \<in> set (new_remap ip sp n ex)"
proof (induction ip sp n ex arbitrary: i rule: new_remap.induct)
  case (2 ip sp n k v ex)
  then show ?case by (cases i) (auto dest: "2.IH")
qed simp

lemma addExtracted_numbered:
  assumes "numbered (tab_name ip) t" and "distinct (map fst ex)"
    and "\<forall>(i, v) \<in> set ex. sp @ nat_str i \<notin> fst ` set rm"
  shows "addExtracted ip sp (length t) ex (JObj t) rm = (JObj (t @ new_entries ip (length t) ex), rm @ new_remap ip sp (length t) ex)"
  using assms
proof (induction ex arbitrary: t rm)
  case Nil
  then show ?case by simp
next
  case (Cons x ex)
  obtain i v where x: "x = (i, v)" by (cases x)
  let ?t = "t @ [(tab_name ip (length t), v)]" and ?rm = "rm @ [(sp @ nat_str i, tab_name ip (length t))]"
  have step: "addExtracted ip sp (length t) (x # ex) (JObj t) rm = addExtracted ip sp (length ?t) ex (JObj ?t) ?rm"
    using tab.alist_set_next [OF Cons.prems(1)] Cons.prems(3)
    by (simp add: x Let_def tab_name_def [symmetric] alist_set_fresh)
  have d: "distinct (map fst ex)" "i \<notin> fst ` set ex" using Cons.prems(2) by (simp_all add: x)
  have "sp @ nat_str j \<notin> fst ` set ?rm" if "(j, w) \<in> set ex" for j w
  proof -
    from that have "j \<in> fst ` set ex" by (rule image_eqI [rotated]) simp
    with d(2) have "j \<noteq> i" by blast
    moreover have "sp @ nat_str j \<notin> fst ` set rm" using Cons.prems(3) that by auto
    ultimately show ?thesis by simp
  qed
  then have "\<forall>(j, w) \<in> set ex. sp @ nat_str j \<notin> fst ` set ?rm" by blast
  from Cons.IH [OF tab.numbered_snoc [OF Cons.prems(1)] d(1) this]
  have "addExtracted ip sp (length ?t) ex (JObj ?t) ?rm =
      (JObj (?t @ new_entries ip (length ?t) ex), ?rm @ new_remap ip sp (length ?t) ex)" .
  then show ?case unfolding step by (simp add: x)
qed

lemma new_entries_lookup:
  "numbered (tab_name ip) t \<Longrightarrow> i < length ex \<Longrightarrow>
     map_of (t @ new_entries ip (length t) ex) (tab_name ip (length t + i)) = Some (snd (ex ! i))"
proof -
  assume t: "numbered (tab_name ip) t" and i: "i < length ex"
  have fresh: "tab_name ip (length t + i) \<notin> fst ` set t" using tab.keys_numbered [OF t] by (auto dest: tab.name_inj)
  have "distinct (map fst (new_entries ip (length t) ex))"
    unfolding new_entries_keys by (auto simp: distinct_map inj_on_def dest: tab.name_inj)
  with new_entries_nth [OF i] have "map_of (new_entries ip (length t) ex) (tab_name ip (length t + i)) = Some (snd (ex ! i))" by simp
  moreover have "map_of t (tab_name ip (length t + i)) = None" using fresh by (simp add: map_of_eq_None_iff)
  ultimately show ?thesis by (simp add: map_add_def)
qed

lemma new_remap_lookup:
  assumes "distinct (map fst ex)" and "i < length ex"
  shows "map_of (new_remap ip sp n ex) (sp @ nat_str (fst (ex ! i))) = Some (tab_name ip (n + i))"
proof -
  have "distinct (map fst (new_remap ip sp n ex))"
    unfolding new_remap_keys using assms(1) by (auto simp: distinct_map inj_on_def)
  with new_remap_nth [OF assms(2)] show ?thesis by simp
qed

text \<open>What the remapping does to the parameters of a node.\<close>

lemma remapNode_bound:
  assumes "getp node ''params'' = JObj ps" and "map_of ps key = Some (JStr ref)" and "startsWith ref sp"
    and "map_of rm ref = Some new"  and "is_object node" and "ps \<noteq> []"
  shows "getp (remapNode key sp rm node) ''params'' = JObj (alist_set key (JStr new) ps)"
proof -
  from assms(1,5) obtain kvs where "node = JObj kvs" by (cases node) (auto split: if_splits)
  with assms show ?thesis by (simp add: remapNode_def remapParams_def Let_def obj_get_own obj_get_alist_set)
qed

text \<open>The artifact of a context as the merge sees it.\<close>

lemma finalize_get: "obj_get (own_entries (finalize h name ctx)) k = getp (finalize h name ctx) k"
  by (simp add: finalize_def)

lemma nullish_table: "nullish (table_js t) (JObj []) = JObj t"
  by (simp add: table_js_def)

text \<open>What an \<open>expr_id\<close> stands for before the merge: a table entry or a placeholder of an extracted tree.\<close>

definition placeholders :: "string \<Rightarrow> (nat \<times> jsval) list \<Rightarrow> (string \<times> jsval) list" where
  "placeholders sp ex = map (\<lambda>(i, v). (sp @ nat_str i, v)) ex"

lemma placeholders_nth:
  assumes "map fst ex = [0..<length ex]" and "i < length ex"
  shows "map_of (placeholders sp ex) (sp @ nat_str i) = Some (snd (ex ! i))" and "fst (ex ! i) = i"
proof -
  from assms show i: "fst (ex ! i) = i" by (metis add_0 length_map map_nth nth_map nth_upt)
  have "map fst (placeholders sp ex) = map (\<lambda>k. sp @ nat_str k) (map fst ex)"
    by (simp add: placeholders_def case_prod_beta)
  then have "distinct (map fst (placeholders sp ex))" using assms(1) by (simp add: distinct_map inj_on_def)
  moreover have "(sp @ nat_str i, snd (ex ! i)) \<in> set (placeholders sp ex)"
    using assms(2) i by (force simp: placeholders_def in_set_conv_nth case_prod_beta)
  ultimately show "map_of (placeholders sp ex) (sp @ nat_str i) = Some (snd (ex ! i))" by simp
qed

lemma merged_node_bound:
  assumes t: "numbered (tab_name ip) t" and ex: "map fst ex = [0..<length ex]"
    and node: "getp node ''params'' = JObj ps" "map_of ps key = Some (JStr s)" "is_object node"
    and s: "s \<in> fst ` set t \<or> (\<exists>i < length ex. s = sp @ nat_str i)"
    and apart: "\<And>k. k \<in> fst ` set t \<Longrightarrow> \<not> startsWith k sp"
  shows "\<exists>id. getp (getp (remapNode key sp (new_remap ip sp (length t) ex) node) ''params'') key = JStr id \<and>
     map_of (t @ new_entries ip (length t) ex) id = map_of (t @ placeholders sp ex) s \<and>
     map_of (t @ placeholders sp ex) s \<noteq> None"
proof (cases "s \<in> fst ` set t")
  case True
  then have "remapNode key sp (new_remap ip sp (length t) ex) node = set_prop node ''params'' (JObj ps) \<or>
      remapNode key sp (new_remap ip sp (length t) ex) node = node"
    using apart node by (auto simp: remapNode_def remapParams_def Let_def obj_get_own)
  then have "getp (remapNode key sp (new_remap ip sp (length t) ex) node) ''params'' = JObj ps"
    using node by (cases node) (auto simp: obj_get_alist_set split: if_splits)
  moreover obtain v where "map_of t s = Some v" using True by (metis domD dom_map_of_conv_image_fst)
  ultimately show ?thesis using node(2) by (auto simp: obj_get_own map_add_def)
next
  case False
  with s obtain i where i: "i < length ex" "s = sp @ nat_str i" by blast
  have "distinct (map fst ex)" by (simp add: ex)
  then have "map_of (new_remap ip sp (length t) ex) s = Some (tab_name ip (length t + i))"
    using new_remap_lookup [of ex i ip sp "length t"] placeholders_nth(2) [OF ex i(1)] i by simp
  then have "getp (remapNode key sp (new_remap ip sp (length t) ex) node) ''params'' =
      JObj (alist_set key (JStr (tab_name ip (length t + i))) ps)"
    using node i(2) by (intro remapNode_bound) auto
  moreover have "map_of (t @ new_entries ip (length t) ex) (tab_name ip (length t + i)) = Some (snd (ex ! i))"
    by (rule new_entries_lookup [OF t i(1)])
  moreover have "map_of t s = None" using False by (simp add: map_of_eq_None_iff)
  ultimately show ?thesis
    using placeholders_nth(1) [OF ex i(1), of sp] i(2) by (auto simp: obj_get_alist_set map_add_def)
qed

lemma static_apart:
  "k \<in> fst ` set t \<Longrightarrow> numbered expr_name t \<Longrightarrow> \<not> startsWith k ''__static_e''"
  "k \<in> fst ` set t \<Longrightarrow> numbered pred_name t \<Longrightarrow> \<not> startsWith k ''__static_p''"
  by (auto simp: expr_ids.keys_numbered pred_ids.keys_numbered expr_name_def pred_name_def startsWith_def)

lemma node_js_params: "getp (node_js n) ''params'' = JObj (node_params n)" "is_object (node_js n)"
  by (auto simp: node_js_def)

text \<open>The merged artifact, its table \<open>T\<close>, and the node \<open>m\<close> that \<open>n\<close> became.\<close>

definition bound_in :: "(string \<times> jsval) list \<Rightarrow> string \<Rightarrow> string \<Rightarrow> plan_node \<Rightarrow> jsval option \<Rightarrow> bool" where
  "bound_in a tableKey key n tree \<longleftrightarrow>
     (\<exists>T m id. obj_get a tableKey = JObj T \<and> m \<in> set (elems (obj_get a ''nodes'')) \<and>
        getp m ''node_id'' = JStr (node_id n) \<and> getp (getp m ''params'') key = JStr id \<and>
        map_of T id = tree \<and> tree \<noteq> None)"

lemma merge_bound:
  assumes t: "numbered (tab_name ip) t" and ex: "map fst ex = [0..<length ex]"
    and n: "n \<in> set ns" "map_of (node_params n) key = Some (JStr s)"
    and s: "s \<in> fst ` set t \<or> (\<exists>i < length ex. s = sp @ nat_str i)"
    and apart: "\<And>k. k \<in> fst ` set t \<Longrightarrow> \<not> startsWith k sp" and tk: "tk \<noteq> ''nodes''"
    and add: "addExtracted ip sp (length t) ex (JObj t) [] = (T, rm)"
  shows "bound_in (alist_set ''nodes'' (JArr (map (remapNode key sp rm) (map node_js ns))) (alist_set tk T a))
    tk key n (map_of (t @ placeholders sp ex) s)"
proof -
  have "distinct (map fst ex)" by (simp add: ex)
  with add addExtracted_numbered [OF t this, of sp "[]"]
  have Trm: "T = JObj (t @ new_entries ip (length t) ex)" "rm = new_remap ip sp (length t) ex" by auto
  let ?m = "remapNode key sp rm (node_js n)"
  obtain id where "getp (getp ?m ''params'') key = JStr id"
      "map_of (t @ new_entries ip (length t) ex) id = map_of (t @ placeholders sp ex) s"
      "map_of (t @ placeholders sp ex) s \<noteq> None"
    unfolding Trm(2) using merged_node_bound [OF t ex node_js_params(1) n(2) node_js_params(2) s apart] by blast
  moreover have "?m \<in> set (map (remapNode key sp rm) (map node_js ns))" using n(1) by simp
  moreover have "getp ?m ''node_id'' = JStr (node_id n)" by (simp add: getp_remapNode)
  ultimately show ?thesis
    unfolding bound_in_def using tk
    by (intro exI [of _ "t @ new_entries ip (length t) ex"] exI [of _ ?m] exI [of _ id])
      (simp add: obj_get_alist_set elems_def Trm(1))
qed

text \<open>
  Property C5. After the merge every \<open>expr_id\<close> is bound to the right tree. For an artifact finalized from
  a reachable context, with the trees extracted from the source numbered from zero, the table entry
  a node refers to is the one it referred to before: the builder-made entry for a table id, and the
  extracted tree number \<open>i\<close> for the placeholder \<open>__static_e\<close>\<open>i\<close>.
\<close>

theorem merge_binds_exprs:
  assumes "session c ctx hs" and "n \<in> set (ctx_nodes ctx)" and "map_of (node_params n) ''expr_id'' = Some (JStr s)"
    and "map fst exprs = [0..<length exprs]"
    and "startsWith s ''__static_e'' \<Longrightarrow> \<exists>i < length exprs. s = ''__static_e'' @ nat_str i"
  shows "bound_in (mergeExtractedExprs (own_entries (finalize h name ctx)) exprs) ''expr_table'' ''expr_id'' n
     (map_of (exprTable ctx @ placeholders ''__static_e'' (map (\<lambda>(i, e). (i, expr_js e)) exprs)) s)"
proof -
  let ?t = "exprTable ctx" and ?ex = "map (\<lambda>(i, e). (i, expr_js e)) exprs"
  have inv: "plan_inv ctx" using session_invariant [OF assms(1)] by blast
  then have t: "numbered expr_name ?t" by (simp add: plan_inv_def tables_numbered_def)
  have ex: "map fst ?ex = [0..<length ?ex]" using assms(4) by (simp add: case_prod_beta comp_def)
  have "table_refs_ok ?t (predTable ctx) (node_params n)" using inv assms(2) by (simp add: plan_inv_def)
  then have "s \<in> fst ` set ?t \<or> startsWith s ''__static_e''"
    using map_of_SomeD [OF assms(3)] by (auto simp: table_refs_ok_def static_e_def)
  then have s: "s \<in> fst ` set ?t \<or> (\<exists>i < length ?ex. s = ''__static_e'' @ nat_str i)" using assms(5) by auto
  obtain T rm where add: "addExtracted ''e'' ''__static_e'' (length ?t) ?ex (JObj ?t) [] = (T, rm)" by fastforce
  show ?thesis
    unfolding mergeExtractedExprs_def finalize_get finalize_props nullish_table Let_def own_entries.simps(1) add
      elems_def jsval.case prod.case
    by (rule merge_bound [OF _ ex assms(2,3) s static_apart(1) [OF _ t] _ add]) (simp_all add: tab_name_expr t)
qed

text \<open>A context whose node holds the placeholder of the first extracted expression.\<close>

definition ex_static :: jsval where
  "ex_static = JObj [(''outKey'', JObj [(''id'', JNum (Fin 7))]), (''expr'', JObj [(''__expr_id'', JNum (Fin 0))])]"

definition ex_static_ctx :: plan_ctx where
  "ex_static_ctx = snd (exec_call (Vm ''n0'' ex_static) (ex_ctx 1))"

lemma ex_static_session: "session 0 ex_static_ctx {''n1'', ''n0''}"
proof (rule session.call [OF ex_sessions(1)])
  show "exec_call (Vm ''n0'' ex_static) (ex_ctx 1) = (Inr (JCand 0 ''n1''), ex_static_ctx)" by code_simp
qed simp_all

theorem merge_binds_exprs_witness:
  "bound_in (mergeExtractedExprs (own_entries (finalize ''n1'' (JStr ''p'') ex_static_ctx)) [(0, ENeg (KeyRef (Fin 1)))])
     ''expr_table'' ''expr_id'' (ctx_nodes ex_static_ctx ! 1) (Some (expr_js (ENeg (KeyRef (Fin 1)))))"
proof -
  have n: "ctx_nodes ex_static_ctx ! 1 \<in> set (ctx_nodes ex_static_ctx)" by code_simp
  have s: "map_of (node_params (ctx_nodes ex_static_ctx ! 1)) ''expr_id'' = Some (JStr ''__static_e0'')" by code_simp
  have e: "map_of (exprTable ex_static_ctx @ placeholders ''__static_e'' (map (\<lambda>(i, e). (i, expr_js e)) [(0, ENeg (KeyRef (Fin 1)))]))
      ''__static_e0'' = Some (expr_js (ENeg (KeyRef (Fin 1))))" by code_simp
  have z: "nat_str 0 = ''0''" by code_simp
  show ?thesis
    using merge_binds_exprs [OF ex_static_session n s, of "[(0, ENeg (KeyRef (Fin 1)))]" "''n1''" "JStr ''p''"]
    unfolding e by (simp add: z)
qed

text \<open>
  The same for predicates: after the merge every \<open>pred_id\<close> is bound to the right tree. For an artifact finalized from
  a reachable context, with the trees extracted from the source numbered from zero, the table entry
  a node refers to is the one it referred to before: the builder-made entry for a table id, and the
  extracted tree number \<open>i\<close> for the placeholder \<open>__static_p\<close>\<open>i\<close>.
\<close>

theorem merge_binds_preds:
  assumes "session c ctx hs" and "n \<in> set (ctx_nodes ctx)" and "map_of (node_params n) ''pred_id'' = Some (JStr s)"
    and "map fst preds = [0..<length preds]"
    and "startsWith s ''__static_p'' \<Longrightarrow> \<exists>i < length preds. s = ''__static_p'' @ nat_str i"
  shows "bound_in (mergeExtractedPreds (own_entries (finalize h name ctx)) preds) ''pred_table'' ''pred_id'' n
     (map_of (predTable ctx @ placeholders ''__static_p'' (map (\<lambda>(i, p). (i, pred_js p)) preds)) s)"
proof -
  let ?t = "predTable ctx" and ?ex = "map (\<lambda>(i, p). (i, pred_js p)) preds"
  have inv: "plan_inv ctx" using session_invariant [OF assms(1)] by blast
  then have t: "numbered pred_name ?t" by (simp add: plan_inv_def tables_numbered_def)
  have ex: "map fst ?ex = [0..<length ?ex]" using assms(4) by (simp add: case_prod_beta comp_def)
  have "table_refs_ok (exprTable ctx) ?t (node_params n)" using inv assms(2) by (simp add: plan_inv_def)
  then have "s \<in> fst ` set ?t \<or> startsWith s ''__static_p''"
    using map_of_SomeD [OF assms(3)] by (auto simp: table_refs_ok_def static_p_def)
  then have s: "s \<in> fst ` set ?t \<or> (\<exists>i < length ?ex. s = ''__static_p'' @ nat_str i)" using assms(5) by auto
  obtain T rm where add: "addExtracted ''p'' ''__static_p'' (length ?t) ?ex (JObj ?t) [] = (T, rm)" by fastforce
  show ?thesis
    unfolding mergeExtractedPreds_def finalize_get finalize_props nullish_table Let_def own_entries.simps(1) add
      elems_def jsval.case prod.case
    by (rule merge_bound [OF _ ex assms(2,3) s static_apart(2) [OF _ t] _ add]) (simp_all add: tab_name_pred t)
qed

definition ex_static_filter :: jsval where
  "ex_static_filter = JObj [(''pred'', JObj [(''__pred_id'', JNum (Fin 0))])]"

definition ex_filter_ctx :: plan_ctx where
  "ex_filter_ctx = snd (exec_call (Filter ''n0'' ex_static_filter) (ex_ctx 1))"

lemma ex_filter_session: "session 0 ex_filter_ctx {''n1'', ''n0''}"
proof (rule session.call [OF ex_sessions(1)])
  show "exec_call (Filter ''n0'' ex_static_filter) (ex_ctx 1) = (Inr (JCand 0 ''n1''), ex_filter_ctx)" by code_simp
qed simp_all

theorem merge_binds_preds_witness:
  "bound_in (mergeExtractedPreds (own_entries (finalize ''n1'' (JStr ''p'') ex_filter_ctx)) [(0, IsNull (KeyRef (Fin 1)))])
     ''pred_table'' ''pred_id'' (ctx_nodes ex_filter_ctx ! 1) (Some (pred_js (IsNull (KeyRef (Fin 1)))))"
proof -
  have n: "ctx_nodes ex_filter_ctx ! 1 \<in> set (ctx_nodes ex_filter_ctx)" by code_simp
  have s: "map_of (node_params (ctx_nodes ex_filter_ctx ! 1)) ''pred_id'' = Some (JStr ''__static_p0'')" by code_simp
  have e: "map_of (predTable ex_filter_ctx @ placeholders ''__static_p'' (map (\<lambda>(i, p). (i, pred_js p)) [(0, IsNull (KeyRef (Fin 1)))]))
      ''__static_p0'' = Some (pred_js (IsNull (KeyRef (Fin 1))))" by code_simp
  have z: "nat_str 0 = ''0''" by code_simp
  show ?thesis
    using merge_binds_preds [OF ex_filter_session n s, of "[(0, IsNull (KeyRef (Fin 1)))]" "''n1''" "JStr ''p''"]
    unfolding e by (simp add: z)
qed

section \<open>What is written is valid\<close>

lemma wf_artifact_mergeExprs: "wf_artifact (JObj a) \<Longrightarrow> wf_artifact (JObj (mergeExtractedExprs a ex))"
proof -
  assume wf: "wf_artifact (JObj a)"
  then have "is_object (nullish (obj_get a ''expr_table'') (JObj []))"
    by (intro table_ok_nullish) (simp add: wf_artifact_def)
  then show ?thesis
    unfolding mergeExtractedExprs_def Let_def
    by (auto simp: split_beta is_object_addExtracted intro!: wf_artifact_merge [OF wf])
qed

lemma wf_artifact_mergePreds: "wf_artifact (JObj a) \<Longrightarrow> wf_artifact (JObj (mergeExtractedPreds a ex))"
proof -
  assume wf: "wf_artifact (JObj a)"
  then have "is_object (nullish (obj_get a ''pred_table'') (JObj []))"
    by (intro table_ok_nullish) (simp add: wf_artifact_def)
  then show ?thesis
    unfolding mergeExtractedPreds_def Let_def
    by (auto simp: split_beta is_object_addExtracted intro!: wf_artifact_merge [OF wf])
qed

lemma wf_artifact_built_by: "wf_artifact (JObj a) \<Longrightarrow> wf_artifact (JObj (alist_set ''built_by'' v a))"
  unfolding wf_artifact_def by (auto simp: obj_get_alist_set)

lemma plan_name_merge:
  "obj_get (mergeExtractedExprs a ex) ''plan_name'' = obj_get a ''plan_name''"
  "obj_get (mergeExtractedPreds a px) ''plan_name'' = obj_get a ''plan_name''"
  by (simp_all add: mergeExtractedExprs_def mergeExtractedPreds_def Let_def split_beta obj_get_alist_set)

lemma wf_artifact_obj: "wf_artifact a \<Longrightarrow> \<exists>kvs. a = JObj kvs"
  by (cases a) (auto simp: wf_artifact_def)

lemma finishArtifact_wf:
  assumes "finishArtifact v d f ex a = Inr (planName, final)" and "wf_artifact (JObj a)"
  shows "wf_artifact final \<and> getp final ''plan_name'' = JStr planName \<and> planName = stripPlanSuffix f \<and> isValidPlanName planName"
proof -
  from assms(2) obtain nm where nm: "obj_get a ''plan_name'' = JStr nm" by (auto simp: wf_artifact_def)
  from assms show ?thesis
    by (auto simp: finishArtifact_def Let_def nm obj_get_alist_set plan_name_merge wf_artifact_mergeExprs wf_artifact_mergePreds
        wf_artifact_built_by split: if_splits)
qed

lemma json_obj_text: "json_value gap cur (JObj kvs) = Inr r \<Longrightarrow> \<exists>s. r = Some s"
  by (auto simp: json_value.simps [of gap cur "JObj kvs"] stableReplacer_def bindR_Inr_iff)

lemma mapErr_Inr: "mapErr f r = Inr x \<longleftrightarrow> r = Inr x"
  by (cases r) (auto simp: mapErr_def)

lemma compilePlan_written:
  assumes "compilePlan tc planPath outputDir repo = Inr (path, contents)"
  shows "\<exists>final planName json. wf_artifact final \<and> getp final ''plan_name'' = JStr planName \<and>
     planName = stripPlanSuffix (basename (tc_resolve tc (tc_cwd tc) planPath)) \<and> isValidPlanName planName \<and>
     stableStringify final 2 = Inr (Some json) \<and> contents = json @ [CHR 0x0A] \<and>
     path = tc_resolve tc (tc_resolve tc (tc_cwd tc) outputDir) (planName @ ''.plan.json'')"
proof -
  let ?file = "basename (tc_resolve tc (tc_cwd tc) planPath)"
  from assms obtain ex code artifact planName final json where
    valid: "validateArtifact artifact ?file = Inr ()" and
    fin: "finishArtifact (tc_version tc) (tc_sha256 tc code) ?file ex (own_entries artifact) = Inr (planName, final)" and
    out: "stableStringify final 2 = Inr json" "path = tc_resolve tc (tc_resolve tc (tc_cwd tc) outputDir) (planName @ ''.plan.json'')"
      "contents = (case json of Some s \<Rightarrow> s | None \<Rightarrow> ''undefined'') @ [CHR 0x0A]"
    by (auto simp: compilePlan_def Let_def bindR_Inr_iff mapErr_Inr split: option.splits prod.splits if_splits)
  from valid have wf: "wf_artifact artifact" by (simp add: validateArtifact_wf)
  then obtain a where a: "artifact = JObj a" using wf_artifact_obj by blast
  from fin wf have final: "wf_artifact final" "getp final ''plan_name'' = JStr planName" "planName = stripPlanSuffix ?file" "isValidPlanName planName"
    by (auto simp: a dest: finishArtifact_wf)
  obtain kvs where "final = JObj kvs" using wf_artifact_obj [OF final(1)] by blast
  with out(1) obtain s where "json = Some s" by (auto simp: stableStringify_def dest: json_obj_text)
  with out final show ?thesis by auto
qed

text \<open>
  Property C3. A file is written only for a valid plan: if \<open>compilePlan\<close> succeeds, the file holds the
  stable JSON of an artifact that \<open>validateArtifact\<close> accepts (also after merging extracted trees and
  adding metadata, which is not checked again), its plan name consists of word characters and equals
  the file name without \<open>.plan.ts\<close>, and the output path is that name with \<open>.plan.json\<close>.
\<close>

theorem compilePlan_writes_valid:
  assumes "compilePlan tc planPath outputDir repo = Inr (path, contents)"
  shows "\<exists>final planName json. validateArtifact final f = Inr () \<and> getp final ''plan_name'' = JStr planName \<and>
     planName = stripPlanSuffix (basename (tc_resolve tc (tc_cwd tc) planPath)) \<and> isValidPlanName planName \<and>
     stableStringify final 2 = Inr (Some json) \<and> contents = json @ [CHR 0x0A] \<and>
     path = tc_resolve tc (tc_resolve tc (tc_cwd tc) outputDir) (planName @ ''.plan.json'')"
  using compilePlan_written [OF assms] by (auto simp: validateArtifact_wf)

text \<open>A tool chain for one plan: no natural expressions, and a sandbox that emits a finalized context.\<close>

definition ex_tc :: toolchain where
  "ex_tc = \<lparr>tc_version = ''1.0.0'', tc_resolve = (\<lambda>a b. a @ ''/'' @ b), tc_dirname = (\<lambda>p. p), tc_cwd = ''/w'',
     tc_readFile = (\<lambda>_. Some []),
     tc_parse = (\<lambda>src f. \<lparr>sf_text = src, sf_tree = OtherNode 0 0 ''SourceFile'' [], sf_lineAndCharacter = (\<lambda>i. (0, i))\<rparr>),
     tc_esbuild = (\<lambda>_ _. \<lparr>br_warnings = [], br_errors = [], br_outputFiles = Some [''code'']\<rparr>),
     tc_sandbox = \<lparr>vm_setup = Inr (), vm_run = (\<lambda>_ _. (Inr (), [finalize ''n0'' (JStr ''demo'') (ex_ctx 1)]))\<rparr>,
     tc_sha256 = (\<lambda>_. ''0123456789abcdef0123'')\<rparr>"

definition is_written :: "(cli_error, string \<times> string) res \<Rightarrow> bool" where
  "is_written r = (case r of Inl _ \<Rightarrow> False | Inr _ \<Rightarrow> True)"

lemma ex_written: "\<exists>path contents. compilePlan ex_tc ''demo.plan.ts'' ''out'' ''/r'' = Inr (path, contents)"
proof -
  have "is_written (compilePlan ex_tc ''demo.plan.ts'' ''out'' ''/r'')" by code_simp
  then show ?thesis by (auto simp: is_written_def split: sum.splits)
qed

theorem compilePlan_writes_valid_witness:
  "\<exists>final. validateArtifact final ''demo.plan.ts'' = Inr () \<and> getp final ''plan_name'' = JStr ''demo''"
proof -
  obtain path contents where "compilePlan ex_tc ''demo.plan.ts'' ''out'' ''/r'' = Inr (path, contents)" using ex_written by blast
  moreover have "stripPlanSuffix (basename (tc_resolve ex_tc (tc_cwd ex_tc) ''demo.plan.ts'')) = ''demo''" by code_simp
  ultimately show ?thesis using compilePlan_writes_valid by metis
qed

section \<open>The command line\<close>

text \<open>
  The arguments after \<open>build\<close>: plan files, and \<open>--out\<close> with its directory, in any order; the last
  directory counts.
\<close>

inductive cli_words :: "string list \<Rightarrow> string list \<Rightarrow> string option \<Rightarrow> bool" where
  none: "cli_words [] [] None"
| plan: "cli_words ws ps d \<Longrightarrow> \<not> startsWith p ''-'' \<Longrightarrow> cli_words (p # ws) (p # ps) d"
| out: "cli_words ws ps d \<Longrightarrow> cli_words (''--out'' # o' # ws) ps (case d of None \<Rightarrow> Some o' | Some x \<Rightarrow> Some x)"

lemma parseLoop_words:
  "parseLoop ws acc od = Inr (ps', od') \<Longrightarrow>
     \<exists>ps d. cli_words ws ps d \<and> ps' = acc @ ps \<and> od' = (case d of None \<Rightarrow> od | Some x \<Rightarrow> Some x)"
proof (induction ws acc od rule: parseLoop.induct)
  case (1 planPaths outputDir)
  then show ?case by (auto intro!: exI cli_words.none)
next
  case (2 a as planPaths outputDir)
  show ?case
  proof (cases "a = ''--out''")
    case True
    with "2.prems" obtain o' as' where as: "as = o' # as'" by (cases as) auto
    with 2 True obtain ps d where "cli_words as' ps d" "ps' = planPaths @ ps"
      "od' = (case d of None \<Rightarrow> Some o' | Some x \<Rightarrow> Some x)" by auto
    then show ?thesis
      using True as cli_words.out [of as' ps d o'] by (auto split: option.splits)
  next
    case False
    with 2 obtain ps d where "cli_words as ps d" "ps' = (planPaths @ [a]) @ ps"
      "od' = (case d of None \<Rightarrow> outputDir | Some x \<Rightarrow> Some x)" "\<not> startsWith a ''-''" by (auto split: if_splits)
    then show ?thesis using cli_words.plan [of as ps d a] by auto
  qed
qed

lemma words_parseLoop:
  "cli_words ws ps d \<Longrightarrow> parseLoop ws acc od = Inr (acc @ ps, case d of None \<Rightarrow> od | Some x \<Rightarrow> Some x)"
proof (induction arbitrary: acc od rule: cli_words.induct)
  case (plan ws ps d p)
  then have "p \<noteq> ''--out''" by (auto simp: startsWith_def)
  with plan show ?case by simp
qed (auto split: option.splits)

text \<open>
  The command line is read as documented: a run with plans and an output directory is started
  exactly for \<open>build\<close> followed by at least one plan file and at least one \<open>--out dir\<close>, in any order;
  the last directory counts, plan files keep their order, and none starts with a dash.
\<close>

theorem parseArgs_iff:
  "parseArgs args = Inr (plans, dir) \<longleftrightarrow>
     (\<exists>ws. args = ''build'' # ws \<and> cli_words ws plans (Some dir) \<and> plans \<noteq> [])"
proof
  assume run: "parseArgs args = Inr (plans, dir)"
  then obtain ws where ws: "args = ''build'' # ws" "parseLoop ws [] None = Inr (plans, Some dir)" "plans \<noteq> []"
    by (auto simp: parseArgs_def bindR_Inr_iff split: list.splits if_splits option.splits)
  with parseLoop_words [OF ws(2)] show "\<exists>ws. args = ''build'' # ws \<and> cli_words ws plans (Some dir) \<and> plans \<noteq> []"
    by (auto split: option.splits)
next
  assume "\<exists>ws. args = ''build'' # ws \<and> cli_words ws plans (Some dir) \<and> plans \<noteq> []"
  then show "parseArgs args = Inr (plans, dir)"
    using words_parseLoop [of _ plans "Some dir" "[]" None] by (auto simp: parseArgs_def)
qed

end
