(* ===== verification/RegistryTypes.thy ===== *)
theory RegistryTypes
  imports JsValue
begin

text \<open>
  \<open>dsl/src/codegen/types.ts\<close>: the entries of the registries the code generator reads, the closed
  sets of type and status names, and the assertion helpers. A string-literal union of TypeScript
  is a string at run time, so it is a \<open>string\<close> here; membership in the constant list is what the
  guards establish. The fields of each record carry a prefix because record fields are global.
\<close>

section \<open>Entries\<close>

record KeyEntry =
  ke_key_id :: jnum
  ke_name :: string
  ke_type :: string
  ke_nullable :: bool
  ke_doc :: string
  ke_status :: string
  ke_allow_read :: bool
  ke_allow_write :: bool
  ke_replaced_by :: "jnum option"
  ke_default :: jsval

record ParamEntry =
  pe_param_id :: jnum
  pe_name :: string
  pe_type :: string
  pe_nullable :: bool
  pe_doc :: string
  pe_status :: string
  pe_allow_read :: bool
  pe_allow_write :: bool
  pe_replaced_by :: "jnum option"

record FeatureEntry =
  fe_feature_id :: jnum
  fe_stage :: string
  fe_name :: string
  fe_type :: string
  fe_nullable :: bool
  fe_status :: string
  fe_doc :: string

text \<open>\<open>payload_schema\<close> is whatever \<open>JSON.parse\<close> returned; \<open>JNull\<close> when absent.\<close>

record CapabilityEntry =
  ce_id :: string
  ce_rfc :: string
  ce_name :: string
  ce_status :: string
  ce_doc :: string
  ce_payload_schema :: jsval

record ValidationRules =
  vr_schema_version :: jnum
  vr_patterns :: "(string \<times> string) list"
  vr_limits :: "(string \<times> jnum) list"
  vr_enums :: "(string \<times> string list) list"

record TaskParamEntry =
  tp_name :: string
  tp_type :: string
  tp_required :: bool
  tp_nullable :: bool
  tp_endpoint_kind :: "string option"

record TaskEntry =
  te_op :: string
  te_output_pattern :: string
  te_params :: "TaskParamEntry list"
  te_writes_effect :: jsval

record TaskRegistry =
  tr_schema_version :: jnum
  tr_manifest_digest :: string
  tr_tasks :: "TaskEntry list"

record StaticResolver =
  sr_type :: string
  sr_host :: string
  sr_port :: jnum

record EndpointPolicy =
  ep_max_inflight :: "jnum option"
  ep_connect_timeout_ms :: "jnum option"
  ep_request_timeout_ms :: "jnum option"

record EndpointEntry =
  ee_endpoint_id :: string
  ee_name :: string
  ee_kind :: string
  ee_resolver :: StaticResolver
  ee_policy :: EndpointPolicy

section \<open>Type constants and guards\<close>

definition KEY_TYPES :: "string list" where
  "KEY_TYPES = [''int'', ''float'', ''string'', ''bool'', ''feature_bundle'']"

definition PARAM_TYPES :: "string list" where
  "PARAM_TYPES = [''int'', ''float'', ''string'', ''bool'']"

definition FEATURE_TYPES :: "string list" where
  "FEATURE_TYPES = [''int'', ''float'', ''string'', ''bool'']"

definition STATUSES :: "string list" where
  "STATUSES = [''active'', ''deprecated'', ''blocked'']"

definition CAPABILITY_STATUSES :: "string list" where
  "CAPABILITY_STATUSES = [''implemented'', ''draft'', ''deprecated'', ''blocked'']"

definition TASK_PARAM_TYPES :: "string list" where
  "TASK_PARAM_TYPES = [''int'', ''float'', ''bool'', ''string'', ''expr_id'', ''pred_id'', ''node_ref'', ''endpoint_ref'']"

definition ENDPOINT_KINDS :: "string list" where
  "ENDPOINT_KINDS = [''redis'', ''http'']"

definition RESOLVER_TYPES :: "string list" where
  "RESOLVER_TYPES = [''static'', ''consul'', ''dns_srv'', ''https'']"

text \<open>\<open>typeof v === "string" && NAMES.includes(v)\<close>; the guards differ only in the list.\<close>

definition is_name_in :: "string list \<Rightarrow> jsval \<Rightarrow> bool" where
  "is_name_in names v = (case v of JStr s \<Rightarrow> s \<in> set names | _ \<Rightarrow> False)"

definition isKeyType :: "jsval \<Rightarrow> bool" where "isKeyType = is_name_in KEY_TYPES"
definition isParamType :: "jsval \<Rightarrow> bool" where "isParamType = is_name_in PARAM_TYPES"
definition isFeatureType :: "jsval \<Rightarrow> bool" where "isFeatureType = is_name_in FEATURE_TYPES"
definition isStatus :: "jsval \<Rightarrow> bool" where "isStatus = is_name_in STATUSES"
definition isCapabilityStatus :: "jsval \<Rightarrow> bool" where "isCapabilityStatus = is_name_in CAPABILITY_STATUSES"
definition isTaskParamType :: "jsval \<Rightarrow> bool" where "isTaskParamType = is_name_in TASK_PARAM_TYPES"
definition isEndpointKind :: "jsval \<Rightarrow> bool" where "isEndpointKind = is_name_in ENDPOINT_KINDS"
definition isResolverType :: "jsval \<Rightarrow> bool" where "isResolverType = is_name_in RESOLVER_TYPES"

section \<open>Errors\<close>

text \<open>
  One constructor per message of the parsers; the first string says which file or field the
  message names.
\<close>

datatype (plugins only: code size) reg_error =
    ReadFailed string
  | TomlSyntax string
  | RegTypeError
  | MustBeString string
  | MustBeNumber string
  | MustBeInteger string
  | MustBeBoolean string
  | InvalidToml string
  | UnsupportedVersion string jsval
  | ExpectedTables string
  | InvalidEntry string
  | InvalidType string jsval
  | InvalidStatus jsval
  | InvalidDefault string
  | DuplicateId string jsval
  | DuplicateName string string
  | IdKeyRule string
  | NonNullableNoDefault string
  | NoIdKey
  | EnumNotArray string
  | EffectNotJson string
  | TaskParamsNotArray string
  | TaskParamInvalid string
  | BadEndpointKind string
  | EndpointKindMisplaced string
  | SchemaNotString string
  | SchemaNotJson string
  | SchemaNotObject string jsval
  | EndpointIdPrefix string
  | EndpointIdTooLong string
  | MissingResolver string
  | OnlyStaticResolver string
  | InvalidPort string jnum
  | PolicyNotObject string
  | EndpointMissing string string
  | EndpointNameMismatch string string
  | EndpointKindMismatch string string
  | EndpointExtra string string

section \<open>Assertion helpers\<close>

definition assertStringField :: "jsval \<Rightarrow> string \<Rightarrow> (reg_error, string) res" where
  "assertStringField v field = (case v of JStr s \<Rightarrow> Inr s | _ \<Rightarrow> Inl (MustBeString field))"

definition assertNumberField :: "jsval \<Rightarrow> string \<Rightarrow> (reg_error, jnum) res" where
  "assertNumberField v field = (case v of JNum x \<Rightarrow> Inr x | _ \<Rightarrow> Inl (MustBeNumber field))"

definition assertIntegerField :: "jsval \<Rightarrow> string \<Rightarrow> (reg_error, jnum) res" where
  "assertIntegerField v field =
     (case v of JNum x \<Rightarrow> if is_int_num x then Inr x else Inl (MustBeInteger field)
      | _ \<Rightarrow> Inl (MustBeInteger field))"

definition assertBooleanField :: "jsval \<Rightarrow> string \<Rightarrow> (reg_error, bool) res" where
  "assertBooleanField v field = (case v of JBool b \<Rightarrow> Inr b | _ \<Rightarrow> Inl (MustBeBoolean field))"

section \<open>When they accept\<close>

lemma is_name_in_iff: "is_name_in names v \<longleftrightarrow> (\<exists>s \<in> set names. v = JStr s)"
  by (cases v) (auto simp: is_name_in_def)

lemma assertStringField_iff [res_simps]: "assertStringField v f = Inr s \<longleftrightarrow> v = JStr s"
  by (cases v) (auto simp: assertStringField_def)

lemma assertNumberField_iff [res_simps]: "assertNumberField v f = Inr x \<longleftrightarrow> v = JNum x"
  by (cases v) (auto simp: assertNumberField_def)

lemma assertIntegerField_iff [res_simps]: "assertIntegerField v f = Inr x \<longleftrightarrow> v = JNum x \<and> is_int_num x"
  by (cases v) (auto simp: assertIntegerField_def)

lemma assertBooleanField_iff [res_simps]: "assertBooleanField v f = Inr b \<longleftrightarrow> v = JBool b"
  by (cases v) (auto simp: assertBooleanField_def)

end
