(* ===== verification/RegistryParsers.thy ===== *)
theory RegistryParsers
  imports RegistryTypes JsNumber
begin

text \<open>
  \<open>dsl/src/codegen/parsers.ts\<close>: reading the registries. Each parser loads a TOML file, walks its
  table array, decodes and checks every row against the rows before it, and sorts the result.
  The file system, the TOML parser and \<open>JSON.parse\<close> are parameters, as is the collation of
  \<open>localeCompare\<close>, which the language leaves to the implementation.
\<close>

section \<open>Definitions\<close>

record reg_env =
  re_read :: "string \<Rightarrow> string option"
  re_toml :: "string \<Rightarrow> jsval option"
  re_json :: "string \<Rightarrow> jsval option"
  re_locale_gt :: "string \<Rightarrow> string \<Rightarrow> bool"

text \<open>The first lines of every parser: read, parse, and require an object.\<close>

definition loadToml :: "reg_env \<Rightarrow> string \<Rightarrow> string \<Rightarrow> (reg_error, jsval) res" where
  "loadToml env tomlPath what =
     (case re_read env tomlPath of
        None \<Rightarrow> Inl (ReadFailed tomlPath)
      | Some content \<Rightarrow>
          (case re_toml env content of
             None \<Rightarrow> Inl (TomlSyntax tomlPath)
           | Some parsed \<Rightarrow> if is_object parsed then Inr parsed else Inl (InvalidToml what)))"

definition tableArray :: "jsval \<Rightarrow> string \<Rightarrow> string \<Rightarrow> (reg_error, jsval list) res" where
  "tableArray obj k what = (case getp obj k of JArr raws \<Rightarrow> Inr raws | _ \<Rightarrow> Inl (ExpectedTables what))"

text \<open>Lifecycle fields with their defaults.\<close>

definition statusField :: "jsval \<Rightarrow> (reg_error, string) res" where
  "statusField v =
     (if v = JUndef then Inr ''active''
      else case v of JStr s \<Rightarrow> if isStatus v then Inr s else Inl (InvalidStatus v)
           | _ \<Rightarrow> Inl (InvalidStatus v))"

definition optBoolField :: "jsval \<Rightarrow> string \<Rightarrow> bool \<Rightarrow> (reg_error, bool) res" where
  "optBoolField v field d = (if v \<noteq> JUndef then assertBooleanField v field else Inr d)"

definition optNumberField :: "jsval \<Rightarrow> string \<Rightarrow> (reg_error, jnum option) res" where
  "optNumberField v field =
     (if v \<noteq> JUndef then bindR (assertNumberField v field) (\<lambda>x. Inr (Some x)) else Inr None)"

text \<open>A type name that passed its guard, as the string it is.\<close>

definition typeField :: "(jsval \<Rightarrow> bool) \<Rightarrow> jsval \<Rightarrow> reg_error \<Rightarrow> (reg_error, string) res" where
  "typeField guard v err = (case v of JStr s \<Rightarrow> if guard v then Inr s else Inl err | _ \<Rightarrow> Inl err)"

definition defaultField :: "jsval \<Rightarrow> string \<Rightarrow> (reg_error, jsval) res" where
  "defaultField d name =
     (case d of JUndef \<Rightarrow> Inr JNull | JNum _ \<Rightarrow> Inr d | JStr _ \<Rightarrow> Inr d | JBool _ \<Rightarrow> Inr d
      | _ \<Rightarrow> Inl (InvalidDefault name))"

subsection \<open>keys.toml\<close>

definition parseKeyRow :: "jsval \<Rightarrow> (reg_error, KeyEntry) res" where
  "parseKeyRow r =
     (if \<not> is_object r then Inl (InvalidEntry ''key'')
      else
        bindR (assertNumberField (getp r ''key_id'') ''key_id'') (\<lambda>key_id.
        bindR (assertStringField (getp r ''name'') ''name'') (\<lambda>name.
        bindR (typeField isKeyType (getp r ''type'') (InvalidType ''key'' (getp r ''type''))) (\<lambda>typeVal.
        bindR (assertBooleanField (getp r ''nullable'') ''nullable'') (\<lambda>nullable.
        bindR (assertStringField (getp r ''doc'') ''doc'') (\<lambda>doc.
        bindR (statusField (getp r ''status'')) (\<lambda>status.
        bindR (optBoolField (getp r ''allow_read'') ''allow_read'' True) (\<lambda>allow_read.
        bindR (optBoolField (getp r ''allow_write'') ''allow_write'' (status = ''active'')) (\<lambda>allow_write.
        bindR (optNumberField (getp r ''replaced_by'') ''replaced_by'') (\<lambda>replaced_by.
        bindR (defaultField (getp r ''default'') name) (\<lambda>defaultVal.
        Inr \<lparr> ke_key_id = key_id, ke_name = name, ke_type = typeVal, ke_nullable = nullable, ke_doc = doc,
              ke_status = status, ke_allow_read = allow_read, ke_allow_write = allow_write,
              ke_replaced_by = replaced_by, ke_default = defaultVal \<rparr>)))))))))))"

definition keyRules :: "KeyEntry \<Rightarrow> (reg_error, unit) res" where
  "keyRules k =
     (if ke_name k = ''id'' then
        bindR (ensure (ke_key_id k = jint 1) (IdKeyRule ''key_id=1'')) (\<lambda>_.
        bindR (ensure (ke_type k = ''int'') (IdKeyRule ''type int'')) (\<lambda>_.
        bindR (ensure (\<not> ke_nullable k) (IdKeyRule ''nullable=false'')) (\<lambda>_.
        ensure (\<not> ke_allow_write k) (IdKeyRule ''allow_write=false''))))
      else ensure (\<not> (\<not> ke_nullable k \<and> ke_default k = JNull)) (NonNullableNoDefault (ke_name k)))"

text \<open>One round of the loop; the state is \<open>entries\<close>, \<open>seenIds\<close> and \<open>seenNames\<close>.\<close>

definition addKey :: "KeyEntry list \<times> jnum list \<times> string list \<Rightarrow> jsval \<Rightarrow>
    (reg_error, KeyEntry list \<times> jnum list \<times> string list) res" where
  "addKey st raw =
     (case st of (entries, seenIds, seenNames) \<Rightarrow>
        bindR (parseKeyRow raw) (\<lambda>k.
        bindR (ensure (ke_key_id k \<notin> set seenIds) (DuplicateId ''key_id'' (JNum (ke_key_id k)))) (\<lambda>_.
        bindR (ensure (ke_name k \<notin> set seenNames) (DuplicateName ''key'' (ke_name k))) (\<lambda>_.
        bindR (keyRules k) (\<lambda>_.
        Inr (entries @ [k], set_add (ke_key_id k) seenIds, set_add (ke_name k) seenNames))))))"

definition parseKeys :: "reg_env \<Rightarrow> string \<Rightarrow> (reg_error, KeyEntry list) res" where
  "parseKeys env tomlPath =
     bindR (loadToml env tomlPath '''') (\<lambda>obj.
     bindR (tableArray obj ''key'' ''keys.toml'') (\<lambda>rawKeys.
     bindR (foldR addKey ([], [], []) rawKeys) (\<lambda>(entries, _).
     if \<not> (\<exists>k \<in> set entries. ke_name k = ''id'') then Inl NoIdKey
     else Inr (js_sort_by (\<lambda>a b. num_gt (ke_key_id a) (ke_key_id b)) entries))))"

subsection \<open>params.toml\<close>

definition parseParamRow :: "jsval \<Rightarrow> (reg_error, ParamEntry) res" where
  "parseParamRow r =
     (if \<not> is_object r then Inl (InvalidEntry ''param'')
      else
        bindR (assertNumberField (getp r ''param_id'') ''param_id'') (\<lambda>param_id.
        bindR (assertStringField (getp r ''name'') ''name'') (\<lambda>name.
        bindR (typeField isParamType (getp r ''type'') (InvalidType ''param'' (getp r ''type''))) (\<lambda>typeVal.
        bindR (assertBooleanField (getp r ''nullable'') ''nullable'') (\<lambda>nullable.
        bindR (assertStringField (getp r ''doc'') ''doc'') (\<lambda>doc.
        bindR (statusField (getp r ''status'')) (\<lambda>status.
        bindR (optBoolField (getp r ''allow_read'') ''allow_read'' True) (\<lambda>allow_read.
        bindR (optBoolField (getp r ''allow_write'') ''allow_write'' (status = ''active'')) (\<lambda>allow_write.
        bindR (optNumberField (getp r ''replaced_by'') ''replaced_by'') (\<lambda>replaced_by.
        Inr \<lparr> pe_param_id = param_id, pe_name = name, pe_type = typeVal, pe_nullable = nullable, pe_doc = doc,
              pe_status = status, pe_allow_read = allow_read, pe_allow_write = allow_write,
              pe_replaced_by = replaced_by \<rparr>))))))))))"

definition addParam :: "ParamEntry list \<times> jnum list \<times> string list \<Rightarrow> jsval \<Rightarrow>
    (reg_error, ParamEntry list \<times> jnum list \<times> string list) res" where
  "addParam st raw =
     (case st of (entries, seenIds, seenNames) \<Rightarrow>
        bindR (parseParamRow raw) (\<lambda>p.
        bindR (ensure (pe_param_id p \<notin> set seenIds) (DuplicateId ''param_id'' (JNum (pe_param_id p)))) (\<lambda>_.
        bindR (ensure (pe_name p \<notin> set seenNames) (DuplicateName ''param'' (pe_name p))) (\<lambda>_.
        Inr (entries @ [p], set_add (pe_param_id p) seenIds, set_add (pe_name p) seenNames)))))"

definition parseParams :: "reg_env \<Rightarrow> string \<Rightarrow> (reg_error, ParamEntry list) res" where
  "parseParams env tomlPath =
     bindR (loadToml env tomlPath '''') (\<lambda>obj.
     bindR (tableArray obj ''param'' ''params.toml'') (\<lambda>rawParams.
     bindR (foldR addParam ([], [], []) rawParams) (\<lambda>(entries, _).
     Inr (js_sort_by (\<lambda>a b. num_gt (pe_param_id a) (pe_param_id b)) entries))))"

subsection \<open>features.toml\<close>

definition parseFeatureRow :: "jsval \<Rightarrow> (reg_error, FeatureEntry) res" where
  "parseFeatureRow r =
     (if \<not> is_object r then Inl (InvalidEntry ''feature'')
      else
        bindR (assertNumberField (getp r ''feature_id'') ''feature_id'') (\<lambda>feature_id.
        bindR (assertStringField (getp r ''stage'') ''stage'') (\<lambda>stage.
        bindR (assertStringField (getp r ''name'') ''name'') (\<lambda>name.
        bindR (typeField isFeatureType (getp r ''type'') (InvalidType ''feature'' (getp r ''type''))) (\<lambda>typeVal.
        bindR (assertBooleanField (getp r ''nullable'') ''nullable'') (\<lambda>nullable.
        bindR (statusField (getp r ''status'')) (\<lambda>status.
        bindR (assertStringField (getp r ''doc'') ''doc'') (\<lambda>doc.
        Inr \<lparr> fe_feature_id = feature_id, fe_stage = stage, fe_name = name, fe_type = typeVal,
              fe_nullable = nullable, fe_status = status, fe_doc = doc \<rparr>))))))))"

definition addFeature :: "FeatureEntry list \<times> jnum list \<Rightarrow> jsval \<Rightarrow> (reg_error, FeatureEntry list \<times> jnum list) res" where
  "addFeature st raw =
     (case st of (entries, seenIds) \<Rightarrow>
        bindR (parseFeatureRow raw) (\<lambda>f.
        bindR (ensure (fe_feature_id f \<notin> set seenIds) (DuplicateId ''feature_id'' (JNum (fe_feature_id f)))) (\<lambda>_.
        Inr (entries @ [f], set_add (fe_feature_id f) seenIds))))"

definition parseFeatures :: "reg_env \<Rightarrow> string \<Rightarrow> (reg_error, FeatureEntry list) res" where
  "parseFeatures env tomlPath =
     bindR (loadToml env tomlPath '''') (\<lambda>obj.
     bindR (tableArray obj ''feature'' ''features.toml'') (\<lambda>rawFeatures.
     bindR (foldR addFeature ([], []) rawFeatures) (\<lambda>(entries, _).
     Inr (js_sort_by (\<lambda>a b. num_gt (fe_feature_id a) (fe_feature_id b)) entries))))"

subsection \<open>validation.toml\<close>

text \<open>
  \<open>o[key] = v\<close> on a fresh object literal. Assigning to \<open>__proto__\<close> runs the inherited setter and
  adds no own property.
\<close>

definition put_own :: "string \<Rightarrow> 'v \<Rightarrow> (string \<times> 'v) list \<Rightarrow> (string \<times> 'v) list" where
  "put_own k v kvs = (if k = ''__proto__'' then kvs else alist_set k v kvs)"

text \<open>A section of the file: absent or not an object means empty.\<close>

definition parseSection :: "(string \<Rightarrow> jsval \<Rightarrow> (reg_error, 'v) res) \<Rightarrow> jsval \<Rightarrow> (reg_error, (string \<times> 'v) list) res" where
  "parseSection f raw =
     (if truthy raw \<and> typeof_js raw = ''object''
      then foldR (\<lambda>acc (key, v). bindR (f key v) (\<lambda>x. Inr (put_own key x acc))) [] (own_entries raw)
      else Inr [])"

definition enumValues :: "string \<Rightarrow> jsval \<Rightarrow> (reg_error, string list) res" where
  "enumValues key v =
     (case v of
        JArr vs \<Rightarrow> mapR (\<lambda>(i, x). assertStringField x (''enums.'' @ key @ ''['' @ nat_str i @ '']'')) (enumerate 0 vs)
      | _ \<Rightarrow> Inl (EnumNotArray key))"

definition parseValidation :: "reg_env \<Rightarrow> string \<Rightarrow> (reg_error, ValidationRules) res" where
  "parseValidation env tomlPath =
     bindR (loadToml env tomlPath ''validation.toml'') (\<lambda>obj.
     bindR (assertNumberField (getp obj ''schema_version'') ''schema_version'') (\<lambda>schema_version.
     if schema_version \<noteq> jint 1 then Inl (UnsupportedVersion ''validation.toml'' (JNum schema_version))
     else
       bindR (parseSection (\<lambda>key v. assertStringField v (''patterns.'' @ key)) (getp obj ''patterns'')) (\<lambda>patterns.
       bindR (parseSection (\<lambda>key v. assertNumberField v (''limits.'' @ key)) (getp obj ''limits'')) (\<lambda>limits.
       bindR (parseSection enumValues (getp obj ''enums'')) (\<lambda>enums.
       Inr \<lparr> vr_schema_version = schema_version, vr_patterns = patterns, vr_limits = limits, vr_enums = enums \<rparr>)))))"

subsection \<open>tasks.toml\<close>

definition parseTaskParam :: "string \<Rightarrow> jsval \<Rightarrow> (reg_error, TaskParamEntry) res" where
  "parseTaskParam op p =
     (if \<not> is_object p then Inl (TaskParamInvalid op)
      else
        bindR (assertStringField (getp p ''name'') ''name'') (\<lambda>name.
        bindR (typeField isTaskParamType (getp p ''type'') (InvalidType op (getp p ''type''))) (\<lambda>typeVal.
        bindR (assertBooleanField (getp p ''required'') ''required'') (\<lambda>required.
        bindR (assertBooleanField (getp p ''nullable'') ''nullable'') (\<lambda>nullable.
        bindR (let ek = getp p ''endpoint_kind'' in
               if typeVal = ''endpoint_ref'' then
                 if ek \<noteq> JUndef then
                   bindR (typeField isEndpointKind ek (BadEndpointKind op)) (\<lambda>s. Inr (Some s))
                 else Inr None
               else if ek \<noteq> JUndef then Inl (EndpointKindMisplaced op)
               else Inr None) (\<lambda>endpoint_kind.
        Inr \<lparr> tp_name = name, tp_type = typeVal, tp_required = required, tp_nullable = nullable,
              tp_endpoint_kind = endpoint_kind \<rparr>))))))"

definition parseTaskRow :: "reg_env \<Rightarrow> jsval \<Rightarrow> (reg_error, TaskEntry) res" where
  "parseTaskRow env r =
     (if \<not> is_object r then Inl (InvalidEntry ''task'')
      else
        bindR (assertStringField (getp r ''op'') ''op'') (\<lambda>op.
        bindR (assertStringField (getp r ''output_pattern'') ''output_pattern'') (\<lambda>outputPattern.
        bindR (if getp r ''writes_effect'' \<noteq> JUndef then
                 bindR (assertStringField (getp r ''writes_effect'') ''writes_effect'') (\<lambda>effectStr.
                 case re_json env (trim effectStr) of
                   None \<Rightarrow> Inl (EffectNotJson op)
                 | Some e \<Rightarrow> Inr e)
               else Inr JUndef) (\<lambda>writesEffect.
        bindR (case getp r ''param'' of
                 JUndef \<Rightarrow> Inr []
               | JArr rawParams \<Rightarrow> mapR (parseTaskParam op) rawParams
               | _ \<Rightarrow> Inl (TaskParamsNotArray op)) (\<lambda>params.
        Inr \<lparr> te_op = op, te_output_pattern = outputPattern, te_params = params,
              te_writes_effect = writesEffect \<rparr>)))))"

definition parseTasks :: "reg_env \<Rightarrow> string \<Rightarrow> (reg_error, TaskRegistry) res" where
  "parseTasks env tomlPath =
     bindR (loadToml env tomlPath ''tasks.toml'') (\<lambda>obj.
     bindR (assertNumberField (getp obj ''schema_version'') ''schema_version'') (\<lambda>schemaVersion.
     if schemaVersion \<noteq> jint 1 then Inl (UnsupportedVersion ''tasks.toml'' (JNum schemaVersion))
     else
       bindR (assertStringField (getp obj ''manifest_digest'') ''manifest_digest'') (\<lambda>manifestDigest.
       bindR (tableArray obj ''task'' ''tasks.toml'') (\<lambda>rawTasks.
       bindR (mapR (parseTaskRow env) rawTasks) (\<lambda>tasks.
       Inr \<lparr> tr_schema_version = schemaVersion, tr_manifest_digest = manifestDigest,
             tr_tasks = js_sort_by (\<lambda>a b. re_locale_gt env (te_op a) (te_op b)) tasks \<rparr>)))))"

subsection \<open>capabilities.toml\<close>

definition payloadSchema :: "reg_env \<Rightarrow> string \<Rightarrow> jsval \<Rightarrow> (reg_error, jsval) res" where
  "payloadSchema env id' schemaStr =
     (case schemaStr of
        JUndef \<Rightarrow> Inr JNull
      | JStr s \<Rightarrow>
          (case re_json env s of
             None \<Rightarrow> Inl (SchemaNotJson id')
           | Some schema \<Rightarrow>
               if schema = JNull \<or> schema = JUndef then Inl RegTypeError
               else if getp schema ''type'' \<noteq> JStr ''object'' then Inl (SchemaNotObject id' (getp schema ''type''))
               else Inr schema)
      | _ \<Rightarrow> Inl (SchemaNotString id'))"

definition parseCapabilityRow :: "reg_env \<Rightarrow> jsval \<Rightarrow> (reg_error, CapabilityEntry) res" where
  "parseCapabilityRow env r =
     (if \<not> is_object r then Inl (InvalidEntry ''capability'')
      else
        bindR (assertStringField (getp r ''id'') ''id'') (\<lambda>id'.
        bindR (assertStringField (getp r ''rfc'') ''rfc'') (\<lambda>rfc.
        bindR (assertStringField (getp r ''name'') ''name'') (\<lambda>name.
        bindR (typeField isCapabilityStatus (getp r ''status'') (InvalidStatus (getp r ''status''))) (\<lambda>status.
        bindR (assertStringField (getp r ''doc'') ''doc'') (\<lambda>doc.
        bindR (payloadSchema env id' (getp r ''payload_schema'')) (\<lambda>schema.
        Inr \<lparr> ce_id = id', ce_rfc = rfc, ce_name = name, ce_status = status, ce_doc = doc,
              ce_payload_schema = schema \<rparr>)))))))"

definition addCapability :: "reg_env \<Rightarrow> CapabilityEntry list \<times> string list \<Rightarrow> jsval \<Rightarrow>
    (reg_error, CapabilityEntry list \<times> string list) res" where
  "addCapability env st raw =
     (case st of (entries, seenIds) \<Rightarrow>
        bindR (parseCapabilityRow env raw) (\<lambda>c.
        bindR (ensure (ce_id c \<notin> set seenIds) (DuplicateId ''capability id'' (JStr (ce_id c)))) (\<lambda>_.
        Inr (entries @ [c], set_add (ce_id c) seenIds))))"

definition parseCapabilities :: "reg_env \<Rightarrow> string \<Rightarrow> (reg_error, CapabilityEntry list) res" where
  "parseCapabilities env tomlPath =
     bindR (loadToml env tomlPath ''capabilities.toml'') (\<lambda>obj.
     if getp obj ''schema_version'' \<noteq> JNum (jint 1)
     then Inl (UnsupportedVersion ''capabilities.toml'' (getp obj ''schema_version''))
     else
       bindR (tableArray obj ''capability'' ''capabilities.toml'') (\<lambda>rawCaps.
       bindR (foldR (addCapability env) ([], []) rawCaps) (\<lambda>(entries, _).
       Inr (js_sort_by (\<lambda>a b. re_locale_gt env (ce_id a) (ce_id b)) entries))))"

subsection \<open>endpoints.*.toml\<close>

definition parseResolver :: "string \<Rightarrow> jsval \<Rightarrow> (reg_error, StaticResolver) res" where
  "parseResolver endpoint_id rawResolver =
     (if \<not> is_object rawResolver then Inl (MissingResolver endpoint_id)
      else
        bindR (typeField isResolverType (getp rawResolver ''type'') (InvalidType endpoint_id (getp rawResolver ''type''))) (\<lambda>resolverType.
        if resolverType \<noteq> ''static'' then Inl (OnlyStaticResolver resolverType)
        else
          bindR (assertStringField (getp rawResolver ''host'') ''resolver.host'') (\<lambda>host.
          bindR (assertIntegerField (getp rawResolver ''port'') ''resolver.port'') (\<lambda>port.
          if num_gt (jint 1) port \<or> num_gt port (jint 65535) then Inl (InvalidPort endpoint_id port)
          else Inr \<lparr> sr_type = ''static'', sr_host = host, sr_port = port \<rparr>))))"

definition optIntegerField :: "jsval \<Rightarrow> string \<Rightarrow> (reg_error, jnum option) res" where
  "optIntegerField v field =
     (if v \<noteq> JUndef then bindR (assertIntegerField v field) (\<lambda>x. Inr (Some x)) else Inr None)"

definition parsePolicy :: "string \<Rightarrow> jsval \<Rightarrow> (reg_error, EndpointPolicy) res" where
  "parsePolicy endpoint_id rawPolicy =
     (if rawPolicy = JUndef
      then Inr \<lparr> ep_max_inflight = None, ep_connect_timeout_ms = None, ep_request_timeout_ms = None \<rparr>
      else if \<not> is_object rawPolicy then Inl (PolicyNotObject endpoint_id)
      else
        bindR (optIntegerField (getp rawPolicy ''max_inflight'') ''policy.max_inflight'') (\<lambda>mi.
        bindR (optIntegerField (getp rawPolicy ''connect_timeout_ms'') ''policy.connect_timeout_ms'') (\<lambda>ct.
        bindR (optIntegerField (getp rawPolicy ''request_timeout_ms'') ''policy.request_timeout_ms'') (\<lambda>rt.
        Inr \<lparr> ep_max_inflight = mi, ep_connect_timeout_ms = ct, ep_request_timeout_ms = rt \<rparr>))))"

definition parseEndpointRow :: "string \<Rightarrow> jsval \<Rightarrow> (reg_error, EndpointEntry) res" where
  "parseEndpointRow env_name r =
     (if \<not> is_object r then Inl (InvalidEntry env_name)
      else
        bindR (assertStringField (getp r ''endpoint_id'') ''endpoint_id'') (\<lambda>endpoint_id.
        bindR (assertStringField (getp r ''name'') ''name'') (\<lambda>name.
        bindR (ensure (startsWith endpoint_id ''ep_'') (EndpointIdPrefix endpoint_id)) (\<lambda>_.
        bindR (ensure (\<not> length endpoint_id > 64) (EndpointIdTooLong endpoint_id)) (\<lambda>_.
        bindR (typeField isEndpointKind (getp r ''kind'') (InvalidType ''endpoint kind'' (getp r ''kind''))) (\<lambda>kind.
        bindR (parseResolver endpoint_id (getp r ''resolver'')) (\<lambda>resolver.
        bindR (parsePolicy endpoint_id (getp r ''policy'')) (\<lambda>policy.
        Inr \<lparr> ee_endpoint_id = endpoint_id, ee_name = name, ee_kind = kind, ee_resolver = resolver,
              ee_policy = policy \<rparr>))))))))"

definition addEndpoint :: "string \<Rightarrow> EndpointEntry list \<times> string list \<times> string list \<Rightarrow> jsval \<Rightarrow>
    (reg_error, EndpointEntry list \<times> string list \<times> string list) res" where
  "addEndpoint env_name st raw =
     (case st of (entries, seenIds, seenNames) \<Rightarrow>
        bindR (parseEndpointRow env_name raw) (\<lambda>e.
        bindR (ensure (ee_endpoint_id e \<notin> set seenIds) (DuplicateId env_name (JStr (ee_endpoint_id e)))) (\<lambda>_.
        bindR (ensure (ee_name e \<notin> set seenNames) (DuplicateName env_name (ee_name e))) (\<lambda>_.
        Inr (entries @ [e], set_add (ee_endpoint_id e) seenIds, set_add (ee_name e) seenNames)))))"

definition parseEndpointFile :: "reg_env \<Rightarrow> string \<Rightarrow> string \<Rightarrow> (reg_error, EndpointEntry list) res" where
  "parseEndpointFile env tomlPath env_name =
     bindR (loadToml env tomlPath tomlPath) (\<lambda>obj.
     if getp obj ''version'' \<noteq> JNum (jint 1) then Inl (UnsupportedVersion env_name (getp obj ''version''))
     else
       bindR (tableArray obj ''endpoint'' env_name) (\<lambda>rawEndpoints.
       bindR (foldR (addEndpoint env_name) ([], [], []) rawEndpoints) (\<lambda>(entries, _).
       Inr (js_sort_by (\<lambda>a b. re_locale_gt env (ee_endpoint_id a) (ee_endpoint_id b)) entries))))"

record EndpointRegistries =
  er_dev :: "EndpointEntry list"
  er_test :: "EndpointEntry list"
  er_prod :: "EndpointEntry list"

text \<open>\<open>new Map(entries.map(e => [e.endpoint_id, e]))\<close>, in iteration order.\<close>

definition endpointMap :: "EndpointEntry list \<Rightarrow> (string \<times> EndpointEntry) list" where
  "endpointMap es = foldl (\<lambda>m e. alist_set (ee_endpoint_id e) e m) [] es"

text \<open>The two loops that compare one environment with \<open>dev\<close>.\<close>

definition checkSameEndpoints :: "(string \<times> EndpointEntry) list \<Rightarrow> (string \<times> EndpointEntry) list \<Rightarrow> string \<Rightarrow>
    (reg_error, unit) res" where
  "checkSameEndpoints devMap otherMap other =
     bindR (eachR (\<lambda>(id', devEntry).
       case map_of otherMap id' of
         None \<Rightarrow> Inl (EndpointMissing id' other)
       | Some entry \<Rightarrow>
           bindR (ensure (ee_name entry = ee_name devEntry) (EndpointNameMismatch id' other)) (\<lambda>_.
           ensure (ee_kind entry = ee_kind devEntry) (EndpointKindMismatch id' other))) devMap) (\<lambda>_.
     eachR (\<lambda>id'. ensure (id' \<in> fst ` set devMap) (EndpointExtra id' other)) (map fst otherMap))"

definition parseEndpoints :: "reg_env \<Rightarrow> string \<Rightarrow> (reg_error, EndpointRegistries) res" where
  "parseEndpoints env registryDir =
     bindR (parseEndpointFile env (registryDir @ ''/endpoints.dev.toml'') ''dev'') (\<lambda>dev.
     bindR (parseEndpointFile env (registryDir @ ''/endpoints.test.toml'') ''test'') (\<lambda>test.
     bindR (parseEndpointFile env (registryDir @ ''/endpoints.prod.toml'') ''prod'') (\<lambda>prod.
     bindR (checkSameEndpoints (endpointMap dev) (endpointMap test) ''test'') (\<lambda>_.
     bindR (checkSameEndpoints (endpointMap dev) (endpointMap prod) ''prod'') (\<lambda>_.
     Inr \<lparr> er_dev = dev, er_test = test, er_prod = prod \<rparr>)))))"

end
