(* ===== verification/RegistryCorrect.thy ===== *)
theory RegistryCorrect
  imports RegistryParsers
begin

text \<open>
  Correctness of the registry parsers. All row loops share one contract (locale \<open>row_loop\<close>):
  the loop accepts exactly the lists of rows that decode, are admissible and pairwise free of
  clashes. Each parser interprets it; the properties say which registries are accepted, that the
  result satisfies the registry invariants, and that every valid registry can be read back.
\<close>

section \<open>The loop over rows\<close>

locale row_loop =
  fixes step :: "'s \<Rightarrow> jsval \<Rightarrow> (reg_error, 's) res"
    and st :: "'e list \<Rightarrow> 's"
    and row :: "jsval \<Rightarrow> (reg_error, 'e) res"
    and clash :: "'e \<Rightarrow> 'e \<Rightarrow> bool"
    and good :: "'e \<Rightarrow> bool"
  assumes step_iff: "sorted_wrt (\<lambda>a b. \<not> clash a b) es \<Longrightarrow>
    step (st es) raw = Inr s' \<longleftrightarrow>
      (\<exists>e. row raw = Inr e \<and> (\<forall>e' \<in> set es. \<not> clash e' e) \<and> good e \<and> s' = st (es @ [e]))"
begin

lemma loop_from:
  "sorted_wrt (\<lambda>a b. \<not> clash a b) acc \<Longrightarrow>
   foldR step (st acc) raws = Inr s \<longleftrightarrow>
     (\<exists>es. mapR row raws = Inr es \<and> sorted_wrt (\<lambda>a b. \<not> clash a b) (acc @ es) \<and>
        (\<forall>e \<in> set es. good e) \<and> s = st (acc @ es))"
proof (induction raws arbitrary: acc)
  case Nil
  then show ?case by auto
next
  case (Cons raw raws)
  have snoc: "sorted_wrt (\<lambda>a b. \<not> clash a b) (acc @ [e]) \<longleftrightarrow> (\<forall>e' \<in> set acc. \<not> clash e' e)" for e
    using Cons.prems by (auto simp: sorted_wrt_append)
  have "foldR step (st acc) (raw # raws) = Inr s \<longleftrightarrow>
      (\<exists>e. row raw = Inr e \<and> sorted_wrt (\<lambda>a b. \<not> clash a b) (acc @ [e]) \<and> good e \<and>
         foldR step (st (acc @ [e])) raws = Inr s)"
    by (auto simp: bindR_Inr_iff step_iff [OF Cons.prems] snoc)
  also have "\<dots> \<longleftrightarrow> (\<exists>e es. row raw = Inr e \<and> good e \<and> mapR row raws = Inr es \<and>
      sorted_wrt (\<lambda>a b. \<not> clash a b) (acc @ e # es) \<and> (\<forall>e \<in> set es. good e) \<and> s = st (acc @ e # es))"
  proof -
    have pre: "sorted_wrt (\<lambda>a b. \<not> clash a b) (acc @ e # es) \<Longrightarrow> sorted_wrt (\<lambda>a b. \<not> clash a b) (acc @ [e])" for e es
      by (auto simp: sorted_wrt_append)
    show ?thesis using Cons.IH pre by fastforce
  qed
  also have "\<dots> \<longleftrightarrow> (\<exists>es. mapR row (raw # raws) = Inr es \<and> sorted_wrt (\<lambda>a b. \<not> clash a b) (acc @ es) \<and>
      (\<forall>e \<in> set es. good e) \<and> s = st (acc @ es))"
    by (fastforce simp: bindR_Inr_iff)
  finally show ?case .
qed

lemma loop_iff:
  "foldR step (st []) raws = Inr s \<longleftrightarrow>
     (\<exists>es. mapR row raws = Inr es \<and> sorted_wrt (\<lambda>a b. \<not> clash a b) es \<and> (\<forall>e \<in> set es. good e) \<and> s = st es)"
  using loop_from [of "[]" raws s] by simp

end

text \<open>The states of the loops: entries with what \<open>seenIds\<close> and \<open>seenNames\<close> hold.\<close>

definition seen1 :: "('e \<Rightarrow> 'i) \<Rightarrow> 'e list \<Rightarrow> 'e list \<times> 'i list" where
  "seen1 i es = (es, map i es)"

definition seen2 :: "('e \<Rightarrow> 'i) \<Rightarrow> ('e \<Rightarrow> 'n) \<Rightarrow> 'e list \<Rightarrow> 'e list \<times> 'i list \<times> 'n list" where
  "seen2 i n es = (es, map i es, map n es)"

lemma seen_Nil: "seen1 i [] = ([], [])" "seen2 i n [] = ([], [], [])"
  by (simp_all add: seen1_def seen2_def)

lemma sorted_wrt_distinct1: "sorted_wrt (\<lambda>a b. \<not> i a = i b) es \<longleftrightarrow> distinct (map i es)"
  by (induction es) auto

lemma sorted_wrt_distinct2:
  "sorted_wrt (\<lambda>a b. \<not> (i a = i b \<or> n a = n b)) es \<longleftrightarrow> distinct (map i es) \<and> distinct (map n es)"
  by (induction es) auto

text \<open>What one round accepts, with the state it leaves.\<close>

lemma seen_before: "set_add (i e) (map i es) = (if \<forall>e' \<in> set es. i e' \<noteq> i e then map i es @ [i e] else map i es)"
  "i e \<in> i ` set es \<longleftrightarrow> \<not> (\<forall>e' \<in> set es. i e' \<noteq> i e)"
  by (auto simp: set_add_def) (metis rev_image_eqI)+

lemma push1_iff:
  "bindR r (\<lambda>e. bindR (ensure (i e \<notin> i ` set es) (x e)) (\<lambda>_.
     Inr (es @ [e], set_add (i e) (map i es)))) = Inr s' \<longleftrightarrow>
   (\<exists>e. r = Inr e \<and> (\<forall>e' \<in> set es. i e' \<noteq> i e) \<and> s' = (es @ [e], map i es @ [i e]))"
  by (cases r) (auto simp: res_simps seen_before)

lemma push2_iff:
  fixes g :: "'e \<Rightarrow> (reg_error, unit) res"
  shows "bindR r (\<lambda>e. bindR (ensure (i e \<notin> i ` set es) (x e)) (\<lambda>_.
     bindR (ensure (n e \<notin> n ` set es) (y e)) (\<lambda>_. bindR (g e) (\<lambda>_.
     Inr (es @ [e], set_add (i e) (map i es), set_add (n e) (map n es)))))) = Inr s' \<longleftrightarrow>
   (\<exists>e. r = Inr e \<and> (\<forall>e' \<in> set es. i e' \<noteq> i e \<and> n e' \<noteq> n e) \<and> g e = Inr () \<and> s' = (es @ [e], map i es @ [i e], map n es @ [n e]))"
  by (cases r) (auto simp: res_simps seen_before)

lemmas push2_always_iff = push2_iff [where g = "\<lambda>_. Inr ()", simplified]

interpretation key_rows: row_loop addKey "seen2 ke_key_id ke_name" parseKeyRow
  "\<lambda>a b. ke_key_id a = ke_key_id b \<or> ke_name a = ke_name b" "\<lambda>k. keyRules k = Inr ()"
  by unfold_locales (simp add: addKey_def seen2_def push2_iff)

interpretation param_rows: row_loop addParam "seen2 pe_param_id pe_name" parseParamRow
  "\<lambda>a b. pe_param_id a = pe_param_id b \<or> pe_name a = pe_name b" "\<lambda>_. True"
  by unfold_locales (simp add: addParam_def seen2_def push2_always_iff)

interpretation feature_rows: row_loop addFeature "seen1 fe_feature_id" parseFeatureRow
  "\<lambda>a b. fe_feature_id a = fe_feature_id b" "\<lambda>_. True"
  by unfold_locales (simp add: addFeature_def seen1_def push1_iff)

interpretation capability_rows: row_loop "addCapability env" "seen1 ce_id" "parseCapabilityRow env"
  "\<lambda>a b. ce_id a = ce_id b" "\<lambda>_. True" for env
  by unfold_locales (simp add: addCapability_def seen1_def push1_iff)

interpretation endpoint_rows: row_loop "addEndpoint e" "seen2 ee_endpoint_id ee_name" "parseEndpointRow e"
  "\<lambda>a b. ee_endpoint_id a = ee_endpoint_id b \<or> ee_name a = ee_name b" "\<lambda>_. True" for e
  by unfold_locales (simp add: addEndpoint_def seen2_def push2_always_iff)

section \<open>Sorting by a numeric id\<close>

lemma map_ins_by: "map f (ins_by (\<lambda>a b. gt (f a) (f b)) x ys) = ins_by gt (f x) (map f ys)"
  by (induction ys) auto

lemma map_js_sort_by: "map f (js_sort_by (\<lambda>a b. gt (f a) (f b)) xs) = js_sort_by gt (map f xs)"
  by (induction xs) (simp_all add: map_ins_by)

lemma num_gt_total: "x \<noteq> NaN \<Longrightarrow> y \<noteq> NaN \<Longrightarrow> x \<noteq> y \<Longrightarrow> \<not> num_gt x y \<Longrightarrow> num_gt y x"
  by (cases x; cases y) auto

lemma num_gt_asym: "num_gt x y \<Longrightarrow> \<not> num_gt y x"
  by (cases x; cases y) auto

text \<open>Ids in strictly ascending order.\<close>

definition ascending :: "jnum list \<Rightarrow> bool" where
  "ascending xs = sorted_wrt (\<lambda>x y. num_gt y x) xs"

lemma ascendingI: "sorted_wrt (\<lambda>a b. \<not> num_gt a b) xs \<Longrightarrow> distinct xs \<Longrightarrow> NaN \<notin> set xs \<Longrightarrow> ascending xs"
  unfolding ascending_def by (induction xs) (auto, metis num_gt_total)

lemma ascending_sort_by_id:
  assumes "distinct (map f xs)" and "NaN \<notin> f ` set xs"
  shows "ascending (map f (js_sort_by (\<lambda>a b. num_gt (f a) (f b)) xs))"
proof -
  have "set (map f xs) \<subseteq> - {NaN}" using assms(2) by auto
  then show ?thesis
    using assms num_cmp.sorted_js_sort_by [of "map f xs"] by (auto simp: map_js_sort_by intro: ascendingI)
qed

lemma ascending_unique:
  "ascending (map f xs) \<Longrightarrow> ascending (map f ys) \<Longrightarrow> mset xs = mset ys \<Longrightarrow> xs = ys"
proof (induction xs arbitrary: ys)
  case (Cons x xs)
  then obtain y ys' where ys: "ys = y # ys'" by (cases ys) auto
  have "x = y"
  proof (rule ccontr)
    assume "x \<noteq> y"
    with Cons.prems(3) have "y \<in> set xs" "x \<in> set ys'"
      by (metis ys list.set_intros(1) mset_eq_setD set_ConsD)+
    with Cons.prems(1,2) have "num_gt (f y) (f x)" "num_gt (f x) (f y)" by (auto simp: ys ascending_def)
    then show False using num_gt_asym by blast
  qed
  with Cons show ?case by (simp add: ys ascending_def)
qed simp

lemma sort_by_id_unique:
  assumes "ascending (map f ks)" and "mset rows = mset ks" and "distinct (map f ks)" and "NaN \<notin> f ` set ks"
  shows "js_sort_by (\<lambda>a b. num_gt (f a) (f b)) rows = ks"
proof (rule ascending_unique [where f = f])
  have "distinct (map f rows)" using assms(2,3) by (metis mset_eq_imp_distinct_iff mset_map)
  moreover have "NaN \<notin> f ` set rows" using assms(2,4) by (metis mset_eq_setD)
  ultimately show "ascending (map f (js_sort_by (\<lambda>a b. num_gt (f a) (f b)) rows))"
    by (rule ascending_sort_by_id)
qed (use assms in auto)

section \<open>Keys\<close>

text \<open>What the registry promises of each key, and of the keys together.\<close>

definition scalar_or_null :: "jsval \<Rightarrow> bool" where
  "scalar_or_null v = (case v of JNull \<Rightarrow> True | JNum _ \<Rightarrow> True | JStr _ \<Rightarrow> True | JBool _ \<Rightarrow> True | _ \<Rightarrow> False)"

definition wf_key :: "KeyEntry \<Rightarrow> bool" where
  "wf_key k \<longleftrightarrow> ke_type k \<in> set KEY_TYPES \<and> ke_status k \<in> set STATUSES \<and> scalar_or_null (ke_default k) \<and>
     (if ke_name k = ''id''
      then ke_key_id k = jint 1 \<and> ke_type k = ''int'' \<and> \<not> ke_nullable k \<and> \<not> ke_allow_write k
      else ke_nullable k \<or> ke_default k \<noteq> JNull)"

definition wf_keys :: "KeyEntry list \<Rightarrow> bool" where
  "wf_keys ks \<longleftrightarrow> distinct (map ke_key_id ks) \<and> distinct (map ke_name ks) \<and> (\<forall>k \<in> set ks. wf_key k) \<and>
     ''id'' \<in> ke_name ` set ks"

lemma typeField_iff [res_simps]: "typeField guard v err = Inr s \<longleftrightarrow> v = JStr s \<and> guard (JStr s)"
  by (cases v) (auto simp: typeField_def)

lemma statusField_iff [res_simps]:
  "statusField v = Inr s \<longleftrightarrow> (v = JUndef \<and> s = ''active'' \<or> v = JStr s \<and> s \<in> set STATUSES)"
  by (cases v) (auto simp: statusField_def isStatus_def is_name_in_def)

lemma optBoolField_iff [res_simps]: "optBoolField v f d = Inr b \<longleftrightarrow> (v = JUndef \<and> b = d \<or> v = JBool b)"
  by (cases v) (auto simp: optBoolField_def res_simps)

lemma optNumberField_iff [res_simps]:
  "optNumberField v f = Inr x \<longleftrightarrow> (v = JUndef \<and> x = None \<or> (\<exists>y. v = JNum y \<and> x = Some y))"
  by (cases v) (auto simp: optNumberField_def res_simps)

lemma defaultField_iff [res_simps]:
  "defaultField v n = Inr d \<longleftrightarrow> (v = JUndef \<and> d = JNull \<or> v \<noteq> JNull \<and> d = v \<and> scalar_or_null v)"
  by (cases v) (auto simp: defaultField_def scalar_or_null_def)

lemma active_status [simp]: "''active'' \<in> set STATUSES"
  by (simp add: STATUSES_def)

lemma scalar_or_null_simps [simp]: "scalar_or_null JNull" "\<not> scalar_or_null JUndef"
  by (simp_all add: scalar_or_null_def)

lemma parseKeyRow_ok:
  "parseKeyRow raw = Inr k \<Longrightarrow> ke_type k \<in> set KEY_TYPES \<and> ke_status k \<in> set STATUSES \<and> scalar_or_null (ke_default k)"
  by (auto simp: parseKeyRow_def res_simps isKeyType_def is_name_in_def split: if_splits)

lemma keyRules_iff:
  "keyRules k = Inr () \<longleftrightarrow>
     (if ke_name k = ''id''
      then ke_key_id k = jint 1 \<and> ke_type k = ''int'' \<and> \<not> ke_nullable k \<and> \<not> ke_allow_write k
      else ke_nullable k \<or> ke_default k \<noteq> JNull)"
  by (auto simp: keyRules_def res_simps)

lemma loadToml_iff:
  "loadToml env p what = Inr obj \<longleftrightarrow> (\<exists>c. re_read env p = Some c \<and> re_toml env c = Some obj \<and> is_object obj)"
  by (auto simp: loadToml_def split: option.splits if_splits)

lemma tableArray_iff: "tableArray obj k what = Inr raws \<longleftrightarrow> getp obj k = JArr raws"
  by (auto simp: tableArray_def split: jsval.splits)

lemma parseKeys_iff:
  "parseKeys env p = Inr ks \<longleftrightarrow>
     (\<exists>obj raws es. loadToml env p '''' = Inr obj \<and> getp obj ''key'' = JArr raws \<and> mapR parseKeyRow raws = Inr es \<and>
        distinct (map ke_key_id es) \<and> distinct (map ke_name es) \<and> (\<forall>k \<in> set es. keyRules k = Inr ()) \<and>
        ''id'' \<in> ke_name ` set es \<and> ks = js_sort_by (\<lambda>a b. num_gt (ke_key_id a) (ke_key_id b)) es)"
  unfolding parseKeys_def bindR_Inr_iff tableArray_iff key_rows.loop_iff [unfolded seen_Nil sorted_wrt_distinct2]
  by (auto simp: seen2_def image_iff split: if_splits) metis+

text \<open>A row as a complete TOML table, every field written out.\<close>

definition keyToml :: "KeyEntry \<Rightarrow> jsval" where
  "keyToml k = JObj ([(''key_id'', JNum (ke_key_id k)), (''name'', JStr (ke_name k)), (''type'', JStr (ke_type k)),
      (''nullable'', JBool (ke_nullable k)), (''doc'', JStr (ke_doc k)), (''status'', JStr (ke_status k)),
      (''allow_read'', JBool (ke_allow_read k)), (''allow_write'', JBool (ke_allow_write k))]
    @ (case ke_replaced_by k of None \<Rightarrow> [] | Some x \<Rightarrow> [(''replaced_by'', JNum x)])
    @ (if ke_default k = JNull then [] else [(''default'', ke_default k)]))"

lemma registry_fields [simp]: "proto_get ''replaced_by'' = JUndef" "proto_get ''default'' = JUndef"
  by (simp_all add: proto_get_def object_proto_def)

lemma scalar_or_null_not_undef: "scalar_or_null v \<Longrightarrow> v \<noteq> JUndef"
  by (auto simp: scalar_or_null_def)

lemma parseKeyRow_keyToml: "wf_key k \<Longrightarrow> parseKeyRow (keyToml k) = Inr k"
  unfolding parseKeyRow_def keyToml_def wf_key_def
  by (cases k; cases "ke_replaced_by k"; cases "ke_default k = JNull")
    (simp_all add: res_simps isKeyType_def is_name_in_def scalar_or_null_not_undef)

lemma mapR_rows: "(\<And>e. e \<in> set es \<Longrightarrow> f (g e) = Inr e) \<Longrightarrow> mapR f (map g es) = Inr es"
  by (induction es) auto

text \<open>
  Property C19. A key registry that parses is sound: ids and names are unique, types, statuses and
  defaults are from the closed sets, \<open>Key.id\<close> exists and obeys its special rules, every other
  non-nullable key has a default, and the entries come in strictly ascending id order (unless a
  row has the id \<open>nan\<close>, which TOML can express and the parser admits).
\<close>

theorem parseKeys_sound:
  assumes "parseKeys env p = Inr ks"
  shows "wf_keys ks \<and> (NaN \<in> ke_key_id ` set ks \<or> ascending (map ke_key_id ks))"
proof -
  obtain raws es where es: "mapR parseKeyRow raws = Inr es" "distinct (map ke_key_id es)" "distinct (map ke_name es)"
    "\<forall>k \<in> set es. keyRules k = Inr ()" "''id'' \<in> ke_name ` set es"
    and ks: "ks = js_sort_by (\<lambda>a b. num_gt (ke_key_id a) (ke_key_id b)) es"
    using assms by (auto simp: parseKeys_iff)
  have "wf_key k" if k: "k \<in> set es" for k
  proof -
    obtain raw where "parseKeyRow raw = Inr k"
      using es(1) k by (auto simp: mapR_Inr_iff in_set_conv_nth list_all2_conv_all_nth)
    with es(4) k show ?thesis by (auto simp: wf_key_def keyRules_iff dest: parseKeyRow_ok)
  qed
  then show ?thesis
    using es ascending_sort_by_id [of ke_key_id es] by (auto simp: wf_keys_def ks)
qed

definition sample_id_key :: KeyEntry where
  "sample_id_key = \<lparr> ke_key_id = jint 1, ke_name = ''id'', ke_type = ''int'', ke_nullable = False, ke_doc = ''Entity identity'',
     ke_status = ''active'', ke_allow_read = True, ke_allow_write = False, ke_replaced_by = None, ke_default = JNull \<rparr>"

definition sample_score_key :: KeyEntry where
  "sample_score_key = \<lparr> ke_key_id = jint 2001, ke_name = ''final_score'', ke_type = ''float'', ke_nullable = False,
     ke_doc = ''Final score'', ke_status = ''active'', ke_allow_read = True, ke_allow_write = True,
     ke_replaced_by = None, ke_default = JNum (jint 0) \<rparr>"

definition sample_env :: "jsval \<Rightarrow> reg_env" where
  "sample_env v = \<lparr> re_read = (\<lambda>_. Some []), re_toml = (\<lambda>_. Some v), re_json = (\<lambda>_. None), re_locale_gt = (\<lambda>x y. x > y) \<rparr>"

lemmas sample_defs = sample_id_key_def sample_score_key_def sample_env_def

text \<open>
  Property C20. Every sound registry can be read: when the file holds the rows of a valid registry
  in any order, the parser returns exactly that registry, sorted by id.
\<close>

theorem parseKeys_reads_back:
  assumes "re_read env p = Some c" and "re_toml env c = Some (JObj kvs)"
    and "obj_get kvs ''key'' = JArr (map keyToml rows)"
    and "wf_keys ks" and "ascending (map ke_key_id ks)" and "NaN \<notin> ke_key_id ` set ks"
    and "mset rows = mset ks"
  shows "parseKeys env p = Inr ks"
proof -
  have same: "set rows = set ks" using assms(7) by (rule mset_eq_setD)
  then have "mapR parseKeyRow (map keyToml rows) = Inr rows"
    using assms(4) by (intro mapR_rows parseKeyRow_keyToml) (auto simp: wf_keys_def)
  moreover have "distinct (map ke_key_id rows)" "distinct (map ke_name rows)"
    using assms(4,7) unfolding wf_keys_def by (metis mset_eq_imp_distinct_iff mset_map)+
  moreover have "js_sort_by (\<lambda>a b. num_gt (ke_key_id a) (ke_key_id b)) rows = ks"
    using assms(4-7) by (intro sort_by_id_unique) (auto simp: wf_keys_def)
  ultimately show ?thesis
    unfolding parseKeys_iff loadToml_iff
    using assms(1-4) same by (intro exI [of _ "JObj kvs"] exI [of _ "map keyToml rows"] exI [of _ rows])
      (auto simp: wf_keys_def wf_key_def keyRules_iff)
qed

theorem parseKeys_reads_back_witness:
  "parseKeys (sample_env (JObj [(''key'', JArr [keyToml sample_score_key, keyToml sample_id_key])])) ''keys.toml'' =
     Inr [sample_id_key, sample_score_key]"
  by (rule parseKeys_reads_back [where rows = "[sample_score_key, sample_id_key]" and c = "[]"
        and kvs = "[(''key'', JArr [keyToml sample_score_key, keyToml sample_id_key])]"])
    (simp_all add: sample_defs wf_keys_def wf_key_def KEY_TYPES_def scalar_or_null_def ascending_def add_mset_commute)

theorem parseKeys_sound_witness:
  "wf_keys [sample_id_key]"
proof -
  have "parseKeys (sample_env (JObj [(''key'', JArr [keyToml sample_id_key])])) ''keys.toml'' = Inr [sample_id_key]"
    by code_simp
  from parseKeys_sound [OF this] show ?thesis by simp
qed

section \<open>Parameters, features, capabilities\<close>

lemma parseParams_iff:
  "parseParams env p = Inr ps \<longleftrightarrow>
     (\<exists>obj raws es. loadToml env p '''' = Inr obj \<and> getp obj ''param'' = JArr raws \<and> mapR parseParamRow raws = Inr es \<and>
        distinct (map pe_param_id es) \<and> distinct (map pe_name es) \<and>
        ps = js_sort_by (\<lambda>a b. num_gt (pe_param_id a) (pe_param_id b)) es)"
  unfolding parseParams_def bindR_Inr_iff tableArray_iff param_rows.loop_iff [unfolded seen_Nil sorted_wrt_distinct2]
  by (auto simp: seen2_def)

lemma parseFeatures_iff:
  "parseFeatures env p = Inr fs \<longleftrightarrow>
     (\<exists>obj raws es. loadToml env p '''' = Inr obj \<and> getp obj ''feature'' = JArr raws \<and> mapR parseFeatureRow raws = Inr es \<and>
        distinct (map fe_feature_id es) \<and> fs = js_sort_by (\<lambda>a b. num_gt (fe_feature_id a) (fe_feature_id b)) es)"
  unfolding parseFeatures_def bindR_Inr_iff tableArray_iff feature_rows.loop_iff [unfolded seen_Nil sorted_wrt_distinct1]
  by (auto simp: seen1_def)

lemma parseCapabilities_iff:
  "parseCapabilities env p = Inr cs \<longleftrightarrow>
     (\<exists>obj raws es. loadToml env p ''capabilities.toml'' = Inr obj \<and> getp obj ''schema_version'' = JNum (jint 1) \<and>
        getp obj ''capability'' = JArr raws \<and> mapR (parseCapabilityRow env) raws = Inr es \<and> distinct (map ce_id es) \<and>
        cs = js_sort_by (\<lambda>a b. re_locale_gt env (ce_id a) (ce_id b)) es)"
  unfolding parseCapabilities_def bindR_Inr_iff tableArray_iff
    capability_rows.loop_iff [unfolded seen_Nil sorted_wrt_distinct1]
  by (auto simp: seen1_def bindR_Inr_iff tableArray_iff capability_rows.loop_iff [unfolded seen_Nil sorted_wrt_distinct1])

lemma parseEndpointFile_iff:
  "parseEndpointFile env p e = Inr es \<longleftrightarrow>
     (\<exists>obj raws rows. loadToml env p p = Inr obj \<and> getp obj ''version'' = JNum (jint 1) \<and>
        getp obj ''endpoint'' = JArr raws \<and> mapR (parseEndpointRow e) raws = Inr rows \<and>
        distinct (map ee_endpoint_id rows) \<and> distinct (map ee_name rows) \<and>
        es = js_sort_by (\<lambda>a b. re_locale_gt env (ee_endpoint_id a) (ee_endpoint_id b)) rows)"
  unfolding parseEndpointFile_def bindR_Inr_iff
  by (auto simp: seen2_def bindR_Inr_iff tableArray_iff endpoint_rows.loop_iff [unfolded seen_Nil sorted_wrt_distinct2])

lemma mapR_all: "mapR f raws = Inr es \<Longrightarrow> (\<And>raw e. f raw = Inr e \<Longrightarrow> Q e) \<Longrightarrow> \<forall>e \<in> set es. Q e"
  by (induction raws arbitrary: es) (auto simp: bindR_Inr_iff)

lemma parseParamRow_ok: "parseParamRow raw = Inr p \<Longrightarrow> pe_type p \<in> set PARAM_TYPES \<and> pe_status p \<in> set STATUSES"
  by (auto simp: parseParamRow_def res_simps isParamType_def is_name_in_def split: if_splits)

lemma parseFeatureRow_ok: "parseFeatureRow raw = Inr f \<Longrightarrow> fe_type f \<in> set FEATURE_TYPES \<and> fe_status f \<in> set STATUSES"
  by (auto simp: parseFeatureRow_def res_simps isFeatureType_def is_name_in_def split: if_splits)

text \<open>A payload schema is absent, or an object-like value whose \<open>type\<close> is \<open>"object"\<close>.\<close>

lemma payloadSchema_ok:
  "payloadSchema env i v = Inr s \<Longrightarrow> v = JUndef \<and> s = JNull \<or> s \<noteq> JNull \<and> getp s ''type'' = JStr ''object''"
  by (auto simp: payloadSchema_def split: jsval.splits option.splits if_splits)

lemma parseCapabilityRow_ok:
  "parseCapabilityRow env raw = Inr c \<Longrightarrow> ce_status c \<in> set CAPABILITY_STATUSES \<and>
     (ce_payload_schema c = JNull \<or> getp (ce_payload_schema c) ''type'' = JStr ''object'')"
  by (auto simp: parseCapabilityRow_def res_simps isCapabilityStatus_def is_name_in_def split: if_splits
      dest: payloadSchema_ok)

lemma parseParams_ok:
  assumes "parseParams env p = Inr ps"
  shows "distinct (map pe_param_id ps) \<and> distinct (map pe_name ps) \<and>
    (\<forall>e \<in> set ps. pe_type e \<in> set PARAM_TYPES \<and> pe_status e \<in> set STATUSES) \<and>
    (NaN \<in> pe_param_id ` set ps \<or> ascending (map pe_param_id ps))"
proof -
  obtain raws es where es: "mapR parseParamRow raws = Inr es" "distinct (map pe_param_id es)" "distinct (map pe_name es)"
    "ps = js_sort_by (\<lambda>a b. num_gt (pe_param_id a) (pe_param_id b)) es"
    using assms by (auto simp: parseParams_iff)
  from es(1) have "\<forall>e \<in> set es. pe_type e \<in> set PARAM_TYPES \<and> pe_status e \<in> set STATUSES"
    by (rule mapR_all) (rule parseParamRow_ok)
  then show ?thesis using es ascending_sort_by_id [of pe_param_id es] by auto
qed

lemma parseFeatures_ok:
  assumes "parseFeatures env p = Inr fs"
  shows "distinct (map fe_feature_id fs) \<and>
    (\<forall>e \<in> set fs. fe_type e \<in> set FEATURE_TYPES \<and> fe_status e \<in> set STATUSES) \<and>
    (NaN \<in> fe_feature_id ` set fs \<or> ascending (map fe_feature_id fs))"
proof -
  obtain raws es where es: "mapR parseFeatureRow raws = Inr es" "distinct (map fe_feature_id es)"
    "fs = js_sort_by (\<lambda>a b. num_gt (fe_feature_id a) (fe_feature_id b)) es"
    using assms by (auto simp: parseFeatures_iff)
  from es(1) have "\<forall>e \<in> set es. fe_type e \<in> set FEATURE_TYPES \<and> fe_status e \<in> set STATUSES"
    by (rule mapR_all) (rule parseFeatureRow_ok)
  then show ?thesis using es ascending_sort_by_id [of fe_feature_id es] by auto
qed

lemma parseCapabilities_ok:
  assumes "parseCapabilities env p = Inr cs"
  shows "distinct (map ce_id cs) \<and>
    (\<forall>c \<in> set cs. ce_status c \<in> set CAPABILITY_STATUSES \<and>
       (ce_payload_schema c = JNull \<or> getp (ce_payload_schema c) ''type'' = JStr ''object''))"
proof -
  obtain raws es where es: "mapR (parseCapabilityRow env) raws = Inr es" "distinct (map ce_id es)"
    "cs = js_sort_by (\<lambda>a b. re_locale_gt env (ce_id a) (ce_id b)) es"
    using assms by (auto simp: parseCapabilities_iff)
  from es(1) have "\<forall>c \<in> set es. ce_status c \<in> set CAPABILITY_STATUSES \<and>
       (ce_payload_schema c = JNull \<or> getp (ce_payload_schema c) ''type'' = JStr ''object'')"
    by (rule mapR_all) (rule parseCapabilityRow_ok)
  then show ?thesis using es by auto
qed

section \<open>Endpoints\<close>

definition wf_endpoint :: "EndpointEntry \<Rightarrow> bool" where
  "wf_endpoint e \<longleftrightarrow> startsWith (ee_endpoint_id e) ''ep_'' \<and> length (ee_endpoint_id e) \<le> 64 \<and>
     ee_kind e \<in> set ENDPOINT_KINDS \<and> sr_type (ee_resolver e) = ''static'' \<and>
     (\<exists>n. sr_port (ee_resolver e) = jint n \<and> 1 \<le> n \<and> n \<le> 65535)"

definition wf_endpoints :: "EndpointEntry list \<Rightarrow> bool" where
  "wf_endpoints es \<longleftrightarrow> distinct (map ee_endpoint_id es) \<and> distinct (map ee_name es) \<and> (\<forall>e \<in> set es. wf_endpoint e)"

text \<open>What must agree between the environments.\<close>

definition endpoint_sig :: "EndpointEntry \<Rightarrow> string \<times> string \<times> string" where
  "endpoint_sig e = (ee_endpoint_id e, ee_name e, ee_kind e)"

lemma parseResolver_ok:
  "parseResolver i v = Inr r \<Longrightarrow> sr_type r = ''static'' \<and> (\<exists>n. sr_port r = jint n \<and> 1 \<le> n \<and> n \<le> 65535)"
  by (auto simp: parseResolver_def res_simps is_int_num_iff not_less split: if_splits)

lemma parseEndpointRow_ok: "parseEndpointRow env raw = Inr e \<Longrightarrow> wf_endpoint e"
  by (auto simp: parseEndpointRow_def wf_endpoint_def res_simps isEndpointKind_def is_name_in_def not_less
      split: if_splits dest: parseResolver_ok)

lemma parseEndpointFile_ok: "parseEndpointFile env p e = Inr es \<Longrightarrow> wf_endpoints es"
  by (auto simp: parseEndpointFile_iff wf_endpoints_def dest: mapR_all [where Q = wf_endpoint, OF _ parseEndpointRow_ok])

lemma endpointMap_eq: "distinct (map ee_endpoint_id es) \<Longrightarrow> endpointMap es = map (\<lambda>e. (ee_endpoint_id e, e)) es"
proof -
  have "foldl (\<lambda>m e. alist_set (ee_endpoint_id e) e m) acc es = acc @ map (\<lambda>e. (ee_endpoint_id e, e)) es"
    if "distinct (map fst acc @ map ee_endpoint_id es)" for acc
    using that
  proof (induction es arbitrary: acc)
    case (Cons e es)
    then have "ee_endpoint_id e \<notin> fst ` set acc" by auto
    with Cons.prems show ?case by (simp add: alist_set_fresh Cons.IH)
  qed simp
  then show "distinct (map ee_endpoint_id es) \<Longrightarrow> ?thesis" by (simp add: endpointMap_def)
qed

lemma map_of_by_id:
  "distinct (map f es) \<Longrightarrow> map_of (map (\<lambda>e. (f e, e)) es) i = Some e \<longleftrightarrow> e \<in> set es \<and> f e = i"
  by (subst map_of_eq_Some_iff) (auto simp: comp_def)

lemma checkSameEndpoints_iff:
  assumes "distinct (map ee_endpoint_id ds)" and "distinct (map ee_endpoint_id os)"
  shows "checkSameEndpoints (endpointMap ds) (endpointMap os) other = Inr () \<longleftrightarrow> endpoint_sig ` set ds = endpoint_sig ` set os"
proof -
  have "checkSameEndpoints (endpointMap ds) (endpointMap os) other = Inr () \<longleftrightarrow>
      (\<forall>d \<in> set ds. \<exists>e \<in> set os. endpoint_sig d = endpoint_sig e) \<and>
      (\<forall>e \<in> set os. \<exists>d \<in> set ds. ee_endpoint_id e = ee_endpoint_id d)"
  proof -
    have "(case map_of (map (\<lambda>e. (ee_endpoint_id e, e)) os) (ee_endpoint_id d) of
         None \<Rightarrow> Inl (EndpointMissing (ee_endpoint_id d) other)
       | Some entry \<Rightarrow>
           bindR (ensure (ee_name entry = ee_name d) (EndpointNameMismatch (ee_endpoint_id d) other)) (\<lambda>_.
           ensure (ee_kind entry = ee_kind d) (EndpointKindMismatch (ee_endpoint_id d) other))) = Inr () \<longleftrightarrow>
         (\<exists>e \<in> set os. endpoint_sig d = endpoint_sig e)" for d
    proof (cases "map_of (map (\<lambda>e. (ee_endpoint_id e, e)) os) (ee_endpoint_id d)")
      case None
      then have "ee_endpoint_id d \<notin> ee_endpoint_id ` set os" by (simp add: map_of_eq_None_iff image_image)
      with None show ?thesis by (auto simp: endpoint_sig_def)
    next
      case (Some e)
      then have e: "e \<in> set os" "ee_endpoint_id e = ee_endpoint_id d" by (simp_all add: map_of_by_id assms)
      have uniq: "e' = e" if "e' \<in> set os" "ee_endpoint_id e' = ee_endpoint_id d" for e'
        using that Some map_of_by_id [OF assms(2), of "ee_endpoint_id d" e'] by simp
      have "(\<exists>e' \<in> set os. endpoint_sig d = endpoint_sig e') \<longleftrightarrow> endpoint_sig d = endpoint_sig e"
        using e(1) uniq by (metis endpoint_sig_def fst_conv)
      then show ?thesis using Some e(2) by (auto simp: bindR_unit_Inr_iff endpoint_sig_def)
    qed
    then show ?thesis
      by (simp add: checkSameEndpoints_def endpointMap_eq assms bindR_unit_Inr_iff eachR_Inr_iff image_image image_iff)
  qed
  also have "\<dots> \<longleftrightarrow> endpoint_sig ` set ds = endpoint_sig ` set os"
  proof
    assume *: "(\<forall>d \<in> set ds. \<exists>e \<in> set os. endpoint_sig d = endpoint_sig e) \<and>
      (\<forall>e \<in> set os. \<exists>d \<in> set ds. ee_endpoint_id e = ee_endpoint_id d)"
    have "endpoint_sig e \<in> endpoint_sig ` set ds" if e: "e \<in> set os" for e
    proof -
      obtain d e' where d: "d \<in> set ds" "ee_endpoint_id e = ee_endpoint_id d" "e' \<in> set os" "endpoint_sig d = endpoint_sig e'"
        using * e by metis
      then have "e' = e" using e assms(2) by (auto simp: endpoint_sig_def distinct_map inj_on_def)
      with d show ?thesis by (metis image_eqI)
    qed
    with * show "endpoint_sig ` set ds = endpoint_sig ` set os" by auto
  next
    assume eq: "endpoint_sig ` set ds = endpoint_sig ` set os"
    have "\<exists>e \<in> set os. endpoint_sig d = endpoint_sig e" if "d \<in> set ds" for d
      using imageI [OF that, of endpoint_sig] unfolding eq by blast
    moreover have "\<exists>d \<in> set ds. ee_endpoint_id e = ee_endpoint_id d" if "e \<in> set os" for e
      using imageI [OF that, of endpoint_sig] unfolding eq [symmetric] by (auto simp: endpoint_sig_def)
    ultimately show "(\<forall>d \<in> set ds. \<exists>e \<in> set os. endpoint_sig d = endpoint_sig e) \<and>
      (\<forall>e \<in> set os. \<exists>d \<in> set ds. ee_endpoint_id e = ee_endpoint_id d)"
      by blast
  qed
  finally show ?thesis .
qed

lemma parseEndpoints_iff:
  "parseEndpoints env dir = Inr r \<longleftrightarrow>
     parseEndpointFile env (dir @ ''/endpoints.dev.toml'') ''dev'' = Inr (er_dev r) \<and>
     parseEndpointFile env (dir @ ''/endpoints.test.toml'') ''test'' = Inr (er_test r) \<and>
     parseEndpointFile env (dir @ ''/endpoints.prod.toml'') ''prod'' = Inr (er_prod r) \<and>
     endpoint_sig ` set (er_dev r) = endpoint_sig ` set (er_test r) \<and>
     endpoint_sig ` set (er_dev r) = endpoint_sig ` set (er_prod r)"
proof (cases r)
  case (fields dev test prod)
  have "checkSameEndpoints (endpointMap ds) (endpointMap os) x = Inr () \<longleftrightarrow> endpoint_sig ` set ds = endpoint_sig ` set os"
    if "parseEndpointFile env p a = Inr ds" "parseEndpointFile env q b = Inr os" for ds os x p q a b
    using that by (intro checkSameEndpoints_iff) (auto simp: wf_endpoints_def dest!: parseEndpointFile_ok)
  then show ?thesis by (simp add: parseEndpoints_def res_simps fields cong: conj_cong)
qed

section \<open>Properties of the other registries\<close>


definition sample_registry :: jsval where
  "sample_registry = JObj [(''schema_version'', JNum (jint 1)),
     (''param'', JArr [JObj [(''param_id'', JNum (jint 7)), (''name'', JStr ''w''), (''type'', JStr ''float''),
        (''nullable'', JBool True), (''doc'', JStr ''''), (''status'', JStr ''deprecated'')]]),
     (''feature'', JArr [JObj [(''feature_id'', JNum (jint 2)), (''stage'', JStr ''esr''), (''name'', JStr ''f''),
        (''type'', JStr ''int''), (''nullable'', JBool False), (''doc'', JStr '''')]]),
     (''capability'', JArr [JObj [(''id'', JStr ''cap.x''), (''rfc'', JStr ''0001''), (''name'', JStr ''x''),
        (''status'', JStr ''draft''), (''doc'', JStr '''')]])]"

definition sample_param :: ParamEntry where
  "sample_param = \<lparr> pe_param_id = jint 7, pe_name = ''w'', pe_type = ''float'', pe_nullable = True, pe_doc = [],
     pe_status = ''deprecated'', pe_allow_read = True, pe_allow_write = False, pe_replaced_by = None \<rparr>"

definition sample_feature :: FeatureEntry where
  "sample_feature = \<lparr> fe_feature_id = jint 2, fe_stage = ''esr'', fe_name = ''f'', fe_type = ''int'', fe_nullable = False,
     fe_status = ''active'', fe_doc = [] \<rparr>"

definition sample_capability :: CapabilityEntry where
  "sample_capability = \<lparr> ce_id = ''cap.x'', ce_rfc = ''0001'', ce_name = ''x'', ce_status = ''draft'', ce_doc = [],
     ce_payload_schema = JNull \<rparr>"


text \<open>
  Property C21. \<open>parseEndpoints\<close> succeeds only when the three environments describe the same endpoints:
  the same set of ids, each with the same name and kind everywhere. Within each environment ids
  and names are unique, ids start with \<open>ep_\<close> and have at most 64 characters, kinds are known,
  resolvers are static, and ports are integers from 1 to 65535.
\<close>

theorem parseEndpoints_consistent:
  assumes "parseEndpoints env dir = Inr r"
  shows "endpoint_sig ` set (er_dev r) = endpoint_sig ` set (er_test r) \<and>
    endpoint_sig ` set (er_dev r) = endpoint_sig ` set (er_prod r) \<and>
    wf_endpoints (er_dev r) \<and> wf_endpoints (er_test r) \<and> wf_endpoints (er_prod r)"
  using assms unfolding parseEndpoints_iff by (blast intro: parseEndpointFile_ok)

definition sample_endpoint :: "string \<Rightarrow> int \<Rightarrow> EndpointEntry" where
  "sample_endpoint host port = \<lparr> ee_endpoint_id = ''ep_0001'', ee_name = ''redis_default'', ee_kind = ''redis'',
     ee_resolver = \<lparr> sr_type = ''static'', sr_host = host, sr_port = jint port \<rparr>,
     ee_policy = \<lparr> ep_max_inflight = Some (jint 64), ep_connect_timeout_ms = None, ep_request_timeout_ms = None \<rparr> \<rparr>"

definition sample_endpoint_toml :: jsval where
  "sample_endpoint_toml = JObj [(''version'', JNum (jint 1)),
     (''endpoint'', JArr [JObj [(''endpoint_id'', JStr ''ep_0001''), (''name'', JStr ''redis_default''),
       (''kind'', JStr ''redis''),
       (''resolver'', JObj [(''type'', JStr ''static''), (''host'', JStr ''127.0.0.1''), (''port'', JNum (jint 6379))]),
       (''policy'', JObj [(''max_inflight'', JNum (jint 64))])]])]"

theorem parseEndpoints_consistent_witness:
  "wf_endpoints [sample_endpoint ''127.0.0.1'' 6379]"
proof -
  let ?es = "[sample_endpoint ''127.0.0.1'' 6379]"
  have "parseEndpoints (sample_env sample_endpoint_toml) ''registry'' = Inr \<lparr> er_dev = ?es, er_test = ?es, er_prod = ?es \<rparr>"
    by code_simp
  from parseEndpoints_consistent [OF this] show ?thesis by simp
qed

end
