(* ===== verification/CodegenUtils.thy ===== *)
theory CodegenUtils
  imports StableStringify RegistryTypes
begin

text \<open>
  \<open>dsl/src/codegen/utils.ts\<close>: the canonical text that registry digests are computed from, the
  conversions between registry names and identifiers, and the C++ spellings. SHA-256 is a
  parameter; \<open>formatCpp\<close> only runs \<open>clang-format\<close> and is left out. \<open>toUpperCase\<close> is given on
  code units below 256; the two of them whose capital lies above (\<open>0xB5\<close> and \<open>0xFF\<close>) are kept.
\<close>

section \<open>Canonical text\<close>

definition join_comma :: "string list \<Rightarrow> string" where
  "join_comma ps = concat (case ps of [] \<Rightarrow> [] | p # ps' \<Rightarrow> p # map (\<lambda>q. '','' @ q) ps')"

datatype stringify_error = CannotStringify string

text \<open>
  Recursion on the value; object keys sorted. Unlike \<open>JSON.stringify\<close>, \<open>undefined\<close>, functions,
  symbols and big integers raise wherever they occur. Class instances are listed by their own
  properties.
\<close>

function canonicalText :: "jsval \<Rightarrow> (stringify_error, string) res" where
  "canonicalText obj =
     (case obj of
        JNull \<Rightarrow> Inr ''null''
      | JBool b \<Rightarrow> Inr (if b then ''true'' else ''false'')
      | JNum x \<Rightarrow> Inr (if is_finite_num x then num_str x else ''null'')
      | JStr s \<Rightarrow> Inr (json_quote s)
      | JArr vs \<Rightarrow> bindR (mapR canonicalText vs) (\<lambda>ps. Inr (''['' @ join_comma ps @ '']''))
      | _ \<Rightarrow>
          if is_plain obj then
            bindR (mapR (\<lambda>(k, v). bindR (canonicalText v) (\<lambda>s. Inr (json_quote k @ '':'' @ s)))
                    (sort_entries (own_entries obj))) (\<lambda>ps. Inr (''{'' @ join_comma ps @ ''}''))
          else Inl (CannotStringify (typeof_js obj)))"
  by pat_completeness auto
termination
  by (relation "measure json_size") (auto simp: json_size_def [of "JCand _ _"] json_size_def [of "JCtx _"] json_size_def [of "JStr _"] intro: json_size_less size_arr size_obj)

declare canonicalText.simps [simp del]

definition computeDigest :: "(string \<Rightarrow> string) \<Rightarrow> jsval \<Rightarrow> (stringify_error, string) res" where
  "computeDigest sha256_hex obj = bindR (canonicalText obj) (\<lambda>canonical. Inr (sha256_hex canonical))"

section \<open>Names\<close>

definition is_lower :: "char \<Rightarrow> bool" where
  "is_lower c \<longleftrightarrow> (97 :: nat) \<le> of_char c \<and> of_char c \<le> (122 :: nat)"

definition is_upper :: "char \<Rightarrow> bool" where
  "is_upper c \<longleftrightarrow> (65 :: nat) \<le> of_char c \<and> of_char c \<le> (90 :: nat)"

definition upper :: "char \<Rightarrow> char" where
  "upper c = char_of (of_char c - 32 :: nat)"

definition lower :: "char \<Rightarrow> char" where
  "lower c = char_of (of_char c + 32 :: nat)"

text \<open>\<open>c.toUpperCase()\<close> for a string of one code unit.\<close>

definition js_upper :: "char \<Rightarrow> string" where
  "js_upper c =
     (let n = of_char c :: nat in
      if is_lower c \<or> 224 \<le> n \<and> n \<le> 254 \<and> n \<noteq> 247 then [upper c]
      else if n = 223 then ''SS''
      else [c])"

text \<open>\<open>s.charAt(0).toUpperCase() + s.slice(1)\<close>.\<close>

fun capitalize :: "string \<Rightarrow> string" where
  "capitalize [] = []"
| "capitalize (c # cs) = js_upper c @ cs"

text \<open>\<open>part.replace(/_([a-z])/g, (_, c) => c.toUpperCase())\<close>.\<close>

fun camel :: "string \<Rightarrow> string" where
  "camel [] = []"
| "camel [c] = [c]"
| "camel (c # d # cs) = (if c = CHR ''_'' \<and> is_lower d then upper d # camel cs else c # camel (d # cs))"

text \<open>\<open>s.split(".")\<close>, with the part read so far in reverse.\<close>

fun split_dot :: "string \<Rightarrow> string \<Rightarrow> string list" where
  "split_dot acc [] = [rev acc]"
| "split_dot acc (c # cs) = (if c = CHR ''.'' then rev acc # split_dot [] cs else split_dot (c # acc) cs)"

text \<open>\<open>op.split(/::|\./)\<close>.\<close>

fun split_op :: "string \<Rightarrow> string \<Rightarrow> string list" where
  "split_op acc [] = [rev acc]"
| "split_op acc [c] = (if c = CHR ''.'' then [rev acc, []] else [rev (c # acc)])"
| "split_op acc (c # d # cs) =
     (if c = CHR '':'' \<and> d = CHR '':'' then rev acc # split_op [] cs
      else if c = CHR ''.'' then rev acc # split_op [] (d # cs)
      else split_op (c # acc) (d # cs))"

definition op_parts :: "string \<Rightarrow> string list" where
  "op_parts op = filter (\<lambda>p. p \<noteq> []) (split_op [] op)"

definition cppNameToTsName :: "string \<Rightarrow> string" where
  "cppNameToTsName cppName =
     concat (map (\<lambda>(i, part). if i = 0 then camel part else capitalize (camel part)) (enumerate 0 (split_dot [] cppName)))"

definition opToInterfaceName :: "string \<Rightarrow> string" where
  "opToInterfaceName op = concat (map (\<lambda>part. capitalize (camel part)) (op_parts op)) @ ''Opts''"

text \<open>\<open>None\<close> is the \<open>TypeError\<close> of an op without any non-empty part.\<close>

definition opToMethodName :: "string \<Rightarrow> string option" where
  "opToMethodName op = (case rev (op_parts op) of [] \<Rightarrow> None | lastPart # _ \<Rightarrow> Some (camel lastPart))"

text \<open>\<open>op.indexOf("::")\<close> and the text before it.\<close>

fun before_colons :: "string \<Rightarrow> string option" where
  "before_colons (c # d # cs) =
     (if c = CHR '':'' \<and> d = CHR '':'' then Some [] else map_option (\<lambda>p. c # p) (before_colons (d # cs)))"
| "before_colons _ = None"

definition opToNamespace :: "string \<Rightarrow> string option" where
  "opToNamespace op = before_colons op"

fun methodNameToSnakeCase :: "string \<Rightarrow> string" where
  "methodNameToSnakeCase [] = []"
| "methodNameToSnakeCase (c # cs) =
     (if is_upper c then CHR ''_'' # lower c # methodNameToSnakeCase cs else c # methodNameToSnakeCase cs)"

definition friendlyParamName :: "string \<Rightarrow> string \<Rightarrow> string" where
  "friendlyParamName paramName paramType =
     (if paramType = ''expr_id'' then ''expr'' else if paramType = ''pred_id'' then ''pred'' else cppNameToTsName paramName)"

section \<open>C++ spellings\<close>

definition cppType :: "string \<Rightarrow> string option" where
  "cppType t = map_of [(''int'', ''int64_t''), (''float'', ''double''), (''string'', ''std::string''),
     (''bool'', ''bool''), (''feature_bundle'', ''FeatureBundle'')] t"

definition cppStatus :: "string \<Rightarrow> string option" where
  "cppStatus s = map_of [(''active'', ''Status::Active''), (''deprecated'', ''Status::Deprecated''),
     (''blocked'', ''Status::Blocked'')] s"

definition cppCapabilityStatus :: "string \<Rightarrow> string option" where
  "cppCapabilityStatus s = map_of [(''implemented'', ''CapabilityStatus::Implemented''), (''draft'', ''CapabilityStatus::Draft''),
     (''deprecated'', ''CapabilityStatus::Deprecated''), (''blocked'', ''CapabilityStatus::Blocked'')] s"

definition cppPropertyType :: "jsval \<Rightarrow> string" where
  "cppPropertyType jsonType =
     (case jsonType of
        JStr t \<Rightarrow>
          (case map_of [(''string'', ''SchemaPropertyType::String''), (''integer'', ''SchemaPropertyType::Number''),
             (''number'', ''SchemaPropertyType::Number''), (''boolean'', ''SchemaPropertyType::Boolean''),
             (''object'', ''SchemaPropertyType::Object''), (''array'', ''SchemaPropertyType::Array'')] t of
             Some c \<Rightarrow> c
           | None \<Rightarrow> ''SchemaPropertyType::Unknown'')
      | _ \<Rightarrow> ''SchemaPropertyType::Unknown'')"

definition cppCapabilityIdent :: "string \<Rightarrow> string" where
  "cppCapabilityIdent id' =
     ''k'' @ concat (map (\<lambda>p. case p of [] \<Rightarrow> [] | c # cs \<Rightarrow> js_upper c @ camel cs) (split_dot [] id'))"

section \<open>Names convert back\<close>

lemma upper_is_upper [simp]: "is_lower c \<Longrightarrow> is_upper (upper c)"
  by (auto simp: is_lower_def is_upper_def upper_def)

lemma lower_upper [simp]: "is_lower c \<Longrightarrow> lower (upper c) = c"
  by (auto simp: is_lower_def lower_def upper_def)

lemma is_lower_not_upper: "is_lower c \<Longrightarrow> \<not> is_upper c"
  by (auto simp: is_lower_def is_upper_def)

lemma snake_camel: "\<forall>c \<in> set s. \<not> is_upper c \<Longrightarrow> methodNameToSnakeCase (camel s) = s"
  by (induction s rule: camel.induct) auto

lemma split_op_step: "c \<noteq> CHR ''.'' \<Longrightarrow> c \<noteq> CHR '':'' \<Longrightarrow> split_op acc (c # cs) = split_op (c # acc) cs"
  by (cases cs) simp_all

lemma split_op_plain:
  "\<forall>c \<in> set s. c \<noteq> CHR ''.'' \<and> c \<noteq> CHR '':'' \<Longrightarrow> split_op acc s = [rev acc @ s]"
  by (induction s arbitrary: acc) (simp_all add: split_op_step)

lemma split_op_namespaced:
  "\<forall>c \<in> set ns. c \<noteq> CHR ''.'' \<and> c \<noteq> CHR '':'' \<Longrightarrow>
     split_op acc (ns @ CHR '':'' # CHR '':'' # rest) = (rev acc @ ns) # split_op [] rest"
  by (induction ns arbitrary: acc) (simp_all add: split_op_step)

lemma before_colons_step: "c \<noteq> CHR '':'' \<Longrightarrow> before_colons (c # cs) = map_option (\<lambda>p. c # p) (before_colons cs)"
  by (cases cs) simp_all

lemma before_colons_namespaced:
  "\<forall>c \<in> set ns. c \<noteq> CHR '':'' \<Longrightarrow> before_colons (ns @ CHR '':'' # CHR '':'' # rest) = Some ns"
  by (induction ns) (simp_all add: before_colons_step)

text \<open>A part of a registry op: not empty, lower case, no separators.\<close>

definition op_part :: "string \<Rightarrow> bool" where
  "op_part s \<longleftrightarrow> s \<noteq> [] \<and> (\<forall>c \<in> set s. \<not> is_upper c \<and> c \<noteq> CHR ''.'' \<and> c \<noteq> CHR '':'')"

lemma op_parts_namespaced:
  "op_part ns \<Longrightarrow> op_part local \<Longrightarrow> op_parts (ns @ ''::'' @ local) = [ns, local]"
  unfolding op_parts_def using split_op_namespaced [of ns "[]" local]
  by (auto simp: op_part_def split_op_plain)

text \<open>
  Names convert back: a qualified op \<open>ns::local\<close> gives a method name and a namespace from
  which \<open>methodNameToSnakeCase\<close> recovers the op exactly. So within a namespace different ops
  never become the same method.
\<close>

theorem op_name_roundtrip:
  assumes "op_part ns" and "op_part local"
  shows "\<exists>m. opToMethodName (ns @ ''::'' @ local) = Some m \<and> opToNamespace (ns @ ''::'' @ local) = Some ns \<and>
    methodNameToSnakeCase m = local"
proof -
  have "opToNamespace (ns @ ''::'' @ local) = Some ns"
    using assms(1) before_colons_namespaced [of ns local] by (auto simp: opToNamespace_def op_part_def)
  moreover have "opToMethodName (ns @ ''::'' @ local) = Some (camel local)"
    using op_parts_namespaced [OF assms] by (simp add: opToMethodName_def)
  ultimately show ?thesis using assms(2) by (auto simp: op_part_def snake_camel)
qed

theorem op_name_roundtrip_witness:
  "methodNameToSnakeCase ''fixedSource'' = ''fixed_source'' \<and> opToMethodName ''test::fixed_source'' = Some ''fixedSource''"
proof -
  have "op_part ''test''" "op_part ''fixed_source''" by code_simp+
  from op_name_roundtrip [OF this]
  have "\<exists>m. opToMethodName ''test::fixed_source'' = Some m \<and> methodNameToSnakeCase m = ''fixed_source''" by auto
  moreover have "opToMethodName ''test::fixed_source'' = Some ''fixedSource''" by code_simp
  ultimately show ?thesis by simp
qed

section \<open>Canonical text\<close>

lemma same_data_canonical: "same_data v w \<Longrightarrow> canonicalText v = canonicalText w"
proof (induction rule: same_data.induct)
  case (arr vs ws)
  then have "mapR canonicalText vs = mapR canonicalText ws"
    by (intro mapR_list_all2) (auto elim: list_all2_mono)
  then show ?case by (simp add: canonicalText.simps [of "JArr _"])
next
  case (obj kvs kvs'' kvs')
  let ?f = "\<lambda>(k, v). bindR (canonicalText v) (\<lambda>s. Inr (json_quote k @ '':'' @ s))"
  have "sort_entries kvs' = sort_entries kvs''"
    using obj.hyps by (intro sort_entries_perm) (metis mset_eq_imp_distinct_iff mset_map)+
  moreover have "mapR ?f (sort_entries kvs) = mapR ?f (sort_entries kvs'')"
  proof (rule mapR_pairs)
    have "list_all2 (\<lambda>v v'. canonicalText v = canonicalText v') (map snd kvs) (map snd kvs'')"
      using obj.IH by (auto elim: list_all2_mono)
    from sort_pair [OF obj.hyps(2) this]
    show "map fst (sort_entries kvs) = map fst (sort_entries kvs'')"
      "list_all2 (\<lambda>v v'. \<forall>k. ?f (k, v) = ?f (k, v')) (map snd (sort_entries kvs)) (map snd (sort_entries kvs''))"
      by (auto elim: list_all2_mono)
  qed
  ultimately show ?case by (simp add: canonicalText.simps [of "JObj _"])
qed simp

end
