(* ===== verification/JsonText.thy ===== *)
theory JsonText
  imports StableStringify
begin

text \<open>
  \<open>JSON.stringify(value, null, 2)\<close>, which the tools use to write files: properties in their own
  order, one per line. \<open>None\<close> is the result \<open>undefined\<close>; a \<open>BigInt\<close> raises.
\<close>

function json_text :: "string \<Rightarrow> string \<Rightarrow> jsval \<Rightarrow> (dsl_error, string option) res" where
  "json_text gap cur v =
     (case v of
        JNull \<Rightarrow> Inr (Some ''null'')
      | JBool b \<Rightarrow> Inr (Some (if b then ''true'' else ''false''))
      | JStr s \<Rightarrow> Inr (Some (json_quote s))
      | JNum x \<Rightarrow> Inr (Some (if is_finite_num x then num_str x else ''null''))
      | JBigInt n \<Rightarrow> Inl TypeError
      | JArr vs \<Rightarrow>
          bindR (mapR (json_text gap (cur @ gap)) vs) (\<lambda>parts.
          Inr (Some (json_block CHR ''['' CHR '']'' cur (cur @ gap)
            (map (\<lambda>p. case p of None \<Rightarrow> ''null'' | Some s \<Rightarrow> s) parts))))
      | _ \<Rightarrow>
          if is_plain v then
            bindR (mapR (\<lambda>(k, w). bindR (json_text gap (cur @ gap) w) (\<lambda>r.
                     Inr (map_option (\<lambda>s. json_quote k @ '': '' @ s) r))) (own_entries v)) (\<lambda>members.
            Inr (Some (json_block CHR ''{'' CHR ''}'' cur (cur @ gap)
              (concat (map (\<lambda>m. case m of None \<Rightarrow> [] | Some s \<Rightarrow> [s]) members)))))
          else Inr None)"
  by pat_completeness auto
termination
  by (relation "measure (\<lambda>(_, _, v). json_size v)")
    (auto simp: json_size_def [of "JCand _ _"] json_size_def [of "JCtx _"] json_size_def [of "JStr _"]
      intro: json_size_less size_arr size_obj)

declare json_text.simps [simp del]

text \<open>\<open>JSON.stringify(obj, null, 2) + "\n"\<close>.\<close>

definition json_file :: "jsval \<Rightarrow> (dsl_error, string) res" where
  "json_file obj =
     bindR (json_text ''  '' [] obj) (\<lambda>r. Inr ((case r of None \<Rightarrow> ''undefined'' | Some s \<Rightarrow> s) @ [newline]))"

text \<open>Values without big integers can always be written.\<close>

fun no_bigint :: "jsval \<Rightarrow> bool" where
  "no_bigint (JBigInt n) = False"
| "no_bigint (JArr vs) = list_all no_bigint vs"
| "no_bigint (JObj kvs) = list_all (\<lambda>(k, v). no_bigint v) kvs"
| "no_bigint v = True"

lemma json_text_simps [simp]:
  "json_text gap cur JUndef = Inr None" "json_text gap cur JSym = Inr None" "json_text gap cur JFun = Inr None"
  "json_text gap cur JNull = Inr (Some ''null'')"
  "json_text gap cur (JBool b) = Inr (Some (if b then ''true'' else ''false''))"
  "json_text gap cur (JNum x) = Inr (Some (if is_finite_num x then num_str x else ''null''))"
  "json_text gap cur (JStr s) = Inr (Some (json_quote s))"
  "json_text gap cur (JCtx c) = Inr (Some ''{}'')"
  by (subst json_text.simps; simp add: json_block_def)+

lemma mapR_total: "\<forall>x \<in> set xs. \<exists>y. f x = Inr y \<Longrightarrow> \<exists>ys. mapR f xs = Inr ys"
  by (induction xs) fastforce+

lemma json_text_total: "no_bigint v \<Longrightarrow> \<exists>r. json_text gap cur v = Inr r"
proof (induction gap cur v rule: json_text.induct)
  case (1 gap cur v)
  show ?case
  proof (cases v)
    case (JArr vs)
    with 1 have "\<forall>w \<in> set vs. \<exists>r. json_text gap (cur @ gap) w = Inr r" by (auto simp: list_all_iff)
    from mapR_total [OF this] JArr show ?thesis by (auto simp: json_text.simps [of gap cur "JArr vs"])
  next
    case (JObj kvs)
    let ?f = "\<lambda>(k, w). bindR (json_text gap (cur @ gap) w) (\<lambda>r. Inr (map_option (\<lambda>s. json_quote k @ '': '' @ s) r))"
    have "\<exists>ms. mapR ?f kvs = Inr ms"
    proof (rule mapR_total, rule ballI)
      fix m assume "m \<in> set kvs"
      moreover obtain k w where m: "m = (k, w)" by force
      ultimately obtain r where "json_text gap (cur @ gap) w = Inr r" using 1 JObj by (fastforce simp: list_all_iff)
      with m show "\<exists>y. ?f m = Inr y" by simp
    qed
    then obtain ms where "mapR ?f kvs = Inr ms" ..
    then show ?thesis unfolding JObj json_text.simps [of gap cur "JObj kvs"] by simp
  next
    case (JCand c n)
    show ?thesis unfolding JCand json_text.simps [of gap cur "JCand c n"] by simp
  qed (use 1 in simp_all)
qed

lemma json_file_total: "no_bigint v \<Longrightarrow> \<exists>s. json_file v = Inr s"
  using json_text_total [of v "''  ''" "[]"] by (auto simp: json_file_def)

section \<open>Without indentation\<close>

text \<open>\<open>JSON.stringify(value)\<close>: no white space, properties in their own order.\<close>

definition commas :: "string list \<Rightarrow> string" where
  "commas ps = concat (case ps of [] \<Rightarrow> [] | p # ps' \<Rightarrow> p # map (\<lambda>q. '','' @ q) ps')"

function json_compact :: "jsval \<Rightarrow> (dsl_error, string option) res" where
  "json_compact v =
     (case v of
        JNull \<Rightarrow> Inr (Some ''null'')
      | JBool b \<Rightarrow> Inr (Some (if b then ''true'' else ''false''))
      | JStr s \<Rightarrow> Inr (Some (json_quote s))
      | JNum x \<Rightarrow> Inr (Some (if is_finite_num x then num_str x else ''null''))
      | JBigInt n \<Rightarrow> Inl TypeError
      | JArr vs \<Rightarrow>
          bindR (mapR json_compact vs) (\<lambda>parts.
          Inr (Some (''['' @ commas (map (\<lambda>p. case p of None \<Rightarrow> ''null'' | Some s \<Rightarrow> s) parts) @ '']'')))
      | _ \<Rightarrow>
          if is_plain v then
            bindR (mapR (\<lambda>(k, w). bindR (json_compact w) (\<lambda>r.
                     Inr (map_option (\<lambda>s. json_quote k @ '':'' @ s) r))) (own_entries v)) (\<lambda>members.
            Inr (Some (''{'' @ commas (concat (map (\<lambda>m. case m of None \<Rightarrow> [] | Some s \<Rightarrow> [s]) members)) @ ''}'')))
          else Inr None)"
  by pat_completeness auto
termination
  by (relation "measure json_size")
    (auto simp: json_size_def [of "JCand _ _"] json_size_def [of "JCtx _"] json_size_def [of "JStr _"]
      intro: json_size_less size_arr size_obj)

declare json_compact.simps [simp del]

end
