(* ===== verification/FileTree.thy ===== *)
theory FileTree
  imports Prelude
begin

text \<open>
  The part of \<open>node:fs\<close> and \<open>node:path\<close> that the batch tools use. A file system is a tree of
  directories with their entries in the order \<open>readdir\<close> reports them. An absolute path is the list
  of its segments. Entries that are neither files nor directories are never opened by the tools;
  opening one fails here. Links are not followed.
\<close>

section \<open>Files\<close>

datatype file_tree = File string | Dir "(string \<times> file_tree) list" | Special

type_synonym path = "string list"

fun lookup :: "path \<Rightarrow> file_tree \<Rightarrow> file_tree option" where
  "lookup [] t = Some t"
| "lookup (n # p) t = (case t of Dir es \<Rightarrow> (case map_of es n of None \<Rightarrow> None | Some e \<Rightarrow> lookup p e) | _ \<Rightarrow> None)"

text \<open>\<open>readFile\<close>, \<open>readdir\<close>: \<open>None\<close> is the exception.\<close>

definition readFile :: "file_tree \<Rightarrow> path \<Rightarrow> string option" where
  "readFile t p = (case lookup p t of Some (File c) \<Rightarrow> Some c | _ \<Rightarrow> None)"

definition readdir :: "file_tree \<Rightarrow> path \<Rightarrow> (string \<times> file_tree) list option" where
  "readdir t p = (case lookup p t of Some (Dir es) \<Rightarrow> Some es | _ \<Rightarrow> None)"

text \<open>\<open>writeFile\<close>: the directory must exist; a file is replaced in place, a new one is added.\<close>

fun writeFile :: "string \<Rightarrow> path \<Rightarrow> file_tree \<Rightarrow> file_tree option" where
  "writeFile c [] t = (case t of File _ \<Rightarrow> Some (File c) | _ \<Rightarrow> None)"
| "writeFile c (n # p) t =
     (case t of
        Dir es \<Rightarrow>
          (case map_of es n of
             None \<Rightarrow> if p = [] then Some (Dir (es @ [(n, File c)])) else None
           | Some e \<Rightarrow> map_option (\<lambda>e'. Dir (alist_set n e' es)) (writeFile c p e))
      | _ \<Rightarrow> None)"

text \<open>\<open>mkdir(p, { recursive: true })\<close>.\<close>

fun mkdirs :: "path \<Rightarrow> file_tree \<Rightarrow> file_tree option" where
  "mkdirs [] t = (case t of Dir _ \<Rightarrow> Some t | _ \<Rightarrow> None)"
| "mkdirs (n # p) t =
     (case t of
        Dir es \<Rightarrow>
          map_option (\<lambda>e'. Dir (alist_set n e' es)) (mkdirs p (case map_of es n of None \<Rightarrow> Dir [] | Some e \<Rightarrow> e))
      | _ \<Rightarrow> None)"

section \<open>Paths\<close>

text \<open>\<open>s.split("/")\<close>, with the part read so far in reverse.\<close>

fun split_slash :: "string \<Rightarrow> string \<Rightarrow> string list" where
  "split_slash acc [] = [rev acc]"
| "split_slash acc (c # cs) = (if c = CHR ''/'' then rev acc # split_slash [] cs else split_slash (c # acc) cs)"

text \<open>\<open>path.resolve(base, p)\<close> for an absolute base.\<close>

definition push_segment :: "path \<Rightarrow> string \<Rightarrow> path" where
  "push_segment p s = (if s = [] \<or> s = ''.'' then p else if s = ''..'' then butlast p else p @ [s])"

definition resolve :: "path \<Rightarrow> string \<Rightarrow> path" where
  "resolve base p = foldl push_segment (if startsWith p ''/'' then [] else base) (split_slash [] p)"

text \<open>\<open>path.relative(from, to)\<close> for absolute paths.\<close>

fun relative_segments :: "path \<Rightarrow> path \<Rightarrow> path" where
  "relative_segments (a # p) (b # q) = (if a = b then relative_segments p q else map (\<lambda>_. ''..'') (a # p) @ b # q)"
| "relative_segments p q = map (\<lambda>_. ''..'') p @ q"

fun join_slash :: "path \<Rightarrow> string" where
  "join_slash [] = []"
| "join_slash [s] = s"
| "join_slash (s # p) = s @ ''/'' @ join_slash p"

definition relative :: "path \<Rightarrow> path \<Rightarrow> string" where
  "relative from_dir to_path = join_slash (relative_segments from_dir to_path)"

definition path_text :: "path \<Rightarrow> string" where
  "path_text p = ''/'' @ join_slash p"

section \<open>Laws\<close>

text \<open>Entry names are unique at every level.\<close>

fun wf_tree_names :: "file_tree \<Rightarrow> bool" where
  "wf_tree_names (Dir es) \<longleftrightarrow> distinct (map fst es) \<and> list_all (\<lambda>(n, e). wf_tree_names e) es"
| "wf_tree_names _ \<longleftrightarrow> True"

lemma lookup_append: "lookup (p @ q) t = (case lookup p t of None \<Rightarrow> None | Some e \<Rightarrow> lookup q e)"
  by (induction p t rule: lookup.induct) (auto split: file_tree.splits option.splits)

lemma wf_lookup: "wf_tree_names t \<Longrightarrow> lookup p t = Some e \<Longrightarrow> wf_tree_names e"
  by (induction p t rule: lookup.induct)
    (fastforce split: file_tree.splits option.splits simp: list_all_iff dest: map_of_SomeD)+

lemma lookup_File: "lookup p (File c) = (if p = [] then Some (File c) else None)"
  by (cases p) auto

lemma readFile_Nil [simp]: "readFile (Dir es) [] = None" "readFile (File c) [] = Some c" "readFile Special [] = None"
  by (simp_all add: readFile_def)

lemma readFile_Cons:
  "readFile t (n # p) = (case t of Dir es \<Rightarrow> (case map_of es n of None \<Rightarrow> None | Some e \<Rightarrow> readFile e p) | _ \<Rightarrow> None)"
  by (auto simp: readFile_def split: file_tree.splits option.splits)

text \<open>The two ways a write succeeds below a directory.\<close>

lemma writeFile_Cons:
  assumes "writeFile c (n # p) t = Some t'"
  obtains es where "t = Dir es" and "map_of es n = None" and "p = []" and "t' = Dir (es @ [(n, File c)])"
  | es e e' where "t = Dir es" and "map_of es n = Some e" and "writeFile c p e = Some e'" and "t' = Dir (alist_set n e' es)"
  using assms by (auto split: file_tree.splits option.splits if_splits)

text \<open>A file that was written is read back, and no other file changes.\<close>

lemma readFile_writeFile: "writeFile c p t = Some t' \<Longrightarrow> readFile t' q = (if q = p then Some c else readFile t q)"
proof (induction p arbitrary: t t' q)
  case Nil
  then show ?case by (cases q) (auto simp: readFile_Cons split: file_tree.splits)
next
  case (Cons n p)
  from Cons.prems show ?case
  proof (cases rule: writeFile_Cons)
    case (1 es)
    then show ?thesis by (cases q) (auto simp: readFile_Cons readFile_def [of "File c"] lookup_File map_add_def split: option.splits)
  next
    case (2 es e e')
    with Cons.IH [OF 2(3)] show ?thesis by (cases q) (auto simp: readFile_Cons)
  qed
qed

text \<open>Whether a write succeeds does not depend on the contents written, there or elsewhere.\<close>

fun writable :: "path \<Rightarrow> file_tree \<Rightarrow> bool" where
  "writable [] t \<longleftrightarrow> (case t of File c \<Rightarrow> True | _ \<Rightarrow> False)"
| "writable (n # p) t \<longleftrightarrow>
     (case t of Dir es \<Rightarrow> (case map_of es n of None \<Rightarrow> p = [] | Some e \<Rightarrow> writable p e) | _ \<Rightarrow> False)"

lemma writeFile_writable: "writeFile c p t = None \<longleftrightarrow> \<not> writable p t"
  by (induction c p t rule: writeFile.induct) (auto split: file_tree.splits option.splits)

lemma writable_writeFile: "writeFile c p t = Some t' \<Longrightarrow> writable q t' \<longleftrightarrow> writable q t"
proof (induction p arbitrary: t t' q)
  case Nil
  then show ?case by (cases q) (auto split: file_tree.splits)
next
  case (Cons n p)
  from Cons.prems show ?case
  proof (cases rule: writeFile_Cons)
    case (1 es)
    show ?thesis
    proof (cases q)
      case (Cons m q')
      with 1 show ?thesis by (cases q') (auto simp: map_add_def split: option.splits)
    qed (simp add: 1)
  next
    case (2 es e e')
    with Cons.IH [OF 2(3)] show ?thesis by (cases q) auto
  qed
qed

text \<open>Writing a file neither removes nor creates a directory.\<close>

definition is_dir :: "path \<Rightarrow> file_tree \<Rightarrow> bool" where
  "is_dir q t = (case lookup q t of Some (Dir es) \<Rightarrow> True | _ \<Rightarrow> False)"

lemma is_dir_simps [simp]:
  "is_dir [] (Dir es)" "is_dir (n # q) (Dir es) = (case map_of es n of None \<Rightarrow> False | Some e \<Rightarrow> is_dir q e)"
  "\<not> is_dir q (File c)" "\<not> is_dir q Special"
  by (cases q; simp add: is_dir_def split: option.split)+

lemma is_dir_writeFile: "writeFile c p t = Some t' \<Longrightarrow> is_dir q t' = is_dir q t"
proof (induction p arbitrary: t t' q)
  case Nil
  then show ?case by (auto split: file_tree.splits)
next
  case (Cons n p)
  from Cons.prems show ?case
  proof (cases rule: writeFile_Cons)
    case (1 es)
    then show ?thesis by (cases q) (auto simp: map_add_def split: option.splits)
  next
    case (2 es e e')
    with Cons.IH [OF 2(3)] show ?thesis by (cases q) auto
  qed
qed

lemma wf_writeFile: "writeFile c p t = Some t' \<Longrightarrow> wf_tree_names t \<Longrightarrow> wf_tree_names t'"
proof (induction p arbitrary: t t')
  case Nil
  then show ?case by (auto split: file_tree.splits)
next
  case (Cons n p)
  from Cons.prems(1) show ?case
  proof (cases rule: writeFile_Cons)
    case (1 es)
    with Cons.prems(2) show ?thesis by (auto simp: map_of_eq_None_iff)
  next
    case (2 es e e')
    with Cons.prems(2) have "wf_tree_names e" by (auto simp: list_all_iff dest: map_of_SomeD)
    with Cons.IH [OF 2(3)] Cons.prems(2) 2 show ?thesis
      using set_alist_set_subset [of n e' es]
      by (auto simp: list_all_iff distinct_keys_alist_set simp del: keys_alist_set)
  qed
qed

text \<open>A directory that was made exists; files stay as they are.\<close>

lemma mkdirs_dir: "mkdirs p t = Some t' \<Longrightarrow> \<exists>es. lookup p t' = Some (Dir es)"
  by (induction p t arbitrary: t' rule: mkdirs.induct) (auto split: file_tree.splits option.splits)

section \<open>Resolving below a base\<close>

text \<open>A path whose segments \<open>resolve\<close> would not touch.\<close>

definition wf_path :: "path \<Rightarrow> bool" where
  "wf_path p \<longleftrightarrow> list_all (\<lambda>s. s \<noteq> [] \<and> s \<noteq> ''.'' \<and> s \<noteq> ''..'' \<and> CHR ''/'' \<notin> set s) p"

lemma push_wf_path: "wf_path p \<Longrightarrow> foldl push_segment base p = base @ p"
  by (induction p arbitrary: base) (auto simp: wf_path_def push_segment_def)

lemma push_no_parent: "list_all (\<lambda>s. s \<noteq> ''..'') segs \<Longrightarrow> foldl push_segment base segs = base @ foldl push_segment [] segs"
proof (induction segs arbitrary: base)
  case (Cons s segs)
  have "foldl push_segment base (s # segs) = push_segment base s @ foldl push_segment [] segs"
    using Cons.IH [of "push_segment base s"] Cons.prems by simp
  also have "\<dots> = base @ push_segment [] s @ foldl push_segment [] segs"
    using Cons.prems by (simp add: push_segment_def)
  also have "push_segment [] s @ foldl push_segment [] segs = foldl push_segment [] (s # segs)"
    using Cons.IH [of "push_segment [] s"] Cons.prems by simp
  finally show ?case .
qed simp

text \<open>A relative path without \<open>..\<close> stays below its base.\<close>

definition stays_below :: "string \<Rightarrow> bool" where
  "stays_below p \<longleftrightarrow> \<not> startsWith p ''/'' \<and> list_all (\<lambda>s. s \<noteq> ''..'') (split_slash [] p)"

lemma resolve_below: "stays_below p \<Longrightarrow> resolve base p = base @ resolve [] p"
  using push_no_parent [of "split_slash [] p" base] by (simp add: resolve_def stays_below_def)

lemma split_slash_append: "CHR ''/'' \<notin> set s \<Longrightarrow> split_slash acc (s @ CHR ''/'' # r) = (rev acc @ s) # split_slash [] r"
  by (induction s arbitrary: acc) auto

lemma split_slash_join:
  "wf_path p \<Longrightarrow> p \<noteq> [] \<Longrightarrow> split_slash [] (join_slash p @ CHR ''/'' # r) = p @ split_slash [] r"
proof (induction p rule: join_slash.induct)
  case (3 s t p)
  then show ?case by (simp add: wf_path_def split_slash_append)
qed (auto simp: wf_path_def split_slash_append)

lemma resolve_path_text:
  assumes "wf_path p" and "stays_below r"
  shows "resolve [] (path_text p @ ''/'' @ r) = p @ resolve [] r"
proof -
  have "foldl push_segment [] (split_slash [] (path_text p @ ''/'' @ r)) = foldl push_segment p (split_slash [] r)"
    using assms(1) split_slash_join [OF assms(1), of r]
    by (cases "p = []") (simp_all add: path_text_def push_segment_def push_wf_path)
  with assms(2) push_no_parent [of "split_slash [] r" p] show ?thesis
    by (simp add: resolve_def stays_below_def path_text_def startsWith_def)
qed

end
