(* ===== verification/GenText.thy ===== *)
theory GenText
  imports CodegenUtils JsonText
begin

text \<open>
  What the code generators (\<open>dsl/src/codegen/gen-ts.ts\<close>, \<open>gen-cpp.ts\<close>, \<open>gen-monaco.ts\<close>) share: lists of
  lines joined by line feeds, template literals, grouping by a key in a \<open>Map\<close>, and the errors they
  raise. The printers reproduce the generated text character by character.
\<close>

datatype gen_error =
    GenTypeError
  | EndpointNotIdentifier string string string
  | EndpointReserved string string string
  | EndpointCollision string string string
  | ClangFormatMissing

fun join_with :: "string \<Rightarrow> string list \<Rightarrow> string" where
  "join_with sep [] = []"
| "join_with sep [s] = s"
| "join_with sep (s # ss) = s @ sep @ join_with sep ss"

text \<open>\<open>lines.join("\n")\<close>.\<close>

definition join_nl :: "string list \<Rightarrow> string" where
  "join_nl ls = join_with [newline] ls"

text \<open>The text between double quotes, as a template literal writes it: nothing is escaped.\<close>

definition dq :: "string \<Rightarrow> string" where
  "dq s = [CHR 0x22] @ s @ [CHR 0x22]"

definition bool_text :: "bool \<Rightarrow> string" where
  "bool_text b = (if b then ''true'' else ''false'')"

text \<open>\<open>s.split(c)\<close> for a separator of one character, with the part read so far in reverse.\<close>

fun split_char :: "char \<Rightarrow> string \<Rightarrow> string \<Rightarrow> string list" where
  "split_char d acc [] = [rev acc]"
| "split_char d acc (c # cs) = (if c = d then rev acc # split_char d [] cs else split_char d (c # acc) cs)"

text \<open>
  \<open>const list = m.get(key) || []; list.push(x); m.set(key, list)\<close> for every element: a \<open>Map\<close> from keys to
  their elements, keys in order of first occurrence.
\<close>

definition group_add :: "('a \<Rightarrow> 'k) \<Rightarrow> ('k \<times> 'a list) list \<Rightarrow> 'a \<Rightarrow> ('k \<times> 'a list) list" where
  "group_add key m x = alist_set (key x) ((case map_of m (key x) of None \<Rightarrow> [] | Some xs \<Rightarrow> xs) @ [x]) m"

definition group_by :: "('a \<Rightarrow> 'k) \<Rightarrow> 'a list \<Rightarrow> ('k \<times> 'a list) list" where
  "group_by key xs = foldl (group_add key) [] xs"

text \<open>\<open>opToMethodName\<close>, with the \<open>TypeError\<close> of an op without a part.\<close>

definition methodName :: "string \<Rightarrow> (gen_error, string) res" where
  "methodName op = (case opToMethodName op of None \<Rightarrow> Inl GenTypeError | Some m \<Rightarrow> Inr m)"

text \<open>\<open>${JSON.stringify(v)}\<close>.\<close>

definition json_inline :: "jsval \<Rightarrow> (gen_error, string) res" where
  "json_inline v =
     (case json_compact v of
        Inl e \<Rightarrow> Inl GenTypeError
      | Inr None \<Rightarrow> Inr ''undefined''
      | Inr (Some s) \<Rightarrow> Inr s)"

section \<open>Success of a list of steps\<close>

lemma mapR_ok: "(\<exists>ys. mapR f xs = Inr ys) \<longleftrightarrow> (\<forall>x \<in> set xs. \<exists>y. f x = Inr y)"
  by (induction xs) (auto simp: bindR_Inr_iff)

section \<open>Grouping\<close>

lemma group_by_snoc: "group_by key (xs @ [x]) = group_add key (group_by key xs) x"
  by (simp add: group_by_def)

text \<open>The map holds, for every key, exactly the elements with that key, in their order.\<close>

lemma map_of_group_by:
  "map_of (group_by key xs) k = (if \<exists>x \<in> set xs. key x = k then Some (filter (\<lambda>x. key x = k) xs) else None)"
proof (induction xs rule: rev_induct)
  case (snoc x xs)
  then show ?case by (auto simp: group_by_snoc group_add_def)
qed (simp add: group_by_def)

lemma keys_group_by: "fst ` set (group_by key xs) = key ` set xs"
proof (induction xs rule: rev_induct)
  case (snoc x xs)
  then show ?case by (simp add: group_by_snoc group_add_def)
qed (simp add: group_by_def)

lemma distinct_group_by: "distinct (map fst (group_by key xs))"
proof (induction xs rule: rev_induct)
  case (snoc x xs)
  then show ?case unfolding group_by_snoc group_add_def by (rule distinct_keys_alist_set)
qed (simp add: group_by_def)

end
