(* ===== verification/GenTs.thy ===== *)
theory GenTs
  imports GenText
begin

text \<open>
  \<open>dsl/src/codegen/gen-ts.ts\<close>, the registry tables: \<open>keys.ts\<close>, \<open>params.ts\<close>, \<open>features.ts\<close>, \<open>index.ts\<close>,
  \<open>validation.ts\<close>, \<open>capabilities.ts\<close>, \<open>endpoints.ts\<close> and \<open>plan-globals.d.ts\<close>. Each printer is the list of
  lines that the code pushes, joined by line feeds.
\<close>

section \<open>keys.ts, params.ts\<close>

definition keysTsHead :: "string list" where
  \<open>keysTsHead =
   [''// AUTO-GENERATED - DO NOT EDIT'',
    ''// Generated by dsl/src/codegen.ts'',
    [],
    ''export type KeyType = "int" | "float" | "string" | "bool" | "feature_bundle";'',
    [],
    ''export interface KeyToken {'',
    ''  readonly kind: "Key";'',
    ''  readonly id: number;'',
    ''  readonly name: string;'',
    ''}'',
    [],
    ''function key(id: number, name: string): KeyToken {'',
    ''  return { kind: "Key", id, name };'',
    ''}'',
    [],
    ''export const Key = {'']\<close>

definition keyLine :: "KeyEntry \<Rightarrow> string" where
  \<open>keyLine k = ''  '' @ ke_name k @ '': key('' @ num_str (ke_key_id k) @ '', "'' @ ke_name k @ ''"),''\<close>

definition generateKeysTs :: "KeyEntry list \<Rightarrow> string \<Rightarrow> string" where
  \<open>generateKeysTs keys digest =
   join_nl (keysTsHead @ map keyLine keys @
   [''} as const;'',
    [],
    ''export const KEY_REGISTRY_DIGEST = "'' @ digest @ ''";'',
    ''export const KEY_COUNT = '' @ nat_str (length keys) @ '';'',
    []])\<close>

definition paramsTsHead :: "string list" where
  \<open>paramsTsHead =
   [''// AUTO-GENERATED - DO NOT EDIT'',
    ''// Generated by dsl/src/codegen.ts'',
    [],
    ''export type ParamType = "int" | "float" | "string" | "bool";'',
    [],
    ''export interface ParamToken {'',
    ''  readonly kind: "Param";'',
    ''  readonly id: number;'',
    ''  readonly name: string;'',
    ''}'',
    [],
    ''function param(id: number, name: string): ParamToken {'',
    ''  return { kind: "Param", id, name };'',
    ''}'',
    [],
    ''export const P = {'']\<close>

definition paramLine :: "ParamEntry \<Rightarrow> string" where
  \<open>paramLine p = ''  '' @ pe_name p @ '': param('' @ num_str (pe_param_id p) @ '', "'' @ pe_name p @ ''"),''\<close>

definition generateParamsTs :: "ParamEntry list \<Rightarrow> string \<Rightarrow> string" where
  \<open>generateParamsTs params digest =
   join_nl (paramsTsHead @ map paramLine params @
   [''} as const;'',
    [],
    ''export const PARAM_REGISTRY_DIGEST = "'' @ digest @ ''";'',
    ''export const PARAM_COUNT = '' @ nat_str (length params) @ '';'',
    []])\<close>

section \<open>features.ts\<close>

definition featuresTsHead :: "string list" where
  \<open>featuresTsHead =
   [''// AUTO-GENERATED - DO NOT EDIT'',
    ''// Generated by dsl/src/codegen.ts'',
    [],
    ''export type FeatureType = "int" | "float" | "string" | "bool";'',
    [],
    ''export interface FeatureToken {'',
    ''  readonly kind: "Feature";'',
    ''  readonly id: number;'',
    ''  readonly stage: string;'',
    ''  readonly name: string;'',
    ''}'',
    [],
    ''function feat(id: number, stage: string, name: string): FeatureToken {'',
    ''  return { kind: "Feature", id, stage, name };'',
    ''}'',
    []]\<close>

definition featureLine :: "FeatureEntry \<Rightarrow> string" where
  \<open>featureLine f = ''    '' @ fe_name f @ '': feat('' @ num_str (fe_feature_id f) @ '', "'' @ fe_stage f @ ''", "'' @ fe_name f @ ''"),''\<close>

text \<open>One stage of the object; \<open>byStage\<close> groups the features, the stages are sorted.\<close>

definition stageLines :: "string \<Rightarrow> FeatureEntry list \<Rightarrow> string list" where
  \<open>stageLines stage feats =
   [''  '' @ stage @ '': {''] @ map featureLine feats @ [''  },'']\<close>

definition featStages :: "FeatureEntry list \<Rightarrow> string list" where
  \<open>featStages features =
   (let byStage = group_by fe_stage features in
    concat (map (\<lambda>stage. stageLines stage (case map_of byStage stage of Some fs \<Rightarrow> fs | None \<Rightarrow> []))
      (js_sort_by (\<lambda>x y. x > y) (map fst byStage))))\<close>

definition generateFeaturesTs :: "FeatureEntry list \<Rightarrow> string \<Rightarrow> string" where
  \<open>generateFeaturesTs features digest =
   join_nl (featuresTsHead @ [''export const Feat = {''] @ featStages features @
   [''} as const;'',
    [],
    ''export const FEATURE_REGISTRY_DIGEST = "'' @ digest @ ''";'',
    ''export const FEATURE_COUNT = '' @ nat_str (length features) @ '';'',
    []])\<close>

section \<open>index.ts\<close>

definition generateIndexTs :: "string" where
  \<open>generateIndexTs = join_nl
   [''// AUTO-GENERATED - DO NOT EDIT'',
    ''// Generated by dsl/src/codegen.ts'',
    [],
    ''// Re-export values and types separately for isolatedModules compatibility'',
    ''export { Key, KEY_REGISTRY_DIGEST, KEY_COUNT } from "./keys.js";'',
    ''export type { KeyToken, KeyType } from "./keys.js";'',
    ''export { P, PARAM_REGISTRY_DIGEST, PARAM_COUNT } from "./params.js";'',
    ''export type { ParamToken, ParamType } from "./params.js";'',
    ''export { Feat, FEATURE_REGISTRY_DIGEST, FEATURE_COUNT } from "./features.js";'',
    ''export type { FeatureToken, FeatureType } from "./features.js";'',
    ''export * from "./validation.js";'',
    ''export * from "./capabilities.js";'',
    ''export * from "./endpoints.js";'',
    ''export * from "./tasks.js";'',
    ''export * from "./task-impl.js";'',
    ''export { DSL_TYPES } from "./monaco-types.js";'',
    []]\<close>

section \<open>validation.ts\<close>

definition validationTsHead :: "ValidationRules \<Rightarrow> string list" where
  \<open>validationTsHead validation =
   [''// AUTO-GENERATED - DO NOT EDIT'',
    ''// Generated by dsl/src/codegen.ts from registry/validation.toml'',
    [],
    ''export interface ValidationRules {'',
    ''  schemaVersion: number;'',
    ''  patterns: Record<string, RegExp>;'',
    ''  limits: Record<string, number>;'',
    ''  enums: Record<string, readonly string[]>;'',
    ''}'',
    [],
    ''export const Validation: ValidationRules = {'',
    ''  schemaVersion: '' @ num_str (vr_schema_version validation) @ '','',
    ''  patterns: {'']\<close>

text \<open>\<open>name.split("_").map(part => part.charAt(0).toUpperCase() + part.slice(1)).join("")\<close>.\<close>

definition validationFnName :: "string \<Rightarrow> string" where
  \<open>validationFnName name = concat (map capitalize (split_char CHR ''_'' [] name))\<close>

definition validationFn :: "string \<Rightarrow> string list" where
  \<open>validationFn name =
   [''export function isValid'' @ validationFnName name @ ''(value: string): boolean {'',
    ''  return Validation.patterns.'' @ name @ ''.test(value);'',
    ''}'',
    []]\<close>

definition generateValidationTs :: "ValidationRules \<Rightarrow> string \<Rightarrow> string" where
  \<open>generateValidationTs validation digest =
   join_nl (validationTsHead validation @
   map (\<lambda>(name, pattern). ''    '' @ name @ '': /'' @ pattern @ ''/,'') (vr_patterns validation) @
   [''  },'',
    ''  limits: {''] @
   map (\<lambda>(name, v). ''    '' @ name @ '': '' @ num_str v @ '','') (vr_limits validation) @
   [''  },'',
    ''  enums: {''] @
   map (\<lambda>(name, values). ''    '' @ name @ '': ['' @ join_with '', '' (map dq values) @ ''] as const,'') (vr_enums validation) @
   [''  },'',
    ''};'',
    [],
    ''export const VALIDATION_DIGEST = "'' @ digest @ ''";'',
    [],
    ''// Validation helper functions''] @
   concat (map (\<lambda>(name, pattern). validationFn name) (vr_patterns validation)))\<close>

section \<open>capabilities.ts\<close>

definition capabilitiesTsHead :: "string list" where
  \<open>capabilitiesTsHead =
   [''// AUTO-GENERATED - DO NOT EDIT'',
    ''// Generated by dsl/src/codegen.ts from registry/capabilities.toml'',
    [],
    ''export interface CapabilityMeta {'',
    ''  id: string;'',
    ''  rfc: string;'',
    ''  name: string;'',
    ''  status: "implemented" | "draft" | "deprecated" | "blocked";'',
    ''  doc: string;'',
    ''  payload_schema: unknown;  // JSON Schema or null'',
    ''}'',
    []] @ [''// Capability constants'']\<close>

text \<open>\<open>id.toUpperCase().replace(/./g, "_")\<close>.\<close>

definition capConstName :: "string \<Rightarrow> string" where
  \<open>capConstName id' = map (\<lambda>c. if c = CHR ''.'' then CHR ''_'' else c) (concat (map js_upper id'))\<close>

definition capConst :: "CapabilityEntry \<Rightarrow> string" where
  \<open>capConst cap = ''export const '' @ capConstName (ce_id cap) @ '' = "'' @ ce_id cap @ ''";''\<close>

definition capSchemaText :: "CapabilityEntry \<Rightarrow> (gen_error, string) res" where
  \<open>capSchemaText cap =
   (if truthy (ce_payload_schema cap) then json_inline (ce_payload_schema cap) else Inr ''null'')\<close>

definition capLines :: "CapabilityEntry \<Rightarrow> (gen_error, string list) res" where
  \<open>capLines cap =
   bindR (capSchemaText cap) (\<lambda>schema. Inr
   [''  "'' @ ce_id cap @ ''": {'',
    ''    id: "'' @ ce_id cap @ ''",'',
    ''    rfc: "'' @ ce_rfc cap @ ''",'',
    ''    name: "'' @ ce_name cap @ ''",'',
    ''    status: "'' @ ce_status cap @ ''",'',
    ''    doc: '' @ json_quote (ce_doc cap) @ '','',
    ''    payload_schema: '' @ schema @ '','',
    ''  },''])\<close>

definition capIdLine :: "CapabilityEntry \<Rightarrow> string" where
  \<open>capIdLine cap = ''  "'' @ ce_id cap @ ''",''\<close>

definition supportedCaps :: "CapabilityEntry list \<Rightarrow> CapabilityEntry list" where
  \<open>supportedCaps capabilities = filter (\<lambda>c. ce_status c = ''implemented'' \<or> ce_status c = ''deprecated'') capabilities\<close>

definition validatePayloadText :: "string list" where
  \<open>validatePayloadText =
   [''/**'',
    '' * Validate that a capability payload matches its schema.'',
    '' * Returns null if valid, error message if invalid.'',
    '' */'',
    ''export function validatePayload(capId: string, payload: unknown): string | null {'',
    ''  const meta = CapabilityRegistry[capId];'',
    ''  if (!meta) return `Unknown capability: ${capId}`;'',
    [],
    ''  const schema = meta.payload_schema as { type?: string; properties?: Record<string, unknown>; additionalProperties?: boolean } | null;'',
    [],
    ''  // null schema means no payload allowed (only undefined/null accepted)'',
    ''  if (schema === null) {'',
    ''    if (payload !== undefined && payload !== null) {'',
    ''      return `Capability ${capId} does not allow a payload`;'',
    ''    }'',
    ''    return null;'',
    ''  }'',
    [],
    ''  // Validate object type (reject arrays, null, non-objects)'',
    ''  if (schema.type === "object") {'',
    ''    if (typeof payload !== "object" || payload === null || Array.isArray(payload)) {'',
    ''      return `Capability ${capId} payload must be an object`;'',
    ''    }'',
    [],
    ''    const payloadObj = payload as Record<string, unknown>;'',
    ''    const schemaFull = schema as {'',
    ''      properties?: Record<string, { type?: string }>;'',
    ''      required?: string[];'',
    ''      additionalProperties?: boolean;'',
    ''    };'',
    [],
    ''    // Check additionalProperties: false'',
    ''    if (schemaFull.additionalProperties === false) {'',
    ''      const allowedKeys = new Set(schemaFull.properties ? Object.keys(schemaFull.properties) : []);'',
    ''      for (const key of Object.keys(payloadObj)) {'',
    ''        if (!allowedKeys.has(key)) {'',
    ''          return `Capability ${capId} payload has unexpected property: ${key}`;'',
    ''        }'',
    ''      }'',
    ''    }'',
    [],
    ''    // Check required properties'',
    ''    if (schemaFull.required) {'',
    ''      for (const key of schemaFull.required) {'',
    ''        if (!(key in payloadObj)) {'',
    ''          return `Capability ${capId} payload missing required property: ${key}`;'',
    ''        }'',
    ''      }'',
    ''    }'',
    [],
    ''    // Check property types'',
    ''    if (schemaFull.properties) {'',
    ''      for (const [key, propSchema] of Object.entries(schemaFull.properties)) {'',
    ''        if (key in payloadObj && propSchema.type) {'',
    ''          const value = payloadObj[key];'',
    ''          // typeof null === 'object', so check null explicitly'',
    ''          const actualType = value === null ? "null" : Array.isArray(value) ? "array" : typeof value;'',
    ''          // Normalize JSON Schema 'integer' to 'number' for comparison'',
    ''          const expectedType = propSchema.type === "integer" ? "number" : propSchema.type;'',
    ''          if (expectedType !== actualType) {'',
    ''            return `Capability ${capId} payload property ${key} must be ${propSchema.type}, got ${actualType}`;'',
    ''          }'',
    ''        }'',
    ''      }'',
    ''    }'',
    ''  }'',
    [],
    ''  return null;'',
    ''}'',
    []]\<close>

definition generateCapabilitiesTs :: "CapabilityEntry list \<Rightarrow> string \<Rightarrow> (gen_error, string) res" where
  \<open>generateCapabilitiesTs capabilities digest =
   bindR (mapR capLines capabilities) (\<lambda>registry. Inr (join_nl (
   capabilitiesTsHead @ map capConst capabilities @ [[], ''export const CapabilityRegistry: Record<string, CapabilityMeta> = {''] @ concat registry @
   [''};'',
    [],
    ''export const ALL_CAPABILITY_IDS = [''] @ map capIdLine capabilities @
   [''] as const;'',
    []] @ [''/** Set of capability IDs that are supported (implemented + deprecated for backwards compat) */'',
    ''export const SUPPORTED_CAPABILITIES = new Set([''] @
   map capIdLine (supportedCaps capabilities) @
   ['']);'',
    []] @ [''export const CAPABILITY_REGISTRY_DIGEST = "'' @ digest @ ''";'',
    ''export const CAPABILITY_COUNT = '' @ nat_str (length capabilities) @ '';'',
    []] @
   validatePayloadText)))\<close>

section \<open>endpoints.ts\<close>

definition RESERVED_IDENTIFIERS_TS :: "string list" where
  \<open>RESERVED_IDENTIFIERS_TS =
   [''default'',
    ''constructor'',
    ''prototype'',
    ''class'',
    ''function'',
    ''var'',
    ''let'',
    ''const'',
    ''enum'',
    ''implements'',
    ''interface'',
    ''package'',
    ''private'',
    ''protected'',
    ''public'',
    ''static'']\<close>

definition endpointsTsHead :: "string list" where
  \<open>endpointsTsHead =
   [''// AUTO-GENERATED - DO NOT EDIT'',
    ''// Generated by dsl/src/codegen.ts from registry/endpoints.{dev,test,prod}.toml'',
    [],
    ''/**'',
    '' * Branded EndpointId type for type-safe endpoint references.'',
    '' * Use EP.redis.* or EP.http.* to get valid endpoint IDs.'',
    '' */'',
    ''export type EndpointId = string & { readonly __brand: "EndpointId" };'',
    [],
    ''type EndpointLiteral<T extends string> = EndpointId & T;'',
    []] @
   [''/**'',
    '' * Endpoint registry. Use EP.<kind>.<name> to get an EndpointId.'',
    '' * Example: EP.redis.redis_default'',
    '' */'',
    ''export const EP = {'']\<close>

definition is_alnum :: "char \<Rightarrow> bool" where
  \<open>is_alnum c \<longleftrightarrow> is_lower c \<or> is_upper c \<or> (CHR ''0'' \<le> c \<and> c \<le> CHR ''9'')\<close>

text \<open>\<open>name.replace(/[^a-zA-Z0-9_]/g, "_")\<close>.\<close>

definition safeName :: "string \<Rightarrow> string" where
  \<open>safeName name = map (\<lambda>c. if is_alnum c \<or> c = CHR ''_'' then c else CHR ''_'') name\<close>

text \<open>\<open>/^[A-Za-z_][A-Za-z0-9_]*$/.test(s)\<close>.\<close>

definition is_identifier :: "string \<Rightarrow> bool" where
  \<open>is_identifier s =
   (case s of [] \<Rightarrow> False | c # cs \<Rightarrow> (is_lower c \<or> is_upper c \<or> c = CHR ''_'') \<and> list_all (\<lambda>c. is_alnum c \<or> c = CHR ''_'') cs)\<close>

text \<open>One round of the loop over the endpoints of a kind; the state is \<open>usedNames\<close> and the lines.\<close>

definition endpointStep :: "string \<Rightarrow> string list \<times> string list \<Rightarrow> EndpointEntry \<Rightarrow> (gen_error, string list \<times> string list) res" where
  \<open>endpointStep kind st ep =
   (case st of (usedNames, ls) \<Rightarrow>
      let safe = safeName (ee_name ep) in
      if \<not> is_identifier safe then Inl (EndpointNotIdentifier (ee_name ep) (ee_endpoint_id ep) safe)
      else if safe \<in> set RESERVED_IDENTIFIERS_TS then Inl (EndpointReserved (ee_name ep) (ee_endpoint_id ep) safe)
      else if safe \<in> set usedNames then Inl (EndpointCollision kind (ee_name ep) safe)
      else Inr (set_add safe usedNames, ls @
   [''    /** '' @ ee_name ep @ '' ('' @ ee_endpoint_id ep @ '') */'',
    ''    '' @ safe @ '': "'' @ ee_endpoint_id ep @ ''" as EndpointLiteral<"'' @ ee_endpoint_id ep @ ''">,'']))\<close>

text \<open>\<open>gt\<close> is the collation of \<open>localeCompare\<close>.\<close>

definition kindLines :: "(string \<Rightarrow> string \<Rightarrow> bool) \<Rightarrow> string \<Rightarrow> EndpointEntry list \<Rightarrow> (gen_error, string list) res" where
  \<open>kindLines gt kind eps =
   bindR (foldR (endpointStep kind) ([], []) (js_sort_by (\<lambda>a b. gt (ee_name a) (ee_name b)) eps)) (\<lambda>(usedNames, ls).
   Inr ([''  '' @ kind @ '': {''] @ ls @ [''  },'']))\<close>

definition kindType :: "string \<Rightarrow> string list" where
  \<open>kindType kind =
   [''/** Type for '' @ kind @ '' endpoint IDs */'',
    ''export type '' @ capitalize kind @ ''EndpointId = (typeof EP.'' @ kind @ '')[keyof typeof EP.'' @ kind @ ''];'',
    []]\<close>

definition endpointKinds :: "EndpointEntry list \<Rightarrow> string list" where
  \<open>endpointKinds endpoints = js_sort_by (\<lambda>x y. x > y) (map fst (group_by ee_kind endpoints))\<close>

definition generateEndpointsTs :: "(string \<Rightarrow> string \<Rightarrow> bool) \<Rightarrow> EndpointEntry list \<Rightarrow> string \<Rightarrow> (gen_error, string) res" where
  \<open>generateEndpointsTs gt endpoints registryDigest =
   (let byKind = group_by ee_kind endpoints; sortedKinds = endpointKinds endpoints in
    bindR (mapR (\<lambda>kind. kindLines gt kind (case map_of byKind kind of Some eps \<Rightarrow> eps | None \<Rightarrow> [])) sortedKinds) (\<lambda>blocks.
    Inr (join_nl (endpointsTsHead @ concat blocks @
   [''} as const;'',
    []] @ concat (map kindType sortedKinds) @
   [''/** Env-invariant registry digest (endpoint_id, name, kind only) */'',
    ''export const ENDPOINT_REGISTRY_DIGEST = "'' @ registryDigest @ ''";'',
    [],
    ''export const ENDPOINT_COUNT = '' @ nat_str (length endpoints) @ '';'',
    []]))))\<close>

section \<open>plan-globals.d.ts\<close>

definition generatePlanGlobalsDts :: "string" where
  \<open>generatePlanGlobalsDts = join_nl
   [''// AUTO-GENERATED - DO NOT EDIT'',
    ''// Generated by dsl/src/codegen.ts'',
    ''//'',
    ''// Global type declarations for plan authoring.'',
    ''// Key, P, EP, coalesce, and regex are injected as globals by the dslc compiler.'',
    ''// This file provides TypeScript type information for editor support.'',
    [],
    ''import type { Key as KeyType } from "@ranking-dsl/generated";'',
    ''import type { P as PType } from "@ranking-dsl/generated";'',
    ''import type { EP as EPType } from "@ranking-dsl/generated";'',
    ''import type { coalesce as coalesceType, regex as regexType } from "@ranking-dsl/runtime";'',
    [],
    ''declare global {'',
    ''  /**'',
    ''   * Key registry - column references for vm/filter expressions.'',
    ''   * Injected by dslc compiler.'',
    ''   */'',
    ''  const Key: typeof KeyType;'',
    [],
    ''  /**'',
    ''   * Param registry - runtime parameter references.'',
    ''   * Injected by dslc compiler.'',
    ''   */'',
    ''  const P: typeof PType;'',
    [],
    ''  /**'',
    ''   * Endpoint registry - endpoint references for tasks.'',
    ''   * Usage: ctx.viewer({ endpoint: EP.redis.redis_default }).follow({ endpoint: EP.redis.redis_default, fanout: 10 })'',
    ''   * Injected by dslc compiler.'',
    ''   */'',
    ''  const EP: typeof EPType;'',
    [],
    ''  /**'',
    ''   * Coalesce function for null handling in natural expressions.'',
    ''   * Usage: Key.score * coalesce(P.weight, 0.2)'',
    ''   * Injected by dslc compiler.'',
    ''   */'',
    ''  const coalesce: typeof coalesceType;'',
    [],
    ''  /**'',
    ''   * Regex function for pattern matching in natural predicates.'',
    ''   * Usage: regex(Key.title, "^test") or regex(Key.title, P.pattern, "i")'',
    ''   * Injected by dslc compiler.'',
    ''   */'',
    ''  const regex: typeof regexType;'',
    ''}'',
    [],
    ''export {};'',
    []]\<close>

end
