(* ===== verification/JsArith.thy ===== *)
theory JsArith
  imports JsNumber
begin

text \<open>
  Arithmetic of the language on numbers: every operation rounds its exact result to the nearest
  double. Zero has no sign in the model, so a division by zero is one by positive zero; the source
  divides only by differences, which are never negative zero.
\<close>

fun js_neg :: "jnum \<Rightarrow> jnum" where
  "js_neg (Fin x) = Fin (- x)"
| "js_neg PInf = NInf"
| "js_neg NInf = PInf"
| "js_neg NaN = NaN"

fun js_add :: "jnum \<Rightarrow> jnum \<Rightarrow> jnum" where
  "js_add (Fin x) (Fin y) = to_double (x + y)"
| "js_add NaN _ = NaN"
| "js_add _ NaN = NaN"
| "js_add PInf NInf = NaN"
| "js_add NInf PInf = NaN"
| "js_add PInf _ = PInf"
| "js_add _ PInf = PInf"
| "js_add NInf _ = NInf"
| "js_add _ NInf = NInf"

definition js_sub :: "jnum \<Rightarrow> jnum \<Rightarrow> jnum" where
  "js_sub x y = js_add x (js_neg y)"

text \<open>An infinity with the sign of the product of two signs, \<open>NaN\<close> for a zero factor.\<close>

definition signed_inf :: "rat \<Rightarrow> jnum" where
  "signed_inf s = (if s = 0 then NaN else if 0 < s then PInf else NInf)"

fun js_mul :: "jnum \<Rightarrow> jnum \<Rightarrow> jnum" where
  "js_mul (Fin x) (Fin y) = to_double (x * y)"
| "js_mul NaN _ = NaN"
| "js_mul _ NaN = NaN"
| "js_mul PInf (Fin y) = signed_inf y"
| "js_mul NInf (Fin y) = signed_inf (- y)"
| "js_mul (Fin x) PInf = signed_inf x"
| "js_mul (Fin x) NInf = signed_inf (- x)"
| "js_mul PInf PInf = PInf"
| "js_mul NInf NInf = PInf"
| "js_mul _ _ = NInf"

fun js_div :: "jnum \<Rightarrow> jnum \<Rightarrow> jnum" where
  "js_div (Fin x) (Fin y) = (if y = 0 then signed_inf x else to_double (x / y))"
| "js_div NaN _ = NaN"
| "js_div _ NaN = NaN"
| "js_div (Fin x) _ = Fin 0"
| "js_div PInf (Fin y) = (if y < 0 then NInf else PInf)"
| "js_div NInf (Fin y) = (if y < 0 then PInf else NInf)"
| "js_div _ _ = NaN"

text \<open>\<open>Math.max\<close> and \<open>Math.min\<close> of two numbers and of a list.\<close>

definition js_max :: "jnum \<Rightarrow> jnum \<Rightarrow> jnum" where
  "js_max x y = (if x = NaN \<or> y = NaN then NaN else if num_gt y x then y else x)"

definition js_min :: "jnum \<Rightarrow> jnum \<Rightarrow> jnum" where
  "js_min x y = (if x = NaN \<or> y = NaN then NaN else if num_gt x y then y else x)"

definition js_maximum :: "jnum list \<Rightarrow> jnum" where
  "js_maximum xs = foldl js_max NInf xs"

definition js_minimum :: "jnum list \<Rightarrow> jnum" where
  "js_minimum xs = foldl js_min PInf xs"

section \<open>Facts\<close>

lemma to_double_not_NaN [simp]: "to_double q \<noteq> NaN"
  by (simp add: to_double_def Let_def)

lemma js_max_ge: "js_max x y \<noteq> NaN \<Longrightarrow> \<not> num_gt x (js_max x y) \<and> \<not> num_gt y (js_max x y)"
  by (cases x; cases y) (auto simp: js_max_def split: if_splits)

lemma js_min_le: "js_min x y \<noteq> NaN \<Longrightarrow> \<not> num_gt (js_min x y) x \<and> \<not> num_gt (js_min x y) y"
  by (cases x; cases y) (auto simp: js_min_def split: if_splits)

lemma js_max_NaN: "js_max x y = NaN \<longleftrightarrow> x = NaN \<or> y = NaN"
  by (auto simp: js_max_def)

lemma round_half_even_nonneg: "0 \<le> q \<Longrightarrow> 0 \<le> round_half_even q"
  by (auto simp: round_half_even_def Let_def)

lemma rat_pow_nonneg: "0 \<le> rat_pow b e"
  by (simp add: rat_pow_def)

text \<open>Rounding keeps the sign.\<close>

lemma to_double_nonneg: "0 \<le> q \<Longrightarrow> \<not> num_gt (Fin 0) (to_double q)"
proof -
  assume "0 \<le> q"
  moreover have "0 \<le> of_int (round_half_even (\<bar>q\<bar> / u)) * u" if "0 \<le> u" for u :: rat
    using that by (intro mult_nonneg_nonneg) (simp_all add: round_half_even_nonneg)
  ultimately show ?thesis
    using rat_pow_nonneg by (auto simp: to_double_def Let_def not_less)
qed

section \<open>Small integers are exact\<close>

lemma ndigits_bounds: "1 < b \<Longrightarrow> 0 < n \<Longrightarrow> 0 < ndigits b n \<and> b ^ nat (ndigits b n - 1) \<le> n \<and> n < b ^ nat (ndigits b n)"
proof (induction b n rule: ndigits.induct)
  case (1 b n)
  show ?case
  proof (cases "n < b")
    case True
    with 1 have "ndigits b n = 1" by (simp add: ndigits.simps [of b n] ndigits.simps [of b 0])
    with 1 True show ?thesis by simp
  next
    case False
    let ?k = "ndigits b (n div b)"
    have pos: "0 < n div b" using False 1 by (simp add: pos_imp_zdiv_pos_iff)
    then have IH: "0 < ?k" "b ^ nat (?k - 1) \<le> n div b" "n div b < b ^ nat ?k" using 1 by auto
    have k: "ndigits b n = 1 + ?k" using 1 by (simp add: ndigits.simps [of b n])
    have "b * b ^ nat (?k - 1) \<le> b * (n div b)" using IH(2) 1 by simp
    also have "\<dots> \<le> n" using 1 by (simp add: mult.commute [of b] minus_mod_eq_div_mult [symmetric])
    finally have low: "b * b ^ nat (?k - 1) \<le> n" .
    have "n < b * (n div b + 1)"
    proof -
      have "n mod b < b" using 1 by (intro pos_mod_bound) simp
      then show ?thesis using mult_div_mod_eq [of b n] unfolding distrib_left by linarith
    qed
    also have "\<dots> \<le> b * b ^ nat ?k" using IH(3) 1 by (intro mult_left_mono) auto
    finally have high: "n < b * b ^ nat ?k" .
    have "nat ?k = Suc (nat (?k - 1))" using IH(1) by simp
    with low high IH(1) show ?thesis by (simp add: k nat_add_distrib)
  qed
qed

lemma round_half_even_int [simp]: "round_half_even (of_int n) = n"
  by (simp add: round_half_even_def)

lemma floor_log_int:
  assumes "0 < n"
  shows "\<exists>k. floor_log 2 (of_int n) = int k \<and> 2 ^ k \<le> n \<and> n < 2 ^ Suc k"
proof -
  have nd1: "ndigits 2 1 = 1" by (simp add: ndigits.simps [of 2 1] ndigits.simps [of 2 0])
  have q: "quotient_of (of_int n) = (n, 1)" by (metis Rat.of_int_def quotient_of_int)
  define k where "k = nat (ndigits 2 n - 1)"
  have b: "0 < ndigits 2 n" "2 ^ k \<le> n" "n < 2 ^ nat (ndigits 2 n)" using ndigits_bounds [of 2 n] assms by (auto simp: k_def)
  then have nd: "ndigits 2 n - 1 = int k" "nat (ndigits 2 n) = Suc k" by (auto simp: k_def)
  have "rat_pow 2 (int k) = of_int (2 ^ k)" by (simp add: rat_pow_def)
  then have "rat_pow 2 (int k) \<le> of_int n" using b(2) by (simp only: of_int_le_iff)
  then have "floor_log 2 (of_int n) = int k" by (simp add: floor_log_def q nd1 nd Let_def)
  with b nd show ?thesis by auto
qed

lemma to_double_pos_int:
  assumes "0 < n" and "n \<le> 2 ^ 53"
  shows "to_double (of_int n) = Fin (of_int n)"
proof -
  obtain k where k: "floor_log 2 (of_int n) = int k" "2 ^ k \<le> n" "n < 2 ^ Suc k" using floor_log_int [OF assms(1)] by blast
  have "(2::int) ^ k \<le> 2 ^ 53" using k(2) assms(2) by simp
  then have "k \<le> 53" by (subst (asm) power_increasing_iff) simp_all
  let ?u = "rat_pow 2 (int k - 52)"
  have "\<exists>m. of_int n / ?u = of_int m"
  proof (cases "k = 53")
    case True
    with k(2) assms(2) have "n = 2 ^ 53" by simp
    then show ?thesis using True by (intro exI [of _ "2 ^ 52"]) (simp add: rat_pow_def)
  next
    case False
    then have "?u = 1 / of_int (2 ^ (52 - k))"
      using \<open>k \<le> 53\<close> by (cases "k = 52") (simp_all add: rat_pow_def nat_diff_distrib)
    then show ?thesis by (intro exI [of _ "n * 2 ^ (52 - k)"]) simp
  qed
  then obtain m where m: "of_int n / ?u = of_int m" by blast
  have "?u \<noteq> 0" by (simp add: rat_pow_def)
  then have v: "of_int (round_half_even (of_int n / ?u)) * ?u = of_int n"
    using m by (metis nonzero_eq_divide_eq round_half_even_int)
  have "(of_int n :: rat) \<le> of_int (2 ^ 53)" using assms(2) by (simp only: of_int_le_iff)
  then have small: "\<not> (2 ^ 1024 :: rat) \<le> of_int n" by simp
  show ?thesis
    using assms(1) k(1) v small by (simp add: to_double_def Let_def)
qed

lemma to_double_minus: "to_double (- q) = js_neg (to_double q)"
  by (auto simp: to_double_def Let_def)

lemma to_double_int [simp]: "\<bar>n\<bar> \<le> 2 ^ 53 \<Longrightarrow> to_double (of_int n) = Fin (of_int n)"
proof (cases n "0 :: int" rule: linorder_cases)
  case less
  assume "\<bar>n\<bar> \<le> 2 ^ 53"
  then have "to_double (of_int (- n)) = Fin (of_int (- n))" using less by (intro to_double_pos_int) auto
  then show ?thesis using to_double_minus [of "of_int (- n)"] by simp
next
  case greater
  assume "\<bar>n\<bar> \<le> 2 ^ 53"
  with greater show ?thesis by (simp add: to_double_pos_int)
qed (simp add: to_double_def)

text \<open>Integer arithmetic that stays in the safe range is exact.\<close>

lemma js_int_ops:
  "\<bar>m + n\<bar> \<le> 2 ^ 53 \<Longrightarrow> js_add (jint m) (jint n) = jint (m + n)"
  "\<bar>m - n\<bar> \<le> 2 ^ 53 \<Longrightarrow> js_sub (jint m) (jint n) = jint (m - n)"
  "\<bar>m * n\<bar> \<le> 2 ^ 53 \<Longrightarrow> js_mul (jint m) (jint n) = jint (m * n)"
  "n \<noteq> 0 \<Longrightarrow> \<bar>m\<bar> \<le> 2 ^ 53 \<Longrightarrow> js_div (jint (m * n)) (jint n) = jint m"
proof -
  show "js_add (jint m) (jint n) = jint (m + n)" if "\<bar>m + n\<bar> \<le> 2 ^ 53"
    using to_double_int [OF that] by simp
  show "js_sub (jint m) (jint n) = jint (m - n)" if "\<bar>m - n\<bar> \<le> 2 ^ 53"
    using to_double_int [OF that] by (simp add: js_sub_def)
  show "js_mul (jint m) (jint n) = jint (m * n)" if "\<bar>m * n\<bar> \<le> 2 ^ 53"
    using to_double_int [OF that] by simp
  show "js_div (jint (m * n)) (jint n) = jint m" if "n \<noteq> 0" "\<bar>m\<bar> \<le> 2 ^ 53"
    using to_double_int [OF that(2)] that(1) by simp
qed

lemma to_double_numeral [simp]:
  "(numeral w :: int) \<le> 2 ^ 53 \<Longrightarrow> to_double (numeral w) = Fin (numeral w)"
  "(numeral w :: int) \<le> 2 ^ 53 \<Longrightarrow> to_double (- numeral w) = Fin (- numeral w)"
  "to_double 0 = Fin 0" "to_double 1 = Fin 1" "to_double (- 1) = Fin (- 1)"
  using to_double_int [of "numeral w"] to_double_int [of "- numeral w"] to_double_int [of 0] to_double_int [of 1]
    to_double_int [of "- 1"] by simp_all

text \<open>Rounding a fraction, once its exponent and its rounded multiple of the last place are known.\<close>

lemma to_double_by:
  assumes "0 < q" and "floor_log 2 q = e" and "- 1022 < e" and "round_half_even (q / rat_pow 2 (e - 52)) = m"
    and "of_int m * rat_pow 2 (e - 52) < 2 ^ 1024"
  shows "to_double q = Fin (of_int m * rat_pow 2 (e - 52))"
  using assms by (simp add: to_double_def Let_def not_le max_def)

end
