(* ===== verification/GenCpp.thy ===== *)
theory GenCpp
  imports GenText JsArith
begin

text \<open>
  \<open>dsl/src/codegen/gen-cpp.ts\<close>: the C++ headers generated from the registries. As in the TypeScript
  generators, each printer is the list of lines that the code pushes, joined by line feeds.
  The helpers \<open>cppType\<close>,
  \<open>cppStatus\<close> and their like are those of this file, not the ones of \<open>utils.ts\<close>.
\<close>

section \<open>C++ type helpers\<close>

definition cppType :: "string \<Rightarrow> string" where
  \<open>cppType t =
   (case map_of [(''int'', ''Int''), (''float'', ''Float''), (''string'', ''String''), (''bool'', ''Bool''), (''feature_bundle'', ''FeatureBundle'')] t of Some c \<Rightarrow> c | None \<Rightarrow> ''Unknown'')\<close>

text \<open>A \<open>switch\<close> without a default gives \<open>undefined\<close>, which a template literal prints.\<close>

definition cppStatus :: "string \<Rightarrow> string" where
  \<open>cppStatus s =
   (case map_of [(''active'', ''Active''), (''deprecated'', ''Deprecated''), (''blocked'', ''Blocked'')] s of Some c \<Rightarrow> c | None \<Rightarrow> ''undefined'')\<close>

definition cppCapabilityStatus :: "string \<Rightarrow> string" where
  \<open>cppCapabilityStatus s =
   (case map_of [(''implemented'', ''Implemented''), (''draft'', ''Draft''), (''deprecated'', ''Deprecated''), (''blocked'', ''Blocked'')] s of Some c \<Rightarrow> c | None \<Rightarrow> ''undefined'')\<close>

definition cppPropertyType :: "jsval \<Rightarrow> string" where
  \<open>cppPropertyType jsonType =
   (case jsonType of JStr t \<Rightarrow>
   (case map_of [(''boolean'', ''Boolean''), (''string'', ''String''), (''number'', ''Number''), (''array'', ''Array''), (''object'', ''Object'')] t of Some c \<Rightarrow> c | None \<Rightarrow> ''Unknown'')
    | _ \<Rightarrow> ''Unknown'')\<close>

definition is_digit :: "char \<Rightarrow> bool" where
  \<open>is_digit c \<longleftrightarrow> (48 :: nat) \<le> of_char c \<and> of_char c \<le> (57 :: nat)\<close>

definition cppCapabilityIdent :: "string \<Rightarrow> string" where
  \<open>cppCapabilityIdent id' =
   (let ident = map (\<lambda>c. if is_lower c \<or> is_upper c \<or> is_digit c then c else CHR ''_'') id' in
    case ident of [] \<Rightarrow> [] | c # cs \<Rightarrow> if is_digit c then CHR ''_'' # ident else ident)\<close>

section \<open>key_registry.h\<close>

definition keysHHead :: "string list" where
  \<open>keysHHead =
   [''// AUTO-GENERATED - DO NOT EDIT'',
    ''// Generated by dsl/src/codegen.ts'',
    ''#pragma once'',
    [],
    ''#include <cstdint>'',
    ''#include <string_view>'',
    ''#include <array>'',
    [],
    ''namespace rankd {'',
    [],
    ''enum class KeyId : uint32_t {'']\<close>

definition keyEnumLine :: "KeyEntry \<Rightarrow> string" where
  \<open>keyEnumLine k = ''    '' @ ke_name k @ '' = '' @ num_str (ke_key_id k) @ '',''\<close>

definition keysHTypes :: "KeyEntry list \<Rightarrow> string \<Rightarrow> string list" where
  \<open>keysHTypes keys digest =
   [''};'',
    [],
    ''// Helper to convert KeyId to uint32_t (avoids verbose static_cast)'',
    ''constexpr uint32_t key_id(KeyId k) noexcept {'',
    ''  return static_cast<uint32_t>(k);'',
    ''}'',
    [],
    ''enum class KeyType { Int, Float, String, Bool, FeatureBundle };'',
    ''enum class Status { Active, Deprecated, Blocked };'',
    [],
    ''struct KeyMeta {'',
    ''    uint32_t id;'',
    ''    std::string_view name;'',
    ''    KeyType type;'',
    ''    bool nullable;'',
    ''    Status status;'',
    ''    bool allow_read;'',
    ''    bool allow_write;'',
    ''    uint32_t replaced_by;  // 0 if none'',
    ''    bool has_default;'',
    ''    std::string_view default_json;'',
    ''};'',
    [],
    ''inline constexpr size_t kKeyCount = '' @ nat_str (length keys) @ '';'',
    ''inline constexpr std::string_view kKeyRegistryDigest = "'' @ digest @ ''";'',
    [],
    ''inline constexpr std::array<KeyMeta, kKeyCount> kKeyRegistry = {{'']\<close>

text \<open>\<open>JSON.stringify(JSON.stringify(k.default))\<close>.\<close>

definition defaultJson :: "jsval \<Rightarrow> (gen_error, string) res" where
  \<open>defaultJson v =
   (if v \<noteq> JNull then
      (case json_compact v of
         Inl e \<Rightarrow> Inl GenTypeError
       | Inr None \<Rightarrow> Inr ''undefined''
       | Inr (Some s) \<Rightarrow> Inr (json_quote s))
    else Inr (dq []))\<close>

text \<open>\<open>${n ?? 0}\<close>.\<close>

definition orZero :: "jnum option \<Rightarrow> string" where
  \<open>orZero n = (case n of Some x \<Rightarrow> num_str x | None \<Rightarrow> ''0'')\<close>

definition keyMetaLine :: "KeyEntry \<Rightarrow> (gen_error, string) res" where
  \<open>keyMetaLine k =
   bindR (defaultJson (ke_default k)) (\<lambda>default. Inr (
   ''    {'' @ num_str (ke_key_id k) @ '', "'' @ ke_name k @ ''", KeyType::'' @ cppType (ke_type k) @ '', '' @ bool_text (ke_nullable k) @ '', Status::'' @ cppStatus (ke_status k) @ '', '' @ bool_text (ke_allow_read k) @ '', '' @ bool_text (ke_allow_write k) @ '', '' @ orZero (ke_replaced_by k) @ '', '' @ bool_text (ke_default k \<noteq> JNull) @ '', '' @ default @ ''},''))\<close>

definition generateKeysH :: "KeyEntry list \<Rightarrow> string \<Rightarrow> (gen_error, string) res" where
  \<open>generateKeysH keys digest =
   bindR (mapR keyMetaLine keys) (\<lambda>metas. Inr (join_nl (
   keysHHead @ map keyEnumLine keys @ keysHTypes keys digest @ metas @
   [''}};'',
    [],
    ''} // namespace rankd'',
    []])))\<close>

section \<open>param_registry.h, feature_registry.h\<close>

definition paramsHHead :: "string list" where
  \<open>paramsHHead =
   [''// AUTO-GENERATED - DO NOT EDIT'',
    ''// Generated by dsl/src/codegen.ts'',
    ''#pragma once'',
    [],
    ''#include <array>'',
    ''#include <cstdint>'',
    ''#include <string_view>'',
    [],
    ''#include "key_registry.h"  // for Status'',
    [],
    ''namespace rankd {'',
    [],
    ''enum class ParamId : uint32_t {'']\<close>

definition paramEnumLine :: "ParamEntry \<Rightarrow> string" where
  \<open>paramEnumLine p = ''    '' @ pe_name p @ '' = '' @ num_str (pe_param_id p) @ '',''\<close>

definition paramsHTypes :: "ParamEntry list \<Rightarrow> string \<Rightarrow> string list" where
  \<open>paramsHTypes params digest =
   [''};'',
    [],
    ''enum class ParamType { Int, Float, String, Bool };'',
    [],
    ''struct ParamMeta {'',
    ''    uint32_t id;'',
    ''    std::string_view name;'',
    ''    ParamType type;'',
    ''    bool nullable;'',
    ''    Status status;'',
    ''    bool allow_read;'',
    ''    bool allow_write;'',
    ''    uint32_t replaced_by;  // 0 if none'',
    ''};'',
    [],
    ''inline constexpr size_t kParamCount = '' @ nat_str (length params) @ '';'',
    ''inline constexpr std::string_view kParamRegistryDigest = "'' @ digest @ ''";'',
    [],
    ''inline constexpr std::array<ParamMeta, kParamCount> kParamRegistry = {{'']\<close>

definition paramMetaLine :: "ParamEntry \<Rightarrow> string" where
  \<open>paramMetaLine p =
   ''    {'' @ num_str (pe_param_id p) @ '', "'' @ pe_name p @ ''", ParamType::'' @ cppType (pe_type p) @ '', '' @ bool_text (pe_nullable p) @ '', Status::'' @ cppStatus (pe_status p) @ '', '' @ bool_text (pe_allow_read p) @ '', '' @ bool_text (pe_allow_write p) @ '', '' @ orZero (pe_replaced_by p) @ ''},''\<close>

definition generateParamsH :: "ParamEntry list \<Rightarrow> string \<Rightarrow> string" where
  \<open>generateParamsH params digest = join_nl (
   paramsHHead @ map paramEnumLine params @ paramsHTypes params digest @ map paramMetaLine params @
   [''}};'',
    [],
    ''} // namespace rankd'',
    []])\<close>

definition featuresHHead :: "string list" where
  \<open>featuresHHead =
   [''// AUTO-GENERATED - DO NOT EDIT'',
    ''// Generated by dsl/src/codegen.ts'',
    ''#pragma once'',
    [],
    ''#include <array>'',
    ''#include <cstdint>'',
    ''#include <string_view>'',
    [],
    ''#include "key_registry.h"  // for Status'',
    [],
    ''namespace rankd {'',
    [],
    ''enum class FeatureId : uint32_t {'']\<close>

definition featureEnumLine :: "FeatureEntry \<Rightarrow> string" where
  \<open>featureEnumLine f = ''    '' @ fe_stage f @ ''_'' @ fe_name f @ '' = '' @ num_str (fe_feature_id f) @ '',''\<close>

definition featuresHTypes :: "FeatureEntry list \<Rightarrow> string \<Rightarrow> string list" where
  \<open>featuresHTypes features digest =
   [''};'',
    [],
    ''enum class FeatureType { Int, Float, String, Bool };'',
    [],
    ''struct FeatureMeta {'',
    ''    uint32_t id;'',
    ''    std::string_view stage;'',
    ''    std::string_view name;'',
    ''    FeatureType type;'',
    ''    bool nullable;'',
    ''    Status status;'',
    ''};'',
    [],
    ''inline constexpr size_t kFeatureCount = '' @ nat_str (length features) @ '';'',
    ''inline constexpr std::string_view kFeatureRegistryDigest = "'' @ digest @ ''";'',
    [],
    ''inline constexpr std::array<FeatureMeta, kFeatureCount> kFeatureRegistry = {{'']\<close>

definition featureMetaLine :: "FeatureEntry \<Rightarrow> string" where
  \<open>featureMetaLine f =
   ''    {'' @ num_str (fe_feature_id f) @ '', "'' @ fe_stage f @ ''", "'' @ fe_name f @ ''", FeatureType::'' @ cppType (fe_type f) @ '', '' @ bool_text (fe_nullable f) @ '', Status::'' @ cppStatus (fe_status f) @ ''},''\<close>

definition generateFeaturesH :: "FeatureEntry list \<Rightarrow> string \<Rightarrow> string" where
  \<open>generateFeaturesH features digest = join_nl (
   featuresHHead @ map featureEnumLine features @ featuresHTypes features digest @ map featureMetaLine features @
   [''}};'',
    [],
    ''} // namespace rankd'',
    []])\<close>

section \<open>validation.h\<close>

text \<open>\<open>w[0].toUpperCase() + w.slice(1)\<close>: raises on an empty word, as between two underscores.\<close>

definition capitalWord :: "string \<Rightarrow> (gen_error, string) res" where
  \<open>capitalWord w = (case w of [] \<Rightarrow> Inl GenTypeError | c # cs \<Rightarrow> Inr (js_upper c @ cs))\<close>

text \<open>\<open>k${name.split("_").map(\<dots>).join("")}\<close>.\<close>

definition constName :: "string \<Rightarrow> (gen_error, string) res" where
  \<open>constName name = bindR (mapR capitalWord (split_char CHR ''_'' [] name)) (\<lambda>ws. Inr (''k'' @ concat ws))\<close>

definition escapedPattern :: "string \<Rightarrow> string" where
  \<open>escapedPattern pattern =
   concat (map (\<lambda>c. if c = CHR 0x22 then [CHR 0x5C, CHR 0x22] else [c])
     (concat (map (\<lambda>c. if c = CHR 0x5C then [CHR 0x5C, CHR 0x5C] else [c]) pattern)))\<close>

definition validationHHead :: "string list" where
  \<open>validationHHead =
   [''// AUTO-GENERATED - DO NOT EDIT'',
    ''// Generated by dsl/src/codegen.ts from registry/validation.toml'',
    ''#pragma once'',
    [],
    ''#include <array>'',
    ''#include <cstdint>'',
    ''#include <regex>'',
    ''#include <string>'',
    ''#include <string_view>'',
    [],
    ''namespace rankd {'',
    ''namespace validation {'',
    [],
    ''// ====================================================='',
    ''// Patterns'',
    ''// ====================================================='',
    []]\<close>

definition patternLine :: "string \<times> string \<Rightarrow> (gen_error, string) res" where
  \<open>patternLine entry =
   (case entry of (name, pattern) \<Rightarrow> bindR (constName name) (\<lambda>const. Inr (
   ''inline const std::string '' @ const @ ''Pattern = "'' @ escapedPattern pattern @ ''";'')))\<close>

definition patternFn :: "string \<times> string \<Rightarrow> (gen_error, string list) res" where
  \<open>patternFn entry =
   (case entry of (name, pattern) \<Rightarrow> bindR (constName name) (\<lambda>const. Inr
   [''inline bool '' @ ''is_valid_'' @ name @ ''(const std::string& value) {'',
    ''    static const std::regex pattern('' @ const @ ''Pattern'' @ '');'',
    ''    return std::regex_match(value, pattern);'',
    ''}'',
    []]))\<close>

definition limitType :: "jnum \<Rightarrow> string" where
  \<open>limitType v = (if num_gt v (jint 2147483647) then ''uint64_t'' else ''uint32_t'')\<close>

definition limitLine :: "string \<times> jnum \<Rightarrow> (gen_error, string) res" where
  \<open>limitLine entry =
   (case entry of (name, v) \<Rightarrow> bindR (constName name) (\<lambda>const. Inr (
   ''inline constexpr '' @ limitType v @ '' '' @ const @ '' = '' @ num_str v @ '';'')))\<close>

definition enumLines :: "string \<times> string list \<Rightarrow> (gen_error, string list) res" where
  \<open>enumLines entry =
   (case entry of (name, values) \<Rightarrow> bindR (constName name) (\<lambda>const. Inr (
   [''inline constexpr std::array<std::string_view, '' @ nat_str (length values) @ ''> '' @ const @ '' = {{''] @
   map (\<lambda>v. ''    '' @ json_quote v @ '','') values @
   [''}};'',
    []])))\<close>

definition generateValidationH :: "ValidationRules \<Rightarrow> string \<Rightarrow> (gen_error, string) res" where
  \<open>generateValidationH validation digest =
   bindR (mapR patternLine (vr_patterns validation)) (\<lambda>patterns.
   bindR (mapR patternFn (vr_patterns validation)) (\<lambda>fns.
   bindR (mapR limitLine (vr_limits validation)) (\<lambda>limits.
   bindR (mapR enumLines (vr_enums validation)) (\<lambda>enums. Inr (join_nl (
   validationHHead @ patterns @
   [[],
    ''// ====================================================='',
    ''// Validation functions'',
    ''// ====================================================='',
    []] @ concat fns @
   [''// ====================================================='',
    ''// Limits'',
    ''// ====================================================='',
    []] @ limits @
   [[],
    ''// ====================================================='',
    ''// Enums'',
    ''// ====================================================='',
    []] @ concat enums @
   [''inline constexpr std::string_view kValidationDigest = "'' @ digest @ ''";'',
    [],
    ''} // namespace validation'',
    ''} // namespace rankd'',
    []]))))))\<close>

section \<open>capability_registry.h\<close>

definition capabilitiesHHead :: "string list" where
  \<open>capabilitiesHHead =
   [''// AUTO-GENERATED - DO NOT EDIT'',
    ''// Generated by dsl/src/codegen.ts from registry/capabilities.toml'',
    ''#pragma once'',
    [],
    ''#include <array>'',
    ''#include <optional>'',
    ''#include <string_view>'',
    [],
    ''namespace rankd {'',
    [],
    ''enum class CapabilityStatus { Implemented, Draft, Deprecated, Blocked };'',
    ''enum class PropertyType { Boolean, String, Number, Array, Object, Unknown };'',
    [],
    ''// Property metadata for type checking'',
    ''struct PropertyMeta {'',
    ''  std::string_view name;'',
    ''  PropertyType type;'',
    ''};'',
    [],
    ''// Simple schema representation (subset of JSON Schema)'',
    ''struct PayloadSchema {'',
    ''  bool has_schema;                          // false = no payload allowed'',
    ''  bool additional_properties;               // true = allow extra keys'',
    ''  const std::string_view* allowed_keys;     // pointer to array of allowed property names'',
    ''  size_t num_allowed_keys;                  // number of allowed properties'',
    ''  const std::string_view* required_keys;    // pointer to array of required property names'',
    ''  size_t num_required_keys;                 // number of required properties'',
    ''  const PropertyMeta* property_types;       // pointer to array of property type info'',
    ''  size_t num_property_types;                // number of property type entries'',
    ''};'',
    [],
    ''struct CapabilityMeta {'',
    ''  std::string_view id;'',
    ''  std::string_view rfc;'',
    ''  std::string_view name;'',
    ''  CapabilityStatus status;'',
    ''  std::string_view doc;'',
    ''  PayloadSchema schema;'',
    ''};'',
    []]\<close>

text \<open>\<open>cap.payload_schema?.k\<close>.\<close>

definition schemaGet :: "jsval \<Rightarrow> string \<Rightarrow> jsval" where
  \<open>schemaGet schema k = (if schema = JNull \<or> schema = JUndef then JUndef else getp schema k)\<close>

text \<open>\<open>props ? Object.keys(props).sort() : []\<close>.\<close>

definition propNames :: "jsval \<Rightarrow> string list" where
  \<open>propNames props = (if truthy props then js_sort_by (\<lambda>x y. x > y) (map fst (own_entries props)) else [])\<close>

text \<open>\<open>required?.length\<close>; a schema is parsed JSON, where only an object can have a \<open>length\<close> of its own.\<close>

definition requiredLength :: "jsval \<Rightarrow> jsval" where
  \<open>requiredLength required =
   (case required of
      JArr vs \<Rightarrow> JNum (jint (int (length vs)))
    | JStr s \<Rightarrow> JNum (jint (int (length s)))
    | v \<Rightarrow> getp v ''length'')\<close>

text \<open>\<open>v > 0\<close> for a number; a \<open>length\<close> property that is no number counts as not positive.\<close>

definition is_positive :: "jsval \<Rightarrow> bool" where
  \<open>is_positive v = (case v of JNum x \<Rightarrow> num_gt x (jint 0) | _ \<Rightarrow> False)\<close>

text \<open>\<open>for (const x of v)\<close>.\<close>

definition iterated :: "jsval \<Rightarrow> (gen_error, jsval list) res" where
  \<open>iterated v =
   (case v of JArr vs \<Rightarrow> Inr vs | JStr s \<Rightarrow> Inr (map (\<lambda>c. JStr [c]) s) | _ \<Rightarrow> Inl GenTypeError)\<close>

definition propsArray :: "string \<Rightarrow> jsval \<Rightarrow> string list" where
  \<open>propsArray ident props =
   (if length (propNames props) > 0 then
    [''inline constexpr std::array<std::string_view, '' @ nat_str (length (propNames props)) @ ''> '' @ ''kProps_'' @ ident @ '' = {{''] @ map (\<lambda>name. ''    '' @ json_quote name @ '','') (propNames props) @
   [''}};'',
    []] else [])\<close>

text \<open>\<open>${v}\<close> for a length.\<close>

definition length_text :: "jsval \<Rightarrow> string" where
  \<open>length_text v = (case v of JNum x \<Rightarrow> num_str x | _ \<Rightarrow> ''undefined'')\<close>

definition requiredArray :: "string \<Rightarrow> jsval \<Rightarrow> (gen_error, string list) res" where
  \<open>requiredArray ident required =
   (if truthy required \<and> is_positive (requiredLength required) then
      bindR (iterated required) (\<lambda>names.
      bindR (mapR (\<lambda>name. bindR (json_inline name) (\<lambda>s. Inr (''    '' @ s @ '',''))) names) (\<lambda>ls. Inr (
   [''inline constexpr std::array<std::string_view, '' @ length_text (requiredLength required) @ ''> '' @ ''kRequired_'' @ ident @ '' = {{''] @ ls @
   [''}};'',
    []])))
    else Inr [])\<close>

definition propTypesArray :: "string \<Rightarrow> jsval \<Rightarrow> string list" where
  \<open>propTypesArray ident props =
   (if truthy props \<and> length (propNames props) > 0 then
    [''inline constexpr std::array<PropertyMeta, '' @ nat_str (length (propNames props)) @ ''> '' @ ''kPropTypes_'' @ ident @ '' = {{''] @
    map (\<lambda>name. let propSchema = (case map_of (own_entries props) name of Some v \<Rightarrow> v | None \<Rightarrow> JUndef) in
      ''    {'' @ json_quote name @ '', PropertyType::'' @ cppPropertyType (schemaGet propSchema ''type'') @ ''},'') (propNames props) @
   [''}};'',
    []] else [])\<close>

text \<open>The arrays of one capability.\<close>

definition capArrays :: "CapabilityEntry \<Rightarrow> (gen_error, string list) res" where
  \<open>capArrays cap =
   (let props = schemaGet (ce_payload_schema cap) ''properties''; required = schemaGet (ce_payload_schema cap) ''required'';
        ident = cppCapabilityIdent (ce_id cap) in
    bindR (requiredArray ident required) (\<lambda>requiredLines.
    Inr (propsArray ident props @ requiredLines @ propTypesArray ident props)))\<close>

definition capMetaLines :: "CapabilityEntry \<Rightarrow> string list" where
  \<open>capMetaLines cap =
   (let additionalProps = (schemaGet (ce_payload_schema cap) ''additionalProperties'' \<noteq> JBool False);
        numProps = length (propNames (schemaGet (ce_payload_schema cap) ''properties''));
        numRequired = nullish (requiredLength (schemaGet (ce_payload_schema cap) ''required'')) (JNum (jint 0));
        ptr = (\<lambda>prefix b. if b then prefix @ cppCapabilityIdent (ce_id cap) @ ''.data()'' else ''nullptr'') in
   [''    {'' @ json_quote (ce_id cap) @ '', '' @ json_quote (ce_rfc cap) @ '', '' @ json_quote (ce_name cap) @ '','',
    ''     CapabilityStatus::'' @ cppCapabilityStatus (ce_status cap) @ '','',
    ''     '' @ json_quote (ce_doc cap) @ '','',
    ''     {.has_schema = '' @ bool_text (ce_payload_schema cap \<noteq> JNull) @ '','',
    ''      .additional_properties = '' @ bool_text additionalProps @ '','',
    ''      .allowed_keys = '' @ ptr ''kProps_'' (numProps > 0) @ '','',
    ''      .num_allowed_keys = '' @ nat_str numProps @ '','',
    ''      .required_keys = '' @ ptr ''kRequired_'' (is_positive numRequired) @ '','',
    ''      .num_required_keys = '' @ length_text numRequired @ '','',
    ''      .property_types = '' @ ptr ''kPropTypes_'' (numProps > 0) @ '','',
    ''      .num_property_types = '' @ nat_str numProps @ ''}},''])\<close>

definition generateCapabilitiesH :: "CapabilityEntry list \<Rightarrow> string \<Rightarrow> (gen_error, string) res" where
  \<open>generateCapabilitiesH capabilities digest =
   bindR (mapR capArrays capabilities) (\<lambda>arrays. Inr (join_nl (
   capabilitiesHHead @ concat arrays @
   [''inline constexpr size_t kCapabilityCount = '' @ nat_str (length capabilities) @ '';'',
    ''inline constexpr std::string_view kCapabilityRegistryDigest = "'' @ digest @ ''";'',
    [],
    ''inline constexpr std::array<CapabilityMeta, kCapabilityCount> kCapabilityRegistry = {{''] @ concat (map capMetaLines capabilities) @
   [''}};'',
    [],
    ''} // namespace rankd'',
    []])))\<close>

section \<open>Formatting\<close>

text \<open>\<open>formatCpp\<close> of \<open>utils.ts\<close>; the program \<open>clang-format\<close> is an argument, \<open>None\<close> when it cannot be run.\<close>

definition formatCpp :: "(string \<Rightarrow> string option) \<Rightarrow> string \<Rightarrow> (gen_error, string) res" where
  \<open>formatCpp clang_format code = (case clang_format code of Some t \<Rightarrow> Inr t | None \<Rightarrow> Inl ClangFormatMissing)\<close>


section \<open>A type without a spelling\<close>

text \<open>An \<open>integer\<close> property has a spelling in \<open>utils.ts\<close> but none in this file.\<close>

lemma integer_property_unknown:
  "cppPropertyType (JStr ''integer'') = ''Unknown''"
  "CodegenUtils.cppPropertyType (JStr ''integer'') = ''SchemaPropertyType::Number''"
  by code_simp+

end
