(* ===== verification/GenTasks.thy ===== *)
theory GenTasks
  imports GenText
begin

text \<open>
  \<open>dsl/src/codegen/gen-ts.ts\<close>, the two files generated from the task registry: \<open>tasks.ts\<close> (option
  interfaces and the extraction table) and \<open>task-impl.ts\<close> (one function per task). Each printer is the
  list of lines that the code pushes, joined by line feeds.
\<close>

section \<open>Option types\<close>

definition paramTypeToTsType :: "TaskParamEntry \<Rightarrow> string" where
  \<open>paramTypeToTsType param =
   (let type = tp_type param;
        baseType =
          (if type = ''int'' then (if tp_name param = ''out_key'' \<or> tp_name param = ''by'' then ''KeyToken'' else ''number'')
           else if type = ''float'' then ''number''
           else if type = ''bool'' then ''boolean''
           else if type = ''string'' then ''string''
           else if type = ''expr_id'' then ''ExprInput''
           else if type = ''pred_id'' then ''PredInput''
           else if type = ''node_ref'' then ''CandidateSetLike''
           else if type = ''endpoint_ref'' then
             (if tp_endpoint_kind param = Some ''redis'' then ''RedisEndpointId''
              else if tp_endpoint_kind param = Some ''http'' then ''HttpEndpointId''
              else ''EndpointId'')
           else ''unknown'')
    in if tp_nullable param then baseType @ '' | null'' else baseType)\<close>

definition tsName :: "TaskParamEntry \<Rightarrow> string" where
  \<open>tsName param = friendlyParamName (tp_name param) (tp_type param)\<close>

text \<open>One line of an options type, at the indentation of an interface.\<close>

definition optLine :: "TaskParamEntry \<Rightarrow> string" where
  \<open>optLine param = ''  '' @ tsName param @ (if \<not> tp_required param then ''?'' else []) @ '': '' @ paramTypeToTsType param @ '';''\<close>

definition endpointRefs :: "TaskEntry list \<Rightarrow> TaskParamEntry list" where
  \<open>endpointRefs tasks = filter (\<lambda>p. tp_type p = ''endpoint_ref'') (concat (map te_params tasks))\<close>

text \<open>The elements of the set \<open>endpointKindsUsed\<close>, and \<open>hasGenericEndpointRef\<close>; an empty kind is falsy.\<close>

definition endpointKindsUsed :: "TaskEntry list \<Rightarrow> string list" where
  \<open>endpointKindsUsed tasks =
   concat (map (\<lambda>p. case tp_endpoint_kind p of Some k \<Rightarrow> if k \<noteq> [] then [k] else [] | None \<Rightarrow> []) (endpointRefs tasks))\<close>

definition hasGenericEndpointRef :: "TaskEntry list \<Rightarrow> bool" where
  \<open>hasGenericEndpointRef tasks =
   list_ex (\<lambda>p. case tp_endpoint_kind p of Some k \<Rightarrow> k = [] | None \<Rightarrow> True) (endpointRefs tasks)\<close>

definition endpointImports :: "TaskEntry list \<Rightarrow> string list" where
  \<open>endpointImports tasks =
   (if hasGenericEndpointRef tasks then [''EndpointId''] else []) @
   (if ''redis'' \<in> set (endpointKindsUsed tasks) then [''RedisEndpointId''] else []) @
   (if ''http'' \<in> set (endpointKindsUsed tasks) then [''HttpEndpointId''] else [])\<close>

definition endpointImportLine :: "TaskEntry list \<Rightarrow> string list" where
  \<open>endpointImportLine tasks =
   (if length (endpointImports tasks) > 0
    then [''import type { '' @ join_with '', '' (endpointImports tasks) @ '' } from "./endpoints.js";''] else [])\<close>

definition SOURCE_TASK_METHODS :: "string list" where
  \<open>SOURCE_TASK_METHODS = [''viewer'', ''fixedSource'']\<close>

text \<open>Every task with its method name; the first op without a part raises.\<close>

definition named_tasks :: "TaskEntry list \<Rightarrow> (gen_error, (TaskEntry \<times> string) list) res" where
  \<open>named_tasks tasks = mapR (\<lambda>task. bindR (methodName (te_op task)) (\<lambda>m. Inr (task, m))) tasks\<close>

definition sourceTasks :: "(TaskEntry \<times> string) list \<Rightarrow> (TaskEntry \<times> string) list" where
  \<open>sourceTasks tasks = filter (\<lambda>(task, m). m \<in> set SOURCE_TASK_METHODS) tasks\<close>

definition transformTasks :: "(TaskEntry \<times> string) list \<Rightarrow> (TaskEntry \<times> string) list" where
  \<open>transformTasks tasks = filter (\<lambda>(task, m). m \<notin> set SOURCE_TASK_METHODS) tasks\<close>

section \<open>tasks.ts\<close>

definition tasksTsHead :: "string list" where
  \<open>tasksTsHead =
   [''// AUTO-GENERATED from C++ TaskSpec - DO NOT EDIT'',
    ''// Generated by dsl/src/codegen.ts from registry/tasks.toml'',
    ''// Regenerate with: pnpm -C dsl run gen'',
    [],
    ''import type { KeyToken } from "./keys.js";'']\<close>

definition tasksTsTypes :: "string list" where
  \<open>tasksTsTypes =
   [[],
    ''// ====================================================='',
    ''// Expression types (narrow discriminated unions)'',
    ''// ====================================================='',
    [],
    ''/** ExprNode - matches engine's ExprIR format (builder-style) */'',
    ''export type ExprNode ='',
    ''  | { op: "const_number"; value: number }'',
    ''  | { op: "const_null" }'',
    ''  | { op: "key_ref"; key_id: number }'',
    ''  | { op: "param_ref"; param_id: number }'',
    ''  | { op: "add"; a: ExprNode; b: ExprNode }'',
    ''  | { op: "sub"; a: ExprNode; b: ExprNode }'',
    ''  | { op: "mul"; a: ExprNode; b: ExprNode }'',
    ''  | { op: "neg"; x: ExprNode }'',
    ''  | { op: "coalesce"; a: ExprNode; b: ExprNode };'',
    [],
    ''/** ExprPlaceholder - compile-time placeholder for natural expression syntax */'',
    ''export interface ExprPlaceholder {'',
    ''  __expr_id: number;'',
    ''}'',
    [],
    ''/** ExprInput - expression input type for tasks (builder or natural syntax) */'',
    ''export type ExprInput = ExprNode | ExprPlaceholder;'',
    [],
    ''// ====================================================='',
    ''// Predicate types (narrow discriminated unions)'',
    ''// ====================================================='',
    [],
    ''/** Regex pattern - literal string or param reference */'',
    ''export type RegexPattern ='',
    ''  | { kind: "literal"; value: string }'',
    ''  | { kind: "param"; param_id: number };'',
    [],
    ''/** PredNode - matches engine's PredIR format */'',
    ''export type PredNode ='',
    ''  | { op: "const_bool"; value: boolean }'',
    ''  | { op: "and"; a: PredNode; b: PredNode }'',
    ''  | { op: "or"; a: PredNode; b: PredNode }'',
    ''  | { op: "not"; x: PredNode }'',
    ''  | { op: "cmp"; cmp: "==" | "!=" | "<" | "<=" | ">" | ">="; a: ExprNode; b: ExprNode }'',
    ''  | { op: "in"; lhs: ExprNode; list: (number | string)[] }'',
    ''  | { op: "is_null"; x: ExprNode }'',
    ''  | { op: "not_null"; x: ExprNode }'',
    ''  | { op: "regex"; key_id: number; pattern: RegexPattern; flags: string };'',
    [],
    ''/** PredPlaceholder - compile-time placeholder for natural predicate syntax */'',
    ''export interface PredPlaceholder {'',
    ''  __pred_id: number;'',
    ''}'',
    [],
    ''/** PredInput - predicate input type for tasks (builder or natural syntax) */'',
    ''export type PredInput = PredNode | PredPlaceholder;'',
    [],
    ''// ====================================================='',
    ''// Node reference types (for tasks like concat)'',
    ''// ====================================================='',
    [],
    ''/** Interface for CandidateSet used by NodeRef params (avoids circular dep with runtime) */'',
    ''export interface CandidateSetLike {'',
    ''  getNodeId(): string;'',
    ''}'',
    []]\<close>

definition interfaceLines :: "TaskEntry \<Rightarrow> string list" where
  \<open>interfaceLines task =
   [''export interface '' @ opToInterfaceName (te_op task) @ '' {''] @ map optLine (te_params task) @
   [''  extensions?: Record<string, unknown>;'',
    ''}'',
    []]\<close>

text \<open>\<open>exprProp\<close> and \<open>predProp\<close>: the last parameter of the type counts.\<close>

definition extractionProp :: "string \<Rightarrow> TaskEntry \<Rightarrow> string option" where
  \<open>extractionProp type task =
   foldl (\<lambda>prop param. if tp_type param = type then Some (tsName param) else prop) None (te_params task)\<close>

definition prop_text :: "string \<Rightarrow> string option \<Rightarrow> string list" where
  \<open>prop_text name prop =
   (case prop of Some s \<Rightarrow> if s \<noteq> [] then [name @ '': '' @ dq s] else [] | None \<Rightarrow> [])\<close>

definition extractionLines :: "TaskEntry \<Rightarrow> string list" where
  \<open>extractionLines task =
   (let props = prop_text ''exprProp'' (extractionProp ''expr_id'' task) @ prop_text ''predProp'' (extractionProp ''pred_id'' task) in
    if props \<noteq> [] then [''  "'' @ te_op task @ ''": { '' @ join_with '', '' props @ '' },''] else [])\<close>

definition generateTasksTs :: "TaskRegistry \<Rightarrow> (gen_error, string) res" where
  \<open>generateTasksTs registry =
   bindR (named_tasks (tr_tasks registry)) (\<lambda>tasks. Inr (join_nl (
   tasksTsHead @ endpointImportLine (tr_tasks registry) @ tasksTsTypes @
   (if length (sourceTasks tasks) > 0 then
   [''// ====================================================='',
    ''// Source task option interfaces'',
    ''// ====================================================='',
    []] @ concat (map (\<lambda>(task, m). interfaceLines task) (sourceTasks tasks)) else []) @
   (if length (transformTasks tasks) > 0 then
   [''// ====================================================='',
    ''// Transform task option interfaces'',
    ''// ====================================================='',
    []] @ concat (map (\<lambda>(task, m). interfaceLines task) (transformTasks tasks)) else []) @
   [''// ====================================================='',
    ''// Metadata'',
    ''// ====================================================='',
    [],
    ''export const TASK_MANIFEST_DIGEST = "'' @ tr_manifest_digest registry @ ''";'',
    ''export const TASK_COUNT = '' @ nat_str (length (tr_tasks registry)) @ '';'',
    []] @
   [''// ====================================================='',
    ''// Task extraction metadata (for AST extractor)'',
    ''// ====================================================='',
    [],
    ''/** Extraction info for a task - which properties to extract as expr/pred */'',
    ''export interface TaskExtractionInfo {'',
    ''  /** Property name containing expression (for tasks with expr_id param) */'',
    ''  exprProp?: string;'',
    ''  /** Property name containing predicate (for tasks with pred_id param) */'',
    ''  predProp?: string;'',
    ''}'',
    [],
    ''/** Map from qualified op (e.g., 'core::vm') to extraction info */'',
    ''export const TASK_EXTRACTION_INFO: Record<string, TaskExtractionInfo> = {''] @ concat (map extractionLines (tr_tasks registry)) @
   [''};'',
    []])))\<close>

section \<open>task-impl.ts\<close>

definition taskImplHead :: "string list" where
  \<open>taskImplHead =
   [''// AUTO-GENERATED from C++ TaskSpec - DO NOT EDIT'',
    ''// Generated by dsl/src/codegen.ts from registry/tasks.toml'',
    ''// Regenerate with: pnpm -C dsl run gen'',
    [],
    ''// This file contains the generated task implementations.'',
    ''// It is used by plan.ts to implement task methods without manual code.'',
    [],
    ''import type { ExprNode, ExprPlaceholder, ExprInput, PredNode, PredPlaceholder, PredInput, CandidateSetLike } from "./tasks.js";'',
    ''import type { KeyToken } from "./keys.js";'']\<close>

definition placeholderText :: "string list" where
  \<open>placeholderText =
   [[],
    ''// ====================================================='',
    ''// Types for plan context interface'',
    ''// ====================================================='',
    [],
    ''/** Interface for expression placeholder detection */'',
    ''export function isExprPlaceholder(value: unknown): value is ExprPlaceholder {'',
    ''  return ('',
    ''    value !== null &&'',
    ''    typeof value === "object" &&'',
    ''    "__expr_id" in value &&'',
    ''    typeof (value as ExprPlaceholder).__expr_id === "number"'',
    ''  );'',
    ''}'',
    [],
    ''/** Interface for predicate placeholder detection */'',
    ''export function isPredPlaceholder(value: unknown): value is PredPlaceholder {'',
    ''  return ('',
    ''    value !== null &&'',
    ''    typeof value === "object" &&'',
    ''    "__pred_id" in value &&'',
    ''    typeof (value as PredPlaceholder).__pred_id === "number"'',
    ''  );'',
    ''}'',
    []]\<close>

definition taskContextText :: "string list" where
  \<open>taskContextText =
   [''/** Interface that PlanCtx must implement for task impls to use */'',
    ''export interface TaskContext {'',
    ''  addNode('',
    ''    op: string,'',
    ''    inputs: string[],'',
    ''    params: Record<string, unknown>,'',
    ''    extensions?: Record<string, unknown>'',
    ''  ): string;'',
    ''  addExpr(expr: ExprNode): string;'',
    ''  addPred(pred: PredNode): string;'',
    ''}'',
    []]\<close>

definition validationHelpersText :: "string list" where
  \<open>validationHelpersText =
   [''// ====================================================='',
    ''// Validation helpers'',
    ''// ====================================================='',
    [],
    ''function assertNotUndefined<T>(value: T | undefined, name: string): asserts value is T {'',
    ''  if (value === undefined) throw new Error(`${name} is undefined`);'',
    ''}'',
    [],
    ''function assertInteger(value: unknown, name: string): asserts value is number {'',
    ''  if (typeof value !== "number" || !Number.isInteger(value)) {'',
    ''    throw new Error(`${name} must be an integer, got ${typeof value === "number" ? value : typeof value}`);'',
    ''  }'',
    ''}'',
    [],
    ''function assertKeyToken(value: unknown, name: string): void {'',
    ''  if (value === null || typeof value !== "object") {'',
    ''    throw new Error(`${name} must be a KeyToken, got ${value === null ? "null" : typeof value}`);'',
    ''  }'',
    ''  const token = value as Record<string, unknown>;'',
    ''  if (typeof token.id !== "number" || !Number.isInteger(token.id)) {'',
    ''    throw new Error(`${name}.id must be an integer, got ${typeof token.id === "number" ? token.id : typeof token.id}`);'',
    ''  }'',
    ''}'',
    [],
    ''function assertStringOrNull(value: unknown, name: string): void {'',
    ''  if (value !== null && typeof value !== "string") {'',
    ''    throw new Error(`${name} must be a string or null, got ${typeof value}`);'',
    ''  }'',
    ''}'',
    [],
    ''function assertExprInput(value: unknown, name: string): void {'',
    ''  if (value === null || typeof value !== "object") {'',
    ''    throw new Error(`${name} must be an ExprNode or ExprPlaceholder, got ${value === null ? "null" : typeof value}`);'',
    ''  }'',
    ''  const obj = value as Record<string, unknown>;'',
    ''  // ExprPlaceholder has __expr_id, ExprNode has op'',
    ''  if (typeof obj.__expr_id !== "number" && typeof obj.op !== "string") {'',
    ''    throw new Error(`${name} must be an ExprNode (with 'op') or ExprPlaceholder (with '__expr_id')`);'',
    ''  }'',
    ''}'',
    [],
    ''function assertPredInput(value: unknown, name: string): void {'',
    ''  if (value === null || typeof value !== "object") {'',
    ''    throw new Error(`${name} must be a PredNode or PredPlaceholder, got ${value === null ? "null" : typeof value}`);'',
    ''  }'',
    ''  const obj = value as Record<string, unknown>;'',
    ''  // PredPlaceholder has __pred_id, PredNode has op'',
    ''  if (typeof obj.__pred_id !== "number" && typeof obj.op !== "string") {'',
    ''    throw new Error(`${name} must be a PredNode (with 'op') or PredPlaceholder (with '__pred_id')`);'',
    ''  }'',
    ''}'',
    [],
    ''function assertCandidateSet(value: unknown, name: string): void {'',
    ''  if (value === null || typeof value !== "object") {'',
    ''    throw new Error(`${name} must be a CandidateSet, got ${value === null ? "null" : typeof value}`);'',
    ''  }'',
    ''  const obj = value as Record<string, unknown>;'',
    ''  if (typeof obj.getNodeId !== "function") {'',
    ''    throw new Error(`${name} must be a CandidateSet with 'getNodeId' method`);'',
    ''  }'',
    ''}'',
    [],
    ''function checkNoUndefined(obj: Record<string, unknown>, context: string): void {'',
    ''  for (const [key, value] of Object.entries(obj)) {'',
    ''    if (value === undefined) {'',
    ''      throw new Error(`${context}.${key} is undefined`);'',
    ''    }'',
    ''    // Recursively check nested objects (but not arrays)'',
    ''    if (typeof value === "object" && value !== null && !Array.isArray(value)) {'',
    ''      checkNoUndefined(value as Record<string, unknown>, `${context}.${key}`);'',
    ''    }'',
    ''  }'',
    ''}'',
    [],
    ''function assertEndpointId(value: unknown, name: string): void {'',
    ''  if (typeof value !== "string") {'',
    ''    throw new Error(`${name} must be a string (EndpointId), got ${typeof value}`);'',
    ''  }'',
    ''  if (!value.startsWith("ep_")) {'',
    ''    throw new Error(`${name} must start with "ep_", got "${value}"`);'',
    ''  }'',
    ''  if (value.length > 64) {'',
    ''    throw new Error(`${name} too long (max 64 chars), got ${value.length}`);'',
    ''  }'',
    ''}'',
    []]\<close>

definition implOptLine :: "TaskParamEntry \<Rightarrow> string" where
  \<open>implOptLine param = ''    '' @ tsName param @ (if \<not> tp_required param then ''?'' else []) @ '': '' @ paramTypeToTsType param @ '';''\<close>

text \<open>The checks of a parameter; only required parameters have any.\<close>

definition sourceCheckLines :: "string \<Rightarrow> TaskParamEntry \<Rightarrow> string list" where
  \<open>sourceCheckLines m param =
   (if \<not> tp_required param then [] else
    [''  assertNotUndefined(opts.'' @ tsName param @ '', "'' @ m @ ''({ '' @ tsName param @ '' })");''] @
    (if tp_type param = ''int'' then [''  assertInteger(opts.'' @ tsName param @ '', "'' @ m @ ''({ '' @ tsName param @ '' })");'']
     else if tp_type param = ''endpoint_ref'' then [''  assertEndpointId(opts.'' @ tsName param @ '', "'' @ m @ ''({ '' @ tsName param @ '' })");'']
     else []))\<close>

definition transformCheckLines :: "string \<Rightarrow> TaskParamEntry \<Rightarrow> string list" where
  \<open>transformCheckLines m param =
   (if \<not> tp_required param then [] else
    [''  assertNotUndefined(opts.'' @ tsName param @ '', "'' @ m @ ''({ '' @ tsName param @ '' })");''] @
    (if tp_name param = ''out_key'' \<or> tp_name param = ''by'' then [''  assertKeyToken(opts.'' @ tsName param @ '', "'' @ m @ ''({ '' @ tsName param @ '' })");'']
     else if tp_type param = ''int'' then [''  assertInteger(opts.'' @ tsName param @ '', "'' @ m @ ''({ '' @ tsName param @ '' })");'']
     else if tp_type param = ''node_ref'' then [''  assertCandidateSet(opts.'' @ tsName param @ '', "'' @ m @ ''({ '' @ tsName param @ '' })");'']
     else if tp_type param = ''endpoint_ref'' then [''  assertEndpointId(opts.'' @ tsName param @ '', "'' @ m @ ''({ '' @ tsName param @ '' })");'']
     else []))\<close>

definition hasTrace :: "TaskEntry \<Rightarrow> bool" where
  \<open>hasTrace task = list_ex (\<lambda>p. tp_name p = ''trace'') (te_params task)\<close>

definition traceLines :: "TaskEntry \<Rightarrow> string \<Rightarrow> string list" where
  \<open>traceLines task m =
   (if hasTrace task then
   [''  // Validate trace'',
    ''  if (opts.trace !== undefined) {'',
    ''    assertStringOrNull(opts.trace, "'' @ m @ ''({ trace })");'',
    ''  }'',
    []] else [])\<close>

definition sourceParamLine :: "TaskParamEntry \<Rightarrow> string" where
  \<open>sourceParamLine param =
   (if tp_name param = ''trace'' then ''    '' @ tp_name param @ '': opts.'' @ tsName param @ '' ?? null,''
    else ''    '' @ tp_name param @ '': opts.'' @ tsName param @ '','')\<close>

definition transformParamLine :: "TaskParamEntry \<Rightarrow> string" where
  \<open>transformParamLine param =
   (if tp_type param = ''expr_id'' then ''    '' @ tp_name param @ '': exprId,''
    else if tp_type param = ''pred_id'' then ''    '' @ tp_name param @ '': predId,''
    else if tp_type param = ''node_ref'' then ''    '' @ tp_name param @ '': opts.'' @ tsName param @ ''.getNodeId(),''
    else if tp_name param = ''out_key'' \<or> tp_name param = ''by'' then ''    '' @ tp_name param @ '': opts.'' @ tsName param @ ''.id,''
    else if tp_name param = ''trace'' then ''    '' @ tp_name param @ '': opts.'' @ tsName param @ '' ?? null,''
    else ''    '' @ tp_name param @ '': opts.'' @ tsName param @ '','')\<close>

definition exprLines :: "TaskEntry \<Rightarrow> string \<Rightarrow> string list" where
  \<open>exprLines task m =
   (case find (\<lambda>p. tp_type p = ''expr_id'') (te_params task) of None \<Rightarrow> [] | Some exprParam \<Rightarrow>
   [''  // Validate and handle expression table'',
    ''  assertExprInput(opts.'' @ tsName exprParam @ '', "'' @ m @ ''({ '' @ tsName exprParam @ '' })");'',
    ''  let exprId: string;'',
    ''  if (isExprPlaceholder(opts.'' @ tsName exprParam @ '')) {'',
    ''    // AST-extracted expression - use special prefix for later remapping'',
    ''    exprId = `__static_e${opts.'' @ tsName exprParam @ ''.__expr_id}`;'',
    ''  } else {'',
    ''    // Regular builder-style expression'',
    ''    exprId = ctx.addExpr(opts.'' @ tsName exprParam @ '' as ExprNode);'',
    ''  }'',
    []])\<close>

definition predLines :: "TaskEntry \<Rightarrow> string \<Rightarrow> string list" where
  \<open>predLines task m =
   (case find (\<lambda>p. tp_type p = ''pred_id'') (te_params task) of None \<Rightarrow> [] | Some predParam \<Rightarrow>
   [''  // Validate and handle predicate table'',
    ''  assertPredInput(opts.'' @ tsName predParam @ '', "'' @ m @ ''({ '' @ tsName predParam @ '' })");'',
    ''  let predId: string;'',
    ''  if (isPredPlaceholder(opts.'' @ tsName predParam @ '')) {'',
    ''    // AST-extracted predicate - use special prefix for later remapping'',
    ''    predId = `__static_p${opts.'' @ tsName predParam @ ''.__pred_id}`;'',
    ''  } else {'',
    ''    // Regular builder-style predicate'',
    ''    predId = ctx.addPred(opts.'' @ tsName predParam @ '' as PredNode);'',
    ''  }'',
    []])\<close>

definition sourceTaskLines :: "TaskEntry \<Rightarrow> string \<Rightarrow> string list" where
  \<open>sourceTaskLines task m =
   [''/** Implementation for '' @ te_op task @ '' */'',
    ''export function '' @ m @ ''Impl('',
    ''  ctx: TaskContext,'',
    ''  opts: {''] @ map implOptLine (te_params task) @
   [''    extensions?: Record<string, unknown>;'',
    ''  }'',
    ''): string {''] @
   [''  assertNotUndefined(opts, "'' @ m @ ''(opts)");''] @ concat (map (sourceCheckLines m) (te_params task)) @
   [''  const { extensions, ...rest } = opts;'',
    ''  checkNoUndefined(rest as Record<string, unknown>, "'' @ m @ ''(opts)");'',
    []] @ traceLines task m @
   [''  const params: Record<string, unknown> = {''] @ map sourceParamLine (te_params task) @
   [''  };'',
    []] @
   [''  return ctx.addNode("'' @ te_op task @ ''", [], params, extensions);'',
    ''}'',
    []]\<close>

definition transformTaskLines :: "TaskEntry \<Rightarrow> string \<Rightarrow> string list" where
  \<open>transformTaskLines task m =
   [''/** Implementation for '' @ te_op task @ '' */'',
    ''export function '' @ m @ ''Impl('',
    ''  ctx: TaskContext,'',
    ''  inputNodeId: string,'',
    ''  opts: {''] @ map implOptLine (te_params task) @
   [''    extensions?: Record<string, unknown>;'',
    ''  }'',
    ''): string {''] @
   [''  assertNotUndefined(opts, "'' @ m @ ''(opts)");''] @ concat (map (transformCheckLines m) (te_params task)) @
   [''  const { extensions, ...rest } = opts;'',
    ''  checkNoUndefined(rest as Record<string, unknown>, "'' @ m @ ''(opts)");'',
    []] @ traceLines task m @ exprLines task m @ predLines task m @
   [''  const params: Record<string, unknown> = {''] @ map transformParamLine (te_params task) @
   [''  };'',
    []] @
   [''  return ctx.addNode("'' @ te_op task @ ''", [inputNodeId], params, extensions);'',
    ''}'',
    []]\<close>

text \<open>The namespace of a task; \<open>core\<close> and no namespace fall together.\<close>

definition task_ns :: "TaskEntry \<times> string \<Rightarrow> string option" where
  \<open>task_ns tm = (case opToNamespace (te_op (fst tm)) of Some ns \<Rightarrow> if ns = ''core'' then None else Some ns | None \<Rightarrow> None)\<close>

definition coreTransform :: "(TaskEntry \<times> string) list \<Rightarrow> string list" where
  \<open>coreTransform tasks = map snd (filter (\<lambda>tm. task_ns tm = None) (transformTasks tasks))\<close>

definition tasksByNs :: "(TaskEntry \<times> string) list \<Rightarrow> (string \<times> string list) list" where
  \<open>tasksByNs tasks =
   map (\<lambda>(ns, tms). (ns, map snd tms)) (group_by (\<lambda>tm. the (task_ns tm)) (filter (\<lambda>tm. task_ns tm \<noteq> None) (transformTasks tasks)))\<close>

text \<open>The rows of \<open>GENERATED_TASKS\<close>; \<open>gt\<close> is the collation of \<open>localeCompare\<close>.\<close>

definition generated_tasks :: "(string \<Rightarrow> string \<Rightarrow> bool) \<Rightarrow> (TaskEntry \<times> string) list \<Rightarrow> (string \<times> string list) list" where
  \<open>generated_tasks gt tasks =
   [(''source'', map snd (sourceTasks tasks)), (''core'', coreTransform tasks)] @
   js_sort_by (\<lambda>a b. gt (fst a) (fst b)) (tasksByNs tasks)\<close>

definition generatedTasksLine :: "string \<times> string list \<Rightarrow> string" where
  \<open>generatedTasksLine row = (case row of (ns, methods) \<Rightarrow> ''  '' @ ns @ '': ['' @ join_with '', '' (map dq methods) @ ''],'')\<close>

definition generateTaskImplTs :: "(string \<Rightarrow> string \<Rightarrow> bool) \<Rightarrow> TaskRegistry \<Rightarrow> (gen_error, string) res" where
  \<open>generateTaskImplTs gt registry =
   bindR (named_tasks (tr_tasks registry)) (\<lambda>tasks. Inr (join_nl (
   taskImplHead @ endpointImportLine (tr_tasks registry) @ placeholderText @ taskContextText @ validationHelpersText @
   (if length (sourceTasks tasks) > 0 then
   [''// ====================================================='',
    ''// Source task implementations (for PlanCtx.viewer)'',
    ''// ====================================================='',
    []] @ concat (map (\<lambda>(task, m). sourceTaskLines task m) (sourceTasks tasks)) else []) @
   (if length (transformTasks tasks) > 0 then
   [''// ====================================================='',
    ''// Transform task implementations (for CandidateSet methods)'',
    ''// ====================================================='',
    []] @ concat (map (\<lambda>(task, m). transformTaskLines task m) (transformTasks tasks)) else []) @
   [''// ====================================================='',
    ''// Task metadata for runtime use'',
    ''// ====================================================='',
    []] @
   [''export const GENERATED_TASKS = {''] @ map generatedTasksLine (generated_tasks gt tasks) @
   [''} as const;'',
    []])))\<close>

end
