(* ===== verification/GenMonaco.thy ===== *)
theory GenMonaco
  imports GenTasks
begin

text \<open>
  \<open>dsl/src/codegen/gen-monaco.ts\<close>: the type declarations of the plan API that the visualizer's editor
  loads. As in the other generators, each printer is the list of lines that the code pushes.
\<close>

section \<open>Option types\<close>

text \<open>There is no case for \<open>endpoint_ref\<close>.\<close>

definition monacoType :: "TaskParamEntry \<Rightarrow> string" where
  \<open>monacoType param =
   (let type = tp_type param;
        tsType =
          (if type = ''int'' then (if tp_name param = ''out_key'' \<or> tp_name param = ''by'' then ''KeyToken'' else ''number'')
           else if type = ''float'' then ''number''
           else if type = ''bool'' then ''boolean''
           else if type = ''string'' then ''string''
           else if type = ''expr_id'' then ''ExprNode | number''
           else if type = ''pred_id'' then ''PredNode''
           else if type = ''node_ref'' then ''CandidateSet''
           else ''unknown'')
    in if tp_nullable param then tsType @ '' | null'' else tsType)\<close>

definition monacoPart :: "TaskParamEntry \<Rightarrow> string" where
  \<open>monacoPart param = tsName param @ (if \<not> tp_required param then ''?'' else []) @ '': '' @ monacoType param\<close>

definition generateMonacoOptsType :: "TaskEntry \<Rightarrow> string" where
  \<open>generateMonacoOptsType task =
   (let parts = map monacoPart (filter (\<lambda>param. tp_name param \<noteq> ''trace'') (te_params task)) @ [''trace?: string''] in
    ''{ '' @ join_with ''; '' parts @ '' }'')\<close>

section \<open>monaco-types.ts\<close>

definition monacoHead :: "string list" where
  \<open>monacoHead =
   [''// AUTO-GENERATED from registries - DO NOT EDIT'',
    ''// Generated by dsl/src/codegen.ts from registry/*.toml'',
    ''// Regenerate with: pnpm -C dsl run gen'',
    [],
    ''/**'',
    '' * Monaco-compatible type definitions for the Ranking DSL.'',
    '' * Use with monaco.languages.typescript.typescriptDefaults.addExtraLib()'',
    '' */'',
    ''export const DSL_TYPES = `'',
    ''declare module '@ranking-dsl/runtime' {'',
    ''  // ====================================================='',
    ''  // Token types'',
    ''  // ====================================================='',
    [],
    ''  export interface KeyToken {'',
    ''    readonly kind: 'Key';'',
    ''    readonly id: number;'',
    ''    readonly name: string;'',
    ''    // Natural expression support: Key.x * 10, Key.x + Key.y'',
    ''    // These are compile-time only - the compiler extracts them via AST'',
    ''    valueOf(): number;'',
    ''  }'',
    [],
    ''  export interface ParamToken {'',
    ''    readonly kind: 'Param';'',
    ''    readonly id: number;'',
    ''    readonly name: string;'',
    ''    // Natural expression support: P.weight * 0.5'',
    ''    valueOf(): number;'',
    ''  }'',
    [],
    ''  /**'',
    ''   * Branded EndpointId type for type-safe endpoint references.'',
    ''   * Use EP.redis.* or EP.http.* to get valid endpoint IDs.'',
    ''   */'']\<close>

definition monacoExprTypes :: "string list" where
  \<open>monacoExprTypes =
   [''  export type EndpointId = string & { readonly __brand: 'EndpointId' };'',
    [],
    ''  // ====================================================='',
    ''  // Expression types'',
    ''  // ====================================================='',
    [],
    ''  export type ExprNode ='',
    ''    | { op: 'const_number'; value: number }'',
    ''    | { op: 'const_null' }'',
    ''    | { op: 'key_ref'; key_id: number }'',
    ''    | { op: 'param_ref'; param_id: number }'',
    ''    | { op: 'add'; a: ExprNode; b: ExprNode }'',
    ''    | { op: 'sub'; a: ExprNode; b: ExprNode }'',
    ''    | { op: 'mul'; a: ExprNode; b: ExprNode }'',
    ''    | { op: 'neg'; x: ExprNode }'',
    ''    | { op: 'coalesce'; a: ExprNode; b: ExprNode };'',
    [],
    ''  // ====================================================='',
    ''  // Predicate types'',
    ''  // ====================================================='',
    [],
    ''  export type PredNode ='',
    ''    | { op: 'const_bool'; value: boolean }'',
    ''    | { op: 'and'; a: PredNode; b: PredNode }'',
    ''    | { op: 'or'; a: PredNode; b: PredNode }'',
    ''    | { op: 'not'; x: PredNode }'',
    ''    | { op: 'cmp'; cmp: '==' | '!=' | '<' | '<=' | '>' | '>='; a: ExprNode; b: ExprNode }'',
    ''    | { op: 'in'; lhs: ExprNode; list: (number | string)[] }'',
    ''    | { op: 'is_null'; x: ExprNode }'',
    ''    | { op: 'not_null'; x: ExprNode }'',
    ''    | { op: 'regex'; key_id: number; pattern: { kind: 'literal'; value: string } | { kind: 'param'; param_id: number }; flags: string };'']\<close>

definition monacoBuilders :: "string list" where
  \<open>monacoBuilders =
   [[],
    ''  // ====================================================='',
    ''  // Expression builder (E)'',
    ''  // ====================================================='',
    [],
    ''  export const E: {'',
    ''    const(value: number): ExprNode;'',
    ''    constNull(): ExprNode;'',
    ''    key(token: KeyToken): ExprNode;'',
    ''    param(token: ParamToken): ExprNode;'',
    ''    add(a: ExprNode, b: ExprNode): ExprNode;'',
    ''    sub(a: ExprNode, b: ExprNode): ExprNode;'',
    ''    mul(a: ExprNode, b: ExprNode): ExprNode;'',
    ''    neg(a: ExprNode): ExprNode;'',
    ''    coalesce(a: ExprNode, b: ExprNode): ExprNode;'',
    ''  };'',
    [],
    ''  // ====================================================='',
    ''  // Predicate builder (Pred)'',
    ''  // ====================================================='',
    [],
    ''  export const Pred: {'',
    ''    constBool(value: boolean): PredNode;'',
    ''    and(a: PredNode, b: PredNode): PredNode;'',
    ''    or(a: PredNode, b: PredNode): PredNode;'',
    ''    not(x: PredNode): PredNode;'',
    ''    cmp(op: '==' | '!=' | '<' | '<=' | '>' | '>=', a: ExprNode, b: ExprNode): PredNode;'',
    ''    in(lhs: ExprNode, list: (number | string)[]): PredNode;'',
    ''    isNull(a: ExprNode): PredNode;'',
    ''    notNull(a: ExprNode): PredNode;'',
    ''    regex(key: KeyToken, pattern: string | ParamToken, flags?: '' @ [CHR 0x27] @ [CHR 0x27] @ '' | 'i'): PredNode;'',
    ''  };'',
    [],
    ''  // ====================================================='',
    ''  // Plan context and CandidateSet'',
    ''  // ====================================================='',
    []]\<close>

text \<open>\<open>coreSourceTasks\<close> and \<open>coreTransformTasks\<close>, and the maps of the other namespaces.\<close>

definition core_only :: "(TaskEntry \<times> string) list \<Rightarrow> (TaskEntry \<times> string) list" where
  \<open>core_only tasks = filter (\<lambda>tm. task_ns tm = None) tasks\<close>

definition byNamespace :: "(TaskEntry \<times> string) list \<Rightarrow> (string \<times> (TaskEntry \<times> string) list) list" where
  \<open>byNamespace tasks = group_by (\<lambda>tm. the (task_ns tm)) (filter (\<lambda>tm. task_ns tm \<noteq> None) tasks)\<close>

definition methodLine :: "TaskEntry \<times> string \<Rightarrow> string" where
  \<open>methodLine tm = ''    '' @ snd tm @ ''(opts: '' @ generateMonacoOptsType (fst tm) @ ''): CandidateSet;''\<close>

text \<open>\<open>suffix\<close> is \<open>SourceTasks\<close> or \<open>Tasks\<close>.\<close>

definition nsInterface :: "string \<Rightarrow> string \<times> (TaskEntry \<times> string) list \<Rightarrow> string list" where
  \<open>nsInterface suffix entry =
   (case entry of (ns, nsTasks) \<Rightarrow>
    [''  export interface '' @ capitalize ns @ suffix @ '' {''] @ map methodLine nsTasks @
   [''  }'',
    []])\<close>

definition nsMember :: "string \<Rightarrow> string \<Rightarrow> string" where
  \<open>nsMember suffix ns = ''    '' @ ns @ '': '' @ capitalize ns @ suffix @ '';''\<close>

text \<open>\<open>Array.from(m.entries()).sort((a, b) => a[0].localeCompare(b[0]))\<close>; \<open>gt\<close> is the collation.\<close>

definition sortedEntries :: "(string \<Rightarrow> string \<Rightarrow> bool) \<Rightarrow> (string \<times> 'a list) list \<Rightarrow> (string \<times> 'a list) list" where
  \<open>sortedEntries gt m = js_sort_by (\<lambda>a b. gt (fst a) (fst b)) m\<close>

text \<open>\<open>Array.from(m.keys()).sort()\<close>.\<close>

definition sortedKeys :: "(string \<times> 'a list) list \<Rightarrow> string list" where
  \<open>sortedKeys m = js_sort_by (\<lambda>x y. x > y) (map fst m)\<close>

definition planCtxInterface :: "(TaskEntry \<times> string) list \<Rightarrow> string list" where
  \<open>planCtxInterface sources =
   [''  export interface PlanCtx {''] @ map methodLine (core_only sources) @
   map (nsMember ''SourceTasks'') (sortedKeys (byNamespace sources)) @
   [''    requireCapability(capId: string, payload?: unknown): void;'',
    ''  }'',
    []]\<close>

definition candidateSetInterface :: "(TaskEntry \<times> string) list \<Rightarrow> string list" where
  \<open>candidateSetInterface transforms =
   [''  export interface CandidateSet {''] @ map methodLine (core_only transforms) @
   map (nsMember ''Tasks'') (sortedKeys (byNamespace transforms)) @
   [''  }'',
    []]\<close>

definition monacoPlanConfig :: "string list" where
  \<open>monacoPlanConfig =
   [''  export interface PlanConfig {'',
    ''    name: string;'',
    ''    build: (ctx: PlanCtx) => CandidateSet;'',
    ''  }'',
    [],
    ''  export function definePlan(config: PlanConfig): void;'',
    [],
    ''  /**'',
    ''   * Coalesce function for null handling in natural expressions.'',
    ''   * Usage: Key.score * coalesce(P.weight, 0.2)'',
    ''   * Extracted by the compiler at compile-time.'',
    ''   */'',
    ''  export function coalesce(a: KeyToken | ParamToken | number | null, b: KeyToken | ParamToken | number): number;'',
    []]\<close>

text \<open>One kind of the \<open>EP\<close> object; the names are printed as they are.\<close>

definition epBlock :: "string \<Rightarrow> string \<Rightarrow> string \<times> EndpointEntry list \<Rightarrow> string list" where
  \<open>epBlock indent type entry =
   (case entry of (kind, eps) \<Rightarrow>
    [indent @ ''readonly '' @ kind @ '': {''] @
    map (\<lambda>ep. indent @ ''  readonly '' @ ee_name ep @ '': '' @ type @ '';'') eps @
    [indent @ ''};''])\<close>

definition monacoRegistries :: "(string \<Rightarrow> string \<Rightarrow> bool) \<Rightarrow> KeyEntry list \<Rightarrow> ParamEntry list \<Rightarrow> EndpointEntry list \<Rightarrow> string list" where
  \<open>monacoRegistries gt keys params endpoints =
   [''  // ====================================================='',
    ''  // Key registry (generated from keys.toml)'',
    ''  // ====================================================='',
    [],
    ''  export const Key: {''] @ map (\<lambda>k. ''    readonly '' @ ke_name k @ '': KeyToken;'') keys @
   [''  };'',
    []] @
   [''  // ====================================================='',
    ''  // Param registry (generated from params.toml)'',
    ''  // ====================================================='',
    [],
    ''  export const P: {''] @ map (\<lambda>p. ''    readonly '' @ pe_name p @ '': ParamToken;'') params @
   [''  };'',
    []] @
   [''  // ====================================================='',
    ''  // Endpoint registry (generated from endpoints.*.toml)'',
    ''  // ====================================================='',
    [],
    ''  export const EP: {''] @ concat (map (epBlock ''    '' ''EndpointId'') (sortedEntries gt (group_by ee_kind endpoints))) @
   [''  };'',
    ''}'',
    []]\<close>

definition monacoGlobals :: "(string \<Rightarrow> string \<Rightarrow> bool) \<Rightarrow> KeyEntry list \<Rightarrow> ParamEntry list \<Rightarrow> EndpointEntry list \<Rightarrow> string list" where
  \<open>monacoGlobals gt keys params endpoints =
   [''// ====================================================='',
    ''// Global declarations (injected by compiler)'',
    ''// ====================================================='',
    [],
    ''type _KeyToken = import('@ranking-dsl/runtime').KeyToken;'',
    ''type _ParamToken = import('@ranking-dsl/runtime').ParamToken;'',
    ''type _PredNode = import('@ranking-dsl/runtime').PredNode;'',
    ''type _EndpointId = import('@ranking-dsl/runtime').EndpointId;'',
    []] @
   [''declare const Key: {''] @ map (\<lambda>k. ''  readonly '' @ ke_name k @ '': _KeyToken;'') keys @
   [''};'',
    []] @
   [''declare const P: {''] @ map (\<lambda>p. ''  readonly '' @ pe_name p @ '': _ParamToken;'') params @
   [''};'',
    []] @
   [''declare const EP: {''] @ concat (map (epBlock ''  '' ''_EndpointId'') (sortedEntries gt (group_by ee_kind endpoints))) @
   [''};'',
    [],
    ''declare function coalesce(a: _KeyToken | _ParamToken | number | null, b: _KeyToken | _ParamToken | number): number;'',
    [],
    ''declare function regex(key: _KeyToken, pattern: string | _ParamToken, flags?: '' @ [CHR 0x27] @ [CHR 0x27] @ '' | 'i'): _PredNode;'',
    ''`;'',
    []]\<close>

definition generateMonacoTypes :: "(string \<Rightarrow> string \<Rightarrow> bool) \<Rightarrow> KeyEntry list \<Rightarrow> ParamEntry list \<Rightarrow> TaskRegistry \<Rightarrow> EndpointEntry list \<Rightarrow> (gen_error, string) res" where
  \<open>generateMonacoTypes gt keys params tasks endpoints =
   bindR (named_tasks (tr_tasks tasks)) (\<lambda>named.
   let sources = sourceTasks named; transforms = transformTasks named in Inr (join_nl (
   monacoHead @ monacoExprTypes @ monacoBuilders @
   concat (map (nsInterface ''SourceTasks'') (sortedEntries gt (byNamespace sources))) @
   concat (map (nsInterface ''Tasks'') (sortedEntries gt (byNamespace transforms))) @
   planCtxInterface sources @ candidateSetInterface transforms @ monacoPlanConfig @
   monacoRegistries gt keys params endpoints @ monacoGlobals gt keys params endpoints)))\<close>


text \<open>An endpoint option has no type of its own in the editor.\<close>

lemma endpoint_ref_untyped:
  "tp_type param = ''endpoint_ref'' \<Longrightarrow> monacoType param = (if tp_nullable param then ''unknown | null'' else ''unknown'')"
  by (simp add: monacoType_def)

end
