(* ===== verification/CodegenMain.thy ===== *)
theory CodegenMain
  imports RegistryParsers CodegenUtils JsonText FileTree GenTs GenCpp GenMonaco
begin

text \<open>
  \<open>dsl/src/codegen.ts\<close>: reads the registries, computes canonical JSON and digests, and either writes
  all generated files or checks that those on disk are up to date. SHA-256 (\<open>sha\<close>), the collation
  (\<open>gt\<close>) and the program \<open>clang-format\<close> (\<open>clang\<close>) are arguments.
\<close>

section \<open>Entries as the objects the parsers return\<close>

definition opt_num :: "jnum option \<Rightarrow> jsval" where
  "opt_num x = (case x of None \<Rightarrow> JNull | Some n \<Rightarrow> JNum n)"

definition keyJson :: "KeyEntry \<Rightarrow> jsval" where
  "keyJson k = JObj [(''key_id'', JNum (ke_key_id k)), (''name'', JStr (ke_name k)), (''type'', JStr (ke_type k)),
     (''nullable'', JBool (ke_nullable k)), (''doc'', JStr (ke_doc k)), (''status'', JStr (ke_status k)),
     (''allow_read'', JBool (ke_allow_read k)), (''allow_write'', JBool (ke_allow_write k)),
     (''replaced_by'', opt_num (ke_replaced_by k)), (''default'', ke_default k)]"

definition paramJson :: "ParamEntry \<Rightarrow> jsval" where
  "paramJson p = JObj [(''param_id'', JNum (pe_param_id p)), (''name'', JStr (pe_name p)), (''type'', JStr (pe_type p)),
     (''nullable'', JBool (pe_nullable p)), (''doc'', JStr (pe_doc p)), (''status'', JStr (pe_status p)),
     (''allow_read'', JBool (pe_allow_read p)), (''allow_write'', JBool (pe_allow_write p)),
     (''replaced_by'', opt_num (pe_replaced_by p))]"

definition featureJson :: "FeatureEntry \<Rightarrow> jsval" where
  "featureJson f = JObj [(''feature_id'', JNum (fe_feature_id f)), (''stage'', JStr (fe_stage f)), (''name'', JStr (fe_name f)),
     (''type'', JStr (fe_type f)), (''nullable'', JBool (fe_nullable f)), (''status'', JStr (fe_status f)), (''doc'', JStr (fe_doc f))]"

definition capabilityJson :: "CapabilityEntry \<Rightarrow> jsval" where
  "capabilityJson c = JObj [(''id'', JStr (ce_id c)), (''rfc'', JStr (ce_rfc c)), (''name'', JStr (ce_name c)),
     (''status'', JStr (ce_status c)), (''doc'', JStr (ce_doc c)), (''payload_schema'', ce_payload_schema c)]"

definition validationJson :: "ValidationRules \<Rightarrow> (string \<times> jsval) list" where
  "validationJson v = [(''schema_version'', JNum (vr_schema_version v)),
     (''patterns'', JObj (map (\<lambda>(k, s). (k, JStr s)) (vr_patterns v))),
     (''limits'', JObj (map (\<lambda>(k, n). (k, JNum n)) (vr_limits v))),
     (''enums'', JObj (map (\<lambda>(k, ss). (k, JArr (map JStr ss))) (vr_enums v)))]"

definition taskParamJson :: "TaskParamEntry \<Rightarrow> jsval" where
  "taskParamJson p = JObj [(''name'', JStr (tp_name p)), (''type'', JStr (tp_type p)), (''required'', JBool (tp_required p)),
     (''nullable'', JBool (tp_nullable p)), (''endpoint_kind'', case tp_endpoint_kind p of None \<Rightarrow> JUndef | Some s \<Rightarrow> JStr s)]"

definition taskJson :: "TaskEntry \<Rightarrow> jsval" where
  "taskJson t = JObj [(''op'', JStr (te_op t)), (''output_pattern'', JStr (te_output_pattern t)),
     (''params'', JArr (map taskParamJson (te_params t))), (''writes_effect'', te_writes_effect t)]"

text \<open>Policy fields are assigned only when present.\<close>

definition policyJson :: "EndpointPolicy \<Rightarrow> jsval" where
  "policyJson p = JObj (List.map_filter (\<lambda>(k, x). map_option (\<lambda>n. (k, JNum n)) x)
     [(''max_inflight'', ep_max_inflight p), (''connect_timeout_ms'', ep_connect_timeout_ms p),
      (''request_timeout_ms'', ep_request_timeout_ms p)])"

definition endpointJson :: "EndpointEntry \<Rightarrow> jsval" where
  "endpointJson e = JObj [(''endpoint_id'', JStr (ee_endpoint_id e)), (''name'', JStr (ee_name e)), (''kind'', JStr (ee_kind e)),
     (''resolver'', JObj [(''type'', JStr (sr_type (ee_resolver e))), (''host'', JStr (sr_host (ee_resolver e))),
        (''port'', JNum (sr_port (ee_resolver e)))]),
     (''policy'', policyJson (ee_policy e))]"

section \<open>Canonical JSON and digests\<close>

record registries =
  rg_keys :: "KeyEntry list"
  rg_params :: "ParamEntry list"
  rg_features :: "FeatureEntry list"
  rg_validation :: ValidationRules
  rg_capabilities :: "CapabilityEntry list"
  rg_tasks :: TaskRegistry
  rg_endpoints :: EndpointRegistries

definition withVersion :: "(string \<times> jsval) list \<Rightarrow> jsval" where
  "withVersion kvs = JObj ((''schema_version'', JNum (jint 1)) # kvs)"

definition keysCanonical :: "registries \<Rightarrow> jsval" where
  "keysCanonical r = withVersion [(''entries'', JArr (map keyJson (rg_keys r)))]"

definition paramsCanonical :: "registries \<Rightarrow> jsval" where
  "paramsCanonical r = withVersion [(''entries'', JArr (map paramJson (rg_params r)))]"

definition featuresCanonical :: "registries \<Rightarrow> jsval" where
  "featuresCanonical r = withVersion [(''entries'', JArr (map featureJson (rg_features r)))]"

text \<open>\<open>{ schema_version: 1, ...validation }\<close>: the spread overwrites in place.\<close>

definition validationCanonical :: "registries \<Rightarrow> jsval" where
  "validationCanonical r =
     JObj (foldl (\<lambda>o' (k, v). alist_set k v o') [(''schema_version'', JNum (jint 1))] (validationJson (rg_validation r)))"

definition capabilitiesCanonical :: "registries \<Rightarrow> jsval" where
  "capabilitiesCanonical r = withVersion [(''entries'', JArr (map capabilityJson (rg_capabilities r)))]"

definition tasksCanonical :: "registries \<Rightarrow> jsval" where
  "tasksCanonical r = withVersion [(''tasks'', JArr (map taskJson (tr_tasks (rg_tasks r))))]"

text \<open>Only what all environments share.\<close>

definition endpointIdentity :: "EndpointEntry \<Rightarrow> jsval" where
  "endpointIdentity e = JObj [(''endpoint_id'', JStr (ee_endpoint_id e)), (''name'', JStr (ee_name e)), (''kind'', JStr (ee_kind e))]"

definition endpointRegistryCanonical :: "EndpointEntry list \<Rightarrow> jsval" where
  "endpointRegistryCanonical es = withVersion [(''entries'', JArr (map endpointIdentity es))]"

definition buildEndpointJson :: "(string \<Rightarrow> string) \<Rightarrow> string \<Rightarrow> EndpointEntry list \<Rightarrow> string \<Rightarrow> (stringify_error, jsval) res" where
  "buildEndpointJson sha registryDigest envEndpoints env =
     bindR (computeDigest sha (withVersion [(''endpoints'', JArr (map endpointJson envEndpoints))])) (\<lambda>configDigest.
     Inr (withVersion [(''env'', JStr env), (''registry_digest'', JStr registryDigest), (''config_digest'', JStr configDigest),
       (''endpoints'', JArr (map endpointJson envEndpoints))]))"

section \<open>Outputs\<close>

datatype codegen_error = RegistryError reg_error | DigestError stringify_error | JsonError dsl_error | GenError gen_error

definition mapE :: "('e \<Rightarrow> 'f) \<Rightarrow> ('e, 'a) res \<Rightarrow> ('f, 'a) res" where
  "mapE f r = (case r of Inl e \<Rightarrow> Inl (f e) | Inr x \<Rightarrow> Inr x)"

definition readRegistries :: "reg_env \<Rightarrow> string \<Rightarrow> (reg_error, registries) res" where
  "readRegistries env repoRoot =
     bindR (parseKeys env (repoRoot @ ''/registry/keys.toml'')) (\<lambda>keys.
     bindR (parseParams env (repoRoot @ ''/registry/params.toml'')) (\<lambda>params.
     bindR (parseFeatures env (repoRoot @ ''/registry/features.toml'')) (\<lambda>features.
     bindR (parseValidation env (repoRoot @ ''/registry/validation.toml'')) (\<lambda>validation.
     bindR (parseCapabilities env (repoRoot @ ''/registry/capabilities.toml'')) (\<lambda>capabilities.
     bindR (parseTasks env (repoRoot @ ''/registry/tasks.toml'')) (\<lambda>tasks.
     bindR (parseEndpoints env (repoRoot @ ''/registry'')) (\<lambda>endpoints.
     Inr \<lparr> rg_keys = keys, rg_params = params, rg_features = features, rg_validation = validation,
           rg_capabilities = capabilities, rg_tasks = tasks, rg_endpoints = endpoints \<rparr>)))))))"

text \<open>The paths of the files that \<open>gen-ts\<close>, \<open>gen-monaco\<close> and \<open>gen-cpp\<close> print, in order.\<close>

definition generatedPaths :: "string list" where
  "generatedPaths =
     [''dsl/packages/generated/keys.ts'', ''dsl/packages/generated/params.ts'', ''dsl/packages/generated/features.ts'',
      ''dsl/packages/generated/validation.ts'', ''dsl/packages/generated/capabilities.ts'', ''dsl/packages/generated/endpoints.ts'',
      ''dsl/packages/generated/tasks.ts'', ''dsl/packages/generated/task-impl.ts'', ''dsl/packages/generated/monaco-types.ts'',
      ''dsl/packages/generated/index.ts'', ''plan-globals.d.ts'',
      ''engine/include/key_registry.h'', ''engine/include/param_registry.h'', ''engine/include/feature_registry.h'',
      ''engine/include/validation.h'', ''engine/include/capability_registry_gen.h'']"

text \<open>The texts of these files; \<open>ds\<close> are the digests of keys, params, features, validation, capabilities and endpoints.\<close>

definition generatedTexts :: "(string \<Rightarrow> string \<Rightarrow> bool) \<Rightarrow> (string \<Rightarrow> string option) \<Rightarrow> registries \<Rightarrow> string list \<Rightarrow>
    (gen_error, string) res list" where
  "generatedTexts gt clang r ds =
     [Inr (generateKeysTs (rg_keys r) (ds ! 0)),
      Inr (generateParamsTs (rg_params r) (ds ! 1)),
      Inr (generateFeaturesTs (rg_features r) (ds ! 2)),
      Inr (generateValidationTs (rg_validation r) (ds ! 3)),
      generateCapabilitiesTs (rg_capabilities r) (ds ! 4),
      generateEndpointsTs gt (er_dev (rg_endpoints r)) (ds ! 5),
      generateTasksTs (rg_tasks r),
      generateTaskImplTs gt (rg_tasks r),
      generateMonacoTypes gt (rg_keys r) (rg_params r) (rg_tasks r) (er_dev (rg_endpoints r)),
      Inr generateIndexTs,
      Inr generatePlanGlobalsDts,
      bindR (generateKeysH (rg_keys r) (ds ! 0)) (formatCpp clang),
      formatCpp clang (generateParamsH (rg_params r) (ds ! 1)),
      formatCpp clang (generateFeaturesH (rg_features r) (ds ! 2)),
      bindR (generateValidationH (rg_validation r) (ds ! 3)) (formatCpp clang),
      bindR (generateCapabilitiesH (rg_capabilities r) (ds ! 4)) (formatCpp clang)]"

definition outputs :: "(string \<Rightarrow> string \<Rightarrow> bool) \<Rightarrow> (string \<Rightarrow> string) \<Rightarrow> (string \<Rightarrow> string option) \<Rightarrow> registries \<Rightarrow> (codegen_error, (string \<times> string) list) res" where
  "outputs gt sha clang r =
     bindR (mapE DigestError (mapR (computeDigest sha)
       [keysCanonical r, paramsCanonical r, featuresCanonical r, validationCanonical r, capabilitiesCanonical r,
        endpointRegistryCanonical (er_dev (rg_endpoints r))])) (\<lambda>digests.
     bindR (mapE DigestError (mapR (\<lambda>(es, env). buildEndpointJson sha (digests ! 5) es env)
       [(er_dev (rg_endpoints r), ''dev''), (er_test (rg_endpoints r), ''test''), (er_prod (rg_endpoints r), ''prod'')])) (\<lambda>endpoints.
     bindR (mapE JsonError (mapR (\<lambda>(path, v). bindR (json_file v) (\<lambda>t. Inr (path, t)))
       [(''artifacts/keys.json'', keysCanonical r), (''artifacts/params.json'', paramsCanonical r),
        (''artifacts/features.json'', featuresCanonical r), (''artifacts/capabilities.json'', capabilitiesCanonical r),
        (''artifacts/endpoints.dev.json'', endpoints ! 0), (''artifacts/endpoints.test.json'', endpoints ! 1),
        (''artifacts/endpoints.prod.json'', endpoints ! 2), (''artifacts/tasks.json'', tasksCanonical r)])) (\<lambda>jsons.
     bindR (mapE GenError (mapR (\<lambda>t. t) (generatedTexts gt clang r digests))) (\<lambda>texts.
     Inr (jsons @
       [(''artifacts/keys.digest'', digests ! 0 @ [newline]), (''artifacts/params.digest'', digests ! 1 @ [newline]),
        (''artifacts/features.digest'', digests ! 2 @ [newline]), (''artifacts/capabilities.digest'', digests ! 4 @ [newline]),
        (''artifacts/endpoints.digest'', digests ! 5 @ [newline])] @
       zip generatedPaths texts)))))"

section \<open>Check mode and write mode\<close>

datatype sync_report = Missing string | OutOfSync string

text \<open>One round of the check loop; reading a directory raises.\<close>

definition checkFile :: "path \<Rightarrow> file_tree \<Rightarrow> string \<times> string \<Rightarrow> (unit, sync_report list) res" where
  "checkFile repoRoot fs out =
     (case out of (relPath, content) \<Rightarrow>
        if lookup (resolve repoRoot relPath) fs = None then Inr [Missing relPath]
        else (case readFile fs (resolve repoRoot relPath) of
                None \<Rightarrow> Inl ()
              | Some existing \<Rightarrow> Inr (if existing \<noteq> content then [OutOfSync relPath] else [])))"

text \<open>The write loop: it stops at the first file that cannot be written.\<close>

fun writeOutputs :: "path \<Rightarrow> (string \<times> string) list \<Rightarrow> file_tree \<Rightarrow> bool \<times> file_tree" where
  "writeOutputs repoRoot [] fs = (True, fs)"
| "writeOutputs repoRoot ((relPath, content) # outs) fs =
     (case writeFile content (resolve repoRoot relPath) fs of
        None \<Rightarrow> (False, fs)
      | Some fs' \<Rightarrow> writeOutputs repoRoot outs fs')"

definition onDisk :: "file_tree \<Rightarrow> reg_env \<Rightarrow> reg_env" where
  "onDisk fs env = env\<lparr> re_read := (\<lambda>p. readFile fs (resolve [] p)) \<rparr>"

definition codegen_main :: "reg_env \<Rightarrow> (string \<Rightarrow> string) \<Rightarrow> (string \<Rightarrow> string option) \<Rightarrow> path \<Rightarrow> string list \<Rightarrow> file_tree \<Rightarrow> nat \<times> file_tree" where
  "codegen_main env sha clang repoRoot args fs =
     (case bindR (mapE RegistryError (readRegistries (onDisk fs env) (path_text repoRoot))) (outputs (re_locale_gt env) sha clang) of
        Inl e \<Rightarrow> (1, fs)
      | Inr outs \<Rightarrow>
          if ''--check'' \<in> set args then
            (case mapR (checkFile repoRoot fs) outs of
               Inl _ \<Rightarrow> (1, fs)
             | Inr reports \<Rightarrow> (if concat reports \<noteq> [] then 1 else 0, fs))
          else (case writeOutputs repoRoot outs fs of (ok, fs') \<Rightarrow> (if ok then 0 else 1, fs')))"

section \<open>What is read and what is written\<close>

text \<open>Two environments that differ in the file system only, and not in the file \<open>p\<close>.\<close>

definition same_but_files :: "reg_env \<Rightarrow> reg_env \<Rightarrow> bool" where
  "same_but_files e e' \<longleftrightarrow> re_toml e = re_toml e' \<and> re_json e = re_json e' \<and> re_locale_gt e = re_locale_gt e'"

lemma same_but_filesD:
  assumes "same_but_files e e'"
  shows "re_toml e = re_toml e'" and "re_json e = re_json e'" and "re_locale_gt e = re_locale_gt e'"
  using assms by (simp_all add: same_but_files_def)

lemma loadToml_same:
  assumes "same_but_files e e'" and "re_read e p = re_read e' p"
  shows "loadToml e p w = loadToml e' p w"
  unfolding loadToml_def assms(2) same_but_filesD [OF assms(1)] ..

lemma parse_rows_same:
  assumes "same_but_files e e'"
  shows "parseTaskRow e = parseTaskRow e'" and "addCapability e = addCapability e'"
  unfolding fun_eq_iff parseTaskRow_def addCapability_def parseCapabilityRow_def payloadSchema_def same_but_filesD [OF assms]
  by blast+

lemma parse_same:
  assumes "same_but_files e e'" and "re_read e p = re_read e' p"
  shows "parseKeys e p = parseKeys e' p" and "parseParams e p = parseParams e' p" and "parseFeatures e p = parseFeatures e' p"
    and "parseValidation e p = parseValidation e' p" and "parseEndpointFile e p n = parseEndpointFile e' p n"
    and "parseCapabilities e p = parseCapabilities e' p" and "parseTasks e p = parseTasks e' p"
  by (simp_all only: parseKeys_def parseParams_def parseFeatures_def parseValidation_def parseEndpointFile_def
      parseCapabilities_def parseTasks_def loadToml_same [OF assms] parse_rows_same [OF assms(1)] same_but_filesD [OF assms(1)])

text \<open>The files the registries are read from.\<close>

definition registryFiles :: "string list" where
  "registryFiles = [''registry/keys.toml'', ''registry/params.toml'', ''registry/features.toml'', ''registry/validation.toml'',
     ''registry/capabilities.toml'', ''registry/tasks.toml'', ''registry/endpoints.dev.toml'', ''registry/endpoints.test.toml'',
     ''registry/endpoints.prod.toml'']"

lemma readRegistries_same:
  assumes "same_but_files e e'" and "list_all (\<lambda>p. re_read e (d @ ''/'' @ p) = re_read e' (d @ ''/'' @ p)) registryFiles"
  shows "readRegistries e d = readRegistries e' d"
proof -
  note same = parse_same [OF assms(1)]
  from assms(2) have r: "p \<in> set registryFiles \<Longrightarrow> re_read e (d @ ''/'' @ p) = re_read e' (d @ ''/'' @ p)" for p
    by (auto simp: list_all_iff)
  have ep: "parseEndpoints e (d @ ''/registry'') = parseEndpoints e' (d @ ''/registry'')"
    unfolding parseEndpoints_def
    using same(5) [OF r [of "''registry/endpoints.dev.toml''"]] same(5) [OF r [of "''registry/endpoints.test.toml''"]]
      same(5) [OF r [of "''registry/endpoints.prod.toml''"]] by (simp add: registryFiles_def)
  show ?thesis
    unfolding readRegistries_def ep
    using same(1) [OF r [of "''registry/keys.toml''"]] same(2) [OF r [of "''registry/params.toml''"]]
      same(3) [OF r [of "''registry/features.toml''"]] same(4) [OF r [of "''registry/validation.toml''"]]
      same(6) [OF r [of "''registry/capabilities.toml''"]] same(7) [OF r [of "''registry/tasks.toml''"]]
    by (simp add: registryFiles_def)
qed

definition outputPaths :: "string list" where
  "outputPaths = [''artifacts/keys.json'', ''artifacts/params.json'', ''artifacts/features.json'', ''artifacts/capabilities.json'',
     ''artifacts/endpoints.dev.json'', ''artifacts/endpoints.test.json'', ''artifacts/endpoints.prod.json'', ''artifacts/tasks.json'',
     ''artifacts/keys.digest'', ''artifacts/params.digest'', ''artifacts/features.digest'', ''artifacts/capabilities.digest'',
     ''artifacts/endpoints.digest''] @ generatedPaths"

lemma mapE_Inr_iff [res_simps]: "mapE f r = Inr x \<longleftrightarrow> r = Inr x"
  by (cases r) (simp_all add: mapE_def)

lemma outputs_paths: "outputs gt sha clang r = Inr outs \<Longrightarrow> map fst outs = outputPaths"
  by (auto simp: outputs_def outputPaths_def bindR_Inr_iff mapE_Inr_iff comp_def generatedPaths_def generatedTexts_def)

lemma outputs_distinct: "distinct (map (resolve []) outputPaths)" "list_all stays_below outputPaths" "list_all stays_below registryFiles"
  "list_all (\<lambda>p. list_all (\<lambda>q. resolve [] p \<noteq> resolve [] q) outputPaths) registryFiles"
  by code_simp+

lemma writeOutputs_read:
  "writeOutputs d outs fs = (True, fs') \<Longrightarrow> distinct (map (\<lambda>(p, c). resolve d p) outs) \<Longrightarrow>
     readFile fs' q = (case map_of (map (\<lambda>(p, c). (resolve d p, c)) outs) q of Some c \<Rightarrow> Some c | None \<Rightarrow> readFile fs q)"
proof (induction d outs fs rule: writeOutputs.induct)
  case (2 d p c outs fs)
  then obtain fs1 where fs1: "writeFile c (resolve d p) fs = Some fs1" "writeOutputs d outs fs1 = (True, fs')"
    by (auto split: option.splits)
  have "map_of (map (\<lambda>(p, c). (resolve d p, c)) outs) (resolve d p) = None"
    using 2(3) by (force simp: map_of_eq_None_iff)
  with 2(1) [OF fs1] 2(3) readFile_writeFile [OF fs1(1)] show ?case by (auto split: option.split)
qed simp

lemma writeOutputs_ok: "fst (writeOutputs d outs fs) \<longleftrightarrow> list_all (\<lambda>(p, c). writable (resolve d p) fs) outs"
proof (induction d outs fs rule: writeOutputs.induct)
  case (2 d p c outs fs)
  show ?case
  proof (cases "writeFile c (resolve d p) fs")
    case None
    moreover from None have "\<not> writable (resolve d p) fs" by (simp add: writeFile_writable)
    ultimately show ?thesis by simp
  next
    case (Some fs')
    then have "writable (resolve d p) fs" using writeFile_writable [of c "resolve d p" fs] by simp
    with Some 2 writable_writeFile [OF Some] show ?thesis by (simp add: case_prod_unfold)
  qed
qed simp

text \<open>Generators of the form \<open>bindR parts (\<lambda>x. Inr (text x))\<close> succeed with their parts.\<close>

lemma bindR_Inr_ok: "(\<exists>y. bindR r (\<lambda>x. Inr (f x)) = Inr y) \<longleftrightarrow> (\<exists>x. r = Inr x)"
  by (cases r) simp_all

lemma generateTasksTs_ok: "(\<exists>t. generateTasksTs reg = Inr t) \<longleftrightarrow> (\<exists>ts. named_tasks (tr_tasks reg) = Inr ts)"
  unfolding generateTasksTs_def by (rule bindR_Inr_ok)

lemma generateTaskImplTs_ok: "(\<exists>t. generateTaskImplTs gt reg = Inr t) \<longleftrightarrow> (\<exists>ts. named_tasks (tr_tasks reg) = Inr ts)"
  unfolding generateTaskImplTs_def by (rule bindR_Inr_ok)

lemma generateMonacoTypes_ok:
  "(\<exists>t. generateMonacoTypes gt keys params reg es = Inr t) \<longleftrightarrow> (\<exists>ts. named_tasks (tr_tasks reg) = Inr ts)"
  unfolding generateMonacoTypes_def Let_def by (rule bindR_Inr_ok)

lemma generateCapabilitiesTs_ok: "(\<exists>t. generateCapabilitiesTs cs d = Inr t) \<longleftrightarrow> (\<exists>ls. mapR capLines cs = Inr ls)"
  unfolding generateCapabilitiesTs_def by (rule bindR_Inr_ok)

lemma generateCapabilitiesH_ok: "(\<exists>t. generateCapabilitiesH cs d = Inr t) \<longleftrightarrow> (\<exists>ls. mapR capArrays cs = Inr ls)"
  unfolding generateCapabilitiesH_def by (rule bindR_Inr_ok)

lemma generateKeysH_ok: "(\<exists>t. generateKeysH ks d = Inr t) \<longleftrightarrow> (\<exists>ls. mapR keyMetaLine ks = Inr ls)"
  unfolding generateKeysH_def by (rule bindR_Inr_ok)

lemma checkFile_ok: "checkFile d fs (p, c) = Inr [] \<longleftrightarrow> readFile fs (resolve d p) = Some c"
  by (auto simp: checkFile_def readFile_def split: option.splits file_tree.splits)

lemma checkFiles_iff:
  "(\<exists>rs. mapR (checkFile d fs) outs = Inr rs \<and> concat rs = []) \<longleftrightarrow> list_all (\<lambda>(p, c). readFile fs (resolve d p) = Some c) outs"
proof (induction outs)
  case (Cons out outs)
  obtain p c where out: "out = (p, c)" by force
  show ?case
    using Cons by (auto simp: out bindR_Inr_iff checkFile_ok [symmetric])
qed simp

section \<open>Property\<close>

text \<open>The outputs computed from the registries on disk.\<close>

definition outputs_of :: "reg_env \<Rightarrow> (string \<Rightarrow> string) \<Rightarrow> (string \<Rightarrow> string option) \<Rightarrow> path \<Rightarrow> file_tree \<Rightarrow>
    (codegen_error, (string \<times> string) list) res" where
  "outputs_of env sha clang d fs = bindR (mapE RegistryError (readRegistries (onDisk fs env) (path_text d))) (outputs (re_locale_gt env) sha clang)"

definition in_sync :: "path \<Rightarrow> file_tree \<Rightarrow> (string \<times> string) list \<Rightarrow> bool" where
  "in_sync d fs = list_all (\<lambda>(p, c). readFile fs (resolve d p) = Some c)"

lemma codegen_check:
  assumes "''--check'' \<in> set args"
  shows "codegen_main env sha clang d args fs = (0, fs) \<longleftrightarrow> (\<exists>outs. outputs_of env sha clang d fs = Inr outs \<and> in_sync d fs outs)"
proof (cases "outputs_of env sha clang d fs")
  case (Inr outs)
  have "codegen_main env sha clang d args fs = (0, fs) \<longleftrightarrow> (\<exists>rs. mapR (checkFile d fs) outs = Inr rs \<and> concat rs = [])"
    using assms Inr by (auto simp: codegen_main_def outputs_of_def simp del: concat_eq_Nil_conv split: sum.splits)
  then show ?thesis by (simp only: checkFiles_iff in_sync_def Inr sum.inject ex_simps simp_thms)
qed (use assms in \<open>simp add: codegen_main_def outputs_of_def\<close>)

lemma codegen_write:
  assumes "''--check'' \<notin> set args" and "codegen_main env sha clang d args fs = (0, fs')"
  obtains outs where "outputs_of env sha clang d fs = Inr outs" and "writeOutputs d outs fs = (True, fs')"
  using assms by (auto simp: codegen_main_def outputs_of_def split: sum.splits prod.splits if_splits)

lemma outputs_of_paths: "outputs_of env sha clang d fs = Inr outs \<Longrightarrow> map fst outs = outputPaths"
  by (auto simp: outputs_of_def bindR_Inr_iff intro: outputs_paths)

lemma resolved_outputs:
  assumes "map fst outs = outputPaths"
  shows "map (\<lambda>(p, c). resolve d p) outs = map (\<lambda>p. d @ resolve [] p) outputPaths"
proof -
  have "map (\<lambda>(p, c). resolve d p) outs = map (resolve d) (map fst outs)" by (simp add: case_prod_beta comp_def)
  also have "\<dots> = map (\<lambda>p. d @ resolve [] p) outputPaths"
    unfolding assms by (rule map_cong [OF HOL.refl], rule resolve_below) (use outputs_distinct(2) in \<open>simp add: list_all_iff\<close>)
  finally show ?thesis .
qed

text \<open>The registries are not among the outputs, so writing leaves them as they are.\<close>

lemma outputs_of_write:
  assumes "wf_path d" and "outputs_of env sha clang d fs = Inr outs" and "writeOutputs d outs fs = (True, fs')"
  shows "outputs_of env sha clang d fs' = Inr outs" and "in_sync d fs' outs"
proof -
  note paths = outputs_of_paths [OF assms(2)]
  have dist: "distinct (map (\<lambda>(p, c). resolve d p) outs)"
    using outputs_distinct(1) unfolding resolved_outputs [OF paths] by (auto simp: distinct_map inj_on_def)
  note rd = writeOutputs_read [OF assms(3) dist]
  have "re_read (onDisk fs env) (path_text d @ ''/'' @ p) = re_read (onDisk fs' env) (path_text d @ ''/'' @ p)"
    if "p \<in> set registryFiles" for p
  proof -
    from that have below: "stays_below p" and fresh: "\<forall>q \<in> set outputPaths. resolve [] p \<noteq> resolve [] q"
      using outputs_distinct(3,4) by (auto simp: list_all_iff)
    then have "d @ resolve [] p \<notin> set (map (\<lambda>(p, c). resolve d p) outs)"
      unfolding resolved_outputs [OF paths] by auto
    then have "map_of (map (\<lambda>(p, c). (resolve d p, c)) outs) (d @ resolve [] p) = None"
      by (force simp: map_of_eq_None_iff)
    with rd resolve_path_text [OF assms(1) below] show ?thesis by (simp add: onDisk_def)
  qed
  then have "readRegistries (onDisk fs env) (path_text d) = readRegistries (onDisk fs' env) (path_text d)"
    by (intro readRegistries_same) (simp_all add: same_but_files_def onDisk_def list_all_iff)
  with assms(2) show "outputs_of env sha clang d fs' = Inr outs" by (simp add: outputs_of_def)
  have "map_of (map (\<lambda>(p, c). (resolve d p, c)) outs) (resolve d p) = Some c" if "(p, c) \<in> set outs" for p c
    using that dist by (intro map_of_is_SomeI) (force simp: case_prod_unfold comp_def)+
  then show "in_sync d fs' outs" by (auto simp: in_sync_def list_all_iff rd)
qed

text \<open>
  Property C38. Check mode decides whether generated files are up to date: it exits with code 0 exactly when
  the registries on disk parse and every output computed from them is on disk with the same
  text. And after a run in write mode that exits with code 0, check mode exits with code 0:
  the run wrote every output, no output overwrote another, and none of them is an input.
\<close>

theorem codegen_check_after_write:
  assumes "wf_path d" and "''--check'' \<notin> set args" and "''--check'' \<in> set args'"
    and "codegen_main env sha clang d args fs = (0, fs')"
  shows "(codegen_main env sha clang d args' t = (0, t) \<longleftrightarrow> (\<exists>outs. outputs_of env sha clang d t = Inr outs \<and> in_sync d t outs)) \<and>
    codegen_main env sha clang d args' fs' = (0, fs')"
proof -
  from codegen_write [OF assms(2,4)] obtain outs where "outputs_of env sha clang d fs = Inr outs" "writeOutputs d outs fs = (True, fs')" .
  from outputs_of_write [OF assms(1) this] show ?thesis by (simp add: codegen_check [OF assms(3)])
qed

section \<open>Witness\<close>

definition small_toml :: jsval where
  "small_toml = JObj [(''schema_version'', JNum (jint 1)), (''version'', JNum (jint 1)), (''manifest_digest'', JStr []),
     (''key'', JArr [JObj [(''key_id'', JNum (jint 1)), (''name'', JStr ''id''), (''type'', JStr ''int''),
        (''nullable'', JBool False), (''doc'', JStr []), (''allow_write'', JBool False)]]),
     (''param'', JArr []), (''feature'', JArr []), (''capability'', JArr []), (''task'', JArr []), (''endpoint'', JArr [])]"

definition small_env :: reg_env where
  "small_env = \<lparr> re_read = (\<lambda>p. None), re_toml = (\<lambda>s. Some small_toml), re_json = (\<lambda>s. None), re_locale_gt = (\<lambda>a b. a > b) \<rparr>"

definition small_repo :: file_tree where
  "small_repo = Dir [(''artifacts'', Dir []), (''dsl'', Dir [(''packages'', Dir [(''generated'', Dir [])])]),
     (''engine'', Dir [(''include'', Dir [])]),
     (''registry'', Dir (map (\<lambda>n. (n, File [])) [''keys.toml'', ''params.toml'', ''features.toml'', ''validation.toml'',
        ''capabilities.toml'', ''tasks.toml'', ''endpoints.dev.toml'', ''endpoints.test.toml'', ''endpoints.prod.toml'']))]"

abbreviation small_main :: "string list \<Rightarrow> file_tree \<Rightarrow> nat \<times> file_tree" where
  "small_main \<equiv> codegen_main small_env (\<lambda>s. ''0'') Some []"

definition small_regs :: registries where
  "small_regs = \<lparr> rg_keys = [\<lparr> ke_key_id = jint 1, ke_name = ''id'', ke_type = ''int'', ke_nullable = False, ke_doc = [],
        ke_status = ''active'', ke_allow_read = True, ke_allow_write = False, ke_replaced_by = None, ke_default = JNull \<rparr>],
     rg_params = [], rg_features = [],
     rg_validation = \<lparr> vr_schema_version = jint 1, vr_patterns = [], vr_limits = [], vr_enums = [] \<rparr>,
     rg_capabilities = [], rg_tasks = \<lparr> tr_schema_version = jint 1, tr_manifest_digest = [], tr_tasks = [] \<rparr>,
     rg_endpoints = \<lparr> er_dev = [], er_test = [], er_prod = [] \<rparr> \<rparr>"

lemma small_read: "readRegistries (onDisk small_repo small_env) (path_text []) = Inr small_regs"
  by code_simp

lemma small_texts: "\<exists>texts. mapR (\<lambda>t. t) (generatedTexts gt Some small_regs ds) = Inr texts"
proof -
  have tasks: "named_tasks (tr_tasks (rg_tasks small_regs)) = Inr []" by code_simp
  have caps: "rg_capabilities small_regs = []" by (simp add: small_regs_def)
  have key: "\<exists>ls. mapR keyMetaLine (rg_keys small_regs) = Inr ls"
    by (simp add: small_regs_def keyMetaLine_def defaultJson_def)
  have "\<exists>t. generateEndpointsTs gt (er_dev (rg_endpoints small_regs)) d = Inr t" for d
    by (simp add: small_regs_def generateEndpointsTs_def endpointKinds_def group_by_def del: append.simps)
  moreover have "\<exists>t. generateValidationH (rg_validation small_regs) d = Inr t" for d
    by (simp add: small_regs_def generateValidationH_def del: append.simps)
  moreover have fmt: "bindR r (formatCpp Some) = r" for r :: "(gen_error, string) res"
    by (cases r) (simp_all add: formatCpp_def)
  ultimately show ?thesis
    using tasks caps key generateTasksTs_ok [of "rg_tasks small_regs"] generateTaskImplTs_ok [of gt "rg_tasks small_regs"]
      generateMonacoTypes_ok [of gt _ _ "rg_tasks small_regs"] generateCapabilitiesTs_ok [of "rg_capabilities small_regs"]
      generateCapabilitiesH_ok [of "rg_capabilities small_regs"] generateKeysH_ok [of "rg_keys small_regs"]
    unfolding generatedTexts_def mapR_ok by (simp add: fmt formatCpp_def)
qed

lemma small_outputs: "\<exists>outs. outputs_of small_env (\<lambda>s. ''0'') Some [] small_repo = Inr outs"
proof -
  let ?ds = "replicate 6 ''0''"
  have ds: "mapR (computeDigest (\<lambda>s. ''0'')) [keysCanonical small_regs, paramsCanonical small_regs, featuresCanonical small_regs,
      validationCanonical small_regs, capabilitiesCanonical small_regs, endpointRegistryCanonical (er_dev (rg_endpoints small_regs))] = Inr ?ds"
    by code_simp
  let ?es = "mapR (\<lambda>(es, env). buildEndpointJson (\<lambda>s. ''0'') (?ds ! 5) es env)
    [(er_dev (rg_endpoints small_regs), ''dev''), (er_test (rg_endpoints small_regs), ''test''), (er_prod (rg_endpoints small_regs), ''prod'')]"
  have "\<not> isl ?es" by code_simp
  then obtain es where es: "?es = Inr es" by (cases ?es) auto
  let ?js = "\<lambda>es. mapR (\<lambda>(path, v). bindR (json_file v) (\<lambda>t. Inr (path, t)))
       [(''artifacts/keys.json'', keysCanonical small_regs), (''artifacts/params.json'', paramsCanonical small_regs),
        (''artifacts/features.json'', featuresCanonical small_regs), (''artifacts/capabilities.json'', capabilitiesCanonical small_regs),
        (''artifacts/endpoints.dev.json'', es ! 0), (''artifacts/endpoints.test.json'', es ! 1),
        (''artifacts/endpoints.prod.json'', es ! 2), (''artifacts/tasks.json'', tasksCanonical small_regs)]"
  have "\<not> isl (bindR (mapE DigestError ?es) (\<lambda>es. mapE JsonError (?js es)))" by code_simp
  with es obtain js where js: "?js es = Inr js" by (cases "?js es") (simp_all add: mapE_def)
  from small_texts obtain texts where "mapR (\<lambda>t. t) (generatedTexts (re_locale_gt small_env) Some small_regs ?ds) = Inr texts" by blast
  with ds es js small_read show ?thesis by (simp only: outputs_of_def outputs_def mapE_def sum.case bindR_simps) blast
qed

theorem codegen_check_after_write_witness:
  "small_main [''--check''] (snd (small_main [] small_repo)) = (0, snd (small_main [] small_repo))"
proof -
  have wf: "wf_path []" by (simp add: wf_path_def)
  obtain outs where outs: "outputs_of small_env (\<lambda>s. ''0'') Some [] small_repo = Inr outs" using small_outputs by blast
  have "list_all (\<lambda>p. writable (resolve [] p) small_repo) outputPaths" by code_simp
  then have "list_all (\<lambda>(p, c). writable (resolve [] p) small_repo) outs"
    unfolding outputs_of_paths [OF outs, symmetric] by (auto simp: list_all_iff)
  then have "fst (writeOutputs [] outs small_repo)" by (simp add: writeOutputs_ok)
  with outs have "small_main [] small_repo = (0, snd (small_main [] small_repo))"
    by (cases "writeOutputs [] outs small_repo") (simp add: codegen_main_def outputs_of_def)
  from codegen_check_after_write [OF wf _ _ this, of "[''--check'']"] show ?thesis by simp
qed

end
