(* ===== verification/SyncManifest.thy ===== *)
theory SyncManifest
  imports FileTree JsonText
begin

text \<open>
  \<open>dsl/tools/sync_manifest.ts\<close>: collects the plan files below a directory and keeps
  \<open>manifest.json\<close> up to date. The properties say that the manifest depends only on which plan
  files exist, and that a second run changes nothing.
\<close>

section \<open>Definitions\<close>

text \<open>\<open>relative(repoRoot, fullPath).replace(/\\/g, "/")\<close>.\<close>

definition slashes :: "string \<Rightarrow> string" where
  "slashes = map (\<lambda>c. if c = CHR 0x5C then CHR ''/'' else c)"

definition planPathText :: "path \<Rightarrow> path \<Rightarrow> string" where
  "planPathText repoRoot fullPath = slashes (relative repoRoot fullPath)"

text \<open>The inner function \<open>walk\<close> on the entries of \<open>currentDir\<close>: full paths, in the order they are pushed.\<close>

fun walk :: "path \<Rightarrow> (string \<times> file_tree) list \<Rightarrow> path list" where
  "walk currentDir [] = []"
| "walk currentDir ((name, entry) # entries) =
     (case entry of
        Dir es \<Rightarrow> walk (currentDir @ [name]) es
      | File _ \<Rightarrow> if endsWith name ''.plan.ts'' then [currentDir @ [name]] else []
      | Special \<Rightarrow> []) @ walk currentDir entries"

definition findPlanFiles :: "file_tree \<Rightarrow> path \<Rightarrow> path \<Rightarrow> string list option" where
  "findPlanFiles fs dir repoRoot = map_option (\<lambda>es. map (planPathText repoRoot) (walk dir es)) (readdir fs dir)"

definition sync_manifest :: "string list \<Rightarrow> jsval" where
  "sync_manifest planFiles = JObj [(''schema_version'', JNum (jint 1)), (''plans'', JArr (map JStr planFiles))]"

text \<open>The loop over \<open>process.argv\<close>; \<open>None\<close> is \<open>--help\<close>. An option without its argument is skipped.\<close>

fun syncArgs :: "string list \<Rightarrow> string \<Rightarrow> string option \<Rightarrow> (string \<times> string option) option" where
  "syncArgs [] dir manifestPath = Some (dir, manifestPath)"
| "syncArgs [a] dir manifestPath = (if a = ''--help'' \<or> a = ''-h'' then None else Some (dir, manifestPath))"
| "syncArgs (a # b # rest) dir manifestPath =
     (if a = ''--dir'' then syncArgs rest b manifestPath
      else if a = ''--manifest'' then syncArgs rest dir (Some b)
      else if a = ''--help'' \<or> a = ''-h'' then None
      else syncArgs (b # rest) dir manifestPath)"

definition absManifest :: "path \<Rightarrow> string \<Rightarrow> string option \<Rightarrow> path" where
  "absManifest repoRoot dir manifestPath =
     (case manifestPath of
        Some m \<Rightarrow> if m \<noteq> [] then resolve repoRoot m else resolve (resolve repoRoot dir) ''manifest.json''
      | None \<Rightarrow> resolve (resolve repoRoot dir) ''manifest.json'')"

text \<open>Exit code and the file system afterwards. \<open>repoRoot\<close> is the working directory.\<close>

definition sync_main :: "path \<Rightarrow> string list \<Rightarrow> file_tree \<Rightarrow> nat \<times> file_tree" where
  "sync_main repoRoot args fs =
     (case syncArgs args ''plans'' None of
        None \<Rightarrow> (0, fs)
      | Some (dir, manifestPath) \<Rightarrow>
          (case findPlanFiles fs (resolve repoRoot dir) repoRoot of
             None \<Rightarrow> (1, fs)
           | Some planFiles \<Rightarrow>
               (case json_file (sync_manifest (js_sort_by (\<lambda>x y. x > y) planFiles)) of
                  Inl e \<Rightarrow> (1, fs)
                | Inr newContent \<Rightarrow>
                    if readFile fs (absManifest repoRoot dir manifestPath) = Some newContent then (0, fs)
                    else (case writeFile newContent (absManifest repoRoot dir manifestPath) fs of
                            None \<Rightarrow> (1, fs) | Some fs' \<Rightarrow> (0, fs')))))"

section \<open>What the walk finds\<close>

text \<open>The plan files below a directory, independent of any order.\<close>

definition plan_files :: "file_tree \<Rightarrow> path \<Rightarrow> path set" where
  "plan_files fs dir = {dir @ p | p. p \<noteq> [] \<and> endsWith (last p) ''.plan.ts'' \<and> readFile fs (dir @ p) \<noteq> None}"

lemma walk_prefix: "q \<in> set (walk dir es) \<Longrightarrow> \<exists>n p. q = dir @ n # p \<and> n \<in> fst ` set es"
proof (induction dir es rule: walk.induct)
  case (2 dir name entry entries)
  then show ?case
  proof (cases entry)
    case (Dir es)
    from 2(3) Dir consider "q \<in> set (walk (dir @ [name]) es)" | "q \<in> set (walk dir entries)" by auto
    then show ?thesis
    proof cases
      case 1
      from 2(1) [OF Dir 1] show ?thesis by auto
    next
      case 2
      then show ?thesis using \<open>q \<in> set (walk dir entries) \<Longrightarrow> _\<close> by auto
    qed
  qed (use 2 in \<open>auto split: if_splits\<close>)
qed simp

lemma readFile_append: "lookup p t = Some e \<Longrightarrow> readFile t (p @ q) = readFile e q"
  by (simp add: readFile_def lookup_append)

lemma walk_iff:
  assumes "wf_tree_names (Dir es)"
  shows "dir @ p \<in> set (walk dir es) \<longleftrightarrow> p \<noteq> [] \<and> endsWith (last p) ''.plan.ts'' \<and> readFile (Dir es) p \<noteq> None"
  using assms
proof (induction dir es arbitrary: p rule: walk.induct)
  case (1 dir)
  then show ?case by (cases p) (auto simp: readFile_Cons)
next
  case (2 dir name entry entries)
  show ?case
  proof (cases p)
    case Nil
    then show ?thesis using walk_prefix [of dir dir "(name, entry) # entries"] by (auto simp del: walk.simps)
  next
    case (Cons n q)
    show ?thesis
    proof (cases "n = name")
      case False
      then have "dir @ p \<notin> set (walk (dir @ [name]) es)" for es
        using walk_prefix [of "dir @ p" "dir @ [name]" es] Cons by auto
      with 2 Cons False show ?thesis by (auto simp: readFile_Cons split: file_tree.splits)
    next
      case True
      have "dir @ p \<notin> set (walk dir entries)"
        using walk_prefix [of "dir @ p" dir entries] 2(3) Cons True by auto
      moreover have "dir @ p \<in> set (walk (dir @ [name]) es) \<longleftrightarrow> q \<noteq> [] \<and> endsWith (last q) ''.plan.ts'' \<and> readFile (Dir es) q \<noteq> None"
        if "entry = Dir es" for es
        using 2(1) [OF that, of q] 2(3) that Cons True by simp
      ultimately show ?thesis
        using Cons True by (cases entry; cases q) (auto simp: readFile_Cons readFile_def lookup_File split: option.splits)
    qed
  qed
qed

lemma walk_distinct: "wf_tree_names (Dir es) \<Longrightarrow> distinct (walk dir es)"
proof (induction dir es rule: walk.induct)
  case (2 dir name entry entries)
  have "set (walk (dir @ [name]) es) \<inter> set (walk dir entries) = {}" for es
    using walk_prefix [of _ "dir @ [name]" es] walk_prefix [of _ dir entries] 2(3) by fastforce
  moreover have "dir @ [name] \<notin> set (walk dir entries)"
    using walk_prefix [of "dir @ [name]" dir entries] 2(3) by auto
  ultimately show ?case using 2 by (auto split: file_tree.splits)
qed simp

lemma walk_plan_files:
  assumes "wf_tree_names fs" and "lookup dir fs = Some (Dir es)"
  shows "distinct (walk dir es)" and "set (walk dir es) = plan_files fs dir"
proof -
  have wf: "wf_tree_names (Dir es)" using wf_lookup [OF assms] .
  show "distinct (walk dir es)" using walk_distinct [OF wf] .
  have "q \<in> set (walk dir es) \<longleftrightarrow> q \<in> plan_files fs dir" for q
    using walk_iff [OF wf] walk_prefix [of q dir es] readFile_append [OF assms(2)] by (auto simp: plan_files_def)
  then show "set (walk dir es) = plan_files fs dir" by blast
qed

section \<open>Properties\<close>

lemma sync_manifest_text: "\<exists>s. json_file (sync_manifest ps) = Inr s"
  by (rule json_file_total) (simp add: sync_manifest_def list_all_iff)

text \<open>The sorted list of manifest entries is a function of the set of plan files.\<close>

lemma findPlanFiles_sorted:
  assumes "wf_tree_names fs" and "findPlanFiles fs dir repoRoot = Some files"
    and "distinct ps" and "set ps = plan_files fs dir"
  shows "js_sort_by (\<lambda>x y. x > y) files = sort (map (planPathText repoRoot) ps)"
proof -
  from assms(2) obtain es where es: "lookup dir fs = Some (Dir es)" "files = map (planPathText repoRoot) (walk dir es)"
    by (auto simp: findPlanFiles_def readdir_def split: option.splits file_tree.splits)
  have "mset (walk dir es) = mset ps"
    using walk_plan_files [OF assms(1) es(1)] assms(3,4) by (metis set_eq_iff_mset_eq_distinct)
  then have "mset files = mset (map (planPathText repoRoot) ps)" by (simp add: es(2))
  then have "sort files = sort (map (planPathText repoRoot) ps)"
    by (metis mset_sort properties_for_sort sorted_sort)
  then show ?thesis by (simp add: js_sort_by_linorder)
qed

lemma sync_main_cases:
  assumes "syncArgs args ''plans'' None = Some (dir, mp)" and "sync_main repoRoot args fs = (0, fs')"
  obtains files s where "findPlanFiles fs (resolve repoRoot dir) repoRoot = Some files"
    and "json_file (sync_manifest (js_sort_by (\<lambda>x y. x > y) files)) = Inr s"
    and "readFile fs (absManifest repoRoot dir mp) = Some s \<and> fs' = fs \<or> writeFile s (absManifest repoRoot dir mp) fs = Some fs'"
  using assms by (auto simp: sync_main_def split: option.splits sum.splits if_splits)

lemma plan_files_write:
  "writeFile c p fs = Some fs' \<Longrightarrow> p = [] \<or> \<not> endsWith (last p) ''.plan.ts'' \<Longrightarrow> plan_files fs' dir = plan_files fs dir"
  by (auto simp: plan_files_def readFile_writeFile)

text \<open>
  Property C39. After a successful run the manifest file holds the sorted list of exactly the plan
  files below the directory, however \<open>readdir\<close> ordered them: for any enumeration \<open>ps\<close> of those
  files without repetition, the text is that of the sorted relative paths of \<open>ps\<close>. No other file
  changes, and (unless the manifest is itself named like a plan) running the tool again succeeds
  and changes nothing at all.
\<close>

theorem sync_manifest_exact:
  assumes "wf_tree_names fs" and "syncArgs args ''plans'' None = Some (dir, mp)" and "sync_main repoRoot args fs = (0, fs')"
    and "distinct ps" and "set ps = plan_files fs (resolve repoRoot dir)"
  shows "(\<exists>s. json_file (sync_manifest (sort (map (planPathText repoRoot) ps))) = Inr s \<and>
            readFile fs' (absManifest repoRoot dir mp) = Some s) \<and>
         (\<forall>q. q \<noteq> absManifest repoRoot dir mp \<longrightarrow> readFile fs' q = readFile fs q) \<and>
         (\<not> endsWith (last (absManifest repoRoot dir mp)) ''.plan.ts'' \<longrightarrow> sync_main repoRoot args fs' = (0, fs'))"
proof -
  let ?m = "absManifest repoRoot dir mp" and ?d = "resolve repoRoot dir"
  from sync_main_cases [OF assms(2,3)] obtain files s where
    files: "findPlanFiles fs ?d repoRoot = Some files" and s: "json_file (sync_manifest (js_sort_by (\<lambda>x y. x > y) files)) = Inr s"
    and w: "readFile fs ?m = Some s \<and> fs' = fs \<or> writeFile s ?m fs = Some fs'" .
  have rd: "readFile fs' q = (if q = ?m then Some s else readFile fs q)" for q using w readFile_writeFile by auto
  have srt: "js_sort_by (\<lambda>x y. x > y) files = sort (map (planPathText repoRoot) ps)"
    using findPlanFiles_sorted [OF assms(1) files assms(4,5)] .
  have "sync_main repoRoot args fs' = (0, fs')" if m: "\<not> endsWith (last ?m) ''.plan.ts''"
  proof -
    have "is_dir ?d fs" using files by (auto simp: findPlanFiles_def readdir_def is_dir_def split: option.splits file_tree.splits)
    then have "is_dir ?d fs'" using w is_dir_writeFile by auto
    then obtain files' where files': "findPlanFiles fs' ?d repoRoot = Some files'"
      by (auto simp: findPlanFiles_def readdir_def is_dir_def split: option.splits file_tree.splits)
    have wf': "wf_tree_names fs'" using w wf_writeFile assms(1) by auto
    have "plan_files fs' ?d = plan_files fs ?d" using w m plan_files_write by blast
    with findPlanFiles_sorted [OF wf' files' assms(4)] assms(5) srt have "js_sort_by (\<lambda>x y. x > y) files' = js_sort_by (\<lambda>x y. x > y) files"
      by simp
    with files' s show ?thesis by (simp add: sync_main_def assms(2) rd)
  qed
  with s show ?thesis by (simp add: rd srt)
qed

definition demo_repo :: file_tree where
  "demo_repo = Dir [(''plans'', Dir [(''b.plan.ts'', File []), (''README.md'', File []), (''a.plan.ts'', File [])])]"

definition synced_repo :: file_tree where
  "synced_repo = snd (sync_main [] [] demo_repo)"

theorem sync_manifest_exact_witness:
  "sync_main [] [] synced_repo = (0, synced_repo) \<and> readFile synced_repo [''plans'', ''b.plan.ts''] = Some []"
proof -
  let ?es = "[(''b.plan.ts'', File []), (''README.md'', File []), (''a.plan.ts'', File [])]"
  have wf: "wf_tree_names demo_repo" by (simp add: demo_repo_def)
  have d: "resolve [] ''plans'' = [''plans'']" and m: "absManifest [] ''plans'' None = [''plans'', ''manifest.json'']" by code_simp+
  have es: "lookup [''plans''] demo_repo = Some (Dir ?es)" by (simp add: demo_repo_def)
  have run: "sync_main [] [] demo_repo = (0, synced_repo)" unfolding synced_repo_def by code_simp
  have e: "\<not> endsWith (last [''plans'', ''manifest.json'']) ''.plan.ts''" by code_simp
  have r: "readFile demo_repo [''plans'', ''b.plan.ts''] = Some []" by code_simp
  from sync_manifest_exact [of demo_repo "[]" "''plans''" None "[]" synced_repo "walk [''plans''] ?es"]
  show ?thesis using wf run walk_plan_files [OF wf es] e r by (simp add: d m)
qed

end
