(* ===== verification/BuildPlans.thy ===== *)
theory BuildPlans
  imports FileTree JsonText CodegenUtils
begin

text \<open>
  \<open>dsl/tools/build_all_plans.ts\<close>: compiles every plan of a manifest by running \<open>dslc\<close> as a child
  process and writes \<open>index.json\<close> for the plan store. The child process, \<open>JSON.parse\<close>, SHA-256 and
  the collation of \<open>localeCompare\<close> are parameters; console output is left out. Manifest entries are
  whatever the JSON holds, since the code does not check that they are strings.
\<close>

section \<open>Options and manifest\<close>

record BuildOptions =
  bo_manifest :: string
  bo_out :: string

datatype build_stop =
    HelpShown
  | ArgMissing string
  | OptionUnknown string
  | ManifestUnreadable
  | ManifestSyntax
  | ManifestNull
  | ManifestVersion jsval
  | ManifestPlans
  | OutputDir
  | IndexNames
  | IndexText
  | IndexWrite

text \<open>
  \<open>be_run args fs\<close>: \<open>node\<close> with these arguments; the exit code (\<open>None\<close> when it could not be started
  or was killed) and the files it leaves.
\<close>

record build_env =
  be_root :: path
  be_run :: "jsval list \<Rightarrow> file_tree \<Rightarrow> nat option \<times> file_tree"
  be_json :: "string \<Rightarrow> jsval option"
  be_sha256 :: "string \<Rightarrow> string"
  be_locale_gt :: "string \<Rightarrow> string \<Rightarrow> bool"

definition defaultOptions :: BuildOptions where
  "defaultOptions = \<lparr> bo_manifest = ''plans/manifest.json'', bo_out = ''artifacts/plans'' \<rparr>"

fun buildArgs :: "string list \<Rightarrow> BuildOptions \<Rightarrow> (build_stop, BuildOptions) res" where
  "buildArgs [] opts = Inr opts"
| "buildArgs [a] opts =
     (if a = ''--manifest'' \<or> a = ''--out'' then Inl (ArgMissing a)
      else if a = ''--help'' \<or> a = ''-h'' then Inl HelpShown
      else Inl (OptionUnknown a))"
| "buildArgs (a # b # rest) opts =
     (if a = ''--manifest'' then buildArgs rest (opts\<lparr> bo_manifest := b \<rparr>)
      else if a = ''--out'' then buildArgs rest (opts\<lparr> bo_out := b \<rparr>)
      else if a = ''--help'' \<or> a = ''-h'' then Inl HelpShown
      else Inl (OptionUnknown a))"

definition loadManifest :: "build_env \<Rightarrow> file_tree \<Rightarrow> string \<Rightarrow> (build_stop, jsval list) res" where
  "loadManifest env fs manifestPath =
     (case readFile fs (resolve (be_root env) manifestPath) of
        None \<Rightarrow> Inl ManifestUnreadable
      | Some content \<Rightarrow>
          (case be_json env content of
             None \<Rightarrow> Inl ManifestSyntax
           | Some m \<Rightarrow>
               if m = JNull then Inl ManifestNull
               else if getp m ''schema_version'' \<noteq> JNum (jint 1) then Inl (ManifestVersion (getp m ''schema_version''))
               else (case getp m ''plans'' of JArr plans \<Rightarrow> Inr plans | _ \<Rightarrow> Inl ManifestPlans)))"

section \<open>Compiling\<close>

text \<open>\<open>compilePlan\<close> and \<open>runCommand\<close>: whether the child exited with code 0, and the files afterwards.\<close>

definition runDslc :: "build_env \<Rightarrow> string \<Rightarrow> jsval \<Rightarrow> file_tree \<Rightarrow> bool \<times> file_tree" where
  "runDslc env outputDir planPath fs =
     (let (code, fs') = be_run env [JStr ''dsl/packages/compiler/dist/cli.js'', JStr ''build'', planPath, JStr ''--out'',
            JStr (path_text (resolve (be_root env) outputDir))] fs
      in (code = Some 0, fs'))"

text \<open>\<open>s.replace(pat, "")\<close>: the first occurrence.\<close>

fun removeFirst :: "string \<Rightarrow> string \<Rightarrow> string" where
  "removeFirst pat [] = []"
| "removeFirst pat (c # cs) = (if startsWith (c # cs) pat then drop (length pat) (c # cs) else c # removeFirst pat cs)"

definition planBasename :: "string \<Rightarrow> string" where
  "planBasename planPath = removeFirst ''.plan.ts'' (last (split_slash [] planPath))"

record build_run =
  successCount :: nat
  failureCount :: nat
  compiledPlanNames :: "string list"
  br_fs :: file_tree

text \<open>
  One round of the loop. A plan path that is not a string has no \<open>split\<close>: the \<open>TypeError\<close> comes after
  \<open>successCount\<close> was increased and is counted as a failure as well.
\<close>

definition buildStep :: "build_env \<Rightarrow> string \<Rightarrow> build_run \<Rightarrow> jsval \<Rightarrow> build_run" where
  "buildStep env out st planPath =
     (let (ok, fs') = runDslc env out planPath (br_fs st) in
      if \<not> ok then st\<lparr> failureCount := Suc (failureCount st), br_fs := fs' \<rparr>
      else (case planPath of
              JStr p \<Rightarrow>
                st\<lparr> successCount := Suc (successCount st), br_fs := fs',
                    compiledPlanNames := compiledPlanNames st @ (if planBasename p \<noteq> [] then [planBasename p] else []) \<rparr>
            | _ \<Rightarrow> st\<lparr> successCount := Suc (successCount st), failureCount := Suc (failureCount st), br_fs := fs' \<rparr>))"

definition buildLoop :: "build_env \<Rightarrow> string \<Rightarrow> jsval list \<Rightarrow> file_tree \<Rightarrow> build_run" where
  "buildLoop env out plans fs =
     foldl (buildStep env out) \<lparr> successCount = 0, failureCount = 0, compiledPlanNames = [], br_fs = fs \<rparr> plans"

section \<open>Digests\<close>

text \<open>
  \<open>None\<close> is the result \<open>undefined\<close> of \<open>JSON.stringify\<close>; \<open>join\<close> prints it as nothing, a template as
  \<open>undefined\<close>.
\<close>

function stableStringifyForDigest :: "jsval \<Rightarrow> (dsl_error, string option) res" where
  "stableStringifyForDigest obj =
     (case obj of
        JNull \<Rightarrow> Inr (Some ''null'')
      | JBool b \<Rightarrow> Inr (Some (if b then ''true'' else ''false''))
      | JNum x \<Rightarrow> Inr (Some (if is_finite_num x then num_str x else ''null''))
      | JStr s \<Rightarrow> Inr (Some (json_quote s))
      | JBigInt n \<Rightarrow> Inl TypeError
      | JArr vs \<Rightarrow>
          bindR (mapR stableStringifyForDigest vs) (\<lambda>ps.
          Inr (Some (''['' @ join_comma (map (\<lambda>p. case p of None \<Rightarrow> [] | Some s \<Rightarrow> s) ps) @ '']'')))
      | _ \<Rightarrow>
          if is_plain obj then
            bindR (mapR (\<lambda>(k, v). bindR (stableStringifyForDigest v) (\<lambda>r.
                     Inr (json_quote k @ '':'' @ (case r of None \<Rightarrow> ''undefined'' | Some s \<Rightarrow> s))))
                    (sort_entries (own_entries obj))) (\<lambda>pairs.
            Inr (Some (''{'' @ join_comma pairs @ ''}'')))
          else Inr None)"
  by pat_completeness auto
termination
  by (relation "measure json_size")
    (auto simp: json_size_def [of "JCand _ _"] json_size_def [of "JCtx _"] json_size_def [of "JStr _"]
      intro: json_size_less size_arr size_obj)

declare stableStringifyForDigest.simps [simp del]

text \<open>\<open>caps.length === 0\<close>.\<close>

definition no_length :: "jsval \<Rightarrow> bool" where
  "no_length v = (case v of JArr xs \<Rightarrow> xs = [] | JStr s \<Rightarrow> s = [] | _ \<Rightarrow> getp v ''length'' = JNum (jint 0))"

text \<open>\<open>createHash("sha256").update(text).digest("hex")\<close>; hashing \<open>undefined\<close> raises.\<close>

definition sha256_of :: "build_env \<Rightarrow> jsval \<Rightarrow> (dsl_error, string) res" where
  "sha256_of env v =
     bindR (stableStringifyForDigest v) (\<lambda>r. case r of None \<Rightarrow> Inl TypeError | Some t \<Rightarrow> Inr (''sha256:'' @ be_sha256 env t))"

definition computeCapabilitiesDigest :: "build_env \<Rightarrow> jsval \<Rightarrow> jsval \<Rightarrow> (dsl_error, string) res" where
  "computeCapabilitiesDigest env capabilitiesRequired extensions =
     (let caps = nullish capabilitiesRequired (JArr []); exts = nullish extensions (JObj []) in
      if no_length caps \<and> own_entries exts = [] then Inr []
      else sha256_of env (JObj [(''capabilities_required'', caps), (''extensions'', exts)]))"

section \<open>The index\<close>

record IndexEntry =
  ie_name :: jsval
  ie_path :: string
  ie_digest :: string
  ie_capabilities_digest :: string
  ie_tool_version :: jsval

text \<open>The body of the \<open>try\<close> for one plan; \<open>None\<close> is the warning of its \<open>catch\<close>.\<close>

definition indexEntry :: "build_env \<Rightarrow> path \<Rightarrow> file_tree \<Rightarrow> string \<Rightarrow> IndexEntry option" where
  "indexEntry env absOutputDir fs planName =
     (let file = planName @ ''.plan.json'' in
      case readFile fs (resolve absOutputDir file) of
        None \<Rightarrow> None
      | Some content \<Rightarrow>
          (case be_json env content of
             None \<Rightarrow> None
           | Some plan \<Rightarrow>
               if plan = JNull then None
               else (case (sha256_of env plan,
                           computeCapabilitiesDigest env (getp plan ''capabilities_required'') (getp plan ''extensions'')) of
                       (Inr digest, Inr capabilitiesDigest) \<Rightarrow>
                         Some \<lparr> ie_name = getp plan ''plan_name'', ie_path = file, ie_digest = digest,
                                ie_capabilities_digest = capabilitiesDigest,
                                ie_tool_version = nullish (getp (getp plan ''built_by'') ''tool_version'') (JStr ''0.1.0'') \<rparr>
                     | _ \<Rightarrow> None)))"

definition entryJson :: "IndexEntry \<Rightarrow> jsval" where
  "entryJson e = JObj [(''name'', ie_name e), (''path'', JStr (ie_path e)), (''digest'', JStr (ie_digest e)),
     (''capabilities_digest'', JStr (ie_capabilities_digest e)),
     (''built_by'', JObj [(''backend'', JStr ''quickjs''), (''tool'', JStr ''dslc''), (''tool_version'', ie_tool_version e)])]"

definition indexJson :: "IndexEntry list \<Rightarrow> jsval" where
  "indexJson entries = JObj [(''schema_version'', JNum (jint 1)), (''plans'', JArr (map entryJson entries))]"

definition nameText :: "jsval \<Rightarrow> string" where
  "nameText v = (case v of JStr s \<Rightarrow> s | _ \<Rightarrow> [])"

text \<open>
  \<open>entries.sort((a, b) => a.name.localeCompare(b.name))\<close>. The compiler only writes artifacts whose
  name is a string; two or more entries with another kind of name among them count as the
  \<open>TypeError\<close> of the missing method.
\<close>

definition sortEntries :: "build_env \<Rightarrow> IndexEntry list \<Rightarrow> (build_stop, IndexEntry list) res" where
  "sortEntries env entries =
     (if length entries \<le> 1 then Inr entries
      else if \<not> list_all (\<lambda>e. is_str (ie_name e)) entries then Inl IndexNames
      else Inr (js_sort_by (\<lambda>a b. be_locale_gt env (nameText (ie_name a)) (nameText (ie_name b))) entries))"

definition generateIndex :: "build_env \<Rightarrow> string \<Rightarrow> string list \<Rightarrow> file_tree \<Rightarrow> (build_stop, file_tree) res" where
  "generateIndex env outputDir names fs =
     (let absOutputDir = resolve (be_root env) outputDir in
      if names = [] then Inr fs
      else
        bindR (sortEntries env (List.map_filter (indexEntry env absOutputDir fs) names)) (\<lambda>entries.
        case json_file (indexJson entries) of
          Inl e \<Rightarrow> Inl IndexText
        | Inr text' \<Rightarrow>
            (case writeFile text' (resolve absOutputDir ''index.json'') fs of None \<Rightarrow> Inl IndexWrite | Some fs' \<Rightarrow> Inr fs')))"

text \<open>Exit code and files afterwards.\<close>

definition build_main :: "build_env \<Rightarrow> string list \<Rightarrow> file_tree \<Rightarrow> nat \<times> file_tree" where
  "build_main env args fs =
     (case buildArgs args defaultOptions of
        Inl stop \<Rightarrow> (if stop = HelpShown then 0 else 1, fs)
      | Inr options \<Rightarrow>
          (case loadManifest env fs (bo_manifest options) of
             Inl stop \<Rightarrow> (1, fs)
           | Inr plans \<Rightarrow>
               (case mkdirs (resolve (be_root env) (bo_out options)) fs of
                  None \<Rightarrow> (1, fs)
                | Some fs1 \<Rightarrow>
                    (let r = buildLoop env (bo_out options) plans fs1 in
                     case (if compiledPlanNames r \<noteq> [] then generateIndex env (bo_out options) (compiledPlanNames r) (br_fs r)
                           else Inr (br_fs r)) of
                       Inl stop \<Rightarrow> (1, br_fs r)
                     | Inr fs2 \<Rightarrow> (if failureCount r > 0 then 1 else 0, fs2)))))"

section \<open>The loop\<close>

text \<open>The names of the string paths, in order.\<close>

definition plan_names :: "jsval list \<Rightarrow> string list" where
  "plan_names plans = filter (\<lambda>b. b \<noteq> []) (map (\<lambda>p. planBasename (nameText p)) plans)"

lemma buildStep_counts:
  "length (plan_names [p]) \<le> 1" "failureCount st \<le> failureCount (buildStep env out st p)"
  "successCount st + failureCount st < successCount (buildStep env out st p) + failureCount (buildStep env out st p)"
  by (auto simp: plan_names_def buildStep_def Let_def split: prod.split jsval.split)

lemma buildStep_ok:
  "failureCount (buildStep env out st p) = failureCount st \<Longrightarrow>
     is_str p \<and> fst (runDslc env out p (br_fs st)) \<and> successCount (buildStep env out st p) = Suc (successCount st) \<and>
     compiledPlanNames (buildStep env out st p) = compiledPlanNames st @ plan_names [p]"
  by (auto simp: plan_names_def buildStep_def Let_def nameText_def split: prod.splits jsval.splits if_splits)

lemma foldl_buildStep_failures: "failureCount st \<le> failureCount (foldl (buildStep env out) st plans)"
proof (induction plans arbitrary: st)
  case (Cons p plans)
  then show ?case using buildStep_counts(2) [of st env out p] le_trans by fastforce
qed simp

lemma plan_names_Cons: "plan_names (p # ps) = plan_names [p] @ plan_names ps"
  by (simp add: plan_names_def)

lemma foldl_buildStep_ok:
  "failureCount (foldl (buildStep env out) st plans) = failureCount st \<Longrightarrow>
     list_all is_str plans \<and> successCount (foldl (buildStep env out) st plans) = successCount st + length plans \<and>
     compiledPlanNames (foldl (buildStep env out) st plans) = compiledPlanNames st @ plan_names plans"
proof (induction plans arbitrary: st)
  case Nil
  then show ?case by (simp add: plan_names_def)
next
  case (Cons p plans)
  let ?s = "buildStep env out st p"
  have "failureCount ?s = failureCount st"
    using Cons.prems buildStep_counts(2) [of st env out p] foldl_buildStep_failures [of ?s env out plans] by simp
  with Cons.IH [of ?s] Cons.prems buildStep_ok [OF this] show ?case by (simp add: plan_names_Cons [of p plans])
qed

lemma buildLoop_ok:
  "failureCount (buildLoop env out plans fs) = 0 \<Longrightarrow>
     list_all is_str plans \<and> successCount (buildLoop env out plans fs) = length plans \<and>
     compiledPlanNames (buildLoop env out plans fs) = plan_names plans"
  using foldl_buildStep_ok [of env out "\<lparr> successCount = 0, failureCount = 0, compiledPlanNames = [], br_fs = fs \<rparr>" plans]
  by (simp add: buildLoop_def)

section \<open>The index\<close>

definition by_name :: "build_env \<Rightarrow> IndexEntry list \<Rightarrow> bool" where
  "by_name env = sorted_wrt (\<lambda>a b. \<not> be_locale_gt env (nameText (ie_name a)) (nameText (ie_name b)))"

lemma sortEntries_sorted:
  assumes "js_comparator (be_locale_gt env) UNIV" and "sortEntries env es = Inr es'"
  shows "mset es' = mset es" and "by_name env es'"
proof -
  have "js_comparator (\<lambda>a b. be_locale_gt env (nameText (ie_name a)) (nameText (ie_name b))) UNIV"
    using assms(1) unfolding js_comparator_def by blast
  from js_comparator.sorted_js_sort_by [OF this, of es]
  show "mset es' = mset es" "by_name env es'"
    using assms(2) by (cases es; cases "tl es"; auto simp: sortEntries_def by_name_def split: if_splits)+
qed

lemma generateIndex_ok:
  assumes "js_comparator (be_locale_gt env) UNIV" and "names \<noteq> []" and "generateIndex env out names fs = Inr fs'"
  shows "\<exists>entries text'. mset entries = mset (List.map_filter (indexEntry env (resolve (be_root env) out) fs) names) \<and>
    by_name env entries \<and> json_file (indexJson entries) = Inr text' \<and>
    (\<forall>q. readFile fs' q = (if q = resolve (resolve (be_root env) out) ''index.json'' then Some text' else readFile fs q))"
proof -
  let ?es = "List.map_filter (indexEntry env (resolve (be_root env) out) fs) names"
  from assms(2,3) obtain entries where es: "sortEntries env ?es = Inr entries"
    and w: "(case json_file (indexJson entries) of Inl e \<Rightarrow> Inl IndexText
      | Inr text' \<Rightarrow> (case writeFile text' (resolve (resolve (be_root env) out) ''index.json'') fs of
          None \<Rightarrow> Inl IndexWrite | Some fs' \<Rightarrow> Inr fs')) = Inr fs'"
    by (auto simp: generateIndex_def Let_def bindR_Inr_iff)
  from w obtain text' where e: "json_file (indexJson entries) = Inr text'"
    "writeFile text' (resolve (resolve (be_root env) out) ''index.json'') fs = Some fs'"
    by (cases "json_file (indexJson entries)") (auto split: option.splits)
  show ?thesis
    using sortEntries_sorted [OF assms(1) es] e(1) readFile_writeFile [OF e(2)]
    by (intro exI [of _ entries] exI [of _ text']) simp
qed


section \<open>Digest texts\<close>

text \<open>The values \<open>JSON.parse\<close> returns.\<close>

fun json_data :: "jsval \<Rightarrow> bool" where
  "json_data JNull = True"
| "json_data (JBool b) = True"
| "json_data (JNum x) = is_finite_num x"
| "json_data (JStr s) = True"
| "json_data (JArr vs) = list_all json_data vs"
| "json_data (JObj kvs) = list_all (\<lambda>(k, v). json_data v) kvs"
| "json_data v = False"

lemma mapR_agree:
  "\<forall>x \<in> set xs. \<exists>y. f x = Inr (h y) \<and> g x = Inr (k y) \<Longrightarrow> \<exists>ys. mapR f xs = Inr (map h ys) \<and> mapR g xs = Inr (map k ys)"
proof (induction xs)
  case (Cons x xs)
  then obtain y ys where "f x = Inr (h y)" "g x = Inr (k y)" "mapR f xs = Inr (map h ys)" "mapR g xs = Inr (map k ys)" by auto
  then show ?case by (intro exI [of _ "y # ys"]) simp
qed simp

lemma digest_text: "json_data v \<Longrightarrow> \<exists>s. stableStringifyForDigest v = Inr (Some s) \<and> canonicalText v = Inr s"
proof (induction v rule: canonicalText.induct)
  case (1 v)
  show ?case
  proof (cases v)
    case (JArr vs)
    have "\<forall>x \<in> set vs. \<exists>s. stableStringifyForDigest x = Inr (Some s) \<and> canonicalText x = Inr s"
      using 1 JArr by (auto simp: list_all_iff)
    then obtain ss where "mapR stableStringifyForDigest vs = Inr (map Some ss)" "mapR canonicalText vs = Inr ss"
      using mapR_agree [of vs stableStringifyForDigest Some canonicalText id] by (auto simp: comp_def)
    then show ?thesis
      by (simp add: JArr stableStringifyForDigest.simps [of "JArr vs"] canonicalText.simps [of "JArr vs"] comp_def)
  next
    case (JObj kvs)
    let ?f = "\<lambda>(k, v). bindR (stableStringifyForDigest v) (\<lambda>r. Inr (json_quote k @ '':'' @ (case r of None \<Rightarrow> ''undefined'' | Some s \<Rightarrow> s)))"
    let ?g = "\<lambda>(k, v). bindR (canonicalText v) (\<lambda>s. Inr (json_quote k @ '':'' @ s))"
    have "\<forall>x \<in> set (sort_entries kvs). \<exists>s. ?f x = Inr s \<and> ?g x = Inr s"
    proof
      fix x assume "x \<in> set (sort_entries kvs)"
      moreover obtain k w where "x = (k, w)" by force
      ultimately show "\<exists>s. ?f x = Inr s \<and> ?g x = Inr s"
        using 1 JObj by (fastforce simp: list_all_iff)
    qed
    then obtain ss where "mapR ?f (sort_entries kvs) = Inr ss" "mapR ?g (sort_entries kvs) = Inr ss"
      using mapR_agree [of "sort_entries kvs" ?f id ?g id] by auto
    then show ?thesis
      unfolding JObj stableStringifyForDigest.simps [of "JObj kvs"] canonicalText.simps [of "JObj kvs"] by simp
  qed (use 1 in \<open>simp_all add: stableStringifyForDigest.simps canonicalText.simps\<close>)
qed

text \<open>
  The two implementations of canonical JSON agree: on parsed JSON data, the text that the
  plan index is hashed from (\<open>stableStringifyForDigest\<close>) is the text that registry digests are
  computed from (\<open>codegen/utils.ts\<close>), it always exists, and it does not depend on the order of
  properties. So a digest of the index is reproducible by either tool.
\<close>

theorem digest_texts_agree:
  assumes "json_data v" and "json_data w" and "same_data v w"
  shows "\<exists>s. stableStringifyForDigest v = Inr (Some s) \<and> canonicalText v = Inr s \<and>
    stableStringifyForDigest w = Inr (Some s) \<and> canonicalText w = Inr s"
  using digest_text [OF assms(1)] digest_text [OF assms(2)] same_data_canonical [OF assms(3)] by auto

theorem digest_texts_agree_witness:
  "\<exists>s. stableStringifyForDigest (JObj [(''b'', JNull), (''a'', JArr [])]) = Inr (Some s) \<and>
    canonicalText (JObj [(''a'', JArr []), (''b'', JNull)]) = Inr s"
proof -
  have "same_data (JObj [(''b'', JNull), (''a'', JArr [])]) (JObj [(''a'', JArr []), (''b'', JNull)])"
    by (rule same_data.obj [of _ "[(''b'', JNull), (''a'', JArr [])]"]) (auto intro: same_data.refl)
  from digest_texts_agree [OF _ _ this] show ?thesis by auto
qed

text \<open>No capabilities, no digest: the empty text stands for an artifact without capabilities only.\<close>

lemma capabilities_digest_empty:
  "computeCapabilitiesDigest env caps exts = Inr [] \<longleftrightarrow> no_length (nullish caps (JArr [])) \<and> own_entries (nullish exts (JObj [])) = []"
  by (auto simp: computeCapabilitiesDigest_def sha256_of_def Let_def bindR_Inr_iff split: option.splits)

section \<open>Witness of the batch build\<close>

definition demo_tree :: file_tree where
  "demo_tree = Dir [(''plans'', Dir [(''manifest.json'', File ''M'')])]"

definition demo_build :: build_env where
  "demo_build = \<lparr> be_root = [],
     be_run = (\<lambda>args fs. case writeFile ''A'' [''artifacts'', ''plans'', ''a.plan.json''] fs of None \<Rightarrow> (Some 1, fs) | Some fs' \<Rightarrow> (Some 0, fs')),
     be_json = (\<lambda>s. if s = ''M'' then Some (JObj [(''schema_version'', JNum (jint 1)), (''plans'', JArr [JStr ''plans/a.plan.ts''])])
                    else if s = ''A'' then Some (JObj [(''plan_name'', JStr ''a'')]) else None),
     be_sha256 = (\<lambda>s. ''0''), be_locale_gt = (\<lambda>a b. a > b) \<rparr>"


end
