(* ===== verification/VisPlan.thy ===== *)
theory VisPlan
  imports PlanSession JsArith
begin

text \<open>
  The plan visualizer (\<open>tools/visualizer/src\<close>): its data types (\<open>types.ts\<close>), the conversion of a plan
  artifact to a graph (\<open>parser/plan-parser.ts\<close>) and the layout (\<open>layout/dagre-layout.ts\<close>). The plan
  is the JSON that the compiler wrote; its nodes are those of \<open>PlanContext\<close>. The layout engine
  \<open>dagre\<close> is a parameter.
\<close>

section \<open>Types\<close>

record PlanJson =
  pj_schema_version :: jnum
  pj_plan_name :: string
  pj_nodes :: "plan_node list"
  pj_outputs :: "string list"

record VisNode =
  vn_id :: string
  vn_op :: string
  vn_label :: string
  vn_trace :: "string option"
  vn_isSource :: bool
  vn_isOutput :: bool
  vn_x :: jnum
  vn_y :: jnum
  vn_width :: jnum
  vn_height :: jnum
  vn_params :: "(string \<times> jsval) list"
  vn_fragment :: "string option"
  vn_fragmentVersion :: "string option"
  vn_isFragment :: bool
  vn_children :: "string list option"
  vn_expanded :: bool

record VisEdge =
  ve_id :: string
  ve_from :: string
  ve_to :: string
  ve_hidden :: bool

text \<open>The \<open>Map\<close> of nodes in insertion order.\<close>

record VisGraph =
  vg_nodes :: "(string \<times> VisNode) list"
  vg_edges :: "VisEdge list"

section \<open>plan-parser.ts\<close>

definition NODE_MIN_WIDTH :: jnum where "NODE_MIN_WIDTH = jint 100"
definition NODE_PADDING :: jnum where "NODE_PADDING = jint 24"
definition NODE_HEIGHT :: jnum where "NODE_HEIGHT = jint 50"

definition estimateTextWidth :: "string \<Rightarrow> int \<Rightarrow> jnum" where
  "estimateTextWidth text' fontSize =
     js_mul (js_mul (jint (int (length text'))) (jint fontSize)) (to_double (6 / 10))"

definition traceOf :: "plan_node \<Rightarrow> string option" where
  "traceOf n = (case obj_get (node_params n) ''trace'' of JStr s \<Rightarrow> Some s | _ \<Rightarrow> None)"

definition nodeWidth :: "plan_node \<Rightarrow> jnum" where
  "nodeWidth n =
     (let opWidth = estimateTextWidth (node_op n) 11;
          traceWidth = (case traceOf n of
             Some t \<Rightarrow> if t \<noteq> [] then estimateTextWidth (''trace: '' @ t) 9 else jint 0
           | None \<Rightarrow> jint 0);
          textWidth = js_max opWidth traceWidth
      in js_max NODE_MIN_WIDTH (js_add textWidth NODE_PADDING))"

definition visNode :: "string list \<Rightarrow> plan_node \<Rightarrow> VisNode" where
  "visNode outputSet n =
     \<lparr> vn_id = node_id n, vn_op = node_op n, vn_label = node_op n, vn_trace = traceOf n,
       vn_isSource = (length (node_inputs n) = 0), vn_isOutput = (node_id n \<in> set outputSet),
       vn_x = jint 0, vn_y = jint 0, vn_width = nodeWidth n, vn_height = NODE_HEIGHT,
       vn_params = node_params n, vn_fragment = None, vn_fragmentVersion = None, vn_isFragment = False,
       vn_children = None, vn_expanded = True \<rparr>"

definition inputEdges :: "plan_node \<Rightarrow> VisEdge list" where
  "inputEdges n = map (\<lambda>inputId. \<lparr> ve_id = inputId @ ''->'' @ node_id n, ve_from = inputId,
     ve_to = node_id n, ve_hidden = False \<rparr>) (node_inputs n)"

definition rhsEdges :: "plan_node \<Rightarrow> VisEdge list" where
  "rhsEdges n = (case obj_get (node_params n) ''rhs'' of
     JStr r \<Rightarrow> [\<lparr> ve_id = r @ ''->'' @ node_id n @ '':rhs'', ve_from = r, ve_to = node_id n, ve_hidden = False \<rparr>]
   | _ \<Rightarrow> [])"

text \<open>One round of the loop over \<open>plan.nodes\<close>.\<close>

definition addVisNode :: "string list \<Rightarrow> VisGraph \<Rightarrow> plan_node \<Rightarrow> VisGraph" where
  "addVisNode outputSet g n =
     \<lparr> vg_nodes = alist_set (node_id n) (visNode outputSet n) (vg_nodes g),
       vg_edges = vg_edges g @ inputEdges n @ rhsEdges n \<rparr>"

definition parsePlan :: "PlanJson \<Rightarrow> VisGraph" where
  "parsePlan plan =
     (let outputSet = js_set (pj_outputs plan)
      in foldl (addVisNode outputSet) \<lparr> vg_nodes = [], vg_edges = [] \<rparr> (pj_nodes plan))"

text \<open>Colors of \<open>theme.ts\<close> (\<open>draculaHex\<close>).\<close>

definition getNodeColor :: "string \<Rightarrow> bool \<Rightarrow> int" where
  "getNodeColor op isOutput =
     (if isOutput then 0xff0037
      else if startsWith op ''viewer.'' then 0x0092ff
      else if op = ''concat'' then 0xff41b4
      else if op = ''vm'' then 0x8969ff
      else if op = ''filter'' then 0xffb700
      else if op = ''take'' then 0x00c986
      else 0x666666)"

section \<open>dagre-layout.ts\<close>

record LayoutOptions =
  lo_rankdir :: string
  lo_ranksep :: int
  lo_nodesep :: int
  lo_edgesep :: int

definition defaultLayout :: LayoutOptions where
  "defaultLayout = \<lparr> lo_rankdir = ''TB'', lo_ranksep = 60, lo_nodesep = 30, lo_edgesep = 20 \<rparr>"

text \<open>
  The engine receives the options, the boxes and the edges, and gives the center of a node or
  nothing.
\<close>

type_synonym dagre = "LayoutOptions \<Rightarrow> (string \<times> jnum \<times> jnum) list \<Rightarrow> (string \<times> string) list \<Rightarrow> string \<Rightarrow> (jnum \<times> jnum) option"

definition placeNode :: "(string \<Rightarrow> (jnum \<times> jnum) option) \<Rightarrow> string \<Rightarrow> VisNode \<Rightarrow> VisNode" where
  "placeNode pos i node =
     (case pos i of
        Some (x, y) \<Rightarrow> node\<lparr> vn_x := js_sub x (js_div (vn_width node) (jint 2)),
                            vn_y := js_sub y (js_div (vn_height node) (jint 2)) \<rparr>
      | None \<Rightarrow> node)"

definition layoutGraph :: "dagre \<Rightarrow> LayoutOptions \<Rightarrow> VisGraph \<Rightarrow> VisGraph" where
  "layoutGraph dagre options graph =
     (let boxes = map (\<lambda>(i, node). (i, vn_width node, vn_height node)) (vg_nodes graph);
          arcs = map (\<lambda>e. (ve_from e, ve_to e)) (vg_edges graph);
          pos = dagre options boxes arcs
      in \<lparr> vg_nodes = foldl (\<lambda>m (i, node). alist_set i (placeNode pos i node) m) [] (vg_nodes graph),
           vg_edges = vg_edges graph \<rparr>)"

section \<open>The graph of a plan\<close>

lemma foldl_addVisNode:
  "distinct (map fst (vg_nodes g) @ map node_id ns) \<Longrightarrow>
   foldl (addVisNode outs) g ns =
     \<lparr> vg_nodes = vg_nodes g @ map (\<lambda>n. (node_id n, visNode outs n)) ns,
       vg_edges = vg_edges g @ concat (map (\<lambda>n. inputEdges n @ rhsEdges n) ns) \<rparr>"
proof (induction ns arbitrary: g)
  case (Cons n ns)
  then have "node_id n \<notin> fst ` set (vg_nodes g)" by auto
  with Cons.prems show ?case by (subst foldl_Cons, subst Cons.IH) (auto simp: addVisNode_def alist_set_fresh)
qed simp

lemma parsePlan_distinct:
  "distinct (map node_id (pj_nodes p)) \<Longrightarrow>
   parsePlan p =
     \<lparr> vg_nodes = map (\<lambda>n. (node_id n, visNode (js_set (pj_outputs p)) n)) (pj_nodes p),
       vg_edges = concat (map (\<lambda>n. inputEdges n @ rhsEdges n) (pj_nodes p)) \<rparr>"
  by (simp add: parsePlan_def foldl_addVisNode)

text \<open>Endpoints of the edges of a node are among its references.\<close>

definition arcs :: "VisGraph \<Rightarrow> (string \<times> string) set" where
  "arcs g = (\<lambda>e. (ve_from e, ve_to e)) ` set (vg_edges g)"

lemma obj_get_rhs: "obj_get ps ''rhs'' = JStr r \<Longrightarrow> r \<in> set (rhs_refs ps)"
proof (induction ps)
  case (Cons p ps)
  obtain k v where p: "p = (k, v)" by (rule prod.exhaust)
  show ?case
  proof (cases "k = ''rhs''")
    case True
    with Cons.prems have "v = JStr r" by (simp add: p)
    then show ?thesis by (simp add: p True rhs_refs_Cons)
  next
    case False
    with Cons show ?thesis by (simp add: p rhs_refs_Cons)
  qed
qed (simp add: proto_get_def object_proto_def)

lemma edge_endpoints:
  "e \<in> set (inputEdges n) \<or> e \<in> set (rhsEdges n) \<Longrightarrow> ve_to e = node_id n \<and> ve_from e \<in> set (node_refs n)"
  by (auto simp: inputEdges_def rhsEdges_def node_refs_def obj_get_rhs split: jsval.splits)

lemma arcs_parsePlan: "distinct (map node_id (pj_nodes p)) \<Longrightarrow> arcs (parsePlan p) \<subseteq> edges (pj_nodes p)"
  using edge_endpoints by (fastforce simp: arcs_def parsePlan_distinct edges_def)

lemma input_arcs_parsePlan:
  "distinct (map node_id (pj_nodes p)) \<Longrightarrow> n \<in> set (pj_nodes p) \<Longrightarrow> i \<in> set (node_inputs n) \<Longrightarrow>
     (i, node_id n) \<in> arcs (parsePlan p)"
  by (force simp: arcs_def parsePlan_distinct inputEdges_def image_iff)

lemma layoutGraph_nodes:
  assumes "distinct (map fst (vg_nodes g))"
  shows "\<exists>pos. layoutGraph d opts g = \<lparr> vg_nodes = map (\<lambda>(i, n). (i, placeNode pos i n)) (vg_nodes g), vg_edges = vg_edges g \<rparr>"
proof -
  have "foldl (\<lambda>m (i, n). alist_set i (placeNode pos i n) m) acc ns = acc @ map (\<lambda>(i, n). (i, placeNode pos i n)) ns"
    if "distinct (map fst acc @ map fst ns)" for pos acc and ns :: "(string \<times> VisNode) list"
    using that
  proof (induction ns arbitrary: acc)
    case (Cons m ns)
    then have "fst m \<notin> fst ` set acc" by auto
    with Cons.prems show ?case by (cases m) (simp add: alist_set_fresh Cons.IH)
  qed simp
  from this [of "[]"] assms show ?thesis by (simp add: layoutGraph_def Let_def) blast
qed

text \<open>The width of a box is never below the minimum.\<close>

lemma estimateTextWidth_not_NaN: "estimateTextWidth t s \<noteq> NaN"
proof -
  obtain c where c: "to_double (6 / 10) = Fin c" "c \<noteq> 0"
  proof
    have q: "quotient_of (6 / 10) = (3, 5)" and n: "ndigits 2 3 = 2" "ndigits 2 5 = 3" by code_simp+
    have e: "floor_log 2 (6 / 10) = - 1" by (simp add: floor_log_def q [simplified] n rat_pow_def)
    have f: "\<lfloor>27021597764222976 / 5 :: rat\<rfloor> = 5404319552844595" by (simp add: floor_eq_iff)
    show "to_double (6 / 10) = Fin (5404319552844595 / 9007199254740992)"
      by (subst to_double_by [OF _ e, where m = 5404319552844595]) (simp_all add: rat_pow_def round_half_even_def Let_def f)
  qed simp
  have inf: "js_mul x (Fin c) \<noteq> NaN" if "x \<noteq> NaN" for x
    using that c(2) by (cases x) (auto simp: signed_inf_def)
  show ?thesis unfolding estimateTextWidth_def c(1) by (rule inf) simp
qed

lemma nodeWidth_ge: "nodeWidth n \<noteq> NaN \<and> \<not> num_gt NODE_MIN_WIDTH (nodeWidth n)"
proof -
  have "js_add x NODE_PADDING \<noteq> NaN" if "x \<noteq> NaN" for x
    using that by (cases x) (simp_all add: NODE_PADDING_def)
  moreover have "js_max (estimateTextWidth t s) w \<noteq> NaN" if "w \<noteq> NaN" for t s w
    using that by (simp add: js_max_NaN estimateTextWidth_not_NaN)
  ultimately have "nodeWidth n \<noteq> NaN"
    unfolding nodeWidth_def Let_def
    by (auto simp: js_max_NaN estimateTextWidth_not_NaN NODE_MIN_WIDTH_def split: option.splits)
  then show ?thesis
    unfolding nodeWidth_def Let_def using js_max_ge by blast
qed

section \<open>Properties\<close>

text \<open>The typed view of the JSON that \<open>finalize\<close> returns.\<close>

definition finalized :: "string \<Rightarrow> string \<Rightarrow> plan_ctx \<Rightarrow> PlanJson" where
  "finalized h name ctx = \<lparr> pj_schema_version = jint 1, pj_plan_name = name, pj_nodes = ctx_nodes ctx, pj_outputs = [h] \<rparr>"

lemma finalized_view:
  "getp (finalize h (JStr name) ctx) ''nodes'' = JArr (map node_js (pj_nodes (finalized h name ctx)))"
  "getp (finalize h (JStr name) ctx) ''outputs'' = JArr (map JStr (pj_outputs (finalized h name ctx)))"
  by (simp_all add: finalize_def finalized_def)

text \<open>The graph of a plan of a session.\<close>

lemma session_graph:
  fixes name :: string
  assumes "session c ctx hs" and "h \<in> hs"
  defines "g \<equiv> parsePlan (finalized h name ctx)"
  shows "map fst (vg_nodes g) = map node_id (ctx_nodes ctx)" and "distinct (map node_id (pj_nodes (finalized h name ctx)))"
    and "arcs g \<subseteq> edges (ctx_nodes ctx)" and "arcs g \<subseteq> ids ctx \<times> ids ctx" and "distinct (map node_id (ctx_nodes ctx))"
    and "topo_from {} (ctx_nodes ctx)" and "h \<in> ids ctx"
proof -
  have inv: "plan_inv ctx" and h: "h \<in> ids ctx"
    using session_invariant [OF assms(1)] assms(2) by auto
  then show d: "distinct (map node_id (ctx_nodes ctx))" and topo: "topo_from {} (ctx_nodes ctx)" and "h \<in> ids ctx"
    by (auto simp: plan_inv_def ids_increasing_distinct)
  then show d': "distinct (map node_id (pj_nodes (finalized h name ctx)))" by (simp add: finalized_def)
  show sub: "arcs g \<subseteq> edges (ctx_nodes ctx)"
    using arcs_parsePlan [OF d'] by (simp add: g_def finalized_def)
  show "arcs g \<subseteq> ids ctx \<times> ids ctx"
    using sub topo_refs [OF topo] unfolding edges_def ids_def by blast
  show "map fst (vg_nodes g) = map node_id (ctx_nodes ctx)"
    unfolding g_def parsePlan_distinct [OF d'] by (simp add: finalized_def)
qed



text \<open>
  Every box is at least \<open>NODE_MIN_WIDTH\<close> wide and exactly \<open>NODE_HEIGHT\<close> high, whatever
  the op and trace texts are; rounding in the width estimate never produces \<open>NaN\<close>.
\<close>

theorem parsePlan_boxes:
  "list_all (\<lambda>(i, n). vn_width n \<noteq> NaN \<and> \<not> num_gt (jint 100) (vn_width n) \<and> vn_height n = jint 50) (vg_nodes (parsePlan p))"
proof -
  let ?ok = "\<lambda>(i, n). vn_width n \<noteq> NaN \<and> \<not> num_gt (jint 100) (vn_width n) \<and> vn_height n = jint 50"
  have "Ball (set (vg_nodes (foldl (addVisNode outs) g ns))) ?ok" if "Ball (set (vg_nodes g)) ?ok" for outs g ns
    using that
  proof (induction ns arbitrary: g)
    case (Cons m ns)
    have "?ok (node_id m, visNode outs m)"
      using nodeWidth_ge [of m] by (simp add: visNode_def NODE_MIN_WIDTH_def NODE_HEIGHT_def)
    then have "Ball (set (vg_nodes (addVisNode outs g m))) ?ok"
      using Cons.prems set_alist_set_subset [of "node_id m" "visNode outs m" "vg_nodes g"] by (auto simp: addVisNode_def)
    then show ?case unfolding foldl_Cons by (rule Cons.IH)
  qed simp
  from this [of "\<lparr> vg_nodes = [], vg_edges = [] \<rparr>"] show ?thesis by (simp add: parsePlan_def list_all_iff)
qed

text \<open>
  The color rules name ops without namespace, but every op of a plan is qualified, so every node
  that is not the output is drawn in the default color.
\<close>

lemma namespaced_ops_default_color:
  assumes "CHR '':'' \<in> set op" and "\<not> startsWith op ''viewer.''"
  shows "getNodeColor op False = 0x666666"
proof -
  have ne: "op \<noteq> s" if "CHR '':'' \<notin> set s" for s using assms(1) that by blast
  have "op \<noteq> ''concat''" "op \<noteq> ''vm''" "op \<noteq> ''filter''" "op \<noteq> ''take''" by (rule ne, simp)+
  then show ?thesis by (simp add: getNodeColor_def assms(2))
qed

end
