(* ===== verification/VisStore.thy ===== *)
theory VisStore
  imports VisPlan
begin

text \<open>
  The visualizer's store (\<open>tools/visualizer/src/state/store.ts\<close>) as a state machine. A synchronous
  action is a function on the browser state. An asynchronous action is split at its \<open>await\<close>: the
  part before it puts a request in flight together with what runs after it; the rest runs when the
  response arrives. Responses arrive in any order and interleave with user actions and history
  navigation. A request that fails, returns a bad status or returns data that cannot be parsed ends
  in the same \<open>catch\<close> branch: the response \<open>Failed\<close>.
\<close>

section \<open>State\<close>

record PlanIndexEntry =
  pie_name :: string
  pie_path :: string
  pie_digest :: string

record ViewState =
  vw_x :: jnum
  vw_y :: jnum
  vw_scale :: jnum

text \<open>Registry entries are displayed only, so they are kept as the JSON they came as.\<close>

record RegistryData =
  rd_keys :: jsval
  rd_params :: jsval
  rd_features :: jsval
  rd_capabilities :: jsval
  rd_tasks :: jsval
  rd_endpoints_dev :: jsval
  rd_endpoints_test :: jsval
  rd_endpoints_prod :: jsval

record store =
  planIndex :: "PlanIndexEntry list option"
  indexLoading :: bool
  indexError :: "string option"
  planJson :: "PlanJson option"
  fileName :: "string option"
  graph :: "VisGraph option"
  planLoading :: bool
  planError :: "string option"
  sourceCode :: "string option"
  sourceLoading :: bool
  showSource :: bool
  sourceCollapsed :: bool
  editSourceCode :: "string option"
  detailsCollapsed :: bool
  view :: ViewState
  selectedNodeId :: "string option"
  hoveredNodeId :: "string option"
  expandedFragments :: "string list"
  autoCollapseThreshold :: nat
  registries :: "RegistryData option"
  registriesLoading :: bool
  registriesError :: "string option"
  selectedRegistryTab :: string
  registrySearchQuery :: string
  selectedRegistryEntry :: jsval
  selectedEndpointEnv :: string

definition initialView :: ViewState where
  "initialView = \<lparr> vw_x = jint 0, vw_y = jint 0, vw_scale = jint 1 \<rparr>"

definition initialStore :: store where
  "initialStore = \<lparr> planIndex = None, indexLoading = False, indexError = None, planJson = None, fileName = None,
     graph = None, planLoading = False, planError = None, sourceCode = None, sourceLoading = False,
     showSource = False, sourceCollapsed = False, editSourceCode = None, detailsCollapsed = False,
     view = initialView, selectedNodeId = None, hoveredNodeId = None, expandedFragments = [],
     autoCollapseThreshold = 200, registries = None, registriesLoading = False, registriesError = None,
     selectedRegistryTab = ''keys'', registrySearchQuery = [], selectedRegistryEntry = JNull,
     selectedEndpointEnv = ''dev'' \<rparr>"

text \<open>
  What runs after an awaited action: nothing, the \<open>finally\<close> block, or showing a registry entry
  and then the \<open>finally\<close> block. After the initial index load a plan may be loaded.
\<close>

datatype after = Nothing | ClearFlag | ShowRegistry string jsval
datatype after_index = IndexOnly | ThenPlan string

datatype request =
    ReqIndex after_index
  | ReqPlan string string after
  | ReqSource string
  | ReqRegistries after

datatype response =
    Failed string
  | GotIndex "PlanIndexEntry list"
  | GotPlan PlanJson
  | GotSource string
  | GotRegistries RegistryData

type_synonym query = "(string \<times> string) list"

text \<open>The page: the store, the module's flag, the URL query, the history entries pushed so far, and the
  requests in flight.\<close>

record browser =
  b_store :: store
  isHandlingPopState :: bool
  b_query :: query
  b_history :: "(jsval \<times> query) list"
  b_pending :: "request list"

text \<open>Code outside the sources: the layout engine and the parsing of a query string.\<close>

record vis_env =
  env_dagre :: dagre
  env_query :: "string \<Rightarrow> query"

section \<open>Helpers\<close>

definition setState :: "(store \<Rightarrow> store) \<Rightarrow> browser \<Rightarrow> browser" where
  "setState f b = b\<lparr> b_store := f (b_store b) \<rparr>"

definition fetching :: "request \<Rightarrow> browser \<Rightarrow> browser" where
  "fetching r b = b\<lparr> b_pending := b_pending b @ [r] \<rparr>"

definition pushState :: "jsval \<Rightarrow> query \<Rightarrow> browser \<Rightarrow> browser" where
  "pushState st q b = b\<lparr> b_query := q, b_history := b_history b @ [(st, q)] \<rparr>"

text \<open>\<open>URLSearchParams\<close>: \<open>set\<close> replaces the first value and drops the others; \<open>get\<close> gives the first or \<open>null\<close>.\<close>

definition params_set :: "string \<Rightarrow> string \<Rightarrow> query \<Rightarrow> query" where
  "params_set k v q =
     (let before = takeWhile (\<lambda>p. fst p \<noteq> k) q; rest = dropWhile (\<lambda>p. fst p \<noteq> k) q
      in before @ [(k, v)] @ filter (\<lambda>p. fst p \<noteq> k) rest)"

definition params_delete :: "string \<Rightarrow> query \<Rightarrow> query" where
  "params_delete k q = filter (\<lambda>p. fst p \<noteq> k) q"

definition params_get :: "query \<Rightarrow> string \<Rightarrow> jsval" where
  "params_get q k = (case map_of q k of Some v \<Rightarrow> JStr v | None \<Rightarrow> JNull)"

text \<open>\<open>x || y\<close> and \<open>o?.k\<close>.\<close>

definition js_or :: "jsval \<Rightarrow> jsval \<Rightarrow> jsval" where
  "js_or x y = (if truthy x then x else y)"

definition opt_get :: "jsval \<Rightarrow> string \<Rightarrow> jsval" where
  "opt_get v k = (if v = JUndef \<or> v = JNull then JUndef else getp v k)"

text \<open>\<open>String(id)\<close> for an entry id, which is a string or a number.\<close>

definition id_text :: "jsval \<Rightarrow> string" where
  "id_text v = (case v of JStr s \<Rightarrow> s | JNum x \<Rightarrow> num_str x | _ \<Rightarrow> [])"

definition the_tab :: "jsval \<Rightarrow> string" where
  "the_tab v = (case v of JStr s \<Rightarrow> s | _ \<Rightarrow> [])"

text \<open>\<open>selected ? (isNaN(Number(selected)) ? selected : Number(selected)) : null\<close>.\<close>

definition selectedFromUrl :: "jsval \<Rightarrow> jsval" where
  "selectedFromUrl v =
     (if truthy v then
        (case v of
           JStr s \<Rightarrow> if js_Number s = NaN then v else JNum (js_Number s)
         | _ \<Rightarrow> v)
      else JNull)"

section \<open>Actions\<close>

definition loadIndex :: "after_index \<Rightarrow> browser \<Rightarrow> browser" where
  "loadIndex k b = fetching (ReqIndex k) (setState (\<lambda>s. s\<lparr> indexLoading := True, indexError := None \<rparr>) b)"

definition runAfter :: "after \<Rightarrow> browser \<Rightarrow> browser" where
  "runAfter k b =
     (case k of
        Nothing \<Rightarrow> b
      | ClearFlag \<Rightarrow> b\<lparr> isHandlingPopState := False \<rparr>
      | ShowRegistry tab selected \<Rightarrow>
          (setState (\<lambda>s. s\<lparr> selectedRegistryTab := tab, selectedRegistryEntry := selectedFromUrl selected \<rparr>) b)
            \<lparr> isHandlingPopState := False \<rparr>)"

definition loadPlan :: "vis_env \<Rightarrow> PlanJson \<Rightarrow> string \<Rightarrow> bool \<Rightarrow> browser \<Rightarrow> browser" where
  "loadPlan env json file skipHistory b =
     (let parsed = parsePlan json;
          g = layoutGraph (env_dagre env) defaultLayout parsed;
          b' = setState (\<lambda>s. s\<lparr> planJson := Some json, fileName := Some file, graph := Some g, selectedNodeId := None,
                 hoveredNodeId := None, expandedFragments := [], planError := None \<rparr>) b
      in if \<not> isHandlingPopState b \<and> \<not> skipHistory
         then pushState (JObj [(''plan'', JStr (pj_plan_name json))]) (env_query env (''plan='' @ pj_plan_name json)) b'
         else b')"

definition loadSource :: "string \<Rightarrow> browser \<Rightarrow> browser" where
  "loadSource planName b = fetching (ReqSource planName) (setState (\<lambda>s. s\<lparr> sourceLoading := True \<rparr>) b)"

definition loadPlanByName :: "string \<Rightarrow> after \<Rightarrow> browser \<Rightarrow> browser" where
  "loadPlanByName name k b =
     (case (case planIndex (b_store b) of None \<Rightarrow> None | Some ps \<Rightarrow> List.find (\<lambda>p. pie_name p = name) ps) of
        None \<Rightarrow> runAfter k (setState (\<lambda>s. s\<lparr> planError := Some (''Plan not found: '' @ name) \<rparr>) b)
      | Some entry \<Rightarrow>
          fetching (ReqPlan name (pie_path entry) k)
            (setState (\<lambda>s. s\<lparr> planLoading := True, planError := None \<rparr>) b))"

definition clearPlan :: "browser \<Rightarrow> browser" where
  "clearPlan b =
     (let b' = setState (\<lambda>s. s\<lparr> planJson := None, fileName := None, graph := None, view := initialView,
                 selectedNodeId := None, hoveredNodeId := None, expandedFragments := [], sourceCode := None,
                 showSource := False \<rparr>) b
      in if \<not> isHandlingPopState b then pushState (JObj []) [] b' else b')"

definition loadRegistries :: "after \<Rightarrow> browser \<Rightarrow> browser" where
  "loadRegistries k b =
     fetching (ReqRegistries k) (setState (\<lambda>s. s\<lparr> registriesLoading := True, registriesError := None \<rparr>) b)"

definition fitToView :: "jnum \<Rightarrow> jnum \<Rightarrow> store \<Rightarrow> store" where
  "fitToView canvasWidth canvasHeight s =
     (case graph s of
        None \<Rightarrow> s
      | Some g \<Rightarrow>
          if vg_nodes g = [] then s
          else
            let nodes = map snd (vg_nodes g);
                minX = js_minimum (map vn_x nodes);
                maxX = js_maximum (map (\<lambda>n. js_add (vn_x n) (vn_width n)) nodes);
                minY = js_minimum (map vn_y nodes);
                maxY = js_maximum (map (\<lambda>n. js_add (vn_y n) (vn_height n)) nodes);
                graphWidth = js_sub maxX minX;
                graphHeight = js_sub maxY minY;
                padding = jint 60;
                scaleX = js_div (js_sub canvasWidth (js_mul padding (jint 2))) graphWidth;
                scaleY = js_div (js_sub canvasHeight (js_mul padding (jint 2))) graphHeight;
                scale = js_minimum [scaleX, scaleY, jint 2];
                centerX = js_div (js_add minX maxX) (jint 2);
                centerY = js_div (js_add minY maxY) (jint 2)
            in s\<lparr> view := \<lparr> vw_x = js_sub (js_div canvasWidth (jint 2)) (js_mul centerX scale),
                            vw_y = js_sub (js_div canvasHeight (jint 2)) (js_mul centerY scale),
                            vw_scale = scale \<rparr> \<rparr>)"

definition countVisibleNodes :: "VisGraph \<Rightarrow> string list \<Rightarrow> nat" where
  "countVisibleNodes g expanded = length (vg_nodes g)"

text \<open>
  The \<open>while\<close> loop over the live iterator of the set: \<open>rest\<close> are the elements it has not visited,
  \<open>kept\<close> is the set. An exhausted iterator gives \<open>undefined\<close>, which ends the loop.
\<close>

fun collapseOldest :: "VisGraph \<Rightarrow> nat \<Rightarrow> string \<Rightarrow> string list \<Rightarrow> string list \<Rightarrow> string list" where
  "collapseOldest g threshold fragmentId [] kept = kept"
| "collapseOldest g threshold fragmentId (oldest # rest) kept =
     (if countVisibleNodes g kept > threshold \<and> oldest \<noteq> [] \<and> oldest \<noteq> fragmentId
      then collapseOldest g threshold fragmentId rest (removeAll oldest kept)
      else kept)"

definition toggleFragment :: "string \<Rightarrow> store \<Rightarrow> store" where
  "toggleFragment fragmentId s =
     (let expanded = expandedFragments s in
      if fragmentId \<in> set expanded then s\<lparr> expandedFragments := removeAll fragmentId expanded \<rparr>
      else
        let newExpanded = set_add fragmentId expanded
        in s\<lparr> expandedFragments :=
               (case graph s of
                  None \<Rightarrow> newExpanded
                | Some g \<Rightarrow>
                    if countVisibleNodes g newExpanded > autoCollapseThreshold s
                    then collapseOldest g (autoCollapseThreshold s) fragmentId newExpanded newExpanded
                    else newExpanded) \<rparr>)"

definition registryQuery :: "string \<Rightarrow> query \<Rightarrow> query" where
  "registryQuery tab q = params_set ''tab'' tab (params_set ''view'' ''registries'' q)"

definition setRegistryTab :: "string \<Rightarrow> browser \<Rightarrow> browser" where
  "setRegistryTab tab b =
     (let b' = setState (\<lambda>s. s\<lparr> selectedRegistryTab := tab, selectedRegistryEntry := JNull \<rparr>) b
      in if \<not> isHandlingPopState b
         then pushState (JObj [(''view'', JStr ''registries''), (''tab'', JStr tab)])
                (params_delete ''selected'' (registryQuery tab (b_query b))) b'
         else b')"

definition registryState :: "string \<Rightarrow> jsval \<Rightarrow> jsval" where
  "registryState tab id' = JObj [(''view'', JStr ''registries''), (''tab'', JStr tab), (''selected'', id')]"

definition setSelectedRegistryEntry :: "jsval \<Rightarrow> browser \<Rightarrow> browser" where
  "setSelectedRegistryEntry id' b =
     (let b' = setState (\<lambda>s. s\<lparr> selectedRegistryEntry := id' \<rparr>) b;
          tab = selectedRegistryTab (b_store b')
      in if \<not> isHandlingPopState b \<and> id' \<noteq> JNull
         then pushState (registryState tab id') (params_set ''selected'' (id_text id') (registryQuery tab (b_query b))) b'
         else b')"

definition navigateToRegistryEntry :: "string \<Rightarrow> jsval \<Rightarrow> browser \<Rightarrow> browser" where
  "navigateToRegistryEntry tab id' b =
     (let b' = setState (\<lambda>s. s\<lparr> selectedRegistryTab := tab, selectedRegistryEntry := id', registrySearchQuery := [] \<rparr>) b
      in if \<not> isHandlingPopState b
         then pushState (registryState tab id') (params_set ''selected'' (id_text id') (registryQuery tab (b_query b))) b'
         else b')"

text \<open>All actions a component can call. The small setters are given in place.\<close>

datatype vis_action =
    LoadIndex
  | LoadPlanByName string
  | LoadPlan PlanJson string bool
  | ClearPlan
  | ToggleSource
  | ToggleSourceCollapsed
  | ToggleDetailsCollapsed
  | SetEditSourceCode "string option"
  | LoadSource string
  | SetView "jnum option" "jnum option" "jnum option"
  | ResetView
  | FitToView jnum jnum
  | SelectNode "string option"
  | HoverNode "string option"
  | ToggleFragment string
  | LoadRegistries
  | SetRegistryTab string
  | SetRegistrySearchQuery string
  | SetSelectedRegistryEntry jsval
  | NavigateToRegistryEntry string jsval
  | SetSelectedEndpointEnv string

definition mergeView :: "jnum option \<Rightarrow> jnum option \<Rightarrow> jnum option \<Rightarrow> ViewState \<Rightarrow> ViewState" where
  "mergeView x y sc v =
     \<lparr> vw_x = (case x of Some a \<Rightarrow> a | None \<Rightarrow> vw_x v), vw_y = (case y of Some a \<Rightarrow> a | None \<Rightarrow> vw_y v),
       vw_scale = (case sc of Some a \<Rightarrow> a | None \<Rightarrow> vw_scale v) \<rparr>"

fun act :: "vis_env \<Rightarrow> vis_action \<Rightarrow> browser \<Rightarrow> browser" where
  "act env LoadIndex b = loadIndex IndexOnly b"
| "act env (LoadPlanByName name) b = loadPlanByName name Nothing b"
| "act env (LoadPlan json file skip) b = loadPlan env json file skip b"
| "act env ClearPlan b = clearPlan b"
| "act env ToggleSource b = setState (\<lambda>s. s\<lparr> showSource := \<not> showSource s \<rparr>) b"
| "act env ToggleSourceCollapsed b = setState (\<lambda>s. s\<lparr> sourceCollapsed := \<not> sourceCollapsed s \<rparr>) b"
| "act env ToggleDetailsCollapsed b = setState (\<lambda>s. s\<lparr> detailsCollapsed := \<not> detailsCollapsed s \<rparr>) b"
| "act env (SetEditSourceCode code) b = setState (\<lambda>s. s\<lparr> editSourceCode := code \<rparr>) b"
| "act env (LoadSource name) b = loadSource name b"
| "act env (SetView x y sc) b = setState (\<lambda>s. s\<lparr> view := mergeView x y sc (view s) \<rparr>) b"
| "act env ResetView b = setState (\<lambda>s. s\<lparr> view := initialView \<rparr>) b"
| "act env (FitToView w h) b = setState (fitToView w h) b"
| "act env (SelectNode i) b = setState (\<lambda>s. s\<lparr> selectedNodeId := i \<rparr>) b"
| "act env (HoverNode i) b = setState (\<lambda>s. s\<lparr> hoveredNodeId := i \<rparr>) b"
| "act env (ToggleFragment f) b = setState (toggleFragment f) b"
| "act env LoadRegistries b = loadRegistries Nothing b"
| "act env (SetRegistryTab tab) b = setRegistryTab tab b"
| "act env (SetRegistrySearchQuery q) b = setState (\<lambda>s. s\<lparr> registrySearchQuery := q \<rparr>) b"
| "act env (SetSelectedRegistryEntry i) b = setSelectedRegistryEntry i b"
| "act env (NavigateToRegistryEntry tab i) b = navigateToRegistryEntry tab i b"
| "act env (SetSelectedEndpointEnv e) b = setState (\<lambda>s. s\<lparr> selectedEndpointEnv := e, selectedRegistryEntry := JNull \<rparr>) b"

section \<open>Responses\<close>

definition indexResponse :: "after_index \<Rightarrow> response \<Rightarrow> browser \<Rightarrow> browser option" where
  "indexResponse k r b =
     (let next = (\<lambda>b. case k of
            IndexOnly \<Rightarrow> b
          | ThenPlan name \<Rightarrow> loadPlanByName name ClearFlag (b\<lparr> isHandlingPopState := True \<rparr>))
      in case r of
        Failed e \<Rightarrow> Some (next (setState (\<lambda>s. s\<lparr> indexError := Some e, indexLoading := False \<rparr>) b))
      | GotIndex ps \<Rightarrow> Some (next (setState (\<lambda>s. s\<lparr> planIndex := Some ps, indexLoading := False \<rparr>) b))
      | _ \<Rightarrow> None)"

definition planResponse :: "vis_env \<Rightarrow> string \<Rightarrow> string \<Rightarrow> after \<Rightarrow> response \<Rightarrow> browser \<Rightarrow> browser option" where
  "planResponse env name path k r b =
     (case r of
        Failed e \<Rightarrow> Some (runAfter k (setState (\<lambda>s. s\<lparr> planError := Some e, planLoading := False \<rparr>) b))
      | GotPlan json \<Rightarrow>
          Some (runAfter k (loadSource name (setState (\<lambda>s. s\<lparr> planLoading := False \<rparr>) (loadPlan env json path False b))))
      | _ \<Rightarrow> None)"

definition sourceResponse :: "response \<Rightarrow> browser \<Rightarrow> browser option" where
  "sourceResponse r b =
     (case r of
        Failed e \<Rightarrow> Some (setState (\<lambda>s. s\<lparr> sourceCode := None, sourceLoading := False \<rparr>) b)
      | GotSource code \<Rightarrow> Some (setState (\<lambda>s. s\<lparr> sourceCode := Some code, sourceLoading := False \<rparr>) b)
      | _ \<Rightarrow> None)"

definition registriesResponse :: "after \<Rightarrow> response \<Rightarrow> browser \<Rightarrow> browser option" where
  "registriesResponse k r b =
     (case r of
        Failed e \<Rightarrow> Some (runAfter k (setState (\<lambda>s. s\<lparr> registriesError := Some e, registriesLoading := False \<rparr>) b))
      | GotRegistries d \<Rightarrow> Some (runAfter k (setState (\<lambda>s. s\<lparr> registries := Some d, registriesLoading := False \<rparr>) b))
      | _ \<Rightarrow> None)"

fun respond :: "vis_env \<Rightarrow> request \<Rightarrow> response \<Rightarrow> browser \<Rightarrow> browser option" where
  "respond env (ReqIndex k) r b = indexResponse k r b"
| "respond env (ReqPlan name path k) r b = planResponse env name path k r b"
| "respond env (ReqSource name) r b = sourceResponse r b"
| "respond env (ReqRegistries k) r b = registriesResponse k r b"

text \<open>The \<open>i\<close>-th request in flight is answered.\<close>

definition remove_at :: "nat \<Rightarrow> 'a list \<Rightarrow> 'a list" where
  "remove_at i xs = take i xs @ drop (Suc i) xs"

definition answer :: "vis_env \<Rightarrow> nat \<Rightarrow> response \<Rightarrow> browser \<Rightarrow> browser option" where
  "answer env i r b =
     (if i < length (b_pending b)
      then respond env (b_pending b ! i) r (b\<lparr> b_pending := remove_at i (b_pending b) \<rparr>)
      else None)"

section \<open>History\<close>

text \<open>The \<open>popstate\<close> handler; \<open>q\<close> is the query of the entry navigated to, \<open>st\<close> its state object.\<close>

definition popstate :: "jsval \<Rightarrow> query \<Rightarrow> browser \<Rightarrow> browser" where
  "popstate st q b0 =
     (let b = b0\<lparr> b_query := q, isHandlingPopState := True \<rparr>;
          state = b_store b;
          view' = js_or (opt_get st ''view'') (params_get q ''view'')
      in if view' = JStr ''registries'' then
           let tab = the_tab (js_or (js_or (opt_get st ''tab'') (params_get q ''tab'')) (JStr ''keys''));
               selected = js_or (opt_get st ''selected'') (params_get q ''selected'');
               b1 = clearPlan b
           in if registries state = None then loadRegistries (ShowRegistry tab selected) b1
              else runAfter (ShowRegistry tab selected) b1
         else
           let planName = js_or (opt_get st ''plan'') (params_get q ''plan'')
           in case planName of
                JStr name \<Rightarrow>
                  if name \<noteq> [] then loadPlanByName name ClearFlag b
                  else runAfter ClearFlag (clearPlan b)
              | _ \<Rightarrow> runAfter ClearFlag (clearPlan b))"

text \<open>Module load with the query of the initial URL.\<close>

definition initHistory :: "query \<Rightarrow> browser" where
  "initHistory q =
     (let b = \<lparr> b_store = initialStore, isHandlingPopState = False, b_query = q, b_history = [], b_pending = [] \<rparr>
      in if params_get q ''view'' = JStr ''registries'' then
           let tab = the_tab (js_or (params_get q ''tab'') (JStr ''keys''));
               selected = params_get q ''selected''
           in loadRegistries (ShowRegistry tab selected) (b\<lparr> isHandlingPopState := True \<rparr>)
         else case params_get q ''plan'' of
           JStr name \<Rightarrow> if name \<noteq> [] then loadIndex (ThenPlan name) b else b
         | _ \<Rightarrow> b)"

text \<open>All states of the page, under any interleaving.\<close>

inductive reachable :: "vis_env \<Rightarrow> browser \<Rightarrow> bool" for env where
  start: "reachable env (initHistory q)"
| action: "reachable env b \<Longrightarrow> reachable env (act env a b)"
| response: "reachable env b \<Longrightarrow> answer env i r b = Some b' \<Longrightarrow> reachable env b'"
| navigate: "reachable env b \<Longrightarrow> reachable env (popstate st q b)"

text \<open>One step of the page, as the components above the store see it.\<close>

inductive browser_step :: "vis_env \<Rightarrow> browser \<Rightarrow> browser \<Rightarrow> bool" for env where
  by_action: "browser_step env b (act env a b)"
| by_answer: "answer env i r b = Some b' \<Longrightarrow> browser_step env b b'"
| by_navigation: "browser_step env b (popstate st q b)"

lemma browser_step_reachable: "browser_step env b b' \<Longrightarrow> reachable env b \<Longrightarrow> reachable env b'"
  by (induction rule: browser_step.induct) (auto intro: reachable.intros)

section \<open>Invariant\<close>

text \<open>The drawing is that of the plan shown.\<close>

definition shown :: "vis_env \<Rightarrow> PlanJson option \<Rightarrow> VisGraph option \<Rightarrow> string option \<Rightarrow> bool" where
  "shown env j g f \<longleftrightarrow>
     (case j of
        None \<Rightarrow> g = None \<and> f = None
      | Some j \<Rightarrow> g = Some (layoutGraph (env_dagre env) defaultLayout (parsePlan j)) \<and> f \<noteq> None)"

lemma shown_simps [simp]:
  "shown env None None None"
  "shown env (Some j) (Some (layoutGraph (env_dagre env) defaultLayout (parsePlan j))) (Some f)"
  by (simp_all add: shown_def)

fun is_index :: "request \<Rightarrow> bool" where
  "is_index (ReqIndex _) = True" | "is_index _ = False"

fun is_plan :: "request \<Rightarrow> bool" where
  "is_plan (ReqPlan _ _ _) = True" | "is_plan _ = False"

fun is_source :: "request \<Rightarrow> bool" where
  "is_source (ReqSource _) = True" | "is_source _ = False"

fun is_registries :: "request \<Rightarrow> bool" where
  "is_registries (ReqRegistries _) = True" | "is_registries _ = False"

text \<open>A request whose completion clears the history flag.\<close>

fun holds_flag :: "request \<Rightarrow> bool" where
  "holds_flag (ReqPlan _ _ k) = (k \<noteq> Nothing)"
| "holds_flag (ReqRegistries k) = (k \<noteq> Nothing)"
| "holds_flag _ = False"

text \<open>Every loading indicator, and the flag, is backed by a request in flight.\<close>

definition backed :: "bool \<Rightarrow> (request \<Rightarrow> bool) \<Rightarrow> request list \<Rightarrow> bool" where
  "backed on P rs \<longleftrightarrow> (on \<longrightarrow> list_ex P rs)"

definition all_backed :: "browser \<Rightarrow> bool" where
  "all_backed b \<longleftrightarrow> backed (indexLoading (b_store b)) is_index (b_pending b) \<and>
     backed (planLoading (b_store b)) is_plan (b_pending b) \<and>
     backed (sourceLoading (b_store b)) is_source (b_pending b) \<and>
     backed (registriesLoading (b_store b)) is_registries (b_pending b)"

text \<open>The invariant inside a handler, where the flag may be set on its own, and between events.\<close>

definition core_inv :: "vis_env \<Rightarrow> browser \<Rightarrow> bool" where
  "core_inv env b \<longleftrightarrow> shown env (planJson (b_store b)) (graph (b_store b)) (fileName (b_store b)) \<and> all_backed b \<and>
     distinct (expandedFragments (b_store b))"

definition page_inv :: "vis_env \<Rightarrow> browser \<Rightarrow> bool" where
  "page_inv env b \<longleftrightarrow> core_inv env b \<and> backed (isHandlingPopState b) holds_flag (b_pending b)"

lemma backed_simps [simp]:
  "backed False P rs" "backed True P rs = list_ex P rs" "backed on P (rs @ [r]) \<longleftrightarrow> backed on P rs \<or> P r"
  by (auto simp: backed_def)

lemma list_ex_remove_at: "i < length xs \<Longrightarrow> list_ex P xs \<longleftrightarrow> P (xs ! i) \<or> list_ex P (remove_at i xs)"
  by (subst id_take_nth_drop [of i xs]) (auto simp: remove_at_def)

lemma backed_remove_at: "i < length rs \<Longrightarrow> backed on P rs \<Longrightarrow> \<not> P (rs ! i) \<Longrightarrow> backed on P (remove_at i rs)"
  by (auto simp: backed_def list_ex_remove_at)

lemma collapseOldest_sub: "distinct kept \<Longrightarrow> distinct (collapseOldest g t f rest kept)"
  by (induction g t f rest kept rule: collapseOldest.induct) (auto simp: distinct_removeAll)

lemma toggleFragment_distinct:
  "distinct (expandedFragments s) \<Longrightarrow> distinct (expandedFragments (toggleFragment f s))"
  by (auto simp: toggleFragment_def Let_def distinct_removeAll collapseOldest_sub split: option.splits)

lemma toggleFragment_frame [simp]:
  "planJson (toggleFragment f s) = planJson s" "graph (toggleFragment f s) = graph s" "fileName (toggleFragment f s) = fileName s"
  "indexLoading (toggleFragment f s) = indexLoading s" "planLoading (toggleFragment f s) = planLoading s"
  "sourceLoading (toggleFragment f s) = sourceLoading s" "registriesLoading (toggleFragment f s) = registriesLoading s"
  by (simp_all add: toggleFragment_def Let_def)

lemma fitToView_frame [simp]:
  "planJson (fitToView w h s) = planJson s" "graph (fitToView w h s) = graph s" "fileName (fitToView w h s) = fileName s"
  "indexLoading (fitToView w h s) = indexLoading s" "planLoading (fitToView w h s) = planLoading s"
  "sourceLoading (fitToView w h s) = sourceLoading s" "registriesLoading (fitToView w h s) = registriesLoading s"
  "expandedFragments (fitToView w h s) = expandedFragments s"
  by (simp_all add: fitToView_def Let_def split: option.splits)

lemmas action_defs = loadIndex_def loadPlan_def loadSource_def clearPlan_def loadRegistries_def setRegistryTab_def
  setSelectedRegistryEntry_def navigateToRegistryEntry_def setState_def fetching_def pushState_def Let_def

lemmas inv_defs = page_inv_def core_inv_def all_backed_def

lemma runAfter_core: "core_inv env b \<Longrightarrow> core_inv env (runAfter k b)"
  by (cases k) (simp_all add: runAfter_def inv_defs setState_def)

lemma runAfter_page: "core_inv env b \<Longrightarrow> k \<noteq> Nothing \<or> page_inv env b \<Longrightarrow> page_inv env (runAfter k b)"
  by (cases k) (auto simp: runAfter_def inv_defs setState_def)

lemma page_core: "page_inv env b \<Longrightarrow> core_inv env b"
  by (simp add: page_inv_def)

text \<open>Fields the invariant does not read.\<close>

lemma planError_inv [simp]:
  "core_inv env (setState (\<lambda>s. s\<lparr> planError := e \<rparr>) b) = core_inv env b"
  "page_inv env (setState (\<lambda>s. s\<lparr> planError := e \<rparr>) b) = page_inv env b"
  by (simp_all add: inv_defs setState_def)

lemma fetch_plan_page:
  "core_inv env b \<Longrightarrow> k \<noteq> Nothing \<or> page_inv env b \<Longrightarrow>
   page_inv env (fetching (ReqPlan n p k) (setState (\<lambda>s. s\<lparr> planLoading := True, planError := None \<rparr>) b))"
  by (auto simp: inv_defs setState_def fetching_def)

lemma loadPlanByName_page:
  "core_inv env b \<Longrightarrow> k \<noteq> Nothing \<or> page_inv env b \<Longrightarrow> page_inv env (loadPlanByName name k b)"
  unfolding loadPlanByName_def by (simp add: runAfter_page fetch_plan_page split: option.split)

lemma loadRegistries_page: "core_inv env b \<Longrightarrow> k \<noteq> Nothing \<or> page_inv env b \<Longrightarrow> page_inv env (loadRegistries k b)"
  by (auto simp: loadRegistries_def inv_defs setState_def fetching_def)

lemma clearPlan_core: "core_inv env b \<Longrightarrow> core_inv env (clearPlan b)"
  by (simp add: inv_defs action_defs)

lemma act_page: "page_inv env b \<Longrightarrow> page_inv env (act env a b)"
proof (cases a)
  case (LoadPlanByName name)
  assume "page_inv env b"
  with LoadPlanByName show ?thesis by (simp add: loadPlanByName_page page_core)
next
  case (ToggleFragment f)
  assume "page_inv env b"
  with ToggleFragment show ?thesis by (simp add: inv_defs setState_def toggleFragment_distinct)
qed (simp_all add: inv_defs action_defs, simp_all add: backed_def)

lemma popstate_page: "page_inv env b \<Longrightarrow> page_inv env (popstate st q b)"
proof -
  assume "page_inv env b"
  then have b': "core_inv env (b\<lparr> b_query := q, isHandlingPopState := True \<rparr>)" by (simp add: inv_defs)
  then have "page_inv env (loadPlanByName name ClearFlag (b\<lparr> b_query := q, isHandlingPopState := True \<rparr>))" for name
    by (simp add: loadPlanByName_page)
  with clearPlan_core [OF b'] show ?thesis
    by (simp add: popstate_def Let_def loadRegistries_page runAfter_page split: jsval.splits)
qed

lemma initHistory_page: "page_inv env (initHistory q)"
  by (simp add: initHistory_def Let_def inv_defs action_defs initialStore_def split: jsval.splits)

text \<open>A response: its request is gone, and the indicator it backed is switched off.\<close>

definition dropped :: "nat \<Rightarrow> browser \<Rightarrow> browser" where
  "dropped i b = b\<lparr> b_pending := remove_at i (b_pending b) \<rparr>"

fun off :: "request \<Rightarrow> store \<Rightarrow> store" where
  "off (ReqIndex _) s = s\<lparr> indexLoading := False \<rparr>"
| "off (ReqPlan _ _ _) s = s\<lparr> planLoading := False \<rparr>"
| "off (ReqSource _) s = s\<lparr> sourceLoading := False \<rparr>"
| "off (ReqRegistries _) s = s\<lparr> registriesLoading := False \<rparr>"

lemma dropped_core:
  assumes "page_inv env b" and "i < length (b_pending b)"
  shows "core_inv env (setState (off (b_pending b ! i)) (dropped i b))"
  using assms by (cases "b_pending b ! i") (auto simp: inv_defs setState_def dropped_def intro!: backed_remove_at)

lemma dropped_page:
  assumes "page_inv env b" and "i < length (b_pending b)" and "\<not> holds_flag (b_pending b ! i)"
  shows "page_inv env (setState (off (b_pending b ! i)) (dropped i b))"
  using dropped_core [OF assms(1,2)] assms backed_remove_at [OF assms(2), of _ holds_flag]
  by (simp add: page_inv_def setState_def dropped_def)

lemma off_eq [simp]:
  "off (ReqIndex k) = (\<lambda>s. s\<lparr> indexLoading := False \<rparr>)"
  "off (ReqPlan n p k') = (\<lambda>s. s\<lparr> planLoading := False \<rparr>)"
  "off (ReqSource n) = (\<lambda>s. s\<lparr> sourceLoading := False \<rparr>)"
  "off (ReqRegistries k') = (\<lambda>s. s\<lparr> registriesLoading := False \<rparr>)"
  by (simp_all add: fun_eq_iff)

text \<open>Updates of other fields do not matter.\<close>

lemma settle [simp]:
  "core_inv env (setState (\<lambda>s. s\<lparr> indexError := e, indexLoading := False \<rparr>) b) = core_inv env (setState (\<lambda>s. s\<lparr> indexLoading := False \<rparr>) b)"
  "page_inv env (setState (\<lambda>s. s\<lparr> indexError := e, indexLoading := False \<rparr>) b) = page_inv env (setState (\<lambda>s. s\<lparr> indexLoading := False \<rparr>) b)"
  "core_inv env (setState (\<lambda>s. s\<lparr> planIndex := ps, indexLoading := False \<rparr>) b) = core_inv env (setState (\<lambda>s. s\<lparr> indexLoading := False \<rparr>) b)"
  "page_inv env (setState (\<lambda>s. s\<lparr> planIndex := ps, indexLoading := False \<rparr>) b) = page_inv env (setState (\<lambda>s. s\<lparr> indexLoading := False \<rparr>) b)"
  "core_inv env (setState (\<lambda>s. s\<lparr> planError := e, planLoading := False \<rparr>) b) = core_inv env (setState (\<lambda>s. s\<lparr> planLoading := False \<rparr>) b)"
  "page_inv env (setState (\<lambda>s. s\<lparr> planError := e, planLoading := False \<rparr>) b) = page_inv env (setState (\<lambda>s. s\<lparr> planLoading := False \<rparr>) b)"
  "page_inv env (setState (\<lambda>s. s\<lparr> sourceCode := c, sourceLoading := False \<rparr>) b) = page_inv env (setState (\<lambda>s. s\<lparr> sourceLoading := False \<rparr>) b)"
  "core_inv env (setState (\<lambda>s. s\<lparr> registriesError := e, registriesLoading := False \<rparr>) b) = core_inv env (setState (\<lambda>s. s\<lparr> registriesLoading := False \<rparr>) b)"
  "page_inv env (setState (\<lambda>s. s\<lparr> registriesError := e, registriesLoading := False \<rparr>) b) = page_inv env (setState (\<lambda>s. s\<lparr> registriesLoading := False \<rparr>) b)"
  "core_inv env (setState (\<lambda>s. s\<lparr> registries := d, registriesLoading := False \<rparr>) b) = core_inv env (setState (\<lambda>s. s\<lparr> registriesLoading := False \<rparr>) b)"
  "page_inv env (setState (\<lambda>s. s\<lparr> registries := d, registriesLoading := False \<rparr>) b) = page_inv env (setState (\<lambda>s. s\<lparr> registriesLoading := False \<rparr>) b)"
  by (simp_all add: inv_defs setState_def)

lemma plan_arrived:
  "core_inv env (setState (\<lambda>s. s\<lparr> planLoading := False \<rparr>) b) \<Longrightarrow>
     core_inv env (loadSource m (setState (\<lambda>s. s\<lparr> planLoading := False \<rparr>) (loadPlan env j f h b)))"
  "page_inv env (setState (\<lambda>s. s\<lparr> planLoading := False \<rparr>) b) \<Longrightarrow>
     page_inv env (loadSource m (setState (\<lambda>s. s\<lparr> planLoading := False \<rparr>) (loadPlan env j f h b)))"
  by (auto simp: inv_defs action_defs) 

lemma respond_page:
  assumes inv: "page_inv env b" and i: "i < length (b_pending b)"
    and r: "respond env (b_pending b ! i) r (dropped i b) = Some b'"
  shows "page_inv env b'"
proof -
  note core = dropped_core [OF inv i] and page = dropped_page [OF inv i]
  show ?thesis
  proof (cases "b_pending b ! i")
    case (ReqIndex k)
    have "core_inv env (x\<lparr> isHandlingPopState := True \<rparr>)" if "core_inv env x" for x
      using that by (simp add: inv_defs)
    then show ?thesis
      using r core page unfolding ReqIndex
      by (auto simp: indexResponse_def Let_def loadPlanByName_page split: response.splits after_index.splits)
  next
    case (ReqPlan n p k)
    then show ?thesis
      using r core page
      by (auto simp: planResponse_def split: response.splits intro!: runAfter_page intro: plan_arrived)
  next
    case (ReqSource n)
    then show ?thesis using r page by (auto simp: sourceResponse_def split: response.splits)
  next
    case (ReqRegistries k)
    then show ?thesis
      using r core page by (auto simp: registriesResponse_def split: response.splits intro!: runAfter_page)
  qed
qed

lemma answer_page: "page_inv env b \<Longrightarrow> answer env i r b = Some b' \<Longrightarrow> page_inv env b'"
  by (auto simp: answer_def dropped_def intro: respond_page split: if_splits)

lemma reachable_inv: "reachable env b \<Longrightarrow> page_inv env b"
  by (induction rule: reachable.induct) (simp_all add: initHistory_page act_page popstate_page answer_page)

section \<open>Settling\<close>

text \<open>How many responses a request can still lead to.\<close>

fun weight :: "request \<Rightarrow> nat" where
  "weight (ReqIndex IndexOnly) = 1"
| "weight (ReqIndex (ThenPlan _)) = 3"
| "weight (ReqPlan _ _ _) = 2"
| "weight (ReqSource _) = 1"
| "weight (ReqRegistries _) = 1"

definition in_flight :: "browser \<Rightarrow> nat" where
  "in_flight b = sum_list (map weight (b_pending b))"

lemma in_flight_dropped: "i < length (b_pending b) \<Longrightarrow> in_flight b = weight (b_pending b ! i) + in_flight (dropped i b)"
  unfolding in_flight_def dropped_def remove_at_def
  by (subst id_take_nth_drop [of i "b_pending b"]) simp_all

lemma in_flight_simps [simp]:
  "in_flight (setState f b) = in_flight b" "in_flight (fetching r b) = in_flight b + weight r"
  "in_flight (pushState s q b) = in_flight b" "in_flight (runAfter k b) = in_flight b"
  "in_flight (b\<lparr> isHandlingPopState := x \<rparr>) = in_flight b"
  by (simp_all add: in_flight_def setState_def fetching_def pushState_def runAfter_def split: after.split)

lemma in_flight_loadPlanByName: "in_flight (loadPlanByName n k b) \<le> in_flight b + 2"
  by (simp add: loadPlanByName_def split: option.split)

lemma in_flight_loadPlan [simp]: "in_flight (loadPlan env j f h b) = in_flight b"
  by (simp add: loadPlan_def Let_def)

lemma respond_decreases: "respond env q r b = Some b' \<Longrightarrow> in_flight b' < in_flight b + weight q"
proof (cases q)
  case (ReqIndex k)
  assume "respond env q r b = Some b'"
  moreover have "in_flight (loadPlanByName n k' c) < in_flight b + 3" if "in_flight c = in_flight b" for n k' c
    using in_flight_loadPlanByName [of n k' c] that by simp
  ultimately show ?thesis
    using ReqIndex by (cases k) (auto simp: indexResponse_def Let_def split: response.splits)
qed (auto simp: planResponse_def sourceResponse_def registriesResponse_def loadSource_def split: response.splits)

lemma answer_decreases: "answer env i r b = Some b' \<Longrightarrow> in_flight b' < in_flight b"
  using respond_decreases [of env "b_pending b ! i" r "dropped i b" b'] in_flight_dropped [of i b]
  by (auto simp: answer_def dropped_def split: if_splits)

lemma answer_possible: "i < length (b_pending b) \<Longrightarrow> \<exists>r b'. answer env i r b = Some b'"
proof -
  have "\<exists>b'. respond env q (Failed e) c = Some b'" for q e c
    by (cases q) (simp_all add: indexResponse_def planResponse_def sourceResponse_def registriesResponse_def Let_def)
  then show "i < length (b_pending b) \<Longrightarrow> ?thesis" by (simp add: answer_def) blast
qed

section \<open>History\<close>

lemma history_simps [simp]:
  "b_history (setState f b) = b_history b" "b_history (fetching r b) = b_history b"
  "b_history (runAfter k b) = b_history b" "b_history (loadSource n b) = b_history b"
  "b_history (loadPlanByName n k b) = b_history b" "b_history (loadIndex k' b) = b_history b"
  "b_history (loadRegistries k b) = b_history b"
  "isHandlingPopState (setState f b) = isHandlingPopState b"
  by (simp_all add: setState_def fetching_def runAfter_def loadSource_def loadPlanByName_def loadIndex_def loadRegistries_def
      split: after.split option.split)

lemma no_push:
  "isHandlingPopState b \<Longrightarrow> b_history (loadPlan env j f h b) = b_history b"
  "isHandlingPopState b \<Longrightarrow> b_history (clearPlan b) = b_history b"
  by (simp_all add: loadPlan_def clearPlan_def Let_def)

lemma act_no_push: "isHandlingPopState b \<Longrightarrow> b_history (act env a b) = b_history b"
  by (cases a) (simp_all add: no_push setRegistryTab_def setSelectedRegistryEntry_def navigateToRegistryEntry_def Let_def)

lemma answer_no_push: "isHandlingPopState b \<Longrightarrow> answer env i r b = Some b' \<Longrightarrow> b_history b' = b_history b"
  by (cases "b_pending b ! i")
    (auto simp: answer_def indexResponse_def planResponse_def sourceResponse_def registriesResponse_def Let_def no_push
      split: if_splits response.splits after_index.splits)

lemma popstate_no_push: "b_history (popstate st q b) = b_history b"
  by (simp add: popstate_def Let_def no_push split: jsval.split)

section \<open>Query parameters\<close>

lemma map_of_filter_key: "map_of (filter (\<lambda>p. fst p \<noteq> k) q) k' = (if k' = k then None else map_of q k')"
  by (induction q) auto

lemma params_set_get: "map_of (params_set k v q) = (map_of q)(k \<mapsto> v)"
proof (rule ext)
  fix k'
  have "map_of (takeWhile (\<lambda>p. fst p \<noteq> k) q @ (k, v) # filter (\<lambda>p. fst p \<noteq> k) (dropWhile (\<lambda>p. fst p \<noteq> k) q)) k' = ((map_of q)(k \<mapsto> v)) k'"
    by (induction q) (auto simp: map_of_filter_key map_add_def)
  then show "map_of (params_set k v q) k' = ((map_of q)(k \<mapsto> v)) k'" by (simp add: params_set_def Let_def)
qed

lemma params_get_set [simp]:
  "params_get (params_set k v q) k' = (if k' = k then JStr v else params_get q k')"
  by (simp add: params_get_def params_set_get)

section \<open>Properties\<close>

text \<open>
  Property C28. In every state the page can reach, under any interleaving of user actions, responses
  and history navigation, the drawing is exactly the layout of the plan being shown, there is a
  drawing and a file name if and only if there is a plan, and the expanded fragments are a set.
\<close>

theorem store_consistent:
  assumes "reachable env b"
  shows "graph (b_store b) = map_option (\<lambda>j. layoutGraph (env_dagre env) defaultLayout (parsePlan j)) (planJson (b_store b)) \<and>
    (fileName (b_store b) = None \<longleftrightarrow> planJson (b_store b) = None) \<and> distinct (expandedFragments (b_store b))"
  using reachable_inv [OF assms] by (auto simp: inv_defs shown_def split: option.splits)

definition still :: vis_env where
  "still = \<lparr> env_dagre = (\<lambda>_ _ _ _. Some (jint 0, jint 0)), env_query = (\<lambda>_. []) \<rparr>"

definition demo_plan :: "string \<Rightarrow> PlanJson" where
  "demo_plan n = \<lparr> pj_schema_version = jint 1, pj_plan_name = n, pj_nodes = [], pj_outputs = [] \<rparr>"

definition demo_index :: "PlanIndexEntry list" where
  "demo_index = [\<lparr> pie_name = ''a'', pie_path = ''a.json'', pie_digest = [] \<rparr>, \<lparr> pie_name = ''b'', pie_path = ''b.json'', pie_digest = [] \<rparr>]"

theorem store_consistent_witness:
  "graph (b_store (act still (LoadPlan (demo_plan ''a'') ''f'' True) (initHistory []))) \<noteq> None"
proof -
  have "planJson (b_store (act still (LoadPlan (demo_plan ''a'') ''f'' True) (initHistory []))) = Some (demo_plan ''a'')"
    by (simp add: loadPlan_def Let_def setState_def)
  then show ?thesis
    using store_consistent [OF reachable.action [OF reachable.start [of still "[]"]], of "LoadPlan (demo_plan ''a'') ''f'' True"]
    by simp
qed

text \<open>
  Property C29. No spinner and no history flag can get stuck: every request in flight can be answered;
  every answer strictly decreases the work in flight, so answering always comes to an end; and
  whenever nothing is in flight, all loading indicators are off and the flag that suppresses
  history entries is cleared.
\<close>

theorem responses_settle:
  assumes "reachable env b"
  shows "(\<forall>i < length (b_pending b). \<exists>r b'. answer env i r b = Some b') \<and>
    (\<forall>i r b'. answer env i r b = Some b' \<longrightarrow> in_flight b' < in_flight b) \<and>
    (b_pending b = [] \<longrightarrow> \<not> indexLoading (b_store b) \<and> \<not> planLoading (b_store b) \<and> \<not> sourceLoading (b_store b) \<and>
       \<not> registriesLoading (b_store b) \<and> \<not> isHandlingPopState b)"
  using answer_possible answer_decreases reachable_inv [OF assms] by (auto simp: inv_defs backed_def)

theorem responses_settle_witness:
  "\<exists>r b'. answer still 0 r (initHistory [(''plan'', ''a'')]) = Some b' \<and> in_flight b' < in_flight (initHistory [(''plan'', ''a'')])"
proof -
  have "0 < length (b_pending (initHistory [(''plan'', ''a'')]))" by code_simp
  with responses_settle [OF reachable.start [of still "[(''plan'', ''a'')]"]] show ?thesis by blast
qed

text \<open>
  Going back or forward never adds a history entry, and neither does anything else that
  happens while the navigation is being handled.
\<close>

theorem navigation_keeps_history:
  "b_history (popstate st q b) = b_history b \<and>
   (isHandlingPopState b \<longrightarrow> b_history (act env a b) = b_history b \<and>
      (answer env i r b = Some b' \<longrightarrow> b_history b' = b_history b))"
  using popstate_no_push act_no_push answer_no_push by blast

theorem navigation_keeps_history_witness:
  "b_history (act still ClearPlan (popstate JNull [(''view'', ''registries'')] (initHistory []))) = []"
proof -
  have "isHandlingPopState (popstate JNull [(''view'', ''registries'')] (initHistory []))"
    "b_history (popstate JNull [(''view'', ''registries'')] (initHistory [])) = []" by code_simp+
  with navigation_keeps_history [of JNull "[]" "popstate JNull [(''view'', ''registries'')] (initHistory [])" still ClearPlan]
  show ?thesis by simp
qed

text \<open>
  A registry entry opened in the viewer is restored by history navigation: returning to the
  entry that \<open>navigateToRegistryEntry\<close> pushed shows the same tab and the same entry, from whatever
  state the page is in by then, as long as the registries are loaded. This holds for non-zero
  numeric ids and for ids that do not read as numbers.
\<close>

theorem registry_entry_restored:
  assumes "\<not> isHandlingPopState b0" and "tab \<noteq> []" and "truthy id'" and "selectedFromUrl id' = id'"
    and "last (b_history (navigateToRegistryEntry tab id' b0)) = (st, q)" and "registries (b_store b) \<noteq> None"
  shows "selectedRegistryTab (b_store (popstate st q b)) = tab \<and>
    selectedRegistryEntry (b_store (popstate st q b)) = id' \<and> \<not> isHandlingPopState (popstate st q b)"
proof -
  have "st = registryState tab id'"
    using assms(1,5) by (simp add: navigateToRegistryEntry_def Let_def pushState_def)
  moreover obtain d where "registries (b_store b) = Some d" using assms(6) by blast
  ultimately show ?thesis using assms(2-4)
    by (simp add: popstate_def registryState_def Let_def js_or_def opt_get_def the_tab_def runAfter_def setState_def)
qed

definition no_registries :: RegistryData where
  "no_registries = \<lparr> rd_keys = JArr [], rd_params = JArr [], rd_features = JArr [], rd_capabilities = JArr [],
     rd_tasks = JArr [], rd_endpoints_dev = JArr [], rd_endpoints_test = JArr [], rd_endpoints_prod = JArr [] \<rparr>"

theorem registry_entry_restored_witness:
  "\<exists>st q. last (b_history (navigateToRegistryEntry ''tasks'' (JStr ''core::vm'') (initHistory []))) = (st, q) \<and>
     selectedRegistryEntry (b_store (popstate st q (setState (\<lambda>s. s\<lparr> registries := Some no_registries \<rparr>) (initHistory [])))) = JStr ''core::vm''"
proof -
  obtain st q where e: "last (b_history (navigateToRegistryEntry ''tasks'' (JStr ''core::vm'') (initHistory []))) = (st, q)"
    by fastforce
  have "\<not> isHandlingPopState (initHistory [])" "selectedFromUrl (JStr ''core::vm'') = JStr ''core::vm''" by code_simp+
  with registry_entry_restored [OF _ _ _ _ e, of "setState (\<lambda>s. s\<lparr> registries := Some no_registries \<rparr>) (initHistory [])"] e
  show ?thesis by (auto simp: setState_def)
qed

text \<open>
  Toggling a fragment: a fragment that is expanded is collapsed and nothing else changes;
  one that is not is expanded, keeping all others when the graph is within the threshold, and
  collapsing every other fragment when it is not, since collapsing does not yet hide nodes. The loop
  that collapses the oldest fragments always ends at the new one.
\<close>

theorem toggleFragment_spec:
  assumes "distinct (expandedFragments s)" and "[] \<notin> set (expandedFragments s)"
  shows "expandedFragments (toggleFragment f s) =
    (if f \<in> set (expandedFragments s) then removeAll f (expandedFragments s)
     else if (\<exists>g. graph s = Some g \<and> autoCollapseThreshold s < length (vg_nodes g)) then [f]
     else expandedFragments s @ [f])"
proof -
  have "collapseOldest g t f (xs @ [f]) (xs @ [f]) = [f]"
    if "t < length (vg_nodes g)" "distinct xs" "[] \<notin> set xs" "f \<notin> set xs" for g t xs
    using that
  proof (induction xs)
    case (Cons x xs)
    then have "removeAll x ((x # xs) @ [f]) = xs @ [f]" by auto
    with Cons show ?case by (auto simp: countVisibleNodes_def)
  qed simp
  with assms show ?thesis
    by (auto simp: toggleFragment_def Let_def set_add_def countVisibleNodes_def split: option.split)
qed

lemma fitToView_scale:
  "graph s = Some g \<Longrightarrow> vg_nodes g \<noteq> [] \<Longrightarrow> \<exists>x. vw_scale (view (fitToView w h s)) = js_min x (jint 2)"
  by (simp add: fitToView_def Let_def js_minimum_def) blast

text \<open>
  \<open>fitToView\<close> leaves the view alone when there is nothing to show, and otherwise never
  zooms in beyond a factor of two.
\<close>

theorem fitToView_capped:
  "(graph s = None \<or> (\<exists>g. graph s = Some g \<and> vg_nodes g = []) \<longrightarrow> fitToView w h s = s) \<and>
   (\<forall>g. graph s = Some g \<and> vg_nodes g \<noteq> [] \<longrightarrow> \<not> num_gt (vw_scale (view (fitToView w h s))) (jint 2))"
proof -
  have "\<not> num_gt (js_min x (jint 2)) (jint 2)" for x by (cases x) (auto simp: js_min_def)
  then have "\<not> num_gt (vw_scale (view (fitToView w h s))) (jint 2)" if "graph s = Some g" "vg_nodes g \<noteq> []" for g
    using fitToView_scale [OF that, of w h] by metis
  moreover have "fitToView w h s = s" if "graph s = None \<or> (\<exists>g. graph s = Some g \<and> vg_nodes g = [])"
    using that by (auto simp: fitToView_def)
  ultimately show ?thesis by blast
qed

section \<open>Overlapping requests\<close>

text \<open>Two plans requested one after the other; the first one answers last.\<close>

definition indexed :: browser where
  "indexed = the (answer still 0 (GotIndex demo_index) (act still LoadIndex (initHistory [])))"

definition late_answer :: browser where
  "late_answer = the (answer still 0 (GotPlan (demo_plan ''a''))
     (the (answer still 1 (GotPlan (demo_plan ''b''))
       (act still (LoadPlanByName ''b'') (act still (LoadPlanByName ''a'') indexed)))))"

text \<open>The page then shows the plan that was asked for first.\<close>

lemma late_answer_wins: "map_option pj_plan_name (planJson (b_store late_answer)) = Some ''a''"
  by code_simp

text \<open>
  Two navigations overlap: the first to finish clears the flag, so the second one pushes an entry
  for the place that history already holds.
\<close>

definition overlapping_navigation :: browser where
  "overlapping_navigation =
     the (answer still 0 (GotPlan (demo_plan ''b'')) (the (answer still 0 (GotPlan (demo_plan ''a''))
       (popstate (JObj [(''plan'', JStr ''b'')]) [] (popstate (JObj [(''plan'', JStr ''a'')]) [] indexed)))))"

lemma overlapping_navigation_pushes: "b_history indexed = [] \<and> length (b_history overlapping_navigation) = 1"
  by code_simp

text \<open>A canvas narrower than the padding turns the drawing upside down: the scale is negative.\<close>

definition one_box :: store where
  "one_box = initialStore\<lparr> graph := Some \<lparr> vg_nodes = [(''n'', \<lparr> vn_id = ''n'', vn_op = ''x'', vn_label = ''x'', vn_trace = None,
     vn_isSource = True, vn_isOutput = True, vn_x = jint 0, vn_y = jint 0, vn_width = jint 100, vn_height = jint 50,
     vn_params = [], vn_fragment = None, vn_fragmentVersion = None, vn_isFragment = False, vn_children = None,
     vn_expanded = True \<rparr>)], vg_edges = [] \<rparr> \<rparr>"

lemma fitToView_negative: "vw_scale (view (fitToView (jint 20) (jint 620) one_box)) = jint (- 1)"
  by (simp add: fitToView_def one_box_def js_minimum_def js_maximum_def js_min_def js_max_def js_sub_def Let_def)

end
