(* ===== verification/VisPreferences.thy ===== *)
theory VisPreferences
  imports JsValue
begin

text \<open>
  \<open>tools/visualizer/src/state/preferences.ts\<close>: user preferences in the browser's local storage. Every
  access is wrapped in \<open>try\<close>: reading may be forbidden, writing may exceed the quota. Storage is a map
  together with what it permits; JSON text is a parameter.
\<close>

section \<open>Definitions\<close>

record local_storage =
  ls_items :: "string \<Rightarrow> string option"
  ls_readable :: bool
  ls_writable :: "string \<Rightarrow> string \<Rightarrow> bool"

record json_text =
  jt_parse :: "string \<Rightarrow> jsval option"
  jt_stringify :: "jsval \<Rightarrow> string"

datatype dock_mode = ViewMode | EditMode

fun mode_name :: "dock_mode \<Rightarrow> string" where
  "mode_name ViewMode = ''view''"
| "mode_name EditMode = ''edit''"

definition KEY_editorCode :: string where "KEY_editorCode = ''visualizer:editor:code''"
definition KEY_savedPlans :: string where "KEY_savedPlans = ''visualizer:saved-plans''"

definition KEY_dockLayout :: "dock_mode \<Rightarrow> string" where
  "KEY_dockLayout mode = ''visualizer:dock-layout:'' @ mode_name mode"

definition KEY_panelPositions :: "dock_mode \<Rightarrow> string" where
  "KEY_panelPositions mode = ''visualizer:panel-positions:'' @ mode_name mode"

text \<open>\<open>getItem\<close>: a missing item is \<open>null\<close>; an empty text is falsy and counts as missing.\<close>

definition pref_get :: "json_text \<Rightarrow> string \<Rightarrow> local_storage \<Rightarrow> jsval" where
  "pref_get jt key ls =
     (if ls_readable ls then
        (case ls_items ls key of
           None \<Rightarrow> JNull
         | Some v \<Rightarrow> if v = [] then JNull else (case jt_parse jt v of Some x \<Rightarrow> x | None \<Rightarrow> JNull))
      else JNull)"

definition set_item :: "string \<Rightarrow> string \<Rightarrow> local_storage \<Rightarrow> local_storage" where
  "set_item key v ls = (if ls_writable ls key v then ls\<lparr> ls_items := (ls_items ls)(key \<mapsto> v) \<rparr> else ls)"

definition pref_set :: "json_text \<Rightarrow> string \<Rightarrow> jsval \<Rightarrow> local_storage \<Rightarrow> local_storage" where
  "pref_set jt key v ls = set_item key (jt_stringify jt v) ls"

definition pref_remove :: "string \<Rightarrow> local_storage \<Rightarrow> local_storage" where
  "pref_remove key ls = (if ls_readable ls then ls\<lparr> ls_items := (ls_items ls)(key := None) \<rparr> else ls)"

definition getEditorCode :: "local_storage \<Rightarrow> string option" where
  "getEditorCode ls = (if ls_readable ls then ls_items ls KEY_editorCode else None)"

definition setEditorCode :: "string \<Rightarrow> local_storage \<Rightarrow> local_storage" where
  "setEditorCode code ls = set_item KEY_editorCode code ls"

definition removeEditorCode :: "local_storage \<Rightarrow> local_storage" where
  "removeEditorCode ls = pref_remove KEY_editorCode ls"

definition noSavedPlans :: jsval where
  "noSavedPlans = JObj [(''plans'', JArr []), (''currentId'', JNull)]"

definition getSavedPlans :: "json_text \<Rightarrow> local_storage \<Rightarrow> jsval" where
  "getSavedPlans jt ls = nullish (pref_get jt KEY_savedPlans ls) noSavedPlans"

definition setSavedPlans :: "json_text \<Rightarrow> jsval \<Rightarrow> local_storage \<Rightarrow> local_storage" where
  "setSavedPlans jt state ls = pref_set jt KEY_savedPlans state ls"

definition getDockLayout :: "json_text \<Rightarrow> dock_mode \<Rightarrow> local_storage \<Rightarrow> jsval" where
  "getDockLayout jt mode ls = pref_get jt (KEY_dockLayout mode) ls"

definition setDockLayout :: "json_text \<Rightarrow> dock_mode \<Rightarrow> jsval \<Rightarrow> local_storage \<Rightarrow> local_storage" where
  "setDockLayout jt mode layout ls = pref_set jt (KEY_dockLayout mode) layout ls"

definition removeDockLayout :: "dock_mode \<Rightarrow> local_storage \<Rightarrow> local_storage" where
  "removeDockLayout mode ls = pref_remove (KEY_dockLayout mode) ls"

definition getPanelPositions :: "json_text \<Rightarrow> dock_mode \<Rightarrow> local_storage \<Rightarrow> jsval" where
  "getPanelPositions jt mode ls = nullish (pref_get jt (KEY_panelPositions mode) ls) (JObj [])"

definition setPanelPositions :: "json_text \<Rightarrow> dock_mode \<Rightarrow> jsval \<Rightarrow> local_storage \<Rightarrow> local_storage" where
  "setPanelPositions jt mode positions ls = pref_set jt (KEY_panelPositions mode) positions ls"

definition removePanelPositions :: "dock_mode \<Rightarrow> local_storage \<Rightarrow> local_storage" where
  "removePanelPositions mode ls = pref_remove (KEY_panelPositions mode) ls"

definition resetAllPreferences :: "local_storage \<Rightarrow> local_storage" where
  "resetAllPreferences ls =
     pref_remove (KEY_panelPositions EditMode) (pref_remove (KEY_panelPositions ViewMode)
       (pref_remove (KEY_dockLayout EditMode) (pref_remove (KEY_dockLayout ViewMode)
         (pref_remove KEY_savedPlans (pref_remove KEY_editorCode ls)))))"

section \<open>The contract of a stored preference\<close>

text \<open>
  A slot of the store: what it reads after a write, that a failed write changes nothing, and that
  slots do not disturb each other.
\<close>

locale pref_slot =
  fixes key :: string
    and wr :: "'v \<Rightarrow> local_storage \<Rightarrow> local_storage"
    and text_of :: "'v \<Rightarrow> string"
  assumes wr_eq: "wr v ls = set_item key (text_of v) ls"
begin

lemma written: "ls_writable ls key (text_of v) \<Longrightarrow> ls_items (wr v ls) key = Some (text_of v)"
  by (simp add: wr_eq set_item_def)

lemma refused: "\<not> ls_writable ls key (text_of v) \<Longrightarrow> wr v ls = ls"
  by (simp add: wr_eq set_item_def)

lemma frame: "k \<noteq> key \<Longrightarrow> ls_items (wr v ls) k = ls_items ls k"
  by (simp add: wr_eq set_item_def)

lemma permissions: "ls_readable (wr v ls) = ls_readable ls" "ls_writable (wr v ls) = ls_writable ls"
  by (simp_all add: wr_eq set_item_def)

end

interpretation editor_slot: pref_slot KEY_editorCode setEditorCode "\<lambda>v. v"
  by unfold_locales (simp add: setEditorCode_def)

interpretation plans_slot: pref_slot KEY_savedPlans "setSavedPlans jt" "jt_stringify jt" for jt
  by unfold_locales (simp add: setSavedPlans_def pref_set_def)

interpretation layout_slot: pref_slot "KEY_dockLayout m" "setDockLayout jt m" "jt_stringify jt" for jt m
  by unfold_locales (simp add: setDockLayout_def pref_set_def)

interpretation panels_slot: pref_slot "KEY_panelPositions m" "setPanelPositions jt m" "jt_stringify jt" for jt m
  by unfold_locales (simp add: setPanelPositions_def pref_set_def)

lemmas key_defs = KEY_editorCode_def KEY_savedPlans_def KEY_dockLayout_def KEY_panelPositions_def

lemma keys_distinct [simp]:
  "KEY_editorCode \<noteq> KEY_savedPlans" "KEY_editorCode \<noteq> KEY_dockLayout m" "KEY_editorCode \<noteq> KEY_panelPositions m"
  "KEY_savedPlans \<noteq> KEY_dockLayout m" "KEY_savedPlans \<noteq> KEY_panelPositions m" "KEY_dockLayout m \<noteq> KEY_panelPositions m'"
  "KEY_dockLayout m = KEY_dockLayout m' \<longleftrightarrow> m = m'" "KEY_panelPositions m = KEY_panelPositions m' \<longleftrightarrow> m = m'"
  by (cases m; cases m'; simp add: key_defs)+

lemmas keys_distinct' [simp] = keys_distinct(1-6) [symmetric]

lemma pref_get_written:
  assumes "ls_items ls key = Some (jt_stringify jt v)" and "ls_readable ls"
    and "jt_parse jt (jt_stringify jt v) = Some v" and "jt_stringify jt v \<noteq> []"
  shows "pref_get jt key ls = v"
  using assms by (simp add: pref_get_def)

text \<open>
  Preferences survive: a saved state, dock layout or set of panel positions that the
  storage accepts is read back exactly, provided its JSON text parses back; a write the storage
  refuses changes nothing; and writing one preference changes no other, nor the editor code.
\<close>

theorem preferences_roundtrip:
  assumes "ls_readable ls" and "jt_parse jt (jt_stringify jt v) = Some v" and "jt_stringify jt v \<noteq> []"
    and "v \<noteq> JUndef" and "v \<noteq> JNull" and "ls_writable ls = (\<lambda>_ _. True)"
  shows "getSavedPlans jt (setSavedPlans jt v ls) = v \<and> getDockLayout jt m (setDockLayout jt m v ls) = v \<and>
    getPanelPositions jt m (setPanelPositions jt m v ls) = v \<and>
    getEditorCode (setSavedPlans jt v ls) = getEditorCode ls \<and>
    getDockLayout jt m (setSavedPlans jt v ls) = getDockLayout jt m ls \<and>
    (m' \<noteq> m \<longrightarrow> getDockLayout jt m' (setDockLayout jt m v ls) = getDockLayout jt m' ls) \<and>
    setSavedPlans jt v (ls\<lparr> ls_writable := (\<lambda>_ _. False) \<rparr>) = ls\<lparr> ls_writable := (\<lambda>_ _. False) \<rparr>"
proof -
  have get: "pref_get jt k x = v" if "ls_items x k = Some (jt_stringify jt v)" "ls_readable x" for k x
    using that assms(2,3) by (rule pref_get_written)
  have "getSavedPlans jt (setSavedPlans jt v ls) = v" "getDockLayout jt m (setDockLayout jt m v ls) = v"
    "getPanelPositions jt m (setPanelPositions jt m v ls) = v"
    using assms(1,4-6) get plans_slot.written [of ls jt v] layout_slot.written [of ls m jt v] panels_slot.written [of ls m jt v]
    by (simp_all add: getSavedPlans_def getDockLayout_def getPanelPositions_def nullish_def plans_slot.permissions
        layout_slot.permissions panels_slot.permissions)
  moreover have "getEditorCode (setSavedPlans jt v ls) = getEditorCode ls"
    "getDockLayout jt m (setSavedPlans jt v ls) = getDockLayout jt m ls"
    by (simp_all add: getEditorCode_def getDockLayout_def pref_get_def plans_slot.frame plans_slot.permissions)
  moreover have "m' \<noteq> m \<longrightarrow> getDockLayout jt m' (setDockLayout jt m v ls) = getDockLayout jt m' ls"
    by (simp add: getDockLayout_def pref_get_def layout_slot.frame layout_slot.permissions)
  ultimately show ?thesis using plans_slot.refused [of "ls\<lparr> ls_writable := (\<lambda>_ _. False) \<rparr>" jt v] by simp
qed

definition demo_storage :: local_storage where
  "demo_storage = \<lparr> ls_items = (\<lambda>_. None), ls_readable = True, ls_writable = (\<lambda>_ _. True) \<rparr>"

definition demo_json :: json_text where
  "demo_json = \<lparr> jt_parse = (\<lambda>s. if s = ''{}'' then Some (JObj []) else None), jt_stringify = (\<lambda>_. ''{}'') \<rparr>"

theorem preferences_roundtrip_witness: "getSavedPlans demo_json (setSavedPlans demo_json (JObj []) demo_storage) = JObj []"
  using preferences_roundtrip [of demo_storage demo_json "JObj []"] by (simp add: demo_storage_def demo_json_def)

text \<open>
  \<open>resetAllPreferences\<close> brings every preference back to its default and touches no other
  item of the storage.
\<close>

theorem reset_restores_defaults:
  "getEditorCode (resetAllPreferences ls) = (if ls_readable ls then None else getEditorCode ls) \<and>
   getSavedPlans jt (resetAllPreferences ls) = noSavedPlans \<and> getDockLayout jt m (resetAllPreferences ls) = JNull \<and>
   getPanelPositions jt m (resetAllPreferences ls) = JObj [] \<and>
   (k \<in> {KEY_editorCode, KEY_savedPlans} \<union> range KEY_dockLayout \<union> range KEY_panelPositions \<or>
      ls_items (resetAllPreferences ls) k = ls_items ls k)"
  by (cases m; cases "ls_readable ls")
    (auto simp: resetAllPreferences_def pref_remove_def getEditorCode_def getSavedPlans_def getDockLayout_def
      getPanelPositions_def pref_get_def nullish_def)

end
