(* ===== verification/LintRules.thy ===== *)
theory LintRules
  imports Bundler AstExtractor
begin

text \<open>
  The editor-side checks of plans: the four ESLint rules (\<open>dsl/packages/eslint-plugin/src/rules\<close>) and the
  diagnostics filter of the TypeScript plugin (\<open>dsl/packages/ts-plugin/src/index.ts\<close>). ESLint calls a
  rule on every node of a given type; here a rule is the function from such a node to its reports.
  The properties relate the rules to the compiler they are meant to anticipate.
\<close>

section \<open>Syntax nodes (ESTree)\<close>

text \<open>Nodes the rules look into; any other node is known by its type only.\<close>

datatype es_node =
    EsIdentifier string
  | EsLiteral string
  | EsNode string

record es_property =
  ep_key :: es_node
  ep_shorthand :: bool
  ep_value :: es_node

record es_declarator =
  ed_id :: es_node
  ed_init :: "es_node option"

datatype es_specifier = ImportSpecifier es_node | OtherSpecifier string

record es_import =
  ei_source :: string
  ei_specifiers :: "es_specifier list"

datatype report =
    NoShorthandExpr
  | NoVariableExpr
  | NoReassign string string
  | NoImport string
  | RestrictedImport string

section \<open>Rules\<close>

definition inline_expr_only :: "es_property \<Rightarrow> report list" where
  "inline_expr_only node =
     (if ep_key node \<noteq> EsIdentifier ''expr'' then []
      else if ep_shorthand node then [NoShorthandExpr]
      else case ep_value node of EsIdentifier _ \<Rightarrow> [NoVariableExpr] | _ \<Rightarrow> [])"

definition PROTECTED_GLOBALS :: "string list" where
  "PROTECTED_GLOBALS = [''Key'', ''P'', ''EP'', ''coalesce'']"

definition no_dsl_reassign :: "es_declarator \<Rightarrow> report list" where
  "no_dsl_reassign node =
     (case ed_init node of
        Some (EsIdentifier name) \<Rightarrow>
          if name \<in> set PROTECTED_GLOBALS
          then [NoReassign name (case ed_id node of EsIdentifier v \<Rightarrow> v | _ \<Rightarrow> ''(destructured)'')]
          else []
      | _ \<Rightarrow> [])"

definition RESTRICTED_IDENTIFIERS :: "string list" where
  "RESTRICTED_IDENTIFIERS = [''Key'', ''P'', ''EP'', ''coalesce'']"

definition DSL_PACKAGES :: "string list" where
  "DSL_PACKAGES = [''@ranking-dsl/runtime'', ''@ranking-dsl/generated'']"

definition importedName :: "es_node \<Rightarrow> string" where
  "importedName n = (case n of EsIdentifier s \<Rightarrow> s | EsLiteral s \<Rightarrow> s | EsNode _ \<Rightarrow> ''undefined'')"

definition no_dsl_import_alias :: "es_import \<Rightarrow> report list" where
  "no_dsl_import_alias node =
     (if \<not> list_ex (\<lambda>pkg. ei_source node = pkg \<or> startsWith (ei_source node) (pkg @ ''/'')) DSL_PACKAGES then []
      else concat (map (\<lambda>s. case s of
             ImportSpecifier imported \<Rightarrow>
               if importedName imported \<in> set RESTRICTED_IDENTIFIERS then [NoImport (importedName imported)] else []
           | OtherSpecifier _ \<Rightarrow> []) (ei_specifiers node)))"

definition lintAllowedImport :: "string \<Rightarrow> bool" where
  "lintAllowedImport importPath =
     (if list_ex (\<lambda>pkg. importPath = pkg \<or> startsWith importPath (pkg @ ''/''))
           [''@ranking-dsl/runtime'', ''@ranking-dsl/generated''] then True
      else if endsWith importPath ''.fragment'' \<or> endsWith importPath ''.fragment.ts'' then True
      else False)"

definition plan_restricted_imports :: "string \<Rightarrow> es_import \<Rightarrow> report list" where
  "plan_restricted_imports filename node =
     (if \<not> endsWith filename ''.plan.ts'' then []
      else if \<not> lintAllowedImport (ei_source node) then [RestrictedImport (ei_source node)]
      else [])"

section \<open>TypeScript plugin\<close>

record diagnostic =
  dg_code :: nat
  dg_text :: string

definition ARITHMETIC_ERROR_CODES :: "nat list" where
  "ARITHMETIC_ERROR_CODES = [2362, 2363]"

definition shouldSuppress2322 :: "string \<Rightarrow> bool" where
  "shouldSuppress2322 text' =
     (if \<not> str_includes text' ''ExprInput'' then False
      else str_includes text' ''number'' \<or> str_includes text' ''KeyToken'' \<or> str_includes text' ''ParamToken'')"

definition getSemanticDiagnostics :: "(string \<Rightarrow> diagnostic list) \<Rightarrow> string \<Rightarrow> diagnostic list" where
  "getSemanticDiagnostics original fileName =
     (if \<not> endsWith fileName ''.plan.ts'' then original fileName
      else filter (\<lambda>d. if dg_code d \<in> set ARITHMETIC_ERROR_CODES then False
                       else if dg_code d = 2322 \<and> shouldSuppress2322 (dg_text d) then False
                       else True) (original fileName))"

section \<open>Properties\<close>

text \<open>
  The import rule of the linter agrees with the bundler: for a plan file outside the two
  packages, an import declaration is reported exactly when the bundler's plugin rejects it, and
  the report names the same path.
\<close>

theorem lint_imports_agree:
  assumes "endsWith file ''.plan.ts''" and "\<not> str_includes file ''/packages/runtime/''"
    and "\<not> str_includes file ''/packages/generated/''"
  shows "plan_restricted_imports file node =
    (case onResolve entry \<lparr> ra_kind = ''import-statement'', ra_importer = file, ra_path = ei_source node \<rparr> of
       None \<Rightarrow> [] | Some p \<Rightarrow> [RestrictedImport p])"
proof -
  have "file \<noteq> []" using assms(1) by (auto simp: endsWith_def)
  moreover have "isAllowedImport (ei_source node) file = lintAllowedImport (ei_source node)"
    using assms(2,3) by (simp add: isAllowedImport_def lintAllowedImport_def ALLOWED_PACKAGES_def)
  ultimately show ?thesis
    using assms(1) by (simp add: plan_restricted_imports_def onResolve_def)
qed

theorem lint_imports_agree_witness:
  "plan_restricted_imports ''plans/a.plan.ts'' \<lparr> ei_source = ''lodash'', ei_specifiers = [] \<rparr> = [RestrictedImport ''lodash'']"
proof -
  have h: "endsWith ''plans/a.plan.ts'' ''.plan.ts''" "\<not> str_includes ''plans/a.plan.ts'' ''/packages/runtime/''"
    "\<not> str_includes ''plans/a.plan.ts'' ''/packages/generated/''" by code_simp+
  have "onResolve ''e'' \<lparr> ra_kind = ''import-statement'', ra_importer = ''plans/a.plan.ts'', ra_path = ''lodash'' \<rparr> = Some ''lodash''"
    by code_simp
  with lint_imports_agree [OF h, of "\<lparr> ei_source = ''lodash'', ei_specifiers = [] \<rparr>" "''e''"] show ?thesis by simp
qed

text \<open>
  What the linter warns about is what the extractor leaves alone: an \<open>expr\<close> option given as a
  bare variable is reported, and the compiler's extractor neither records nor rewrites it. An
  inline natural expression is never reported.
\<close>

definition es_value :: "ts_ast \<Rightarrow> es_node" where
  "es_value n = (case n of Identifier s e name \<Rightarrow> EsIdentifier name | _ \<Rightarrow> EsNode (kind_name n))"

definition lint_expr :: "ts_ast \<Rightarrow> report list" where
  "lint_expr v = inline_expr_only \<lparr> ep_key = EsIdentifier ''expr'', ep_shorthand = False, ep_value = es_value v \<rparr>"

theorem inline_expr_only_matches_extractor:
  "(lint_expr v \<noteq> [] \<longleftrightarrow> (\<exists>s e n. v = Identifier s e n)) \<and>
   (lint_expr v \<noteq> [] \<longrightarrow> \<not> isNaturalExpr (sf_text sf) v \<and>
      processProp sf info (PropertyAssignment a b (Identifier c d name) v) st = st) \<and>
   (isNaturalExpr (sf_text sf) v \<longrightarrow> lint_expr v = [])"
  by (cases v) (simp_all add: lint_expr_def inline_expr_only_def es_value_def tryExtractExpr_def tryExtractPred_def)

end
