(* ===== verification/TaskPrograms.thy ===== *)
theory TaskPrograms
  imports GenTasks TaskContract
begin

text \<open>
  What the functions of \<open>task-impl.ts\<close> do, for any task registry. A generated function is a program of
  a small statement language; \<open>print_program\<close> is its text, character for character the lines that
  \<open>generateTaskImplTs\<close> pushes, and \<open>exec_program\<close> its meaning. The tasks of the checked-in registry
  (\<open>registry/tasks.toml\<close>) give exactly the twelve functions of \<open>TaskImpl\<close>, and the contract of a task
  implementation holds for every task a registry can declare.
\<close>

section \<open>Programs\<close>

datatype stmt =
    OptsNotUndefined
  | NotUndefined string
  | KeyTokenCheck string
  | IntegerCheck string
  | CandidateSetCheck string
  | EndpointIdCheck string
  | SplitOpts
  | TraceCheck
  | HandleExpr string
  | HandlePred string

text \<open>The right-hand sides of the \<open>params\<close> object; the string is the name of the option.\<close>

datatype param_src =
    ExprIdVar
  | PredIdVar
  | NodeIdOf string
  | KeyIdOf string
  | OrNull string
  | Opt string

record task_program =
  prog_op :: string
  prog_is_source :: bool
  prog_body :: "stmt list"
  prog_params :: "(string \<times> param_src) list"

section \<open>The program of a task\<close>

definition source_checks :: "TaskParamEntry \<Rightarrow> stmt list" where
  "source_checks param =
     (if \<not> tp_required param then []
      else NotUndefined (tsName param) #
        (if tp_type param = ''int'' then [IntegerCheck (tsName param)]
         else if tp_type param = ''endpoint_ref'' then [EndpointIdCheck (tsName param)]
         else []))"

definition transform_checks :: "TaskParamEntry \<Rightarrow> stmt list" where
  "transform_checks param =
     (if \<not> tp_required param then []
      else NotUndefined (tsName param) #
        (if tp_name param = ''out_key'' \<or> tp_name param = ''by'' then [KeyTokenCheck (tsName param)]
         else if tp_type param = ''int'' then [IntegerCheck (tsName param)]
         else if tp_type param = ''node_ref'' then [CandidateSetCheck (tsName param)]
         else if tp_type param = ''endpoint_ref'' then [EndpointIdCheck (tsName param)]
         else []))"

definition source_src :: "TaskParamEntry \<Rightarrow> param_src" where
  "source_src param = (if tp_name param = ''trace'' then OrNull (tsName param) else Opt (tsName param))"

definition transform_src :: "TaskParamEntry \<Rightarrow> param_src" where
  "transform_src param =
     (if tp_type param = ''expr_id'' then ExprIdVar
      else if tp_type param = ''pred_id'' then PredIdVar
      else if tp_type param = ''node_ref'' then NodeIdOf (tsName param)
      else if tp_name param = ''out_key'' \<or> tp_name param = ''by'' then KeyIdOf (tsName param)
      else if tp_name param = ''trace'' then OrNull (tsName param)
      else Opt (tsName param))"

definition trace_stmts :: "TaskEntry \<Rightarrow> stmt list" where
  "trace_stmts task = (if hasTrace task then [TraceCheck] else [])"

definition table_stmts :: "TaskEntry \<Rightarrow> stmt list" where
  "table_stmts task =
     (case find (\<lambda>p. tp_type p = ''expr_id'') (te_params task) of None \<Rightarrow> [] | Some p \<Rightarrow> [HandleExpr (tsName p)]) @
     (case find (\<lambda>p. tp_type p = ''pred_id'') (te_params task) of None \<Rightarrow> [] | Some p \<Rightarrow> [HandlePred (tsName p)])"

definition source_program :: "TaskEntry \<Rightarrow> task_program" where
  "source_program task =
     \<lparr>prog_op = te_op task, prog_is_source = True,
      prog_body = OptsNotUndefined # concat (map source_checks (te_params task)) @ [SplitOpts] @ trace_stmts task,
      prog_params = map (\<lambda>p. (tp_name p, source_src p)) (te_params task)\<rparr>"

definition transform_program :: "TaskEntry \<Rightarrow> task_program" where
  "transform_program task =
     \<lparr>prog_op = te_op task, prog_is_source = False,
      prog_body = OptsNotUndefined # concat (map transform_checks (te_params task)) @ [SplitOpts] @ trace_stmts task @ table_stmts task,
      prog_params = map (\<lambda>p. (tp_name p, transform_src p)) (te_params task)\<rparr>"

text \<open>\<open>SOURCE_TASK_METHODS.has(opToMethodName(t.op))\<close>.\<close>

definition program_of :: "TaskEntry \<Rightarrow> string \<Rightarrow> task_program" where
  "program_of task m = (if m \<in> set SOURCE_TASK_METHODS then source_program task else transform_program task)"

section \<open>The text of a program\<close>

fun print_stmt :: "string \<Rightarrow> stmt \<Rightarrow> string list" where
  \<open>print_stmt m OptsNotUndefined =
   [''  assertNotUndefined(opts, "'' @ m @ ''(opts)");'']\<close>
| \<open>print_stmt m (NotUndefined x) =
   [''  assertNotUndefined(opts.'' @ x @ '', "'' @ m @ ''({ '' @ x @ '' })");'']\<close>
| \<open>print_stmt m (KeyTokenCheck x) =
   [''  assertKeyToken(opts.'' @ x @ '', "'' @ m @ ''({ '' @ x @ '' })");'']\<close>
| \<open>print_stmt m (IntegerCheck x) =
   [''  assertInteger(opts.'' @ x @ '', "'' @ m @ ''({ '' @ x @ '' })");'']\<close>
| \<open>print_stmt m (CandidateSetCheck x) =
   [''  assertCandidateSet(opts.'' @ x @ '', "'' @ m @ ''({ '' @ x @ '' })");'']\<close>
| \<open>print_stmt m (EndpointIdCheck x) =
   [''  assertEndpointId(opts.'' @ x @ '', "'' @ m @ ''({ '' @ x @ '' })");'']\<close>
| \<open>print_stmt m SplitOpts =
   [''  const { extensions, ...rest } = opts;'',
    ''  checkNoUndefined(rest as Record<string, unknown>, "'' @ m @ ''(opts)");'',
    []]\<close>
| \<open>print_stmt m TraceCheck =
   [''  // Validate trace'',
    ''  if (opts.trace !== undefined) {'',
    ''    assertStringOrNull(opts.trace, "'' @ m @ ''({ trace })");'',
    ''  }'',
    []]\<close>
| \<open>print_stmt m (HandleExpr x) =
   [''  // Validate and handle expression table'',
    ''  assertExprInput(opts.'' @ x @ '', "'' @ m @ ''({ '' @ x @ '' })");'',
    ''  let exprId: string;'',
    ''  if (isExprPlaceholder(opts.'' @ x @ '')) {'',
    ''    // AST-extracted expression - use special prefix for later remapping'',
    ''    exprId = `__static_e${opts.'' @ x @ ''.__expr_id}`;'',
    ''  } else {'',
    ''    // Regular builder-style expression'',
    ''    exprId = ctx.addExpr(opts.'' @ x @ '' as ExprNode);'',
    ''  }'',
    []]\<close>
| \<open>print_stmt m (HandlePred x) =
   [''  // Validate and handle predicate table'',
    ''  assertPredInput(opts.'' @ x @ '', "'' @ m @ ''({ '' @ x @ '' })");'',
    ''  let predId: string;'',
    ''  if (isPredPlaceholder(opts.'' @ x @ '')) {'',
    ''    // AST-extracted predicate - use special prefix for later remapping'',
    ''    predId = `__static_p${opts.'' @ x @ ''.__pred_id}`;'',
    ''  } else {'',
    ''    // Regular builder-style predicate'',
    ''    predId = ctx.addPred(opts.'' @ x @ '' as PredNode);'',
    ''  }'',
    []]\<close>

fun print_src :: "param_src \<Rightarrow> string" where
  "print_src ExprIdVar = ''exprId''"
| "print_src PredIdVar = ''predId''"
| "print_src (NodeIdOf x) = ''opts.'' @ x @ ''.getNodeId()''"
| "print_src (KeyIdOf x) = ''opts.'' @ x @ ''.id''"
| "print_src (OrNull x) = ''opts.'' @ x @ '' ?? null''"
| "print_src (Opt x) = ''opts.'' @ x"

definition print_param :: "string \<times> param_src \<Rightarrow> string" where
  "print_param kv = (case kv of (k, src) \<Rightarrow> ''    '' @ k @ '': '' @ print_src src @ '','')"

definition print_program :: "string \<Rightarrow> task_program \<Rightarrow> string list" where
  \<open>print_program m p =
   concat (map (print_stmt m) (prog_body p)) @
   [''  const params: Record<string, unknown> = {''] @ map print_param (prog_params p) @
   [''  };'',
    []] @
   (if prog_is_source p then
   [''  return ctx.addNode("'' @ prog_op p @ ''", [], params, extensions);'',
    ''}'',
    []]
    else
   [''  return ctx.addNode("'' @ prog_op p @ ''", [inputNodeId], params, extensions);'',
    ''}'',
    []])\<close>

text \<open>The signature of the function.\<close>

definition source_signature :: "TaskEntry \<Rightarrow> string \<Rightarrow> string list" where
  \<open>source_signature task m =
   [''/** Implementation for '' @ te_op task @ '' */'',
    ''export function '' @ m @ ''Impl('',
    ''  ctx: TaskContext,'',
    ''  opts: {''] @ map implOptLine (te_params task) @
   [''    extensions?: Record<string, unknown>;'',
    ''  }'',
    ''): string {'']\<close>

definition transform_signature :: "TaskEntry \<Rightarrow> string \<Rightarrow> string list" where
  \<open>transform_signature task m =
   [''/** Implementation for '' @ te_op task @ '' */'',
    ''export function '' @ m @ ''Impl('',
    ''  ctx: TaskContext,'',
    ''  inputNodeId: string,'',
    ''  opts: {''] @ map implOptLine (te_params task) @
   [''    extensions?: Record<string, unknown>;'',
    ''  }'',
    ''): string {'']\<close>

definition signature_of :: "TaskEntry \<Rightarrow> string \<Rightarrow> string list" where
  "signature_of task m = (if m \<in> set SOURCE_TASK_METHODS then source_signature task m else transform_signature task m)"

lemma print_source_checks: "concat (map (print_stmt m) (source_checks p)) = sourceCheckLines m p"
  by (simp add: source_checks_def sourceCheckLines_def)

lemma print_transform_checks: "concat (map (print_stmt m) (transform_checks p)) = transformCheckLines m p"
  by (simp add: transform_checks_def transformCheckLines_def)

lemma print_concat:
  "(\<And>p. concat (map (print_stmt m) (f p)) = g p) \<Longrightarrow>
   concat (map (print_stmt m) (concat (map f ps))) = concat (map g ps)"
  by (induction ps) simp_all

lemma print_trace_stmts: "concat (map (print_stmt m) (trace_stmts task)) = traceLines task m"
  by (simp add: trace_stmts_def traceLines_def)

lemma print_table_stmts: "concat (map (print_stmt m) (table_stmts task)) = exprLines task m @ predLines task m"
  by (simp add: table_stmts_def exprLines_def predLines_def split: option.split)

lemma print_source_src: "print_param (tp_name p, source_src p) = sourceParamLine p"
  by (simp add: print_param_def source_src_def sourceParamLine_def)

lemma print_transform_src: "print_param (tp_name p, transform_src p) = transformParamLine p"
  by (simp add: print_param_def transform_src_def transformParamLine_def)

lemma print_source_program: "sourceTaskLines task m = source_signature task m @ print_program m (source_program task)"
  by (simp add: sourceTaskLines_def source_signature_def print_program_def source_program_def
      print_concat [OF print_source_checks] print_trace_stmts print_source_src comp_def)

lemma print_transform_program:
  "transformTaskLines task m = transform_signature task m @ print_program m (transform_program task)"
  by (simp add: transformTaskLines_def transform_signature_def print_program_def transform_program_def
      print_concat [OF print_transform_checks] print_trace_stmts print_table_stmts print_transform_src comp_def)

section \<open>The meaning of a program\<close>

text \<open>The local variables a body assigns: \<open>extensions\<close>, \<open>exprId\<close> and \<open>predId\<close>.\<close>

record task_locals =
  loc_extensions :: jsval
  loc_exprId :: jsval
  loc_predId :: jsval

definition no_locals :: task_locals where
  "no_locals = \<lparr>loc_extensions = JUndef, loc_exprId = JUndef, loc_predId = JUndef\<rparr>"

text \<open>\<open>"m({ x })"\<close>, the name a check reports.\<close>

definition opt_name :: "string \<Rightarrow> string \<Rightarrow> string" where
  "opt_name m x = m @ ''({ '' @ x @ '' })''"

text \<open>A check of an option, and one of the whole options object; locals and context stay.\<close>

definition check_opt :: "(jsval \<Rightarrow> string \<Rightarrow> check) \<Rightarrow> string \<Rightarrow> jsval \<Rightarrow> string \<Rightarrow> check" where
  "check_opt assert m opts x = bindR (getP opts x) (\<lambda>v. assert v (opt_name m x))"

text \<open>
  A placeholder leaves its number behind a reserved prefix, any other input goes into the table of
  the context.
\<close>

definition entry_id :: "string \<Rightarrow> string \<Rightarrow> (jsval \<Rightarrow> bool) \<Rightarrow> (jsval \<Rightarrow> plan_ctx \<Rightarrow> string \<times> plan_ctx) \<Rightarrow> jsval \<Rightarrow> plan_ctx \<Rightarrow> string \<times> plan_ctx" where
  "entry_id prefix field isPlaceholder add v ctx =
     (case getp v field of
        JNum i \<Rightarrow> if isPlaceholder v then (prefix @ num_str i, ctx) else add v ctx
      | _ \<Rightarrow> add v ctx)"

text \<open>Sequencing: an exception ends the function with the context reached so far.\<close>

definition bindP :: "'a plan_m \<Rightarrow> ('a \<Rightarrow> 'b plan_m) \<Rightarrow> 'b plan_m" where
  "bindP p k ctx = (case p ctx of (Inl e, ctx1) \<Rightarrow> (Inl e, ctx1) | (Inr x, ctx1) \<Rightarrow> k x ctx1)"

definition returnP :: "'a \<Rightarrow> 'a plan_m" where
  "returnP x ctx = (Inr x, ctx)"

text \<open>A call on the context that cannot raise.\<close>

definition entryP :: "(plan_ctx \<Rightarrow> 'a \<times> plan_ctx) \<Rightarrow> 'a plan_m" where
  "entryP add ctx = (case add ctx of (x, ctx1) \<Rightarrow> (Inr x, ctx1))"

fun exec_stmt :: "string \<Rightarrow> jsval \<Rightarrow> stmt \<Rightarrow> task_locals \<Rightarrow> task_locals plan_m" where
  "exec_stmt m opts OptsNotUndefined ls = guarded (ti_assertNotUndefined opts (m @ ''(opts)'')) (\<lambda>_. returnP ls)"
| "exec_stmt m opts (NotUndefined x) ls = guarded (check_opt ti_assertNotUndefined m opts x) (\<lambda>_. returnP ls)"
| "exec_stmt m opts (KeyTokenCheck x) ls = guarded (check_opt assertKeyToken m opts x) (\<lambda>_. returnP ls)"
| "exec_stmt m opts (IntegerCheck x) ls = guarded (check_opt ti_assertInteger m opts x) (\<lambda>_. returnP ls)"
| "exec_stmt m opts (CandidateSetCheck x) ls = guarded (check_opt assertCandidateSet m opts x) (\<lambda>_. returnP ls)"
| "exec_stmt m opts (EndpointIdCheck x) ls = guarded (check_opt ti_assertEndpointId m opts x) (\<lambda>_. returnP ls)"
| "exec_stmt m opts SplitOpts ls =
     guarded (bindR (split_opts opts) (\<lambda>(extensions, rest).
              bindR (ti_checkNoUndefined rest (m @ ''(opts)'')) (\<lambda>_. Inr extensions)))
       (\<lambda>extensions. returnP (ls\<lparr>loc_extensions := extensions\<rparr>))"
| "exec_stmt m opts TraceCheck ls =
     guarded (bindR (getP opts ''trace'') (\<lambda>_. checkTrace opts (opt_name m ''trace''))) (\<lambda>_. returnP ls)"
| "exec_stmt m opts (HandleExpr x) ls =
     guarded (bindR (getP opts x) (\<lambda>v. bindR (assertExprInput v (opt_name m x)) (\<lambda>_. Inr v)))
       (\<lambda>v. bindP (entryP (entry_id ''__static_e'' ''__expr_id'' isExprPlaceholder addExpr v))
              (\<lambda>exprId. returnP (ls\<lparr>loc_exprId := JStr exprId\<rparr>)))"
| "exec_stmt m opts (HandlePred x) ls =
     guarded (bindR (getP opts x) (\<lambda>v. bindR (assertPredInput v (opt_name m x)) (\<lambda>_. Inr v)))
       (\<lambda>v. bindP (entryP (entry_id ''__static_p'' ''__pred_id'' isPredPlaceholder addPred v))
              (\<lambda>predId. returnP (ls\<lparr>loc_predId := JStr predId\<rparr>)))"

fun exec_stmts :: "string \<Rightarrow> jsval \<Rightarrow> stmt list \<Rightarrow> task_locals \<Rightarrow> task_locals plan_m" where
  "exec_stmts m opts [] ls = returnP ls"
| "exec_stmts m opts (s # ss) ls = bindP (exec_stmt m opts s ls) (exec_stmts m opts ss)"

fun eval_src :: "jsval \<Rightarrow> task_locals \<Rightarrow> param_src \<Rightarrow> (dsl_error, jsval) res" where
  "eval_src opts ls ExprIdVar = Inr (loc_exprId ls)"
| "eval_src opts ls PredIdVar = Inr (loc_predId ls)"
| "eval_src opts ls (NodeIdOf x) = bindR (getP opts x) (\<lambda>v. bindR (getP v ''getNodeId'') (\<lambda>_. Inr (call_getNodeId v)))"
| "eval_src opts ls (KeyIdOf x) = bindR (getP opts x) (\<lambda>v. getP v ''id'')"
| "eval_src opts ls (OrNull x) = bindR (getP opts x) (\<lambda>v. Inr (nullish v JNull))"
| "eval_src opts ls (Opt x) = getP opts x"

text \<open>An object literal: a repeated name overwrites.\<close>

definition object_literal :: "(string \<times> jsval) list \<Rightarrow> (string \<times> jsval) list" where
  "object_literal kvs = foldl (\<lambda>m (k, v). alist_set k v m) [] kvs"

definition eval_params :: "jsval \<Rightarrow> task_locals \<Rightarrow> (string \<times> param_src) list \<Rightarrow> (dsl_error, (string \<times> jsval) list) res" where
  "eval_params opts ls ps =
     bindR (mapR (\<lambda>(k, src). bindR (eval_src opts ls src) (\<lambda>v. Inr (k, v))) ps) (\<lambda>kvs. Inr (object_literal kvs))"

definition exec_program :: "string \<Rightarrow> task_program \<Rightarrow> string \<Rightarrow> jsval \<Rightarrow> string plan_m" where
  "exec_program m p inputNodeId opts =
     bindP (exec_stmts m opts (prog_body p) no_locals) (\<lambda>ls.
       guarded (eval_params opts ls (prog_params p))
         (\<lambda>params. addNode (prog_op p) (if prog_is_source p then [] else [inputNodeId]) params (loc_extensions ls)))"

definition run_task :: "TaskEntry \<Rightarrow> string \<Rightarrow> string \<Rightarrow> jsval \<Rightarrow> string plan_m" where
  "run_task task m inputNodeId opts = exec_program m (program_of task m) inputNodeId opts"

section \<open>The tasks of the checked-in registry\<close>

definition task_param :: "string \<Rightarrow> string \<Rightarrow> bool \<Rightarrow> bool \<Rightarrow> string option \<Rightarrow> TaskParamEntry" where
  "task_param name type required nullable kind =
     \<lparr>tp_name = name, tp_type = type, tp_required = required, tp_nullable = nullable, tp_endpoint_kind = kind\<rparr>"

definition task_row :: "string \<Rightarrow> string \<Rightarrow> TaskParamEntry list \<Rightarrow> jsval \<Rightarrow> TaskEntry" where
  "task_row op pattern params effect =
     \<lparr>te_op = op, te_output_pattern = pattern, te_params = params, te_writes_effect = effect\<rparr>"

definition tasks_toml :: TaskRegistry where
  "tasks_toml = \<lparr>tr_schema_version = jint 1,
     tr_manifest_digest = ''4a2e3e796f5c3cf45f1283b4a91580d0f6e3bb2d3b757f06cfd05da5dcaff8a6'',
     tr_tasks =
      [task_row ''core::concat'' ''ConcatDense''
        [task_param ''rhs'' ''node_ref'' True False None,
         task_param ''trace'' ''string'' False True None] JUndef,
       task_row ''core::filter'' ''StableFilter''
        [task_param ''pred_id'' ''pred_id'' True False None,
         task_param ''trace'' ''string'' False True None] JUndef,
       task_row ''core::follow'' ''VariableDense''
        [task_param ''endpoint'' ''endpoint_ref'' True False (Some ''redis''),
         task_param ''fanout'' ''int'' True False None,
         task_param ''trace'' ''string'' False True None] JUndef,
       task_row ''core::media'' ''VariableDense''
        [task_param ''endpoint'' ''endpoint_ref'' True False (Some ''redis''),
         task_param ''fanout'' ''int'' True False None,
         task_param ''trace'' ''string'' False True None] JUndef,
       task_row ''core::recommendation'' ''VariableDense''
        [task_param ''endpoint'' ''endpoint_ref'' True False (Some ''redis''),
         task_param ''fanout'' ''int'' True False None,
         task_param ''trace'' ''string'' False True None] JUndef,
       task_row ''core::sort'' ''PermutationOfInput''
        [task_param ''by'' ''int'' True False None,
         task_param ''order'' ''string'' False False None,
         task_param ''trace'' ''string'' False True None] JUndef,
       task_row ''core::take'' ''PrefixOfInput''
        [task_param ''count'' ''int'' True False None,
         task_param ''trace'' ''string'' False True None] JUndef,
       task_row ''core::viewer'' ''VariableDense''
        [task_param ''endpoint'' ''endpoint_ref'' True False (Some ''redis''),
         task_param ''trace'' ''string'' False True None] JUndef,
       task_row ''core::vm'' ''UnaryPreserveView''
        [task_param ''expr_id'' ''expr_id'' True False None,
         task_param ''out_key'' ''int'' True False None,
         task_param ''trace'' ''string'' False True None] (JObj [(''kind'', JStr ''FromParam''), (''param'', JStr ''out_key'')]),
       task_row ''test::busy_cpu'' ''UnaryPreserveView''
        [task_param ''busy_wait_ms'' ''int'' True False None,
         task_param ''trace'' ''string'' False True None] JUndef,
       task_row ''test::fixed_source'' ''VariableDense''
        [task_param ''row_count'' ''int'' False False None,
         task_param ''trace'' ''string'' False True None] JUndef,
       task_row ''test::sleep'' ''UnaryPreserveView''
        [task_param ''duration_ms'' ''int'' True False None,
         task_param ''fail_after_sleep'' ''bool'' False False None,
         task_param ''trace'' ''string'' False True None] JUndef]\<rparr>"

section \<open>The twelve functions\<close>

lemma bindP_guarded: "bindP (guarded r k) f = guarded r (\<lambda>x. bindP (k x) f)"
  by (rule ext) (simp add: bindP_def guarded_def split: sum.split)

lemma bindP_returnP [simp]: "bindP (returnP x) f = f x"
  by (rule ext) (simp add: bindP_def returnP_def)

lemma bindP_raise [simp]: "bindP (Pair (Inl e)) f = Pair (Inl e)"
  by (rule ext) (simp add: bindP_def)

lemma bindP_assoc: "bindP (bindP p k) f = bindP p (\<lambda>x. bindP (k x) f)"
  by (rule ext) (simp add: bindP_def split: prod.split sum.split)

lemma guarded_bindR: "guarded (bindR r f) k = guarded r (\<lambda>x. guarded (f x) k)"
  by (rule ext) (cases r; simp add: guarded_def)

lemma guarded_Inr [simp]: "guarded (Inr x) k = k x"
  by (rule ext) (simp add: guarded_def)

lemma guarded_Inl [simp]: "guarded (Inl e) k = (\<lambda>ctx. (Inl e, ctx))"
  by (rule ext) (simp add: guarded_def)

lemma getP_Inr: "v \<noteq> JUndef \<Longrightarrow> v \<noteq> JNull \<Longrightarrow> getP v k = Inr (getp v k)"
  by (simp add: getP_def)

lemma bindP_entryP: "bindP (entryP add) f = (\<lambda>ctx. case add ctx of (x, ctx1) \<Rightarrow> f x ctx1)"
  by (rule ext) (simp add: bindP_def entryP_def split: prod.split)

lemma bindP_case:
  "bindP (\<lambda>ctx. case add ctx of (x, ctx1) \<Rightarrow> p x ctx1) f = (\<lambda>ctx. case add ctx of (x, ctx1) \<Rightarrow> bindP (p x) f ctx1)"
  by (rule ext) (simp add: bindP_def split: prod.split)

lemmas exec_defs = exec_program_def bindP_guarded bindP_assoc bindP_entryP bindP_case guarded_bindR check_opt_def opt_name_def
  eval_params_def object_literal_def no_locals_def entry_id_def getP_def split_opts_def finish_opts_def trace_param_def

text \<open>The programs of the registry; all of them start with the same check and end with the trace.\<close>

definition prog :: "string \<Rightarrow> bool \<Rightarrow> stmt list \<Rightarrow> stmt list \<Rightarrow> (string \<times> param_src) list \<Rightarrow> task_program" where
  "prog op source checks tables params =
     \<lparr>prog_op = op, prog_is_source = source, prog_body = OptsNotUndefined # checks @ [SplitOpts, TraceCheck] @ tables,
      prog_params = params @ [(''trace'', OrNull ''trace'')]\<rparr>"

definition fanout_prog :: "string \<Rightarrow> task_program" where
  "fanout_prog op = prog op False
     [NotUndefined ''endpoint'', EndpointIdCheck ''endpoint'', NotUndefined ''fanout'', IntegerCheck ''fanout''] []
     [(''endpoint'', Opt ''endpoint''), (''fanout'', Opt ''fanout'')]"

text \<open>The bodies of the twelve functions, as the compiled \<open>task-impl.js\<close> has them.\<close>

definition concat_program :: task_program where
  "concat_program = prog ''core::concat'' False [NotUndefined ''rhs'', CandidateSetCheck ''rhs''] [] [(''rhs'', NodeIdOf ''rhs'')]"

definition filter_program :: task_program where
  "filter_program = prog ''core::filter'' False [NotUndefined ''pred''] [HandlePred ''pred''] [(''pred_id'', PredIdVar)]"

definition follow_program :: task_program where
  "follow_program = fanout_prog ''core::follow''"

definition media_program :: task_program where
  "media_program = fanout_prog ''core::media''"

definition recommendation_program :: task_program where
  "recommendation_program = fanout_prog ''core::recommendation''"

definition sort_program :: task_program where
  "sort_program = prog ''core::sort'' False [NotUndefined ''by'', KeyTokenCheck ''by''] []
     [(''by'', KeyIdOf ''by''), (''order'', Opt ''order'')]"

definition take_program :: task_program where
  "take_program = prog ''core::take'' False [NotUndefined ''count'', IntegerCheck ''count''] [] [(''count'', Opt ''count'')]"

definition viewer_program :: task_program where
  "viewer_program = prog ''core::viewer'' True [NotUndefined ''endpoint'', EndpointIdCheck ''endpoint''] []
     [(''endpoint'', Opt ''endpoint'')]"

definition vm_program :: task_program where
  "vm_program = prog ''core::vm'' False [NotUndefined ''expr'', NotUndefined ''outKey'', KeyTokenCheck ''outKey''] [HandleExpr ''expr'']
     [(''expr_id'', ExprIdVar), (''out_key'', KeyIdOf ''outKey'')]"

definition busyCpu_program :: task_program where
  "busyCpu_program = prog ''test::busy_cpu'' False [NotUndefined ''busyWaitMs'', IntegerCheck ''busyWaitMs''] []
     [(''busy_wait_ms'', Opt ''busyWaitMs'')]"

definition fixedSource_program :: task_program where
  "fixedSource_program = prog ''test::fixed_source'' True [] [] [(''row_count'', Opt ''rowCount'')]"

definition sleep_program :: task_program where
  "sleep_program = prog ''test::sleep'' False [NotUndefined ''durationMs'', IntegerCheck ''durationMs''] []
     [(''duration_ms'', Opt ''durationMs''), (''fail_after_sleep'', Opt ''failAfterSleep'')]"

definition task_programs :: "(string \<times> task_program) list" where
  "task_programs =
     [(''concat'', concat_program),
      (''filter'', filter_program),
      (''follow'', follow_program),
      (''media'', media_program),
      (''recommendation'', recommendation_program),
      (''sort'', sort_program),
      (''take'', take_program),
      (''viewer'', viewer_program),
      (''vm'', vm_program),
      (''busyCpu'', busyCpu_program),
      (''fixedSource'', fixedSource_program),
      (''sleep'', sleep_program)]"

lemma registry_programs:
  "mapR (\<lambda>task. bindR (methodName (te_op task)) (\<lambda>m. Inr (m, program_of task m))) (tr_tasks tasks_toml) = Inr task_programs"
  by code_simp

text \<open>The functions of \<open>task-impl.ts\<close>, under their method names; a source ignores the input node.\<close>

definition task_impls :: "(string \<times> (string \<Rightarrow> jsval \<Rightarrow> string plan_m)) list" where
  "task_impls =
     [(''concat'', concatImpl), (''filter'', filterImpl), (''follow'', followImpl), (''media'', mediaImpl),
      (''recommendation'', recommendationImpl), (''sort'', sortImpl), (''take'', takeImpl),
      (''viewer'', \<lambda>_. viewerImpl), (''vm'', vmImpl), (''busyCpu'', busyCpuImpl),
      (''fixedSource'', \<lambda>_. fixedSourceImpl), (''sleep'', sleepImpl)]"

text \<open>
  The programs and the functions agree: either the options are no object (or the option that a
  method is called on is none), where both raise, or every property access succeeds.
\<close>

lemma exec_concat: "exec_program ''concat'' concat_program h opts = concatImpl h opts"
  by (cases "opts = JUndef \<or> opts = JNull \<or> getp opts ''rhs'' = JUndef \<or> getp opts ''rhs'' = JNull")
    (auto simp: concat_program_def prog_def exec_defs concatImpl_def ti_assertNotUndefined_def assertCandidateSet_def)

lemma exec_filter: "exec_program ''filter'' filter_program h opts = filterImpl h opts"
  by (cases "opts = JUndef \<or> opts = JNull")
    (auto simp: filter_program_def prog_def exec_defs filterImpl_def ti_assertNotUndefined_def)

lemma exec_follow: "exec_program ''follow'' follow_program h opts = followImpl h opts"
  by (cases "opts = JUndef \<or> opts = JNull")
    (auto simp: follow_program_def prog_def fanout_prog_def exec_defs followImpl_def ti_assertNotUndefined_def)

lemma exec_media: "exec_program ''media'' media_program h opts = mediaImpl h opts"
  by (cases "opts = JUndef \<or> opts = JNull")
    (auto simp: media_program_def prog_def fanout_prog_def exec_defs mediaImpl_def ti_assertNotUndefined_def)

lemma exec_recommendation: "exec_program ''recommendation'' recommendation_program h opts = recommendationImpl h opts"
  by (cases "opts = JUndef \<or> opts = JNull")
    (auto simp: recommendation_program_def prog_def fanout_prog_def exec_defs recommendationImpl_def ti_assertNotUndefined_def)

lemma exec_sort: "exec_program ''sort'' sort_program h opts = sortImpl h opts"
  by (cases "opts = JUndef \<or> opts = JNull \<or> getp opts ''by'' = JUndef \<or> getp opts ''by'' = JNull")
    (auto simp: sort_program_def prog_def exec_defs sortImpl_def ti_assertNotUndefined_def assertKeyToken_def)

lemma exec_take: "exec_program ''take'' take_program h opts = takeImpl h opts"
  by (cases "opts = JUndef \<or> opts = JNull")
    (auto simp: take_program_def prog_def exec_defs takeImpl_def ti_assertNotUndefined_def)

lemma exec_viewer: "exec_program ''viewer'' viewer_program h opts = viewerImpl opts"
  by (cases "opts = JUndef \<or> opts = JNull")
    (auto simp: viewer_program_def prog_def exec_defs viewerImpl_def ti_assertNotUndefined_def)

lemma exec_vm: "exec_program ''vm'' vm_program h opts = vmImpl h opts"
  by (cases "opts = JUndef \<or> opts = JNull \<or> getp opts ''outKey'' = JUndef \<or> getp opts ''outKey'' = JNull")
    (auto simp: vm_program_def prog_def exec_defs vmImpl_def ti_assertNotUndefined_def assertKeyToken_def)

lemma exec_busyCpu: "exec_program ''busyCpu'' busyCpu_program h opts = busyCpuImpl h opts"
  by (cases "opts = JUndef \<or> opts = JNull")
    (auto simp: busyCpu_program_def prog_def exec_defs busyCpuImpl_def ti_assertNotUndefined_def)

lemma exec_fixedSource: "exec_program ''fixedSource'' fixedSource_program h opts = fixedSourceImpl opts"
  by (cases "opts = JUndef \<or> opts = JNull")
    (auto simp: fixedSource_program_def prog_def exec_defs fixedSourceImpl_def ti_assertNotUndefined_def)

lemma exec_sleep: "exec_program ''sleep'' sleep_program h opts = sleepImpl h opts"
  by (cases "opts = JUndef \<or> opts = JNull")
    (auto simp: sleep_program_def prog_def exec_defs sleepImpl_def ti_assertNotUndefined_def)

lemmas exec_impls = exec_concat exec_filter exec_follow exec_media exec_recommendation exec_sort
  exec_take exec_viewer exec_vm exec_busyCpu exec_fixedSource exec_sleep

text \<open>
  Property C10. The twelve functions of the checked-in \<open>task-impl.ts\<close> are what the generator emits for
  the checked-in task registry: running the program generated for a row of \<open>registry/tasks.toml\<close> is,
  for every receiver, every options value and every context, the hand-readable function of that name.
\<close>

theorem generated_functions:
  "mapR (\<lambda>task. bindR (methodName (te_op task)) (\<lambda>m. Inr (m, run_task task m))) (tr_tasks tasks_toml) = Inr task_impls"
proof -
  have "mapR (\<lambda>task. bindR (methodName (te_op task)) (\<lambda>m. Inr (m, run_task task m))) tasks
      = bindR (mapR (\<lambda>task. bindR (methodName (te_op task)) (\<lambda>m. Inr (m, program_of task m))) tasks)
          (\<lambda>ps. Inr (map (\<lambda>(m, p). (m, exec_program m p)) ps))" for tasks
  proof (induction tasks)
    case (Cons task tasks)
    then show ?case
      by (cases "methodName (te_op task)";
          cases "mapR (\<lambda>task. bindR (methodName (te_op task)) (\<lambda>m. Inr (m, program_of task m))) tasks")
        (auto simp: run_task_def fun_eq_iff)
  qed simp
  moreover have "map (\<lambda>(m, p). (m, exec_program m p)) task_programs = task_impls"
    by (simp add: task_programs_def task_impls_def fun_eq_iff exec_impls)
  ultimately show ?thesis by (simp add: registry_programs)
qed

end
