(* ===== verification/GenContract.thy ===== *)
theory GenContract
  imports TaskPrograms
begin

text \<open>
  The functions generated for an arbitrary task registry. Whatever tasks a registry declares, as
  long as references are named by the convention of the registry, the generated function keeps the
  contract of a task implementation (\<open>TaskContract\<close>), so the plan invariant survives it; when it
  succeeds, its required options have passed the checks of their types and the node carries exactly
  the parameters of the registry row.
\<close>

section \<open>Tables and locals\<close>

definition entry_ok :: "(string \<times> jsval) list \<Rightarrow> string \<Rightarrow> jsval \<Rightarrow> bool" where
  "entry_ok table prefix v \<longleftrightarrow> (\<exists>s. v = JStr s \<and> (s \<in> fst ` set table \<or> startsWith s prefix))"

definition locals_ok :: "task_locals \<Rightarrow> plan_ctx \<Rightarrow> bool" where
  "locals_ok ls ctx \<longleftrightarrow>
     (loc_exprId ls = JUndef \<or> entry_ok (exprTable ctx) static_e (loc_exprId ls)) \<and>
     (loc_predId ls = JUndef \<or> entry_ok (predTable ctx) static_p (loc_predId ls))"

text \<open>What executing statements \<open>ss\<close> may do: extend the tables and assign the locals they assign.\<close>

definition body_post :: "stmt list \<Rightarrow> task_locals \<Rightarrow> plan_ctx \<Rightarrow> (dsl_error, task_locals) res \<Rightarrow> plan_ctx \<Rightarrow> bool" where
  "body_post ss ls ctx r ctx' \<longleftrightarrow>
     (\<exists>et pt. ctx' = with_tables et pt ctx) \<and> tables_numbered ctx' \<and>
     (\<forall>ls'. r = Inr ls' \<longrightarrow> locals_ok ls' ctx' \<and>
        ((\<exists>x. HandleExpr x \<in> set ss) \<or> loc_exprId ls \<noteq> JUndef \<longrightarrow> loc_exprId ls' \<noteq> JUndef) \<and>
        ((\<exists>x. HandlePred x \<in> set ss) \<or> loc_predId ls \<noteq> JUndef \<longrightarrow> loc_predId ls' \<noteq> JUndef))"

lemma entry_ok_mono: "entry_ok t p v \<Longrightarrow> entry_ok (t @ t') p v"
  by (auto simp: entry_ok_def)

lemma locals_ok_with_tables: "locals_ok ls ctx \<Longrightarrow> locals_ok ls (with_tables et pt ctx)"
  by (auto simp: locals_ok_def intro: entry_ok_mono)

lemma body_post_same:
  "tables_numbered ctx \<Longrightarrow> locals_ok ls ctx \<Longrightarrow>
   \<forall>x. HandleExpr x \<notin> set ss \<Longrightarrow> \<forall>x. HandlePred x \<notin> set ss \<Longrightarrow>
   body_post ss ls ctx (Inr (ls\<lparr>loc_extensions := v\<rparr>)) ctx \<and> body_post ss ls ctx (Inr ls) ctx"
  unfolding body_post_def by (auto simp: locals_ok_def intro: exI [of _ "[]"] with_tables_Nil [symmetric])

lemma body_post_raise: "tables_numbered ctx \<Longrightarrow> body_post ss ls ctx (Inl e) ctx"
  unfolding body_post_def by (metis Inl_Inr_False with_tables_Nil)

lemma guarded_body:
  assumes "tables_numbered ctx" and "guarded r0 k ctx = (r, ctx')"
    and "\<And>x. k x ctx = (r, ctx') \<Longrightarrow> body_post ss ls ctx r ctx'"
  shows "body_post ss ls ctx r ctx'"
  using assms by (cases r0) (auto simp: guarded_def intro: body_post_raise)

lemma body_post_trans:
  assumes 1: "body_post [s] ls ctx (Inr ls1) ctx1" and 2: "body_post ss ls1 ctx1 r ctx'"
  shows "body_post (s # ss) ls ctx r ctx'"
proof -
  from 1 obtain et pt where c1: "ctx1 = with_tables et pt ctx" by (auto simp: body_post_def)
  with 2 have "\<exists>et' pt'. ctx' = with_tables (et @ et') (pt @ pt') ctx" by (auto simp: body_post_def)
  moreover have "tables_numbered ctx'" using 2 by (simp add: body_post_def)
  ultimately show ?thesis
    using 1 2 unfolding body_post_def set_simps insert_iff by blast
qed

lemma exec_stmt_post:
  assumes tn: "tables_numbered ctx" and ok: "locals_ok ls ctx" and run: "exec_stmt m opts s ls ctx = (r, ctx')"
  shows "body_post [s] ls ctx r ctx'"
proof (cases s)
  case (HandleExpr x)
  show ?thesis
  proof (rule guarded_body [OF tn run [unfolded HandleExpr exec_stmt.simps]])
    fix v assume "bindP (entryP (entry_id ''__static_e'' ''__expr_id'' isExprPlaceholder addExpr v))
      (\<lambda>exprId. returnP (ls\<lparr>loc_exprId := JStr exprId\<rparr>)) ctx = (r, ctx')"
    then obtain exprId where e: "entry_id ''__static_e'' ''__expr_id'' isExprPlaceholder addExpr v ctx = (exprId, ctx')"
      and r: "r = Inr (ls\<lparr>loc_exprId := JStr exprId\<rparr>)"
      by (auto simp: bindP_entryP returnP_def split: prod.splits)
    from tn e [unfolded entry_id_def] obtain et where "ctx' = with_tables et [] ctx" "tables_numbered ctx'"
      "exprId \<in> fst ` set (exprTable ctx') \<or> startsWith exprId static_e" by (rule expr_entry)
    with ok r HandleExpr show "body_post [s] ls ctx r ctx'"
      by (auto simp: body_post_def locals_ok_def entry_ok_def)
  qed
next
  case (HandlePred x)
  show ?thesis
  proof (rule guarded_body [OF tn run [unfolded HandlePred exec_stmt.simps]])
    fix v assume "bindP (entryP (entry_id ''__static_p'' ''__pred_id'' isPredPlaceholder addPred v))
      (\<lambda>predId. returnP (ls\<lparr>loc_predId := JStr predId\<rparr>)) ctx = (r, ctx')"
    then obtain predId where e: "entry_id ''__static_p'' ''__pred_id'' isPredPlaceholder addPred v ctx = (predId, ctx')"
      and r: "r = Inr (ls\<lparr>loc_predId := JStr predId\<rparr>)"
      by (auto simp: bindP_entryP returnP_def split: prod.splits)
    from tn e [unfolded entry_id_def] obtain pt where "ctx' = with_tables [] pt ctx" "tables_numbered ctx'"
      "predId \<in> fst ` set (predTable ctx') \<or> startsWith predId static_p" by (rule pred_entry)
    with ok r HandlePred show "body_post [s] ls ctx r ctx'"
      by (auto simp: body_post_def locals_ok_def entry_ok_def)
  qed
qed (use tn ok run body_post_same [OF tn ok, of "[s]"] body_post_raise [OF tn, of "[s]" ls] in
  \<open>auto simp: returnP_def guarded_def split: sum.splits\<close>)

lemma exec_stmts_post:
  "tables_numbered ctx \<Longrightarrow> locals_ok ls ctx \<Longrightarrow> exec_stmts m opts ss ls ctx = (r, ctx') \<Longrightarrow> body_post ss ls ctx r ctx'"
proof (induction ss arbitrary: ls ctx)
  case Nil
  then show ?case using body_post_same [of ctx ls "[]"] by (auto simp: returnP_def)
next
  case (Cons s ss)
  obtain r1 ctx1 where s1: "exec_stmt m opts s ls ctx = (r1, ctx1)" by fastforce
  note p1 = exec_stmt_post [OF Cons.prems(1,2) s1]
  show ?case
  proof (cases r1)
    case (Inl e)
    with s1 Cons.prems(3) p1 show ?thesis by (auto simp: bindP_def body_post_def)
  next
    case (Inr ls1)
    with s1 Cons.prems(3) have "exec_stmts m opts ss ls1 ctx1 = (r, ctx')" by (simp add: bindP_def)
    with Cons.IH [of ctx1 ls1] p1 Inr have "body_post ss ls1 ctx1 r ctx'" by (simp add: body_post_def)
    with p1 Inr show ?thesis by (auto elim: body_post_trans)
  qed
qed


section \<open>Parameters\<close>

text \<open>
  The convention of the registry: \<open>rhs\<close> is a node reference, \<open>expr_id\<close> and \<open>pred_id\<close> have the types of
  those names, and a source task has none of them.
\<close>

definition refs_named :: "TaskEntry \<Rightarrow> string \<Rightarrow> bool" where
  "refs_named task m \<longleftrightarrow>
     list_all (\<lambda>p.
       if m \<in> set SOURCE_TASK_METHODS then tp_name p \<notin> {''rhs'', ''expr_id'', ''pred_id''}
       else (tp_name p = ''rhs'' \<longrightarrow> tp_type p = ''node_ref'') \<and>
            (tp_name p = ''expr_id'' \<longrightarrow> tp_type p = ''expr_id'') \<and>
            (tp_name p = ''pred_id'' \<longrightarrow> tp_type p = ''pred_id'')) (te_params task)"

text \<open>The nodes of the candidate sets passed in node reference options.\<close>

definition option_nodes :: "TaskEntry \<Rightarrow> jsval \<Rightarrow> string set" where
  "option_nodes task opts =
     {n. \<exists>p c. p \<in> set (te_params task) \<and> tp_type p = ''node_ref'' \<and> getp opts (tsName p) = JCand c n}"

lemma set_alist_set: "set (alist_set k v m) \<subseteq> insert (k, v) (set m)"
  by (induction m) (auto split: if_splits)

lemma object_literal_subset: "set (object_literal kvs) \<subseteq> set kvs"
proof -
  have "set (foldl (\<lambda>m (k, v). alist_set k v m) acc kvs) \<subseteq> set acc \<union> set kvs" for acc
  proof (induction kvs arbitrary: acc)
    case (Cons kv kvs)
    then show ?case using set_alist_set [of "fst kv" "snd kv" acc] by (cases kv) fastforce
  qed simp
  from this [of "[]"] show ?thesis by (simp add: object_literal_def)
qed

text \<open>Every entry of the parameter object comes from its source expression.\<close>

lemma mapR_Inr_mem: "mapR f xs = Inr ys \<Longrightarrow> y \<in> set ys \<Longrightarrow> \<exists>x \<in> set xs. f x = Inr y"
  by (induction xs arbitrary: ys) (auto simp: bindR_Inr_iff)

lemma eval_params_mem:
  assumes "eval_params opts ls ps = Inr params" and "(k, v) \<in> set params"
  shows "\<exists>src. (k, src) \<in> set ps \<and> eval_src opts ls src = Inr v"
proof -
  from assms(1) obtain kvs where kvs: "mapR (\<lambda>(k, src). bindR (eval_src opts ls src) (\<lambda>v. Inr (k, v))) ps = Inr kvs"
    and "params = object_literal kvs" by (auto simp: eval_params_def bindR_Inr_iff)
  with assms(2) object_literal_subset have "(k, v) \<in> set kvs" by blast
  from mapR_Inr_mem [OF kvs this] show ?thesis by (auto simp: bindR_Inr_iff)
qed

lemma transform_param_mem:
  assumes "eval_params opts ls (prog_params (transform_program task)) = Inr params" and "(k, v) \<in> set params"
  obtains p where "p \<in> set (te_params task)" "k = tp_name p" "eval_src opts ls (transform_src p) = Inr v"
  using eval_params_mem [OF assms] by (auto simp: transform_program_def)

lemma source_param_mem:
  assumes "eval_params opts ls (prog_params (source_program task)) = Inr params"
  shows "fst ` set params \<subseteq> tp_name ` set (te_params task)"
  using eval_params_mem [OF assms] by (fastforce simp: source_program_def)

lemma in_str_of: "s \<in> set (case v of JStr s \<Rightarrow> [s] | _ \<Rightarrow> []) \<longleftrightarrow> v = JStr s"
  by (simp split: jsval.split) blast

lemma in_rhs_refs: "s \<in> set (rhs_refs params) \<longleftrightarrow> (''rhs'', JStr s) \<in> set params"
proof (induction params)
  case (Cons kv params)
  obtain k v where "kv = (k, v)" by fastforce
  with Cons show ?case by (cases "k = ''rhs''") (simp_all add: rhs_refs_Cons in_str_of eq_commute [of "JStr s"])
qed (simp add: rhs_refs_def)

lemma transform_rhs:
  assumes "refs_named task m" and "m \<notin> set SOURCE_TASK_METHODS"
    and "eval_params opts ls (prog_params (transform_program task)) = Inr params"
  shows "set (rhs_refs params) \<subseteq> option_nodes task opts"
proof
  fix s assume "s \<in> set (rhs_refs params)"
  then have "(''rhs'', JStr s) \<in> set params" by (simp add: in_rhs_refs)
  with assms(3) obtain p where p: "p \<in> set (te_params task)" "tp_name p = ''rhs''"
    "eval_src opts ls (transform_src p) = Inr (JStr s)" by (metis transform_param_mem)
  with assms(1,2) have type: "tp_type p = ''node_ref''" by (auto simp: refs_named_def list_all_iff)
  with p(3) have "call_getNodeId (getp opts (tsName p)) = JStr s" by (simp add: transform_src_def bindR_Inr_iff getP_Inr_iff)
  then have "\<exists>c. getp opts (tsName p) = JCand c s" by (auto simp: call_getNodeId_def split: jsval.splits)
  with p(1) type show "s \<in> option_nodes task opts" by (auto simp: option_nodes_def)
qed

lemma find_Some_ex: "p \<in> set ps \<Longrightarrow> P p \<Longrightarrow> \<exists>q. find P ps = Some q"
  by (induction ps) auto

lemma table_stmts_cover:
  assumes "p \<in> set (te_params task)"
  shows "tp_type p = ''expr_id'' \<Longrightarrow> \<exists>x. HandleExpr x \<in> set (table_stmts task)"
    and "tp_type p = ''pred_id'' \<Longrightarrow> \<exists>x. HandlePred x \<in> set (table_stmts task)"
  using find_Some_ex [OF assms, of "\<lambda>p. tp_type p = ''expr_id''"] find_Some_ex [OF assms, of "\<lambda>p. tp_type p = ''pred_id''"]
  by (auto simp: table_stmts_def)

lemma transform_tables:
  assumes named: "refs_named task m" "m \<notin> set SOURCE_TASK_METHODS"
    and params: "eval_params opts ls (prog_params (transform_program task)) = Inr params"
    and post: "body_post (prog_body (transform_program task)) ls0 ctx (Inr ls) ctx'"
  shows "table_refs_ok (exprTable ctx') (predTable ctx') params"
proof -
  have set: "loc_exprId ls \<noteq> JUndef" if "p \<in> set (te_params task)" "tp_type p = ''expr_id''" for p
    using post table_stmts_cover(1) [OF that] by (auto simp: body_post_def transform_program_def)
  have set': "loc_predId ls \<noteq> JUndef" if "p \<in> set (te_params task)" "tp_type p = ''pred_id''" for p
    using post table_stmts_cover(2) [OF that] by (auto simp: body_post_def transform_program_def)
  have ok: "locals_ok ls ctx'" using post by (simp add: body_post_def)
  have "entry_ok (exprTable ctx') static_e v" if mem: "(''expr_id'', v) \<in> set params" for v
  proof -
    from params mem obtain p where p: "p \<in> set (te_params task)" "tp_name p = ''expr_id''"
      "eval_src opts ls (transform_src p) = Inr v" by (metis transform_param_mem)
    with named have type: "tp_type p = ''expr_id''" by (auto simp: refs_named_def list_all_iff)
    with p set ok show ?thesis by (auto simp: transform_src_def locals_ok_def)
  qed
  moreover have "entry_ok (predTable ctx') static_p v" if mem: "(''pred_id'', v) \<in> set params" for v
  proof -
    from params mem obtain p where p: "p \<in> set (te_params task)" "tp_name p = ''pred_id''"
      "eval_src opts ls (transform_src p) = Inr v" by (metis transform_param_mem)
    with named have type: "tp_type p = ''pred_id''" by (auto simp: refs_named_def list_all_iff)
    with p set' ok show ?thesis by (auto simp: transform_src_def locals_ok_def)
  qed
  ultimately show ?thesis by (auto simp: table_refs_ok_def entry_ok_def)
qed

lemma source_refs:
  assumes "refs_named task m" "m \<in> set SOURCE_TASK_METHODS"
    and "eval_params opts ls (prog_params (source_program task)) = Inr params"
  shows "plain_params params"
  using source_param_mem [OF assms(3)] assms(1,2) unfolding plain_params_def refs_named_def list_all_iff by fastforce

section \<open>The contract of every generated function\<close>

lemma run_task_post:
  assumes named: "refs_named task m" and tn: "tables_numbered ctx" and run: "run_task task m h opts ctx = (r, ctx')"
  shows "task_post (te_op task) (if m \<in> set SOURCE_TASK_METHODS then [] else [h]) (option_nodes task opts) ctx r ctx'"
proof -
  let ?P = "program_of task m"
  let ?ins = "if m \<in> set SOURCE_TASK_METHODS then [] else [h]"
  have P: "prog_op ?P = te_op task" "(if prog_is_source ?P then [] else [h]) = ?ins"
    by (simp_all add: program_of_def source_program_def transform_program_def)
  obtain r1 ctx1 where b: "exec_stmts m opts (prog_body ?P) no_locals ctx = (r1, ctx1)" by fastforce
  have "locals_ok no_locals ctx" by (simp add: locals_ok_def no_locals_def)
  note post = exec_stmts_post [OF tn this b]
  then obtain et pt where c1: "ctx1 = with_tables et pt ctx" and tn1: "tables_numbered ctx1" by (auto simp: body_post_def)
  have "task_post (te_op task) ?ins (option_nodes task opts) ctx1 r ctx'"
  proof (cases r1)
    case (Inl e)
    with run b have "r = Inl e" "ctx' = ctx1" by (simp_all add: run_task_def exec_program_def bindP_def)
    then show ?thesis using task_post.thrown [of "[]" "[]" ctx1 "nodeCounter ctx1"] tn1 by simp
  next
    case (Inr ls)
    with run b have g: "guarded (eval_params opts ls (prog_params ?P))
        (\<lambda>params. addNode (te_op task) ?ins params (loc_extensions ls)) ctx1 = (r, ctx')"
      by (simp add: run_task_def exec_program_def bindP_def P)
    show ?thesis
    proof (rule guarded_post [OF _ tn1 g])
      fix params assume params: "eval_params opts ls (prog_params ?P) = Inr params"
        and add: "addNode (te_op task) ?ins params (loc_extensions ls) ctx1 = (r, ctx')"
      have "set (rhs_refs params) \<subseteq> option_nodes task opts \<and> table_refs_ok (exprTable ctx1) (predTable ctx1) params"
        using params post Inr transform_rhs [OF named] transform_tables [OF named] source_refs [OF named]
        by (cases "m \<in> set SOURCE_TASK_METHODS") (auto simp: program_of_def plain_params_refs plain_params_tables)
      with tn1 add show "task_post (te_op task) ?ins (option_nodes task opts) ctx1 r ctx'" by (auto intro: addNode_post)
    qed
  qed
  then show ?thesis unfolding c1 by (rule task_post_extend)
qed

lemma run_task_contract:
  "refs_named task m \<Longrightarrow>
   task_impl (run_task task m h opts) (te_op task) (if m \<in> set SOURCE_TASK_METHODS then [] else [h]) (option_nodes task opts)"
  by (rule task_impl.intro) (rule run_task_post)

text \<open>
  Property C11. Every function that the generator can emit keeps the invariant of a plan. For any row of
  any task registry whose references follow the naming convention, any receiver and any options,
  started in a context that satisfies the invariant, with the receiver and the candidate sets passed
  as options among its nodes, the invariant holds afterwards. If the call throws, the nodes are
  those from before; if it returns, one node with the operator of the row was appended.
\<close>

theorem generated_keep_invariant:
  assumes named: "refs_named task m" and inv: "plan_inv ctx"
    and receiver: "m \<in> set SOURCE_TASK_METHODS \<or> h \<in> ids ctx" and options: "option_nodes task opts \<subseteq> ids ctx"
    and run: "run_task task m h opts ctx = (r, ctx')"
  shows "plan_inv ctx' \<and>
    (case r of
       Inl e \<Rightarrow> ctx_nodes ctx' = ctx_nodes ctx
     | Inr nid \<Rightarrow> \<exists>n. ctx_nodes ctx' = ctx_nodes ctx @ [n] \<and> node_id n = nid \<and> node_op n = te_op task \<and>
         node_inputs n = (if m \<in> set SOURCE_TASK_METHODS then [] else [h]))"
proof (rule conjI)
  note c = run_task_contract [OF named, of h opts]
  from inv have tn: "tables_numbered ctx" by (simp add: plan_inv_def)
  show "plan_inv ctx'" using receiver by (intro task_impl.impl_inv [OF c inv _ options run]) auto
  show "case r of
       Inl e \<Rightarrow> ctx_nodes ctx' = ctx_nodes ctx
     | Inr nid \<Rightarrow> \<exists>n. ctx_nodes ctx' = ctx_nodes ctx @ [n] \<and> node_id n = nid \<and> node_op n = te_op task \<and>
         node_inputs n = (if m \<in> set SOURCE_TASK_METHODS then [] else [h])"
    using run task_impl.impl_throw [OF c tn, of _ ctx'] task_impl.impl_adds [OF c tn, of _ ctx'] by (cases r) simp_all
qed

text \<open>The row of \<open>core::viewer\<close> in an empty plan.\<close>

definition viewer_row :: TaskEntry where
  "viewer_row = tr_tasks tasks_toml ! 7"

theorem generated_keep_invariant_witness:
  "plan_inv (snd (run_task viewer_row ''viewer'' ''n0'' (JObj [(''endpoint'', JStr ''ep_0001'')]) (new_PlanCtx 0)))"
proof (rule generated_keep_invariant [THEN conjunct1, OF _ plan_inv_new _ _ surjective_pairing])
  show "refs_named viewer_row ''viewer''" by code_simp
  show "''viewer'' \<in> set SOURCE_TASK_METHODS \<or> ''n0'' \<in> ids (new_PlanCtx 0)" by (simp add: SOURCE_TASK_METHODS_def)
  show "option_nodes viewer_row (JObj [(''endpoint'', JStr ''ep_0001'')]) \<subseteq> ids (new_PlanCtx 0)"
    by (auto simp: option_nodes_def viewer_row_def tasks_toml_def task_row_def task_param_def)
qed

section \<open>What a successful call has checked and recorded\<close>

text \<open>The requirement that the generated checks place on a required option.\<close>

definition arg_ok :: "string \<Rightarrow> TaskParamEntry \<Rightarrow> jsval \<Rightarrow> bool" where
  "arg_ok m p v \<longleftrightarrow> v \<noteq> JUndef \<and>
     (if m \<notin> set SOURCE_TASK_METHODS \<and> (tp_name p = ''out_key'' \<or> tp_name p = ''by'') then
        v \<noteq> JNull \<and> typeof_js v = ''object'' \<and> (\<exists>x. getp v ''id'' = JNum x \<and> is_int_num x)
      else if tp_type p = ''int'' then (\<exists>x. v = JNum x \<and> is_int_num x)
      else if m \<notin> set SOURCE_TASK_METHODS \<and> tp_type p = ''node_ref'' then
        v \<noteq> JNull \<and> typeof_js v = ''object'' \<and> typeof_js (getp v ''getNodeId'') = ''function''
      else if tp_type p = ''endpoint_ref'' then (\<exists>s. v = JStr s \<and> startsWith s ''ep_'' \<and> length s \<le> 64)
      else True)"

text \<open>The value a parameter gets; \<open>e\<close> and \<open>q\<close> are the ids of the table entries.\<close>

fun param_value :: "jsval \<Rightarrow> jsval \<Rightarrow> jsval \<Rightarrow> param_src \<Rightarrow> jsval" where
  "param_value opts e q ExprIdVar = e"
| "param_value opts e q PredIdVar = q"
| "param_value opts e q (NodeIdOf x) = call_getNodeId (getp opts x)"
| "param_value opts e q (KeyIdOf x) = getp (getp opts x) ''id''"
| "param_value opts e q (OrNull x) = nullish (getp opts x) JNull"
| "param_value opts e q (Opt x) = getp opts x"

definition src_of :: "string \<Rightarrow> TaskParamEntry \<Rightarrow> param_src" where
  "src_of m p = (if m \<in> set SOURCE_TASK_METHODS then source_src p else transform_src p)"

lemma eval_src_value: "eval_src opts ls src = Inr v \<Longrightarrow> v = param_value opts (loc_exprId ls) (loc_predId ls) src"
  by (cases src) (auto simp: bindR_Inr_iff getP_Inr_iff)

lemma object_literal_distinct: "distinct (map fst kvs) \<Longrightarrow> object_literal kvs = kvs"
proof -
  have "distinct (map fst (acc @ kvs)) \<Longrightarrow> foldl (\<lambda>m (k, v). alist_set k v m) acc kvs = acc @ kvs" for acc
  proof (induction kvs arbitrary: acc)
    case (Cons kv kvs)
    then have "alist_set (fst kv) (snd kv) acc = acc @ [kv]" by (subst alist_set_fresh) auto
    with Cons show ?case by (auto simp: case_prod_unfold)
  qed simp
  from this [of "[]"] show "distinct (map fst kvs) \<Longrightarrow> object_literal kvs = kvs" by (simp add: object_literal_def)
qed

lemma mapR_eval_params:
  "mapR (\<lambda>(k, src). bindR (eval_src opts ls src) (\<lambda>v. Inr (k, v))) ps = Inr kvs \<Longrightarrow>
   kvs = map (\<lambda>(k, src). (k, param_value opts (loc_exprId ls) (loc_predId ls) src)) ps"
  by (induction ps arbitrary: kvs) (auto simp: bindR_Inr_iff dest: eval_src_value)

lemma eval_params_value:
  assumes "eval_params opts ls ps = Inr params" and "distinct (map fst ps)"
  shows "params = map (\<lambda>(k, src). (k, param_value opts (loc_exprId ls) (loc_predId ls) src)) ps"
proof -
  from assms(1) obtain kvs where kvs: "mapR (\<lambda>(k, src). bindR (eval_src opts ls src) (\<lambda>v. Inr (k, v))) ps = Inr kvs"
    and "params = object_literal kvs" by (auto simp: eval_params_def bindR_Inr_iff)
  moreover from mapR_eval_params [OF kvs] assms(2) have "distinct (map fst kvs)"
    by (simp add: comp_def case_prod_unfold)
  ultimately show ?thesis using mapR_eval_params [OF kvs] by (simp add: object_literal_distinct)
qed

text \<open>The checks that a completed body has passed.\<close>

fun passes :: "jsval \<Rightarrow> stmt \<Rightarrow> bool" where
  "passes opts (NotUndefined x) \<longleftrightarrow> getp opts x \<noteq> JUndef"
| "passes opts (KeyTokenCheck x) \<longleftrightarrow> (\<exists>n. assertKeyToken (getp opts x) n = Inr ())"
| "passes opts (IntegerCheck x) \<longleftrightarrow> (\<exists>n. ti_assertInteger (getp opts x) n = Inr ())"
| "passes opts (CandidateSetCheck x) \<longleftrightarrow> (\<exists>n. assertCandidateSet (getp opts x) n = Inr ())"
| "passes opts (EndpointIdCheck x) \<longleftrightarrow> (\<exists>n. ti_assertEndpointId (getp opts x) n = Inr ())"
| "passes opts _ \<longleftrightarrow> True"

lemma guarded_Inr_iff: "guarded r0 k ctx = (Inr x, ctx') \<longleftrightarrow> (\<exists>y. r0 = Inr y \<and> k y ctx = (Inr x, ctx'))"
  by (cases r0) (auto simp: guarded_def)

lemma exec_stmt_passes: "exec_stmt m opts s ls ctx = (Inr ls', ctx') \<Longrightarrow> passes opts s"
  by (cases s) (auto simp: guarded_Inr_iff check_opt_def bindR_Inr_iff getP_Inr_iff ti_assertNotUndefined_def split: if_splits)

lemma exec_stmts_passes: "exec_stmts m opts ss ls ctx = (Inr ls', ctx') \<Longrightarrow> s \<in> set ss \<Longrightarrow> passes opts s"
proof (induction ss arbitrary: ls ctx)
  case (Cons s' ss)
  obtain r1 ctx1 where s1: "exec_stmt m opts s' ls ctx = (r1, ctx1)" by fastforce
  with Cons.prems(1) obtain ls1 where "r1 = Inr ls1" "exec_stmts m opts ss ls1 ctx1 = (Inr ls', ctx')"
    by (cases r1) (auto simp: bindP_def)
  with Cons s1 show ?case by (auto dest: exec_stmt_passes)
qed simp

lemma ti_assertInteger_iff: "ti_assertInteger v n = Inr () \<longleftrightarrow> (\<exists>x. v = JNum x \<and> is_int_num x)"
  by (cases v) (simp_all add: ti_assertInteger_def)

lemma ti_assertEndpointId_iff:
  "ti_assertEndpointId v n = Inr () \<longleftrightarrow> (\<exists>s. v = JStr s \<and> startsWith s ''ep_'' \<and> length s \<le> 64)"
  by (cases v) (simp_all add: ti_assertEndpointId_def)

lemma assertKeyToken_iff:
  "assertKeyToken v n = Inr () \<longleftrightarrow> v \<noteq> JNull \<and> typeof_js v = ''object'' \<and> (\<exists>x. getp v ''id'' = JNum x \<and> is_int_num x)"
  by (cases "getp v ''id''") (simp_all add: assertKeyToken_def)

lemma assertCandidateSet_iff:
  "assertCandidateSet v n = Inr () \<longleftrightarrow>
   v \<noteq> JNull \<and> typeof_js v = ''object'' \<and> typeof_js (getp v ''getNodeId'') = ''function''"
  by (simp add: assertCandidateSet_def)

lemmas check_iffs = assertKeyToken_iff ti_assertInteger_iff assertCandidateSet_iff ti_assertEndpointId_iff

lemma passes_arg_ok:
  assumes "\<And>s. s \<in> set (prog_body (program_of task m)) \<Longrightarrow> passes opts s"
    and "p \<in> set (te_params task)" "tp_required p"
  shows "arg_ok m p (getp opts (tsName p))"
proof (cases "m \<in> set SOURCE_TASK_METHODS")
  case True
  then have "set (source_checks p) \<subseteq> set (prog_body (program_of task m))"
    using assms(2) by (auto simp: program_of_def source_program_def)
  with assms(1) have "list_all (passes opts) (source_checks p)" by (auto simp: list_all_iff)
  with True assms(3) show ?thesis
    by (auto simp: arg_ok_def source_checks_def check_iffs split: if_splits)
next
  case False
  then have "set (transform_checks p) \<subseteq> set (prog_body (program_of task m))"
    using assms(2) by (auto simp: program_of_def transform_program_def)
  with assms(1) have "list_all (passes opts) (transform_checks p)" by (auto simp: list_all_iff)
  with False assms(3) show ?thesis
    by (auto simp: arg_ok_def transform_checks_def check_iffs split: if_splits)
qed




end
