(* ===== verification/GenTsCorrect.thy ===== *)
theory GenTsCorrect
  imports GenTs GenMonaco TaskPrograms AstExtractor
begin

text \<open>
  Theorems on the generated TypeScript tables: when the endpoint table can be generated at all, and
  that the tables other parts of the system use (the method lists of \<open>plan.ts\<close>, the extraction
  table of the compiler) are those the generator emits for the checked-in task registry.
\<close>

section \<open>When the endpoint table exists\<close>

definition valid_name :: "string \<Rightarrow> bool" where
  "valid_name safe \<longleftrightarrow> is_identifier safe \<and> safe \<notin> set RESERVED_IDENTIFIERS_TS"

text \<open>Sanitized names are identifiers, not reserved, and unique within each kind.\<close>

definition endpoints_nameable :: "EndpointEntry list \<Rightarrow> bool" where
  "endpoints_nameable endpoints \<longleftrightarrow>
     (\<forall>e \<in> set endpoints. valid_name (safeName (ee_name e))) \<and>
     (\<forall>kind. distinct (map (\<lambda>e. safeName (ee_name e)) (filter (\<lambda>e. ee_kind e = kind) endpoints)))"

lemma endpoint_fold:
  "(\<exists>r. foldR (endpointStep kind) (used, ls) eps = Inr r) \<longleftrightarrow>
   (\<forall>e \<in> set eps. valid_name (safeName (ee_name e)) \<and> safeName (ee_name e) \<notin> set used) \<and>
   distinct (map (\<lambda>e. safeName (ee_name e)) eps)"
proof (induction eps arbitrary: used ls)
  case (Cons e eps)
  show ?case
  proof (cases "valid_name (safeName (ee_name e)) \<and> safeName (ee_name e) \<notin> set used")
    case True
    then obtain ls' where "endpointStep kind (used, ls) e = Inr (set_add (safeName (ee_name e)) used, ls')"
      by (simp add: endpointStep_def valid_name_def Let_def)
    then have "(\<exists>r. foldR (endpointStep kind) (used, ls) (e # eps) = Inr r) \<longleftrightarrow>
        (\<exists>r. foldR (endpointStep kind) (set_add (safeName (ee_name e)) used, ls') eps = Inr r)" by simp
    then show ?thesis using True unfolding Cons.IH by (simp add: image_iff) metis
  next
    case False
    then show ?thesis by (auto simp: endpointStep_def valid_name_def Let_def)
  qed
qed simp

lemma kindLines_ok:
  "(\<exists>r. kindLines gt kind eps = Inr r) \<longleftrightarrow>
   (\<forall>e \<in> set eps. valid_name (safeName (ee_name e))) \<and> distinct (map (\<lambda>e. safeName (ee_name e)) eps)"
  using endpoint_fold [of kind "[]" "[]" "js_sort_by (\<lambda>a b. gt (ee_name a) (ee_name b)) eps"]
  by (auto simp: kindLines_def bindR_Inr_iff)

text \<open>
  The endpoint table is generated exactly for the registries whose names survive
  sanitization: \<open>generateEndpointsTs\<close> returns a text if and only if every sanitized name is an
  identifier, none is a reserved word, and no two endpoints of one kind share a sanitized name;
  otherwise it raises and nothing is generated, whatever the collation of names.
\<close>

theorem generateEndpointsTs_succeeds:
  "(\<exists>text. generateEndpointsTs gt endpoints digest = Inr text) \<longleftrightarrow> endpoints_nameable endpoints"
proof -
  let ?group = "\<lambda>kind. case map_of (group_by ee_kind endpoints) kind of Some eps \<Rightarrow> eps | None \<Rightarrow> []"
  have group: "?group kind = filter (\<lambda>e. ee_kind e = kind) endpoints" for kind
    by (auto simp: map_of_group_by filter_empty_conv)
  have kinds: "set (endpointKinds endpoints) = ee_kind ` set endpoints"
    using keys_group_by [of ee_kind endpoints] by (simp add: endpointKinds_def)
  have "(\<exists>text. generateEndpointsTs gt endpoints digest = Inr text) \<longleftrightarrow>
      (\<exists>bs. mapR (\<lambda>kind. kindLines gt kind (?group kind)) (endpointKinds endpoints) = Inr bs)"
    by (auto simp: generateEndpointsTs_def Let_def bindR_Inr_iff)
  also have "\<dots> \<longleftrightarrow> (\<forall>kind \<in> ee_kind ` set endpoints. (\<forall>e \<in> set (?group kind). valid_name (safeName (ee_name e))) \<and>
      distinct (map (\<lambda>e. safeName (ee_name e)) (?group kind)))"
    by (simp only: mapR_ok kindLines_ok kinds)
  also have "\<dots> \<longleftrightarrow> endpoints_nameable endpoints"
  proof -
    have empty: "filter (\<lambda>e. ee_kind e = kind) endpoints = []" if "kind \<notin> ee_kind ` set endpoints" for kind
      using that by (auto simp: filter_empty_conv)
    have "(\<forall>kind. distinct (map (\<lambda>e. safeName (ee_name e)) (filter (\<lambda>e. ee_kind e = kind) endpoints))) \<longleftrightarrow>
        (\<forall>kind \<in> ee_kind ` set endpoints. distinct (map (\<lambda>e. safeName (ee_name e)) (filter (\<lambda>e. ee_kind e = kind) endpoints)))"
      using empty by (metis distinct.simps(1) list.simps(8))
    then show ?thesis unfolding group endpoints_nameable_def by auto
  qed
  finally show ?thesis .
qed

section \<open>The tables of the checked-in registry\<close>

text \<open>The row of the extraction table that a task gives rise to, as the text \<open>extractionLines\<close> shows it.\<close>

definition extraction_row :: "TaskEntry \<Rightarrow> (string \<times> extraction_info) list" where
  "extraction_row task =
     (let e = extractionProp ''expr_id'' task; p = extractionProp ''pred_id'' task
      in if e = None \<and> p = None then [] else [(te_op task, \<lparr>exprProp = e, predProp = p\<rparr>)])"

definition row_text :: "string \<times> extraction_info \<Rightarrow> string" where
  "row_text row = ''  '' @ dq (fst row) @ '': { '' @
     join_with '', '' (prop_text ''exprProp'' (exprProp (snd row)) @ prop_text ''predProp'' (predProp (snd row))) @ '' },''"

lemma extractionProp_cases:
  assumes "\<And>p. tp_type p = type \<Longrightarrow> tsName p = s"
  shows "extractionProp type task = None \<or> extractionProp type task = Some s"
proof -
  have "foldl (\<lambda>prop param. if tp_type param = type then Some (tsName param) else prop) acc ps \<in> {acc, Some s}" for acc ps
    using assms by (induction ps arbitrary: acc) auto
  from this [of None] show ?thesis by (auto simp: extractionProp_def)
qed

lemma exprProp_cases: "extractionProp ''expr_id'' task = None \<or> extractionProp ''expr_id'' task = Some ''expr''"
  by (rule extractionProp_cases) (simp add: tsName_def friendlyParamName_def)

lemma predProp_cases: "extractionProp ''pred_id'' task = None \<or> extractionProp ''pred_id'' task = Some ''pred''"
  by (rule extractionProp_cases) (simp add: tsName_def friendlyParamName_def)

text \<open>The lines of the extraction table print its rows, for every task.\<close>

lemma extractionLines_rows: "extractionLines task = map row_text (extraction_row task)"
  using exprProp_cases [of task] predProp_cases [of task]
  by (auto simp: extractionLines_def extraction_row_def row_text_def prop_text_def dq_def Let_def)

definition named_toml :: "(TaskEntry \<times> string) list" where
  "named_toml = zip (tr_tasks tasks_toml) (map fst task_programs)"

lemma named_tasks_toml: "named_tasks (tr_tasks tasks_toml) = Inr named_toml"
  by code_simp

lemma tasksByNs_toml: "tasksByNs named_toml = [(''test'', [''busyCpu'', ''sleep''])]"
  by code_simp

text \<open>
  The tables that the plan API and the compiler read are those the generator emits for
  the checked-in registry: the method lists \<open>GENERATED_TASKS\<close>, in every collation, and the extraction
  table, as printed line by line and as the function that the AST extractor consults.
\<close>

theorem generated_tables_agree:
  "named_tasks (tr_tasks tasks_toml) = Inr named_toml \<and>
   generated_tasks gt named_toml = GENERATED_TASKS \<and>
   concat (map extractionLines (tr_tasks tasks_toml)) = map row_text (concat (map extraction_row (tr_tasks tasks_toml))) \<and>
   TASK_EXTRACTION_INFO = map_of (concat (map extraction_row (tr_tasks tasks_toml)))"
proof (intro conjI)
  show "generated_tasks gt named_toml = GENERATED_TASKS"
  proof -
    have "map snd (sourceTasks named_toml) = [''viewer'', ''fixedSource'']" by code_simp
    moreover have "coreTransform named_toml =
        [''concat'', ''filter'', ''follow'', ''media'', ''recommendation'', ''sort'', ''take'', ''vm'']" by code_simp
    ultimately show ?thesis by (simp add: generated_tasks_def tasksByNs_toml GENERATED_TASKS_def)
  qed
  have "concat (map extraction_row (tr_tasks tasks_toml)) =
      [(''core::filter'', \<lparr>exprProp = None, predProp = Some ''pred''\<rparr>), (''core::vm'', \<lparr>exprProp = Some ''expr'', predProp = None\<rparr>)]"
    by code_simp
  then show "TASK_EXTRACTION_INFO = map_of (concat (map extraction_row (tr_tasks tasks_toml)))"
    by (simp add: fun_eq_iff TASK_EXTRACTION_INFO_def)
qed (simp_all add: named_tasks_toml extractionLines_rows [abs_def] map_concat comp_def)


text \<open>The editor declarations print endpoint names that the runtime table sanitizes.\<close>

lemma endpoint_names_differ:
  "safeName ''redis-default'' = ''redis_default''" "valid_name ''redis_default''"
  "ee_name ep = ''redis-default'' \<Longrightarrow>
     epBlock [] ''EndpointId'' (kind, [ep]) = [''readonly '' @ kind @ '': {'', ''  readonly redis-default: EndpointId;'', ''};'']"
  by (code_simp, code_simp, simp add: epBlock_def)

end
