(* ===== verification/RepoRoot.thy ===== *)
theory RepoRoot
  imports Cli "HOL-Library.While_Combinator"
begin

text \<open>
  The \<open>while\<close> loop of \<open>findRepoRoot\<close> (\<open>dsl/packages/compiler/src/cli.ts\<close>) on the path strings it really
  works with: \<open>dirname\<close> of \<open>node:path\<close> on POSIX, and the loop as \<open>while_option\<close>, where a loop that does
  not end is \<open>None\<close>. \<open>Cli\<close> has the same walk on lists of segments; the two agree.
\<close>

section \<open>dirname\<close>

text \<open>
  The backward scan for the last slash before the last segment; \<open>matchedSlash\<close> is true as long as
  only trailing slashes were seen. The character at index 0 is not examined.
\<close>

fun find_end :: "string \<Rightarrow> nat \<Rightarrow> bool \<Rightarrow> nat option" where
  "find_end path 0 matchedSlash = None"
| "find_end path (Suc i) matchedSlash =
     (if path ! Suc i = CHR ''/'' then (if matchedSlash then find_end path i True else Some (Suc i))
      else find_end path i False)"

definition dirname :: "string \<Rightarrow> string" where
  "dirname path =
     (if length path = 0 then ''.''
      else
        let hasRoot = (hd path = CHR ''/'') in
        case find_end path (length path - 1) True of
          None \<Rightarrow> if hasRoot then ''/'' else ''.''
        | Some e \<Rightarrow> if hasRoot \<and> e = 1 then ''//'' else take e path)"

section \<open>The loop\<close>

text \<open>\<open>access dir\<close>: \<open>pnpm-workspace.yaml\<close> can be accessed in \<open>dir\<close>.\<close>

definition repo_root_loop :: "(string \<Rightarrow> bool) \<Rightarrow> string \<Rightarrow> string option" where
  "repo_root_loop access dir = while_option (\<lambda>dir. dir \<noteq> ''/'' \<and> \<not> access dir) dirname dir"

definition find_repo_root :: "(string \<Rightarrow> bool) \<Rightarrow> string \<Rightarrow> string \<Rightarrow> string option" where
  "find_repo_root access scriptDir cwd =
     map_option (\<lambda>dir. if dir \<noteq> ''/'' then dir else cwd) (repo_root_loop access scriptDir)"

section \<open>The directory gets shorter\<close>

definition absolute :: "string \<Rightarrow> bool" where
  "absolute path \<longleftrightarrow> path \<noteq> [] \<and> hd path = CHR ''/''"

lemma find_end_bounds: "find_end path i m = Some e \<Longrightarrow> 0 < e \<and> e \<le> i"
  by (induction path i m rule: find_end.induct) (fastforce split: if_splits)+

lemma find_end_1:
  "find_end path i m = Some e \<Longrightarrow> i < length path \<Longrightarrow> m \<Longrightarrow> Suc e < length path"
proof (induction path i m rule: find_end.induct)
  case (2 path i m)
  show ?case
  proof (cases "path ! Suc i = CHR ''/''")
    case True
    with 2 show ?thesis by simp
  next
    case False
    with 2(3) have "find_end path i False = Some e" by simp
    with find_end_bounds 2(4) show ?thesis by fastforce
  qed
qed simp

lemma dirname_absolute:
  assumes "absolute path" and "path \<noteq> ''/''"
  shows "absolute (dirname path) \<and> length (dirname path) < length path"
proof -
  obtain c cs where path: "path = c # cs" using assms(1) by (cases path) (auto simp: absolute_def)
  with assms have c: "c = CHR ''/''" and cs: "cs \<noteq> []" by (auto simp: absolute_def)
  show ?thesis
  proof (cases "find_end path (length path - 1) True")
    case None
    with path c cs show ?thesis by (simp add: dirname_def absolute_def)
  next
    case (Some e)
    with find_end_bounds [OF Some] find_end_1 [OF Some] path c show ?thesis
      by (cases e) (auto simp: dirname_def absolute_def)
  qed
qed

section \<open>Agreement with the walk over segments\<close>

definition segments :: "string list \<Rightarrow> bool" where
  "segments segs \<longleftrightarrow> (\<forall>s \<in> set segs. s \<noteq> [] \<and> CHR ''/'' \<notin> set s)"

lemma find_end_last:
  assumes "CHR ''/'' \<notin> set s" and "j \<le> length s" and "j = 0 \<Longrightarrow> \<not> m"
  shows "find_end (P @ CHR ''/'' # s) (length P + j) m = (if P = [] then None else Some (length P))"
  using assms
proof (induction j arbitrary: m)
  case 0
  then show ?case by (cases P) (simp_all add: nth_append)
next
  case (Suc j)
  then have "s ! j \<noteq> CHR ''/''" by (metis Suc_le_eq nth_mem)
  with Suc show ?case by (simp add: nth_append)
qed

lemma slash_append: "(@) ''/'' = (#) CHR ''/''"
  by (rule ext) simp

lemma path_of_snoc: "path_of (segs @ [s]) = concat (map ((#) CHR ''/'') segs) @ CHR ''/'' # s"
  by (simp add: path_of_def slash_append)

lemma dirname_path_of:
  assumes "segments (segs @ [s])"
  shows "dirname (path_of (segs @ [s])) = path_of segs"
proof -
  let ?P = "concat (map ((#) CHR ''/'') segs)"
  from assms have s: "s \<noteq> []" "CHR ''/'' \<notin> set s" by (auto simp: segments_def)
  have len: "length (path_of (segs @ [s])) - 1 = length ?P + length s" by (simp add: path_of_snoc)
  have fe: "find_end (path_of (segs @ [s])) (length (path_of (segs @ [s])) - 1) True = (if ?P = [] then None else Some (length ?P))"
    unfolding len unfolding path_of_snoc using s by (intro find_end_last) auto
  show ?thesis
  proof (cases segs)
    case Nil
    with fe show ?thesis by (simp add: dirname_def path_of_def)
  next
    case (Cons t ts)
    with assms have "t \<noteq> []" by (auto simp: segments_def)
    with Cons have "length ?P \<noteq> 1" "?P \<noteq> []" by auto
    with fe Cons show ?thesis by (simp add: dirname_def path_of_snoc) (simp add: path_of_def slash_append)
  qed
qed

lemma path_of_root: "segments segs \<Longrightarrow> path_of segs = ''/'' \<longleftrightarrow> segs = []"
  by (cases segs) (auto simp: path_of_def segments_def)

lemma loop_segments:
  "segments segs \<Longrightarrow> repo_root_loop access (path_of segs) = Some (path_of (findRepoRoot (\<lambda>d. access (path_of d)) segs []))"
proof (induction segs rule: rev_induct)
  case Nil
  then show ?case unfolding repo_root_loop_def
    by (subst while_option_unfold) (simp add: path_of_def findRepoRoot.simps)
next
  case (snoc s segs)
  have ne: "path_of (segs @ [s]) \<noteq> ''/''" by (simp add: path_of_root [OF snoc.prems])
  from snoc have IH: "repo_root_loop access (path_of segs) = Some (path_of (findRepoRoot (\<lambda>d. access (path_of d)) segs []))"
    by (simp add: segments_def)
  show ?case
    using ne IH dirname_path_of [OF snoc.prems] unfolding repo_root_loop_def
    by (subst while_option_unfold) (simp add: findRepoRoot.simps [of _ "segs @ [s]"])
qed

text \<open>The fallback is taken exactly when the walk reaches the root.\<close>

lemma findRepoRoot_fallback:
  "findRepoRoot access segs cwd = (if findRepoRoot access segs [] = [] then cwd else findRepoRoot access segs [])"
proof (induction segs rule: rev_induct)
  case (snoc s segs)
  then show ?case by (simp add: findRepoRoot.simps [of _ "segs @ [s]"])
qed (simp add: findRepoRoot.simps)

lemma segments_findRepoRoot: "segments segs \<Longrightarrow> segments (findRepoRoot access segs [])"
proof (induction segs rule: rev_induct)
  case (snoc s segs)
  from snoc.prems have "segments segs" by (simp add: segments_def)
  with snoc show ?case by (simp add: findRepoRoot.simps [of _ "segs @ [s]"])
qed (simp add: findRepoRoot.simps segments_def)

section \<open>Property\<close>

lemma while_option_fixpoint: "b s \<Longrightarrow> c s = s \<Longrightarrow> while_option b c s = None"
proof -
  assume "b s" "c s = s"
  then have "(c ^^ k) s = s" for k by (induction k) simp_all
  with \<open>b s\<close> show ?thesis by (simp add: while_option_def)
qed

text \<open>
  Property C36. The search for the repository root ends: from every absolute directory, the loop over
  \<open>dirname\<close> stops, at \<open>/\<close> or at a directory that holds the workspace file, and the result is that of
  the walk over path segments. (The guard compares with \<open>/\<close> only: from a relative directory without
  the file on the way, \<open>dirname\<close> reaches \<open>.\<close> and stays there, so the loop does not end.)
\<close>

theorem find_repo_root_terminates:
  assumes "absolute dir"
  shows "(\<exists>root. repo_root_loop access dir = Some root \<and> (root = ''/'' \<or> access root)) \<and>
    (\<exists>result. find_repo_root access dir cwd = Some result \<and> (result = cwd \<or> access result)) \<and>
    (\<forall>segs. segments segs \<longrightarrow> find_repo_root access (path_of segs) (path_of cwd_segs) =
       Some (path_of (findRepoRoot (\<lambda>d. access (path_of d)) segs cwd_segs))) \<and>
    (\<not> access ''.'' \<longrightarrow> find_repo_root access ''.'' cwd = None)"
proof (intro conjI allI impI)
  let ?b = "\<lambda>dir. dir \<noteq> ''/'' \<and> \<not> access dir"
  have "\<exists>t. while_option ?b dirname dir = Some t"
    by (rule measure_while_option_Some [where P = absolute and f = length]) (use dirname_absolute assms in blast)+
  then obtain root where root: "while_option ?b dirname dir = Some root" by blast
  from while_option_stop [OF this] have stop: "root = ''/'' \<or> access root" by auto
  with root show "\<exists>root. repo_root_loop access dir = Some root \<and> (root = ''/'' \<or> access root)"
    by (auto simp: repo_root_loop_def)
  from root stop show "\<exists>result. find_repo_root access dir cwd = Some result \<and> (result = cwd \<or> access result)"
    by (auto simp: find_repo_root_def repo_root_loop_def)
  fix segs assume "segments segs"
  then show "find_repo_root access (path_of segs) (path_of cwd_segs) =
       Some (path_of (findRepoRoot (\<lambda>d. access (path_of d)) segs cwd_segs))"
    using path_of_root [OF segments_findRepoRoot] findRepoRoot_fallback [of "\<lambda>d. access (path_of d)" segs cwd_segs]
    by (simp add: find_repo_root_def loop_segments)
next
  assume "\<not> access ''.''"
  moreover have "dirname ''.'' = ''.''" by code_simp
  ultimately show "find_repo_root access ''.'' cwd = None"
    by (simp add: find_repo_root_def repo_root_loop_def while_option_fixpoint)
qed

theorem find_repo_root_terminates_witness:
  "\<exists>result. find_repo_root (\<lambda>d. d = ''/repo'') ''/repo/dsl/dist'' ''/tmp'' = Some result \<and> (result = ''/tmp'' \<or> result = ''/repo'')"
proof -
  have "absolute ''/repo/dsl/dist''" by code_simp
  from find_repo_root_terminates [OF this, of "\<lambda>d. d = ''/repo''" "''/tmp''"] show ?thesis by blast
qed

end
