(* ===== verification/VisShare.thy ===== *)
theory VisShare
  imports JsNumber
begin

text \<open>
  The shared links of the plan editor (\<open>tools/visualizer/src/components/EditorPanel.tsx\<close>): a plan's text
  as UTF-8 bytes in base64 in the fragment of a URL, and back. \<open>TextEncoder\<close>, \<open>btoa\<close>, \<open>atob\<close>,
  \<open>encodeURIComponent\<close> and \<open>URLSearchParams\<close> are those of the web platform. Text has code units below
  256, as everywhere in this library; what a decoder yields beyond that (or for malformed bytes)
  is shown as question marks.
\<close>

section \<open>UTF-8\<close>

definition code_of :: "char \<Rightarrow> nat" where
  "code_of c = of_char c"

definition utf8_char :: "char \<Rightarrow> nat list" where
  "utf8_char c = (let n = code_of c in if n < 128 then [n] else [192 + n div 64, 128 + n mod 64])"

definition utf8_encode :: "string \<Rightarrow> nat list" where
  "utf8_encode s = concat (map utf8_char s)"

fun utf8_decode :: "nat list \<Rightarrow> string" where
  "utf8_decode [] = []"
| "utf8_decode (b # bs) =
     (if b < 128 then char_of b # utf8_decode bs
      else case bs of
        b' # bs' \<Rightarrow>
          if (b = 194 \<or> b = 195) \<and> 128 \<le> b' \<and> b' < 192
          then char_of ((b - 192) * 64 + (b' - 128)) # utf8_decode bs'
          else CHR ''?'' # utf8_decode bs
      | [] \<Rightarrow> [CHR ''?''])"

section \<open>Base64\<close>

definition b64_alphabet :: string where
  "b64_alphabet = ''ABCDEFGHIJKLMNOPQRSTUVWXYZabcdefghijklmnopqrstuvwxyz0123456789+/''"

definition b64_char :: "nat \<Rightarrow> char" where
  "b64_char n = b64_alphabet ! n"

definition b64_val :: "char \<Rightarrow> nat option" where
  "b64_val c = map_of (zip b64_alphabet [0..<64]) c"

fun to_sextets :: "nat list \<Rightarrow> nat list" where
  "to_sextets [] = []"
| "to_sextets [a] = [a div 4, (a mod 4) * 16]"
| "to_sextets [a, b] = [a div 4, (a mod 4) * 16 + b div 16, (b mod 16) * 4]"
| "to_sextets (a # b # c # r) =
     a div 4 # ((a mod 4) * 16 + b div 16) # ((b mod 16) * 4 + c div 64) # c mod 64 # to_sextets r"

fun from_sextets :: "nat list \<Rightarrow> nat list" where
  "from_sextets (p # q # r # s # rest) =
     (p * 4 + q div 16) # ((q mod 16) * 16 + r div 4) # ((r mod 4) * 64 + s) # from_sextets rest"
| "from_sextets [p, q, r] = [p * 4 + q div 16, (q mod 16) * 16 + r div 4]"
| "from_sextets [p, q] = [p * 4 + q div 16]"
| "from_sextets _ = []"

text \<open>\<open>btoa(binary)\<close>, the binary string given by its character codes.\<close>

definition btoa :: "nat list \<Rightarrow> string" where
  "btoa bs = map b64_char (to_sextets bs) @ replicate ((3 - length bs mod 3) mod 3) CHR ''=''"

text \<open>\<open>atob(data)\<close>: white space is dropped, padding may be missing; \<open>None\<close> is the exception.\<close>

definition strip_pad :: "string \<Rightarrow> string" where
  "strip_pad s =
     (if endsWith s ''=='' then take (length s - 2) s else if endsWith s ''='' then take (length s - 1) s else s)"

definition is_b64_ws :: "char \<Rightarrow> bool" where
  "is_b64_ws c \<longleftrightarrow> c \<in> {CHR '' '', CHR 0x09, CHR 0x0A, CHR 0x0C, CHR 0x0D}"

definition atob :: "string \<Rightarrow> nat list option" where
  "atob s0 =
     (let s1 = filter (\<lambda>c. \<not> is_b64_ws c) s0;
          s2 = (if length s1 mod 4 = 0 then strip_pad s1 else s1)
      in if length s2 mod 4 = 1 \<or> list_ex (\<lambda>c. b64_val c = None) s2 then None
         else Some (from_sextets (map (\<lambda>c. the (b64_val c)) s2)))"

section \<open>Percent encoding\<close>

definition uri_hex :: "nat \<Rightarrow> char" where
  "uri_hex n = ''0123456789ABCDEF'' ! n"

definition percent :: "nat \<Rightarrow> string" where
  "percent b = [CHR ''%'', uri_hex (b div 16), uri_hex (b mod 16)]"

definition uri_unreserved :: string where
  "uri_unreserved = ''ABCDEFGHIJKLMNOPQRSTUVWXYZabcdefghijklmnopqrstuvwxyz0123456789-_.!~*()'' @ [CHR 0x27]"

definition encodeURIComponent :: "string \<Rightarrow> string" where
  "encodeURIComponent s = concat (map (\<lambda>c. if c \<in> set uri_unreserved then [c] else concat (map percent (utf8_char c))) s)"

text \<open>
  \<open>decodeURIComponent\<close>: \<open>None\<close> is the \<open>URIError\<close> of a malformed escape. Escapes of code points above 255
  are not represented and count as malformed.
\<close>

fun decodeURIComponent :: "string \<Rightarrow> string option" where
  "decodeURIComponent (c # h # l # cs) =
     (if c \<noteq> CHR ''%'' then map_option ((#) c) (decodeURIComponent (h # l # cs))
      else case (hex_val h, hex_val l) of
        (Some x, Some y) \<Rightarrow>
          let b = x * 16 + y in
          if b < 128 then map_option ((#) (char_of b)) (decodeURIComponent cs)
          else (case cs of
             p # h' # l' # cs' \<Rightarrow>
               (case (hex_val h', hex_val l') of
                  (Some x', Some y') \<Rightarrow>
                    let b' = x' * 16 + y' in
                    if p = CHR ''%'' \<and> (b = 194 \<or> b = 195) \<and> 128 \<le> b' \<and> b' < 192
                    then map_option ((#) (char_of ((b - 192) * 64 + (b' - 128)))) (decodeURIComponent cs')
                    else None
                | _ \<Rightarrow> None)
           | _ \<Rightarrow> None)
      | _ \<Rightarrow> None)"
| "decodeURIComponent s = (if CHR ''%'' \<in> set s then None else Some s)"

text \<open>The decoding of \<open>URLSearchParams\<close>: \<open>+\<close> is a blank, a malformed escape stands for itself.\<close>

fun form_bytes :: "string \<Rightarrow> nat list" where
  "form_bytes (c # h # l # cs) =
     (if c = CHR ''%'' then
        (case (hex_val h, hex_val l) of
           (Some x, Some y) \<Rightarrow> (x * 16 + y) # form_bytes cs
         | _ \<Rightarrow> 37 # form_bytes (h # l # cs))
      else (if c = CHR ''+'' then [32] else utf8_char c) @ form_bytes (h # l # cs))"
| "form_bytes (c # cs) = (if c = CHR ''+'' then [32] else utf8_char c) @ form_bytes cs"
| "form_bytes [] = []"

definition form_decode :: "string \<Rightarrow> string" where
  "form_decode s = utf8_decode (form_bytes s)"

fun split_on :: "char \<Rightarrow> string \<Rightarrow> string list" where
  "split_on d [] = [[]]"
| "split_on d (c # cs) = (if c = d then [] # split_on d cs else (case split_on d cs of w # ws \<Rightarrow> (c # w) # ws | [] \<Rightarrow> [[c]]))"

text \<open>\<open>new URLSearchParams(text).get(name)\<close>; a leading question mark is dropped.\<close>

definition search_get :: "string \<Rightarrow> string \<Rightarrow> string option" where
  "search_get text name =
     map_of (map (\<lambda>p. (form_decode (takeWhile (\<lambda>c. c \<noteq> CHR ''='') p), form_decode (tl (dropWhile (\<lambda>c. c \<noteq> CHR ''='') p))))
       (filter (\<lambda>p. p \<noteq> []) (split_on CHR ''&'' (if startsWith text ''?'' then tl text else text)))) name"

section \<open>encodeForUrl and decodeFromUrl\<close>

text \<open>
  The loop that builds the binary string in chunks; \<open>String.fromCharCode\<close> of a chunk is the chunk.
\<close>

definition chunkSize :: nat where
  "chunkSize = 8192"

function binary_loop :: "nat list \<Rightarrow> nat \<Rightarrow> nat list \<Rightarrow> nat list" where
  "binary_loop bytes i binary =
     (if i < length bytes then binary_loop bytes (i + chunkSize) (binary @ take chunkSize (drop i bytes)) else binary)"
  by pat_completeness auto
termination
  by (relation "measure (\<lambda>(bytes, i, binary). length bytes - i)") (auto simp: chunkSize_def)

declare binary_loop.simps [simp del]

definition encodeForUrl :: "string \<Rightarrow> string" where
  "encodeForUrl code = encodeURIComponent (btoa (binary_loop (utf8_encode code) 0 []))"

text \<open>\<open>None\<close> is \<open>null\<close>.\<close>

definition decodeFromUrl :: "string \<Rightarrow> string option" where
  "decodeFromUrl encoded =
     (case decodeURIComponent encoded of
        None \<Rightarrow> None
      | Some base64 \<Rightarrow> map_option utf8_decode (atob base64))"


section \<open>Round trips\<close>

lemma code_of_less: "code_of c < 256"
  unfolding code_of_def by (metis char_of_mod_256 of_char_mod_256 of_char_of mod_less_divisor zero_less_numeral)

lemma char_of_code: "char_of (code_of c) = c"
  by (simp add: code_of_def)

lemma utf8_decode_char: "utf8_decode (utf8_char c @ bs) = c # utf8_decode bs"
proof (cases "code_of c < 128")
  case True
  then show ?thesis by (simp add: utf8_char_def char_of_code)
next
  case False
  let ?n = "code_of c"
  from False code_of_less [of c] have "?n div 64 = 2 \<or> ?n div 64 = 3" by linarith
  then have "192 + ?n div 64 = 194 \<or> 192 + ?n div 64 = 195" by linarith
  moreover have "(192 + ?n div 64 - 192) * 64 + (128 + ?n mod 64 - 128) = ?n" by simp
  ultimately show ?thesis using False by (simp add: utf8_char_def Let_def char_of_code)
qed

lemma utf8_roundtrip: "utf8_decode (utf8_encode s) = s"
  by (induction s) (simp_all add: utf8_encode_def utf8_decode_char)

lemma utf8_bytes: "b \<in> set (utf8_encode s) \<Longrightarrow> b < 256"
proof -
  have "b < 256" if "b \<in> set (utf8_char c)" for c
    using that code_of_less [of c] by (auto simp: utf8_char_def Let_def split: if_splits)
  then show "b \<in> set (utf8_encode s) \<Longrightarrow> b < 256" by (auto simp: utf8_encode_def)
qed

lemma binary_loop_append: "binary_loop bytes i binary = binary @ drop i bytes"
proof (induction bytes i binary rule: binary_loop.induct)
  case (1 bytes i binary)
  have "take chunkSize (drop i bytes) @ drop (i + chunkSize) bytes = drop i bytes"
    by (metis append_take_drop_id drop_drop add.commute)
  with 1 show ?case by (subst binary_loop.simps) simp
qed

lemma sextets_less: "\<forall>b \<in> set bs. b < 256 \<Longrightarrow> \<forall>n \<in> set (to_sextets bs). n < 64"
  by (induction bs rule: to_sextets.induct) auto

lemma sextets_roundtrip: "\<forall>b \<in> set bs. b < 256 \<Longrightarrow> from_sextets (to_sextets bs) = bs"
proof (induction bs rule: to_sextets.induct)
  case (4 a b c r)
  then have "b div 16 < 16" and "c div 64 < 4" by auto
  then have "a div 4 * 4 + (a mod 4 * 16 + b div 16) div 16 = a" by simp
  moreover have "(a mod 4 * 16 + b div 16) mod 16 * 16 + (b mod 16 * 4 + c div 64) div 4 = b"
    using \<open>b div 16 < 16\<close> \<open>c div 64 < 4\<close> by simp
  moreover have "(b mod 16 * 4 + c div 64) mod 4 * 64 + c mod 64 = c"
    using \<open>c div 64 < 4\<close> by simp
  ultimately show ?case using 4 by simp
next
  case (3 a b)
  then have "b div 16 < 16" by auto
  then show ?case by simp
qed simp_all

lemma length_sextets: "length (to_sextets bs) + (3 - length bs mod 3) mod 3 = 4 * ((length bs + 2) div 3)"
proof (induction bs rule: to_sextets.induct)
  case (4 a b c r)
  have "length (a # b # c # r) mod 3 = length r mod 3" and "(length (a # b # c # r) + 2) div 3 = Suc ((length r + 2) div 3)"
    by simp_all
  with 4 show ?case by simp
qed simp_all

lemma b64_val_char: "n < 64 \<Longrightarrow> b64_val (b64_char n) = Some n"
proof -
  have "list_all (\<lambda>n. b64_val (b64_char n) = Some n) [0..<64]" by code_simp
  then show "n < 64 \<Longrightarrow> b64_val (b64_char n) = Some n" by (auto simp: list_all_iff)
qed

lemma b64_char_mem: "n < 64 \<Longrightarrow> b64_char n \<in> set b64_alphabet"
proof -
  have "length b64_alphabet = 64" by code_simp
  then show "n < 64 \<Longrightarrow> b64_char n \<in> set b64_alphabet" by (simp add: b64_char_def)
qed

text \<open>The characters of a base64 text.\<close>

definition b64_text :: "string \<Rightarrow> bool" where
  "b64_text s \<longleftrightarrow> set s \<subseteq> insert (CHR ''='') (set b64_alphabet)"

lemma b64_textD:
  assumes "b64_text s" and "c \<in> set s"
  shows "\<not> is_b64_ws c" and "c \<noteq> CHR ''%''" and "c \<noteq> CHR ''&''" and "code_of c < 128"
proof -
  have "list_all (\<lambda>c. \<not> is_b64_ws c \<and> c \<noteq> CHR ''%'' \<and> c \<noteq> CHR ''&'' \<and> code_of c < 128) (CHR ''='' # b64_alphabet)"
    by code_simp
  with assms show "\<not> is_b64_ws c" and "c \<noteq> CHR ''%''" and "c \<noteq> CHR ''&''" and "code_of c < 128"
    by (auto simp: list_all_iff b64_text_def)
qed

lemma b64_text_btoa: "\<forall>b \<in> set bs. b < 256 \<Longrightarrow> b64_text (btoa bs)"
  using sextets_less [of bs] b64_char_mem by (auto simp: btoa_def b64_text_def)

lemma pad_not_b64: "\<forall>n \<in> set ns. n < 64 \<Longrightarrow> \<not> endsWith (map b64_char ns) ''=''"
proof -
  assume ns: "\<forall>n \<in> set ns. n < 64"
  have "CHR ''='' \<notin> set b64_alphabet" by code_simp
  with ns b64_char_mem have "CHR ''='' \<notin> set (map b64_char ns)" by auto
  then show ?thesis by (metis endsWith_iff in_set_conv_decomp)
qed

lemma strip_pad_append:
  assumes "\<not> endsWith s ''=''" and "k < 3"
  shows "strip_pad (s @ replicate k CHR ''='') = s"
proof -
  from assms(2) consider "k = 0" | "k = 1" | "k = 2" by linarith
  then show ?thesis
  proof cases
    case 1
    from assms(1) have "\<not> endsWith s ''==''" by (auto simp: endsWith_iff)
    with 1 assms(1) show ?thesis by (simp add: strip_pad_def)
  next
    case 2
    from assms(1) have "\<not> endsWith (s @ ''='') ''==''" by (auto simp: endsWith_iff append_eq_append_conv2 append_eq_Cons_conv)
    moreover have "endsWith (s @ ''='') ''=''" by (auto simp: endsWith_iff)
    ultimately show ?thesis using 2 by (simp add: strip_pad_def)
  next
    case 3
    have "replicate k CHR ''='' = ''==''" by (simp add: 3 numeral_2_eq_2)
    moreover have "endsWith (s @ ''=='') ''==''" by (auto simp: endsWith_iff)
    ultimately show ?thesis by (simp add: strip_pad_def)
  qed
qed


lemma padded_mod_4:
  fixes a k q :: nat
  assumes "a + k = 4 * q" and "k < 3"
  shows "a mod 4 \<noteq> 1"
proof
  assume "a mod 4 = 1"
  then have "a = 4 * (a div 4) + 1" by (metis mult_div_mod_eq)
  with assms show False by presburger
qed

lemma atob_btoa:
  assumes bytes: "\<forall>b \<in> set bs. b < 256"
  shows "atob (btoa bs) = Some bs"
proof -
  let ?ns = "to_sextets bs" and ?k = "(3 - length bs mod 3) mod 3"
  have ns: "\<forall>n \<in> set ?ns. n < 64" by (rule sextets_less [OF bytes])
  have ws: "filter (\<lambda>c. \<not> is_b64_ws c) (btoa bs) = btoa bs"
    using b64_textD(1) [OF b64_text_btoa [OF bytes]] by simp
  have "length (btoa bs) = 4 * ((length bs + 2) div 3)" by (simp add: btoa_def length_sextets)
  then have four: "length (btoa bs) mod 4 = 0" by simp
  have strip: "strip_pad (btoa bs) = map b64_char ?ns"
    unfolding btoa_def by (rule strip_pad_append [OF pad_not_b64 [OF ns]]) simp
  have vals: "map (\<lambda>c. the (b64_val c)) (map b64_char ?ns) = ?ns"
    using ns by (simp add: b64_val_char map_idI)
  have known: "\<not> list_ex (\<lambda>c. b64_val c = None) (map b64_char ?ns)"
    using ns b64_val_char by (auto simp: list_ex_iff)
  have "length ?ns + ?k = 4 * ((length bs + 2) div 3)" and "?k < 3"
    by (rule length_sextets) simp
  then have "length ?ns mod 4 \<noteq> 1" by (rule padded_mod_4)
  with ws four strip vals known sextets_roundtrip [OF bytes] show ?thesis
    by (simp add: atob_def Let_def)
qed

lemma decodeURIComponent_plain: "CHR ''%'' \<notin> set s \<Longrightarrow> decodeURIComponent s = Some s"
  by (induction s rule: decodeURIComponent.induct) auto

text \<open>What the fragment's parser makes of an encoded text.\<close>

lemma form_bytes_plain: "c \<noteq> CHR ''%'' \<Longrightarrow> c \<noteq> CHR ''+'' \<Longrightarrow> form_bytes (c # cs) = utf8_char c @ form_bytes cs"
proof (cases cs rule: list.exhaust)
  case (Cons h r)
  assume "c \<noteq> CHR ''%''" "c \<noteq> CHR ''+''"
  then show ?thesis unfolding Cons by (cases r) (simp_all only: form_bytes.simps if_False)
qed simp

lemma hex_val_digit: "n < 16 \<Longrightarrow> hex_val (uri_hex n) = Some n"
proof -
  have "list_all (\<lambda>n. hex_val (uri_hex n) = Some n) [0..<16]" by code_simp
  then show "n < 16 \<Longrightarrow> hex_val (uri_hex n) = Some n" by (auto simp: list_all_iff)
qed

lemma form_bytes_percent: "b < 256 \<Longrightarrow> form_bytes (percent b @ cs) = b # form_bytes cs"
proof -
  assume "b < 256"
  then have "b div 16 < 16" by auto
  then show "form_bytes (percent b @ cs) = b # form_bytes cs" by (simp add: percent_def hex_val_digit)
qed

lemma form_bytes_percents: "\<forall>b \<in> set bs. b < 256 \<Longrightarrow> form_bytes (concat (map percent bs) @ cs) = bs @ form_bytes cs"
  by (induction bs) (simp_all add: form_bytes_percent)

lemma form_decode_encode: "form_decode (encodeURIComponent s) = s"
proof -
  have unreserved: "c \<noteq> CHR ''%'' \<and> c \<noteq> CHR ''+''" if "c \<in> set uri_unreserved" for c
  proof -
    have "list_all (\<lambda>c. c \<noteq> CHR ''%'' \<and> c \<noteq> CHR ''+'') uri_unreserved" by code_simp
    with that show ?thesis by (simp add: list_all_iff)
  qed
  have bytes: "\<forall>b \<in> set (utf8_char c). b < 256" for c
    using utf8_bytes [of _ "[c]"] by (simp add: utf8_encode_def)
  have "form_bytes (encodeURIComponent s) = utf8_encode s"
    by (induction s)
      (simp_all add: encodeURIComponent_def utf8_encode_def form_bytes_plain form_bytes_percents bytes unreserved)
  then show ?thesis by (simp add: form_decode_def utf8_roundtrip)
qed

lemma encoded_no_delims: "c \<in> set (encodeURIComponent s) \<Longrightarrow> c \<noteq> CHR ''&'' \<and> c \<noteq> CHR ''=''"
proof -
  have delims: "list_all (\<lambda>c. c \<noteq> CHR ''&'' \<and> c \<noteq> CHR ''='') (CHR ''%'' # ''0123456789ABCDEF'' @ uri_unreserved)" by code_simp
  have hex: "uri_hex n \<in> set ''0123456789ABCDEF''" if "n < 16" for n
    unfolding uri_hex_def by (rule nth_mem) (use that in simp)
  have "set (percent b) \<subseteq> set (CHR ''%'' # ''0123456789ABCDEF'' @ uri_unreserved)" if "b < 256" for b
  proof -
    from that have "b div 16 < 16" by auto
    with hex [of "b div 16"] hex [of "b mod 16"] show ?thesis by (auto simp: percent_def)
  qed
  moreover have "b < 256" if "b \<in> set (utf8_char c)" for b c
    using that utf8_bytes [of b "[c]"] by (simp add: utf8_encode_def)
  ultimately have "set (concat (map percent (utf8_char c))) \<subseteq> set (CHR ''%'' # ''0123456789ABCDEF'' @ uri_unreserved)" for c
    unfolding set_concat set_map by blast
  then have "set (encodeURIComponent s) \<subseteq> set (CHR ''%'' # ''0123456789ABCDEF'' @ uri_unreserved)"
    unfolding encodeURIComponent_def
    by (induction s) (simp_all only: list.map concat.simps set_append list.set empty_subsetI Un_least, auto)
  with delims show "c \<in> set (encodeURIComponent s) \<Longrightarrow> c \<noteq> CHR ''&'' \<and> c \<noteq> CHR ''=''"
    by (auto simp: list_all_iff)
qed

lemma split_on_single: "d \<notin> set s \<Longrightarrow> split_on d s = [s]"
  by (induction s) auto

lemma search_get_code: "search_get (''code='' @ encodeURIComponent s) ''code'' = Some s"
proof -
  let ?t = "''code='' @ encodeURIComponent s"
  have "CHR ''&'' \<notin> set ?t" using encoded_no_delims by auto
  then have "split_on CHR ''&'' ?t = [?t]" by (rule split_on_single)
  moreover have "form_decode ''code'' = ''code''" by code_simp
  ultimately show ?thesis
    by (simp add: search_get_def form_decode_encode startsWith_iff)
qed

lemma decode_encoded: "decodeFromUrl (btoa (utf8_encode s)) = Some s"
proof -
  have bytes: "\<forall>b \<in> set (utf8_encode s). b < 256" using utf8_bytes by blast
  have "CHR ''%'' \<notin> set (btoa (utf8_encode s))"
    using b64_textD(2) [OF b64_text_btoa [OF bytes]] by blast
  then show ?thesis
    by (simp add: decodeFromUrl_def decodeURIComponent_plain atob_btoa [OF bytes] utf8_roundtrip)
qed

lemma encodeForUrl_base64: "encodeForUrl code = encodeURIComponent (btoa (utf8_encode code))"
  by (simp add: encodeForUrl_def binary_loop_append)

lemma encodeForUrl_Nil: "encodeForUrl code = [] \<longleftrightarrow> code = []"
proof
  assume "encodeForUrl code = []"
  then have "btoa (utf8_encode code) = []"
    using form_decode_encode [of "btoa (utf8_encode code)"] by (simp add: encodeForUrl_base64 form_decode_def)
  then show "code = []"
    using decode_encoded [of code] by (simp add: decodeFromUrl_def atob_def strip_pad_def Let_def endsWith_iff)
qed (simp add: encodeForUrl_base64 utf8_encode_def btoa_def encodeURIComponent_def)

end
