(* ===== verification/JsonParse.thy ===== *)
theory JsonParse
  imports JsonText JsArith
begin

text \<open>
  \<open>JSON.parse\<close> of the language, as far as the tools rely on it, and its round trip with
  \<open>JSON.stringify\<close>. Text has code units below 256: an escape of a larger one reads as a question
  mark. A syntax error, which raises, is \<open>None\<close>. The length guards in the recursive calls always
  hold, see \<open>parse_consumes\<close>.
\<close>

section \<open>Definitions\<close>

definition json_ws :: "char \<Rightarrow> bool" where
  "json_ws c \<longleftrightarrow> c \<in> {CHR '' '', CHR 0x09, CHR 0x0A, CHR 0x0D}"

definition skip :: "string \<Rightarrow> string" where
  "skip s = dropWhile json_ws s"

text \<open>The character of a one-letter escape.\<close>

definition escape_char :: "char \<Rightarrow> char option" where
  "escape_char e =
     map_of [(CHR 0x22, CHR 0x22), (CHR 0x5C, CHR 0x5C), (CHR ''/'', CHR ''/''), (CHR ''b'', CHR 0x08),
       (CHR ''f'', CHR 0x0C), (CHR ''n'', CHR 0x0A), (CHR ''r'', CHR 0x0D), (CHR ''t'', CHR 0x09)] e"

definition hex4 :: "char \<Rightarrow> char \<Rightarrow> char \<Rightarrow> char \<Rightarrow> char option" where
  "hex4 a b c d =
     (case (hex_val a, hex_val b, hex_val c, hex_val d) of
        (Some w, Some x, Some y, Some z) \<Rightarrow>
          let n = ((w * 16 + x) * 16 + y) * 16 + z in Some (if n < 256 then char_of n else CHR ''?'')
      | _ \<Rightarrow> None)"

definition cons_char :: "char \<Rightarrow> (string \<times> string) option \<Rightarrow> (string \<times> string) option" where
  "cons_char c r = map_option (\<lambda>(s, rest). (c # s, rest)) r"

text \<open>The rest of a string after its opening quote.\<close>

fun parse_chars :: "string \<Rightarrow> (string \<times> string) option" where
  "parse_chars [] = None"
| "parse_chars (c # cs) =
     (if c = CHR 0x22 then Some ([], cs)
      else if c = CHR 0x5C then
        (case cs of
           [] \<Rightarrow> None
         | e # r \<Rightarrow>
             if e = CHR ''u'' then
               (case r of
                  h1 # h2 # h3 # h4 # r' \<Rightarrow>
                    (case hex4 h1 h2 h3 h4 of Some d \<Rightarrow> cons_char d (parse_chars r') | None \<Rightarrow> None)
                | _ \<Rightarrow> None)
             else (case escape_char e of Some d \<Rightarrow> cons_char d (parse_chars r) | None \<Rightarrow> None))
      else if (of_char c :: nat) < 32 then None
      else cons_char c (parse_chars cs))"

text \<open>
  A number. The longest run of characters a number may have is its token: no other token may follow
  a number directly.
\<close>

definition num_char :: "char \<Rightarrow> bool" where
  "num_char c \<longleftrightarrow> is_digit c \<or> c \<in> set ''+-.eE''"

definition json_number :: "string \<Rightarrow> bool" where
  "json_number tok =
     (let t = (if tok \<noteq> [] \<and> hd tok = CHR ''-'' then tl tok else tok);
          ip = takeWhile is_digit t;
          r1 = dropWhile is_digit t;
          dot = (r1 \<noteq> [] \<and> hd r1 = CHR ''.'');
          fp = (if dot then takeWhile is_digit (tl r1) else []);
          r2 = (if dot then dropWhile is_digit (tl r1) else r1)
      in ip \<noteq> [] \<and> (hd ip = CHR ''0'' \<longrightarrow> length ip = 1) \<and> (dot \<longrightarrow> fp \<noteq> []) \<and> exponent_part r2 \<noteq> None)"

definition parse_number :: "string \<Rightarrow> (jsval \<times> string) option" where
  "parse_number s =
     (let tok = takeWhile num_char s
      in if json_number tok then Some (JNum (str_decimal tok), dropWhile num_char s) else None)"

definition parse_literal :: "string \<Rightarrow> (jsval \<times> string) option" where
  "parse_literal s =
     (if startsWith s ''null'' then Some (JNull, drop 4 s)
      else if startsWith s ''true'' then Some (JBool True, drop 4 s)
      else if startsWith s ''false'' then Some (JBool False, drop 5 s)
      else parse_number s)"

text \<open>A later member of the same name replaces the value and keeps the position.\<close>

function parse_value :: "string \<Rightarrow> (jsval \<times> string) option"
  and parse_elems :: "string \<Rightarrow> (jsval list \<times> string) option"
  and parse_members :: "(string \<times> jsval) list \<Rightarrow> string \<Rightarrow> ((string \<times> jsval) list \<times> string) option" where
  "parse_value s =
     (case skip s of
        [] \<Rightarrow> None
      | c # r \<Rightarrow>
          if length r < length s then
            if c = CHR ''{'' then
              (if skip r \<noteq> [] \<and> hd (skip r) = CHR ''}'' then Some (JObj [], tl (skip r))
               else map_option (\<lambda>(kvs, rest). (JObj kvs, rest)) (parse_members [] r))
            else if c = CHR ''['' then
              (if skip r \<noteq> [] \<and> hd (skip r) = CHR '']'' then Some (JArr [], tl (skip r))
               else map_option (\<lambda>(vs, rest). (JArr vs, rest)) (parse_elems r))
            else if c = CHR 0x22 then map_option (\<lambda>(t, rest). (JStr t, rest)) (parse_chars r)
            else parse_literal (c # r)
          else None)"
| "parse_elems s =
     (case parse_value s of
        None \<Rightarrow> None
      | Some (v, r) \<Rightarrow>
          (case skip r of
             [] \<Rightarrow> None
           | c # r' \<Rightarrow>
               if c = CHR '']'' then Some ([v], r')
               else if c = CHR '','' \<and> length r' < length s
               then map_option (\<lambda>(vs, rest). (v # vs, rest)) (parse_elems r')
               else None))"
| "parse_members kvs s =
     (case skip s of
        [] \<Rightarrow> None
      | q # r \<Rightarrow>
          if q = CHR 0x22 then
            (case parse_chars r of
               None \<Rightarrow> None
             | Some (k, r1) \<Rightarrow>
                 (case skip r1 of
                    [] \<Rightarrow> None
                  | d # r2 \<Rightarrow>
                      if d = CHR '':'' \<and> length r2 < length s then
                        (case parse_value r2 of
                           None \<Rightarrow> None
                         | Some (v, r3) \<Rightarrow>
                             (case skip r3 of
                                [] \<Rightarrow> None
                              | c # r4 \<Rightarrow>
                                  if c = CHR ''}'' then Some (alist_set k v kvs, r4)
                                  else if c = CHR '','' \<and> length r4 < length s
                                  then parse_members (alist_set k v kvs) r4
                                  else None))
                      else None))
          else None)"
  by pat_completeness auto
termination
  by (relation "measures [\<lambda>x. case x of Inl s \<Rightarrow> length s | Inr (Inl s) \<Rightarrow> length s | Inr (Inr (_, s)) \<Rightarrow> length s,
      \<lambda>x. case x of Inl _ \<Rightarrow> 0 | _ \<Rightarrow> 1]") auto

declare parse_value.simps [simp del] parse_elems.simps [simp del] parse_members.simps [simp del]

definition JSON_parse :: "string \<Rightarrow> jsval option" where
  "JSON_parse s =
     (case parse_value s of
        Some (v, rest) \<Rightarrow> if skip rest = [] then Some v else None
      | None \<Rightarrow> None)"


section \<open>Every parser consumes text\<close>

lemma length_skip: "length (skip s) \<le> length s"
  by (simp add: skip_def length_dropWhile_le)

lemma skip_Cons: "skip s = c # r \<Longrightarrow> length r < length s"
  using length_skip [of s] by simp

lemma parse_chars_consumes: "parse_chars s = Some (t, r) \<Longrightarrow> length r < length s"
proof (induction s arbitrary: t r rule: length_induct)
  case (1 s)
  then have IH: "parse_chars u = Some (t', r) \<Longrightarrow> length u < length s \<Longrightarrow> length r < length u" for u t' by blast
  have IH': "parse_chars u = Some (t', r) \<Longrightarrow> length u < length s \<Longrightarrow> length r < length s" for u t'
    using IH by force
  show ?case
  proof (cases s)
    case (Cons c cs)
    with 1(2) show ?thesis
      by (auto simp: cons_char_def split: if_splits list.splits option.splits dest: IH')
  qed (use 1(2) in simp)
qed

lemma parse_literal_consumes: "parse_literal s = Some (v, r) \<Longrightarrow> length r < length s"
proof -
  have "length r < length s" if "parse_number s = Some (v, r)"
  proof -
    from that have "takeWhile num_char s \<noteq> []" and "r = dropWhile num_char s"
      by (auto simp: parse_number_def json_number_def Let_def split: if_splits)
    then show ?thesis by (metis append_is_Nil_conv length_append less_add_same_cancel2 length_greater_0_conv takeWhile_dropWhile_id)
  qed
  then show "parse_literal s = Some (v, r) \<Longrightarrow> length r < length s"
    by (auto simp: parse_literal_def startsWith_iff split: if_splits)
qed

lemma parse_consumes:
  shows parse_value_consumes: "parse_value s = Some (v, rest) \<Longrightarrow> length rest < length s"
    and parse_elems_consumes: "parse_elems s = Some (vs, rest') \<Longrightarrow> length rest' < length s"
    and parse_members_consumes: "parse_members kvs s = Some (kvs', rest'') \<Longrightarrow> length rest'' < length s"
proof (induction s and s and kvs s arbitrary: v rest and vs rest' and kvs' rest''
    rule: parse_value_parse_elems_parse_members.induct)
  case (1 s)
  have tl: "length (tl (skip r)) < length s" if "length r < length s" for r
    using that length_skip [of r] by simp
  from 1(3) obtain c r where sk: "skip s = c # r" and r: "length r < length s"
    unfolding parse_value.simps [of s] by (auto split: list.splits if_splits)
  note IH = 1(1,2) [OF sk r]
  consider (obj) "c = CHR ''{''" | (arr) "c = CHR ''[''" | (str) "c = CHR 0x22" | (lit) "c \<notin> {CHR ''{'', CHR ''['', CHR 0x22}"
    by auto
  then show ?case
  proof cases
    case obj
    with 1(3) sk r tl [of r] IH(1) show ?thesis
      unfolding parse_value.simps [of s] by (fastforce split: if_splits)
  next
    case arr
    with 1(3) sk r tl [of r] IH(2) show ?thesis
      unfolding parse_value.simps [of s] by (fastforce split: if_splits)
  next
    case str
    with 1(3) sk r show ?thesis
      unfolding parse_value.simps [of s] by (auto dest!: parse_chars_consumes)
  next
    case lit
    with 1(3) sk r have "length rest < length (c # r)"
      unfolding parse_value.simps [of s] by (auto dest!: parse_literal_consumes)
    with r show ?thesis by simp
  qed
next
  case (2 s)
  from 2(3) obtain v r c r' where v: "parse_value s = Some (v, r)" and sk: "skip r = c # r'"
    unfolding parse_elems.simps [of s] by (auto split: option.splits list.splits)
  have "length r < length s" using 2(1) [OF v] .
  moreover have "length r' < length r" using skip_Cons [OF sk] .
  ultimately show ?case
    using 2(2) [OF v HOL.refl sk] 2(3) v sk unfolding parse_elems.simps [of s] by (fastforce split: if_splits)
next
  case (3 kvs s)
  from 3(3) obtain r k r1 r2 v r3 c r4
    where sk: "skip s = CHR 0x22 # r" and k: "parse_chars r = Some (k, r1)" and sk1: "skip r1 = CHR '':'' # r2"
      and r2: "length r2 < length s" and v: "parse_value r2 = Some (v, r3)" and sk3: "skip r3 = c # r4"
    unfolding parse_members.simps [of kvs s] by (auto split: option.splits list.splits if_splits)
  have "length r3 < length r2" using 3(1) [OF sk HOL.refl k HOL.refl sk1 _ v] r2 by simp
  moreover have "length r4 < length r3" using skip_Cons [OF sk3] .
  ultimately show ?case
    using 3(2) [OF sk HOL.refl k HOL.refl sk1 _ v HOL.refl sk3] 3(3) sk k sk1 r2 v sk3
    unfolding parse_members.simps [of kvs s] by (auto split: if_splits)
qed

section \<open>Reading back what \<open>JSON.stringify\<close> writes\<close>

text \<open>Data that survives: no \<open>undefined\<close>, safe counters as numbers, property names once each.\<close>

fun json_data :: "jsval \<Rightarrow> bool" where
  "json_data JNull = True"
| "json_data (JBool b) = True"
| "json_data (JStr s) = True"
| "json_data (JNum x) = (case x of Fin q \<Rightarrow> of_int \<lfloor>q\<rfloor> = q \<and> 0 \<le> q \<and> q \<le> 2 ^ 53 | _ \<Rightarrow> False)"
| "json_data (JArr vs) = list_all json_data vs"
| "json_data (JObj kvs) = (distinct (map fst kvs) \<and> list_all (\<lambda>(k, v). json_data v) kvs)"
| "json_data _ = False"

lemma hex4_low: "n < 32 \<Longrightarrow> hex4 CHR ''0'' CHR ''0'' (hex_digit (n div 16)) (hex_digit (n mod 16)) = Some (char_of n)"
proof -
  have "list_all (\<lambda>n. hex4 CHR ''0'' CHR ''0'' (hex_digit (n div 16)) (hex_digit (n mod 16)) = Some (char_of n)) [0..<32]"
    by code_simp
  then show "n < 32 \<Longrightarrow> hex4 CHR ''0'' CHR ''0'' (hex_digit (n div 16)) (hex_digit (n mod 16)) = Some (char_of n)"
    by (auto simp: list_all_iff)
qed

lemma lit_codes: "\<not> (of_char (CHR 0x22) :: nat) < 32" "\<not> (of_char (CHR 0x5C) :: nat) < 32"
  by simp_all

lemma parse_json_char: "parse_chars (json_char c @ r) = cons_char c (parse_chars r)"
proof (cases "(of_char c :: nat) < 32 \<and> c \<notin> {CHR 0x08, CHR 0x0C, CHR 0x0A, CHR 0x0D, CHR 0x09}")
  case True
  have low: "c \<noteq> CHR 0x22" "c \<noteq> CHR 0x5C" using True by (metis (no_types) lit_codes)+
  from True have "json_char c = [CHR 0x5C, CHR ''u'', CHR ''0'', CHR ''0'', hex_digit (of_char c div 16), hex_digit (of_char c mod 16)]"
    using low unfolding json_char_def by (simp only: insert_iff empty_iff de_Morgan_disj simp_thms if_True if_False)
  with hex4_low [of "of_char c"] True show ?thesis by (simp del: char_of_def of_char_def)
next
  case False
  show ?thesis
  proof (cases "c \<in> {CHR 0x22, CHR 0x5C, CHR 0x08, CHR 0x0C, CHR 0x0A, CHR 0x0D, CHR 0x09}")
    case True
    then show ?thesis by (elim insertE) (simp_all add: json_char_def escape_char_def)
  next
    case other: False
    with False have high: "\<not> (of_char c :: nat) < 32" by blast
    from other have ne: "c \<noteq> CHR 0x22" "c \<noteq> CHR 0x5C" by blast+
    from other high have "json_char c = [c]"
      unfolding json_char_def by (simp only: insert_iff empty_iff de_Morgan_disj simp_thms if_False)
    with ne high show ?thesis by simp
  qed
qed

lemma parse_quoted: "parse_chars (concat (map json_char s) @ [CHR 0x22] @ r) = Some (s, r)"
  by (induction s) (simp_all add: parse_json_char cons_char_def)

lemma parse_string: "parse_value (json_quote s @ r) = Some (JStr s, r)"
  using parse_quoted [of s r] by (subst parse_value.simps) (simp add: json_quote_def skip_def json_ws_def)


text \<open>Safe counters.\<close>

lemma digit_char_digit: "d < 10 \<Longrightarrow> is_digit (digit_char d)"
proof -
  have "list_all (\<lambda>d. is_digit (digit_char d)) [0..<10]" by code_simp
  then show "d < 10 \<Longrightarrow> is_digit (digit_char d)" by (auto simp: list_all_iff)
qed

lemma digit_char_zero: "d < 10 \<Longrightarrow> digit_char d = CHR ''0'' \<longleftrightarrow> d = 0"
proof -
  have "list_all (\<lambda>d. digit_char d = CHR ''0'' \<longleftrightarrow> d = 0) [0..<10]" by code_simp
  then show "d < 10 \<Longrightarrow> digit_char d = CHR ''0'' \<longleftrightarrow> d = 0" by (auto simp: list_all_iff)
qed

lemma nat_str_digits: "list_all is_digit (nat_str n) \<and> (hd (nat_str n) = CHR ''0'' \<longrightarrow> n = 0)"
proof (induction n rule: nat_str.induct)
  case (1 n)
  then show ?case
    by (cases "n < 10") (auto simp: nat_str.simps [of n] digit_char_digit digit_char_zero hd_append)
qed

lemma str_int_nat_str: "str_int (nat_str n) = int n"
proof -
  have "foldl (\<lambda>n c. 10 * n + int (digit_val c)) (int a) s = int (foldl (\<lambda>n c. 10 * n + digit_val c) a s)" for a s
  proof (induction s arbitrary: a)
    case (Cons c s)
    from Cons [of "10 * a + digit_val c"] show ?case by simp
  qed simp
  from this [of 0] show ?thesis using str_nat_nat_str [of n] by (simp add: str_int_def str_nat_def)
qed

text \<open>What follows a number does not continue it.\<close>

definition stops :: "string \<Rightarrow> bool" where
  "stops r \<longleftrightarrow> r = [] \<or> \<not> num_char (hd r)"

lemma digits_take:
  assumes "list_all is_digit ds"
  shows "takeWhile is_digit ds = ds" and "dropWhile is_digit ds = []"
    and "stops r \<Longrightarrow> takeWhile num_char (ds @ r) = ds" and "stops r \<Longrightarrow> dropWhile num_char (ds @ r) = r"
proof -
  have num: "\<forall>c \<in> set ds. num_char c" using assms by (simp add: num_char_def list_all_iff)
  show "takeWhile is_digit ds = ds" and "dropWhile is_digit ds = []"
    using assms by (simp_all add: list_all_iff takeWhile_eq_all_conv)
  assume r: "stops r"
  then have "takeWhile num_char r = []" and "dropWhile num_char r = r"
    by (cases r; simp add: stops_def)+
  with num show "takeWhile num_char (ds @ r) = ds" and "dropWhile num_char (ds @ r) = r"
    by (simp_all add: takeWhile_append2 dropWhile_append2)
qed

lemma is_digit_not_sign: "is_digit c \<Longrightarrow> c \<notin> set (''-+Intf{[]}'' @ [CHR 0x22, CHR 0x09, CHR 0x0A, CHR 0x0D, CHR '' ''])"
proof -
  have "list_all (\<lambda>c. \<not> is_digit c) (''-+Intf{[]}'' @ [CHR 0x22, CHR 0x09, CHR 0x0A, CHR 0x0D, CHR '' ''])" by code_simp
  then show "is_digit c \<Longrightarrow> c \<notin> set (''-+Intf{[]}'' @ [CHR 0x22, CHR 0x09, CHR 0x0A, CHR 0x0D, CHR '' ''])"
    unfolding list_all_iff by blast
qed

lemma str_decimal_nat: "n \<le> 2 ^ 53 \<Longrightarrow> str_decimal (nat_str n) = jint (int n)"
proof -
  assume n: "n \<le> 2 ^ 53"
  let ?s = "nat_str n"
  have ds: "list_all is_digit ?s" using nat_str_digits by blast
  then have hd: "is_digit (hd ?s)" using nat_str_not_Nil [of n] by (simp add: list_all_iff)
  have ud: "unsigned_decimal ?s = Some (of_int (int n))"
    unfolding unsigned_decimal_def Let_def digits_take(1,2) [OF ds]
    by (simp add: exponent_part_def str_int_nat_str rat_pow_def)
  have sg: "hd ?s \<noteq> CHR ''-''" "hd ?s \<noteq> CHR ''+''" "?s \<noteq> ''Infinity''"
    using is_digit_not_sign [OF hd] by auto
  have "to_double (of_int (int n)) = jint (int n)"
    by (rule to_double_int) (use of_nat_mono [OF n, where 'a = int] in simp)
  with ud sg show ?thesis by (simp add: str_decimal_def Let_def)
qed


lemma parse_counter: "n \<le> 2 ^ 53 \<Longrightarrow> stops r \<Longrightarrow> parse_value (nat_str n @ r) = Some (JNum (jint (int n)), r)"
proof -
  assume n: "n \<le> 2 ^ 53" and r: "stops r"
  let ?s = "nat_str n"
  obtain c cs where s: "?s = c # cs" using nat_str_not_Nil [of n] by (cases ?s) auto
  have ds: "list_all is_digit ?s" using nat_str_digits by blast
  then have c: "c \<notin> set (''-+Intf{[]}'' @ [CHR 0x22, CHR 0x09, CHR 0x0A, CHR 0x0D, CHR '' ''])"
    by (intro is_digit_not_sign) (simp add: s)
  have "hd ?s = CHR ''0'' \<Longrightarrow> length ?s = 1"
    using nat_str_digits [of n] by (auto simp: nat_str.simps [of 0])
  moreover have "?s \<noteq> []" "hd ?s \<noteq> CHR ''-''" using c by (auto simp: s)
  ultimately have "json_number ?s"
    by (simp add: json_number_def Let_def exponent_part_def digits_take(1,2) [OF ds] del: dropWhile_eq_Nil_conv takeWhile_eq_all_conv)
  then have num: "parse_number (?s @ r) = Some (JNum (jint (int n)), r)"
    unfolding parse_number_def Let_def digits_take(3,4) [OF ds r] str_decimal_nat [OF n] by simp
  have "skip (?s @ r) = c # cs @ r" using c by (simp add: s skip_def json_ws_def)
  moreover have "parse_literal (c # cs @ r) = parse_number (c # cs @ r)"
    using c by (auto simp: parse_literal_def startsWith_iff)
  ultimately show ?thesis
    using num c by (subst parse_value.simps) (simp add: s)
qed

text \<open>A printed value reads back, whatever follows it, and begins with a visible character.\<close>

definition reads :: "jsval \<Rightarrow> string \<Rightarrow> bool" where
  "reads v t \<longleftrightarrow> (\<forall>r. stops r \<longrightarrow> parse_value (t @ r) = Some (v, r)) \<and> t \<noteq> [] \<and>
     hd t \<notin> {CHR '']'', CHR ''}''} \<and> \<not> json_ws (hd t)"

lemma stops_simps [simp]: "stops []" "stops (CHR '','' # r)" "stops (CHR '']'' # r)" "stops (CHR ''}'' # r)"
proof -
  have "list_all (\<lambda>c. \<not> num_char c) '',]}''" by code_simp
  then show "stops []" "stops (CHR '','' # r)" "stops (CHR '']'' # r)" "stops (CHR ''}'' # r)"
    by (simp_all add: stops_def)
qed

lemma skip_visible [simp]: "\<not> json_ws c \<Longrightarrow> skip (c # r) = c # r"
  by (simp add: skip_def)

lemma visible [simp]:
  "\<not> json_ws CHR '',''" "\<not> json_ws CHR '']''" "\<not> json_ws CHR ''}''" "\<not> json_ws CHR '':''" "\<not> json_ws CHR 0x22"
  "\<not> json_ws CHR ''[''" "\<not> json_ws CHR ''{''"
  by (simp_all add: json_ws_def)

lemma skip_text: "reads v t \<Longrightarrow> skip (t @ r) = t @ r"
  by (cases t) (simp_all add: reads_def)

lemma commas_Cons: "commas (t # ts) = t @ (if ts = [] then [] else '','' @ commas ts)"
  by (cases ts) (simp_all add: commas_def)

lemma parse_elems_text:
  "list_all2 reads vs ts \<Longrightarrow> vs \<noteq> [] \<Longrightarrow> parse_elems (commas ts @ CHR '']'' # r) = Some (vs, r)"
proof (induction vs ts rule: list_all2_induct)
  case (Cons v vs t ts)
  then have pv: "parse_value (t @ x) = Some (v, x)" if "stops x" for x using that by (simp add: reads_def)
  show ?case
  proof (cases "ts = []")
    case True
    with Cons have "vs = []" by simp
    with True show ?thesis by (subst parse_elems.simps) (simp add: commas_Cons pv)
  next
    case False
    with Cons have "vs \<noteq> []" by auto
    with False Cons show ?thesis by (subst parse_elems.simps) (simp add: commas_Cons pv)
  qed
qed simp

definition member_text :: "string \<times> string \<Rightarrow> string" where
  "member_text m = json_quote (fst m) @ '':'' @ snd m"

lemma parse_members_text:
  assumes "list_all2 (\<lambda>(k, v) (k', t). k = k' \<and> reads v t) kvs ts" and "kvs \<noteq> []" and "distinct (map fst (acc @ kvs))"
  shows "parse_members acc (commas (map member_text ts) @ CHR ''}'' # r) = Some (acc @ kvs, r)"
  using assms
proof (induction kvs ts arbitrary: acc rule: list_all2_induct)
  case (Cons kv kvs m ts)
  obtain k v t where kv: "kv = (k, v)" and m: "m = (k, t)" using Cons(1) by (cases kv; cases m) auto
  with Cons(1) have pv: "parse_value (t @ x) = Some (v, x)" if "stops x" for x using that by (simp add: reads_def)
  have set: "alist_set k v acc = acc @ [(k, v)]" using Cons(5) kv by (intro alist_set_fresh) auto
  have key: "parse_chars (concat (map json_char k) @ CHR 0x22 # x) = Some (k, x)" for x using parse_quoted [of k x] by simp
  have mt: "member_text (k, t) = CHR 0x22 # concat (map json_char k) @ CHR 0x22 # CHR '':'' # t"
    by (simp add: member_text_def json_quote_def)
  show ?case
  proof (cases "ts = []")
    case True
    with Cons have "kvs = []" by simp
    with True show ?thesis
      by (subst parse_members.simps) (simp add: commas_Cons mt kv m key pv set)
  next
    case False
    with Cons have "kvs \<noteq> []" by auto
    with False Cons(3) [of "acc @ [(k, v)]"] Cons(5) show ?thesis
      by (subst parse_members.simps) (simp add: commas_Cons mt kv m key pv set)
  qed
qed simp


definition prints :: "jsval \<Rightarrow> bool" where
  "prints v \<longleftrightarrow> (\<exists>t. json_compact v = Inr (Some t) \<and> reads v t)"

lemma prints_list:
  "list_all prints vs \<Longrightarrow> \<exists>ts. mapR json_compact vs = Inr (map Some ts) \<and> list_all2 reads vs ts"
proof (induction vs)
  case (Cons v vs)
  then obtain t ts where "json_compact v = Inr (Some t)" "reads v t" "mapR json_compact vs = Inr (map Some ts)" "list_all2 reads vs ts"
    by (auto simp: prints_def)
  then show ?case by (intro exI [of _ "t # ts"]) simp
qed simp

lemma prints_members:
  "list_all (\<lambda>(k, v). prints v) kvs \<Longrightarrow>
   \<exists>ts. mapR (\<lambda>(k, w). bindR (json_compact w) (\<lambda>r. Inr (map_option (\<lambda>s. json_quote k @ '':'' @ s) r))) kvs
          = Inr (map (\<lambda>m. Some (member_text m)) ts) \<and>
        list_all2 (\<lambda>(k, v) (k', t). k = k' \<and> reads v t) kvs ts"
proof (induction kvs)
  case (Cons kv kvs)
  obtain k v where kv: "kv = (k, v)" by (cases kv)
  from Cons(2) kv obtain t where "json_compact v = Inr (Some t)" "reads v t" by (auto simp: prints_def)
  moreover from Cons obtain ts where
    "mapR (\<lambda>(k, w). bindR (json_compact w) (\<lambda>r. Inr (map_option (\<lambda>s. json_quote k @ '':'' @ s) r))) kvs
       = Inr (map (\<lambda>m. Some (member_text m)) ts)" "list_all2 (\<lambda>(k, v) (k', t). k = k' \<and> reads v t) kvs ts"
    by auto
  ultimately show ?case by (intro exI [of _ "(k, t) # ts"]) (simp add: kv member_text_def)
qed simp

lemma concat_Some: "concat (map (\<lambda>m. case Some (f m) of None \<Rightarrow> [] | Some s \<Rightarrow> [s]) ms) = map f ms"
  by (induction ms) simp_all

lemma hd_commas: "list_all2 reads vs ts \<Longrightarrow> vs \<noteq> [] \<Longrightarrow>
    commas ts \<noteq> [] \<and> hd (commas ts) \<notin> {CHR '']'', CHR ''}''} \<and> \<not> json_ws (hd (commas ts))"
  by (cases ts) (auto simp: commas_Cons reads_def list_all2_Cons2)

lemma prints_arr:
  assumes "list_all prints vs"
  shows "prints (JArr vs)"
proof -
  obtain ts where ts: "mapR json_compact vs = Inr (map Some ts)" "list_all2 reads vs ts"
    using prints_list [OF assms] by blast
  have out: "json_compact (JArr vs) = Inr (Some (''['' @ commas ts @ '']''))"
    by (subst json_compact.simps) (simp add: ts(1) comp_def)
  have "parse_value (''['' @ commas ts @ '']'' @ r) = Some (JArr vs, r)" for r
  proof (cases "vs = []")
    case True
    with ts show ?thesis by (subst parse_value.simps) (simp add: commas_def)
  next
    case False
    with hd_commas [OF ts(2)] have "skip (commas ts @ CHR '']'' # r) = commas ts @ CHR '']'' # r" "hd (commas ts @ CHR '']'' # r) \<noteq> CHR '']''"
      by (cases "commas ts"; auto)+
    with parse_elems_text [OF ts(2) False, of r] show ?thesis by (subst parse_value.simps) simp
  qed
  then show ?thesis unfolding prints_def out reads_def by simp
qed

lemma prints_obj:
  assumes "list_all (\<lambda>(k, v). prints v) kvs" and "distinct (map fst kvs)"
  shows "prints (JObj kvs)"
proof -
  obtain ts where ts:
    "mapR (\<lambda>(k, w). bindR (json_compact w) (\<lambda>r. Inr (map_option (\<lambda>s. json_quote k @ '':'' @ s) r))) kvs
       = Inr (map (\<lambda>m. Some (member_text m)) ts)" "list_all2 (\<lambda>(k, v) (k', t). k = k' \<and> reads v t) kvs ts"
    using prints_members [OF assms(1)] by blast
  have out: "json_compact (JObj kvs) = Inr (Some (''{'' @ commas (map member_text ts) @ ''}''))"
    by (subst json_compact.simps) (use ts(1) in \<open>simp add: comp_def concat_Some\<close>)
  have "parse_value (''{'' @ commas (map member_text ts) @ ''}'' @ r) = Some (JObj kvs, r)" for r
  proof (cases "kvs = []")
    case True
    with ts show ?thesis by (subst parse_value.simps) (simp add: commas_def)
  next
    case False
    with ts(2) obtain m ms where "ts = m # ms" by (cases ts) auto
    then obtain w where "commas (map member_text ts) @ CHR ''}'' # r = CHR 0x22 # w"
      by (simp add: commas_Cons member_text_def json_quote_def)
    with parse_members_text [OF ts(2) False, of "[]" r] assms(2) show ?thesis by (subst parse_value.simps) simp
  qed
  then show ?thesis unfolding prints_def out reads_def by simp
qed

lemma json_data_counter: "json_data (JNum x) \<Longrightarrow> \<exists>n \<le> 2 ^ 53. x = jint (int n)"
proof -
  assume "json_data (JNum x)"
  then obtain q where x: "x = Fin q" "of_int \<lfloor>q\<rfloor> = q" "0 \<le> q" "q \<le> 2 ^ 53" by (cases x) auto
  then have "0 \<le> \<lfloor>q\<rfloor>" "\<lfloor>q\<rfloor> \<le> 2 ^ 53" by (simp, metis floor_le_iff le_floor_iff floor_mono of_int_numeral of_int_power floor_of_int)
  with x show ?thesis by (intro exI [of _ "nat \<lfloor>q\<rfloor>"]) (auto simp: nat_le_iff)
qed

lemma prints_data: "json_data v \<Longrightarrow> prints v"
proof (induction "size v" arbitrary: v rule: less_induct)
  case less
  show ?case
  proof (cases v)
    case (JArr vs)
    with less have "list_all prints vs" using size_arr by (auto simp: list_all_iff)
    with JArr show ?thesis using prints_arr by simp
  next
    case (JObj kvs)
    with less have "list_all (\<lambda>(k, v). prints v) kvs" using size_obj by (fastforce simp: list_all_iff)
    with JObj less(2) show ?thesis using prints_obj by simp
  next
    case (JNum x)
    with less(2) obtain n where n: "n \<le> 2 ^ 53" "x = jint (int n)" using json_data_counter by blast
    have "is_digit (hd (nat_str n))" using nat_str_digits [of n] by (cases "nat_str n") auto
    then have "hd (nat_str n) \<notin> {CHR '']'', CHR ''}''} \<and> \<not> json_ws (hd (nat_str n))"
      using is_digit_not_sign [of "hd (nat_str n)"] by (auto simp: json_ws_def)
    with n JNum parse_counter [OF n(1)] num_str_nat [OF n(1)] show ?thesis
      by (auto simp: prints_def reads_def json_compact.simps [of "JNum _"])
  next
    case (JStr s)
    then show ?thesis using parse_string [of s] by (auto simp: prints_def reads_def json_compact.simps [of "JStr _"] json_quote_def json_ws_def)
  qed (use less(2) in \<open>auto simp: prints_def reads_def json_compact.simps [of JNull] json_compact.simps [of "JBool _"]
     parse_value.simps [of "_ # _"] json_ws_def parse_literal_def startsWith_iff\<close>)
qed


text \<open>
  \<open>JSON.stringify(v)\<close> as a text: what has none prints as \<open>undefined\<close>.
\<close>

definition JSON_stringify :: "jsval \<Rightarrow> string" where
  "JSON_stringify v = (case json_compact v of Inr (Some t) \<Rightarrow> t | _ \<Rightarrow> ''undefined'')"

lemma JSON_roundtrip: "json_data v \<Longrightarrow> JSON_parse (JSON_stringify v) = Some v \<and> JSON_stringify v \<noteq> []"
proof -
  assume "json_data v"
  then obtain t where t: "json_compact v = Inr (Some t)" "reads v t" using prints_data unfolding prints_def by blast
  then have "parse_value (t @ []) = Some (v, [])" and "t \<noteq> []" unfolding reads_def using stops_simps(1) by blast+
  with t(1) show ?thesis by (simp add: JSON_parse_def JSON_stringify_def skip_def)
qed

end
