(* ===== verification/VisEditor.thy ===== *)
theory VisEditor
  imports VisShare VisStore VisPreferences JsonParse
begin

text \<open>
  The plan editor of the visualizer (\<open>tools/visualizer/src/components/EditorPanel.tsx\<close>, with the
  dialogs of \<open>Modal.tsx\<close>) as a state machine. The component's state is a record; a handler maps the
  component and the page (store, local storage, URL fragment, clipboard, compilations in flight) to
  their successors; after each of them React renders once and runs the two effects: the one that
  takes over a source text from the store and the one that restarts the autosave timer. The
  component can be unmounted, which cancels its timers, and mounted again; compilations stay in flight.
  The double calls of React's strict mode, styles, Monaco's set-up and the markup are not modelled.
\<close>

section \<open>State\<close>

definition apos :: char where "apos = CHR 0x27"

definition DEFAULT_PLAN :: string where
  \<open>DEFAULT_PLAN = concat (map (\<lambda>l. l @ [newline]) [
    ''import { definePlan, EP } from '' @ [apos] @ ''@ranking-dsl/runtime'' @ [apos] @ '';'',
    ''// Key, P, coalesce, regex are globals - no import needed'',
    '''',
    ''export default definePlan({'',
    ''  name: '' @ [apos] @ ''my_plan'' @ [apos] @ '','',
    ''  build: (ctx) => {'',
    ''    // Source: viewer returns the request user'' @ [apos] @ ''s data, follow fans out to followees'',
    ''    const source = ctx.viewer({ endpoint: EP.redis.redis_default }).follow({ endpoint: EP.redis.redis_default, fanout: 100 });'',
    '''',
    ''    // Score: compute final_score using natural expression syntax'',
    ''    // The compiler extracts Key.x * P.y expressions at compile-time'',
    ''    const scored = source.vm({'',
    ''      outKey: Key.final_score,'',
    ''      expr: Key.model_score_1 + Key.model_score_2 * coalesce(P.media_age_penalty_weight, 0.2),'',
    ''    });'',
    '''',
    ''    // Filter: natural predicate syntax (extracted at compile-time)'',
    ''    // Supports: &&, ||, !, comparisons (==, !=, <, <=, >, >=), null checks, regex()'',
    ''    const filtered = scored.filter({'',
    ''      pred: Key.final_score >= 0.5 && Key.country != null,'',
    ''    });'',
    '''',
    ''    // Alternative: regex pattern matching'',
    ''    // const filtered = scored.filter({'',
    ''    //   pred: regex(Key.title, "^trending"),'',
    ''    // });'',
    '''',
    ''    // Return top 10'',
    ''    return filtered.take({ count: 10 });'',
    ''  },'',
    ''});''])\<close>

record SavedPlan =
  sp_id :: string
  sp_name :: string
  sp_code :: string
  sp_updatedAt :: nat

record SavedPlansState =
  st_plans :: "SavedPlan list"
  st_currentId :: "string option"

datatype modal_state = SaveAsModal string | RenameModal string | DeleteModal string
datatype ed_status = Ready | Compiling | Success | Error

text \<open>
  \<open>ed_timer\<close> is the pending autosave with the values its closure captured, \<open>ed_toasts\<close> the number of
  pending toast timeouts, \<open>ed_copies\<close> the number of clipboard writes not yet acknowledged.
\<close>

record editor =
  ed_instance :: nat
  ed_code :: string
  ed_compiling :: bool
  ed_error :: "string option"
  ed_status :: ed_status
  ed_showToast :: bool
  ed_toastMessage :: string
  ed_savedPlans :: SavedPlansState
  ed_currentPlanId :: "string option"
  ed_modal :: "modal_state option"
  ed_timer :: "(string \<times> string option) option"
  ed_toasts :: nat
  ed_copies :: nat

text \<open>A compilation in flight: the component that started it, the request and the plan's name.\<close>

record compilation =
  cp_owner :: nat
  cp_source :: string
  cp_planName :: string

record page =
  pg_browser :: browser
  pg_storage :: local_storage
  pg_base :: string
  pg_hash :: string
  pg_clipboard :: "string option"
  pg_compiles :: "compilation list"
  pg_mounts :: nat

text \<open>The answer of \<open>/api/compile\<close>: \<open>success\<close>, \<open>artifact\<close>, \<open>error\<close>, \<open>phase\<close>; or an exception on the way.\<close>

datatype compile_response = Result bool "PlanJson option" "string option" "string option" | Raised string

section \<open>Stored plans\<close>

definition js_json :: json_text where
  "js_json = \<lparr> jt_parse = JSON_parse, jt_stringify = JSON_stringify \<rparr>"

definition plan_json :: "SavedPlan \<Rightarrow> jsval" where
  "plan_json q = JObj [(''id'', JStr (sp_id q)), (''name'', JStr (sp_name q)), (''code'', JStr (sp_code q)),
     (''updatedAt'', JNum (jint (int (sp_updatedAt q))))]"

definition id_json :: "string option \<Rightarrow> jsval" where
  "id_json i = (case i of None \<Rightarrow> JNull | Some s \<Rightarrow> JStr s)"

definition plans_json :: "SavedPlansState \<Rightarrow> jsval" where
  "plans_json st = JObj [(''plans'', JArr (map plan_json (st_plans st))), (''currentId'', id_json (st_currentId st))]"

definition plan_of :: "jsval \<Rightarrow> SavedPlan option" where
  "plan_of v =
     (case (getp v ''id'', getp v ''name'', getp v ''code'', getp v ''updatedAt'') of
        (JStr i, JStr n, JStr c, JNum (Fin t)) \<Rightarrow>
          Some \<lparr> sp_id = i, sp_name = n, sp_code = c, sp_updatedAt = nat \<lfloor>t\<rfloor> \<rparr>
      | _ \<Rightarrow> None)"

definition clocks_ok :: "SavedPlansState \<Rightarrow> bool" where
  "clocks_ok st \<longleftrightarrow> list_all (\<lambda>q. sp_updatedAt q \<le> 2 ^ 53) (st_plans st)"

text \<open>
  The stored value read as a \<open>SavedPlansState\<close>, which the code does without a check: \<open>None\<close> when it does
  not have exactly that shape, with times that are safe integers.
\<close>

definition plans_of :: "jsval \<Rightarrow> SavedPlansState option" where
  "plans_of v =
     (let qs = (case getp v ''plans'' of JArr vs \<Rightarrow> List.map_filter plan_of vs | _ \<Rightarrow> []);
          st = \<lparr> st_plans = qs, st_currentId = (case getp v ''currentId'' of JStr s \<Rightarrow> Some s | _ \<Rightarrow> None) \<rparr>
      in if plans_json st = v \<and> clocks_ok st then Some st else None)"

section \<open>Mounting\<close>

text \<open>A string that is neither \<open>null\<close> nor empty.\<close>

definition present :: "string option \<Rightarrow> string option" where
  "present s = (case s of Some t \<Rightarrow> if t = [] then None else Some t | None \<Rightarrow> None)"

definition linkedCode :: "string \<Rightarrow> string option" where
  "linkedCode hash =
     (if hash = [] then None
      else case present (search_get (tl hash) ''code'') of
        None \<Rightarrow> None
      | Some encoded \<Rightarrow> present (decodeFromUrl encoded))"

definition getInitialCode :: "page \<Rightarrow> string \<times> page" where
  "getInitialCode p =
     (case linkedCode (pg_hash p) of
        Some decoded \<Rightarrow> (decoded, p\<lparr> pg_hash := [] \<rparr>)
      | None \<Rightarrow>
          (case present (getEditorCode (pg_storage p)) of
             Some saved \<Rightarrow> (saved, p)
           | None \<Rightarrow> (DEFAULT_PLAN, p)))"

text \<open>The autosave effect: a change of its dependencies cancels the timer and starts a new one.\<close>

definition rearm :: "editor \<Rightarrow> editor \<Rightarrow> editor" where
  "rearm old e =
     (if ed_code e = ed_code old \<and> ed_currentPlanId e = ed_currentPlanId old then e
      else e\<lparr> ed_timer := Some (ed_code e, ed_currentPlanId e) \<rparr>)"

text \<open>The effect that takes over the source of a viewed plan, and the render it causes.\<close>

definition takeSource :: "editor \<times> page \<Rightarrow> editor \<times> page" where
  "takeSource s =
     (case s of (e, p) \<Rightarrow>
        case present (editSourceCode (b_store (pg_browser p))) of
          None \<Rightarrow> (e, p)
        | Some src \<Rightarrow>
            (rearm e (e\<lparr> ed_code := src, ed_currentPlanId := None \<rparr>),
             p\<lparr> pg_browser := setState (\<lambda>st. st\<lparr> editSourceCode := None \<rparr>) (pg_browser p) \<rparr>))"

definition render :: "editor \<Rightarrow> editor \<times> page \<Rightarrow> editor \<times> page" where
  "render old s = takeSource (rearm old (fst s), snd s)"

definition initialEditor :: "nat \<Rightarrow> string \<Rightarrow> SavedPlansState \<Rightarrow> editor" where
  "initialEditor n code st =
     \<lparr> ed_instance = n, ed_code = code, ed_compiling = False, ed_error = None, ed_status = Ready,
       ed_showToast = False, ed_toastMessage = [], ed_savedPlans = st, ed_currentPlanId = st_currentId st,
       ed_modal = None, ed_timer = Some (code, st_currentId st), ed_toasts = 0, ed_copies = 0 \<rparr>"

definition mount :: "page \<Rightarrow> (editor \<times> page) option" where
  "mount p0 =
     (let code = fst (getInitialCode p0);
          p = snd (getInitialCode p0);
          n = Suc (pg_mounts p)
      in case plans_of (getSavedPlans js_json (pg_storage p)) of
           None \<Rightarrow> None
         | Some st \<Rightarrow> Some (takeSource (initialEditor n code st, p\<lparr> pg_mounts := n \<rparr>)))"

section \<open>Handlers\<close>

type_synonym handler = "editor \<times> page \<Rightarrow> editor \<times> page"

definition on_editor :: "(editor \<Rightarrow> editor) \<Rightarrow> handler" where
  "on_editor f s = (f (fst s), snd s)"

text \<open>\<open>setSavedPlans(updated); prefs.setSavedPlans(updated)\<close>.\<close>

definition storePlans :: "SavedPlansState \<Rightarrow> handler" where
  "storePlans st s =
     ((fst s)\<lparr> ed_savedPlans := st \<rparr>,
      (snd s)\<lparr> pg_storage := setSavedPlans js_json (plans_json st) (pg_storage (snd s)) \<rparr>)"

definition autosave :: "nat \<Rightarrow> handler" where
  "autosave now s =
     (case ed_timer (fst s) of
        None \<Rightarrow> s
      | Some (code, planId) \<Rightarrow>
          let s1 = ((fst s)\<lparr> ed_timer := None \<rparr>, (snd s)\<lparr> pg_storage := setEditorCode code (pg_storage (snd s)) \<rparr>)
          in case present planId of
               None \<Rightarrow> s1
             | Some i \<Rightarrow>
                 let prev = ed_savedPlans (fst s1)
                 in storePlans (prev\<lparr> st_plans := map (\<lambda>q. if sp_id q = i
                      then q\<lparr> sp_code := code, sp_updatedAt := now \<rparr> else q) (st_plans prev) \<rparr>) s1)"

text \<open>\<open>code.match(/name:\s*['"]([^'"]+)['"]/)?.[1]\<close>.\<close>

definition is_quote :: "char \<Rightarrow> bool" where
  "is_quote c \<longleftrightarrow> c = apos \<or> c = CHR 0x22"

definition name_here :: "string \<Rightarrow> string option" where
  "name_here s =
     (if startsWith s ''name:'' then
        (case dropWhile is_ws (drop 5 s) of
           [] \<Rightarrow> None
         | q # t \<Rightarrow>
             if is_quote q \<and> takeWhile (\<lambda>c. \<not> is_quote c) t \<noteq> [] \<and> dropWhile (\<lambda>c. \<not> is_quote c) t \<noteq> []
             then Some (takeWhile (\<lambda>c. \<not> is_quote c) t) else None)
      else None)"

fun nameMatch :: "string \<Rightarrow> string option" where
  "nameMatch [] = None"
| "nameMatch (c # cs) = (case name_here (c # cs) of Some n \<Rightarrow> Some n | None \<Rightarrow> nameMatch cs)"

definition handleCompile :: handler where
  "handleCompile s =
     (case s of (e, p) \<Rightarrow>
        if ed_compiling e then (e, p)
        else (e\<lparr> ed_compiling := True, ed_error := None, ed_status := Compiling \<rparr>,
              p\<lparr> pg_compiles := pg_compiles p @ [\<lparr> cp_owner = ed_instance e, cp_source = ed_code e,
                   cp_planName = (case nameMatch (ed_code e) of Some n \<Rightarrow> n | None \<Rightarrow> ''live_plan'') \<rparr>] \<rparr>))"

text \<open>The rest of \<open>handleCompile\<close> when the answer arrives: its call of the store, and its own updates.\<close>

definition opt_text :: "string option \<Rightarrow> string" where
  "opt_text t = (case t of Some x \<Rightarrow> x | None \<Rightarrow> ''undefined'')"

definition compiledPlan :: "vis_env \<Rightarrow> compilation \<Rightarrow> compile_response \<Rightarrow> page \<Rightarrow> page" where
  "compiledPlan env c resp p =
     (case resp of
        Result True (Some artifact) _ _ \<Rightarrow>
          p\<lparr> pg_browser := loadPlan env artifact (cp_planName c @ ''.plan.ts (live)'') True (pg_browser p) \<rparr>
      | _ \<Rightarrow> p)"

definition compileDone :: "compile_response \<Rightarrow> editor \<Rightarrow> editor" where
  "compileDone resp e =
     (case resp of
        Result True (Some _) _ _ \<Rightarrow> e\<lparr> ed_status := Success \<rparr>
      | Result _ _ err phase \<Rightarrow> e\<lparr> ed_error := Some (opt_text phase @ '': '' @ opt_text err), ed_status := Error \<rparr>
      | Raised msg \<Rightarrow> e\<lparr> ed_error := Some msg, ed_status := Error \<rparr>)\<lparr> ed_compiling := False \<rparr>"

definition showToastWithMessage :: "string \<Rightarrow> editor \<Rightarrow> editor" where
  "showToastWithMessage message e = e\<lparr> ed_toastMessage := message, ed_showToast := True, ed_toasts := Suc (ed_toasts e) \<rparr>"

definition toastOver :: "editor \<Rightarrow> editor" where
  "toastOver e = (if ed_toasts e = 0 then e else e\<lparr> ed_toasts := ed_toasts e - 1, ed_showToast := False \<rparr>)"

definition handleShare :: handler where
  "handleShare s =
     (case s of (e, p) \<Rightarrow>
        let encoded = encodeForUrl (ed_code e)
        in if encoded = [] then (e, p)
           else (e\<lparr> ed_copies := Suc (ed_copies e) \<rparr>, p\<lparr> pg_clipboard := Some (pg_base p @ ''#code='' @ encoded) \<rparr>))"

definition copied :: "editor \<Rightarrow> editor" where
  "copied e =
     (if ed_copies e = 0 then e
      else showToastWithMessage ''Link copied to clipboard!'' (e\<lparr> ed_copies := ed_copies e - 1 \<rparr>))"

definition handleReset :: handler where
  "handleReset s =
     (case s of (e, p) \<Rightarrow>
        storePlans ((ed_savedPlans e)\<lparr> st_currentId := None \<rparr>)
          (e\<lparr> ed_code := DEFAULT_PLAN, ed_currentPlanId := None \<rparr>, p\<lparr> pg_storage := removeEditorCode (pg_storage p) \<rparr>))"

definition handleSaveAs :: "editor \<Rightarrow> editor" where
  "handleSaveAs e =
     e\<lparr> ed_modal := Some (SaveAsModal (case nameMatch (ed_code e) of Some n \<Rightarrow> n | None \<Rightarrow> ''my_plan'')) \<rparr>"

definition confirmSaveAs :: "string \<Rightarrow> nat \<Rightarrow> string \<Rightarrow> handler" where
  "confirmSaveAs newId now name s =
     (case s of (e, p) \<Rightarrow>
        let newPlan = \<lparr> sp_id = newId, sp_name = name, sp_code = ed_code e, sp_updatedAt = now \<rparr>
        in on_editor (\<lambda>e. showToastWithMessage (''Saved '' @ [CHR 0x22] @ name @ [CHR 0x22])
                            (e\<lparr> ed_currentPlanId := Some newId, ed_modal := None \<rparr>))
             (storePlans \<lparr> st_plans = st_plans (ed_savedPlans e) @ [newPlan], st_currentId = Some newId \<rparr> s))"

definition findPlan :: "string \<Rightarrow> SavedPlansState \<Rightarrow> SavedPlan option" where
  "findPlan i st = List.find (\<lambda>q. sp_id q = i) (st_plans st)"

definition handleSelectPlan :: "string \<Rightarrow> handler" where
  "handleSelectPlan i s =
     (case s of (e, p) \<Rightarrow>
        if i = ''__new__'' then
          storePlans ((ed_savedPlans e)\<lparr> st_currentId := None \<rparr>) (e\<lparr> ed_code := DEFAULT_PLAN, ed_currentPlanId := None \<rparr>, p)
        else case findPlan i (ed_savedPlans e) of
            None \<Rightarrow> (e, p)
          | Some q \<Rightarrow>
              storePlans ((ed_savedPlans e)\<lparr> st_currentId := Some (sp_id q) \<rparr>)
                (e\<lparr> ed_code := sp_code q, ed_currentPlanId := Some (sp_id q) \<rparr>, p))"

text \<open>The selected plan, as far as one is selected and stored.\<close>

definition selected :: "editor \<Rightarrow> SavedPlan option" where
  "selected e = (case present (ed_currentPlanId e) of None \<Rightarrow> None | Some i \<Rightarrow> findPlan i (ed_savedPlans e))"

definition handleDeletePlan :: "editor \<Rightarrow> editor" where
  "handleDeletePlan e = (case selected e of None \<Rightarrow> e | Some q \<Rightarrow> e\<lparr> ed_modal := Some (DeleteModal (sp_name q)) \<rparr>)"

definition confirmDelete :: handler where
  "confirmDelete s =
     (case s of (e, p) \<Rightarrow>
        case present (ed_currentPlanId e) of
          None \<Rightarrow> (e, p)
        | Some i \<Rightarrow>
            on_editor (\<lambda>e'. (case findPlan i (ed_savedPlans e) of
                 Some q \<Rightarrow> showToastWithMessage (''Deleted '' @ [CHR 0x22] @ sp_name q @ [CHR 0x22])
               | None \<Rightarrow> id) (e'\<lparr> ed_currentPlanId := None, ed_modal := None \<rparr>))
              (storePlans \<lparr> st_plans = filter (\<lambda>q. sp_id q \<noteq> i) (st_plans (ed_savedPlans e)), st_currentId = None \<rparr> (e, p)))"

definition handleRenamePlan :: "editor \<Rightarrow> editor" where
  "handleRenamePlan e = (case selected e of None \<Rightarrow> e | Some q \<Rightarrow> e\<lparr> ed_modal := Some (RenameModal (sp_name q)) \<rparr>)"

definition confirmRename :: "string \<Rightarrow> handler" where
  "confirmRename newName s =
     (case s of (e, p) \<Rightarrow>
        case present (ed_currentPlanId e) of
          None \<Rightarrow> (e, p)
        | Some i \<Rightarrow>
            on_editor (\<lambda>e. showToastWithMessage (''Renamed to '' @ [CHR 0x22] @ newName @ [CHR 0x22]) (e\<lparr> ed_modal := None \<rparr>))
              (storePlans ((ed_savedPlans e)\<lparr> st_plans := map (\<lambda>q. if sp_id q = i then q\<lparr> sp_name := newName \<rparr> else q)
                 (st_plans (ed_savedPlans e)) \<rparr>) (e, p)))"

text \<open>The prompt dialog confirms a name that is not blank, trimmed.\<close>

definition promptConfirm :: "(string \<Rightarrow> handler) \<Rightarrow> string \<Rightarrow> handler" where
  "promptConfirm onConfirm text s = (if trim text = [] then s else onConfirm (trim text) s)"

definition getStatusText :: "string \<Rightarrow> editor \<Rightarrow> string" where
  "getStatusText modKey e =
     (case ed_status e of
        Compiling \<Rightarrow> ''Compiling...''
      | Success \<Rightarrow> ''Compiled successfully''
      | Error \<Rightarrow> ''Compilation failed''
      | Ready \<Rightarrow> ''Ready ('' @ modKey @ ''Enter to compile)'')"


section \<open>Events\<close>

text \<open>
  What can happen to the mounted component. \<open>PromptOk\<close> is the confirmation of the open prompt with the
  text in it, the id \<open>generateId()\<close> returns and the time.
\<close>

datatype ed_event =
    Typed "string option"
  | Autosave nat
  | Compile
  | Share
  | Copied
  | ToastOver
  | Reset
  | SaveAs
  | PromptOk string string nat
  | SelectPlan string
  | DeletePlan
  | ConfirmDelete
  | RenamePlan
  | CancelModal

fun on_event :: "ed_event \<Rightarrow> handler" where
  "on_event (Typed v) s = on_editor (\<lambda>e. e\<lparr> ed_code := (case v of Some t \<Rightarrow> t | None \<Rightarrow> []) \<rparr>) s"
| "on_event (Autosave now) s = autosave now s"
| "on_event Compile s = handleCompile s"
| "on_event Share s = handleShare s"
| "on_event Copied s = on_editor copied s"
| "on_event ToastOver s = on_editor toastOver s"
| "on_event Reset s = handleReset s"
| "on_event SaveAs s = on_editor handleSaveAs s"
| "on_event (PromptOk t newId now) s =
     (case ed_modal (fst s) of
        Some (SaveAsModal _) \<Rightarrow> promptConfirm (confirmSaveAs newId now) t s
      | Some (RenameModal _) \<Rightarrow> promptConfirm confirmRename t s
      | _ \<Rightarrow> s)"
| "on_event (SelectPlan i) s = handleSelectPlan i s"
| "on_event DeletePlan s = on_editor handleDeletePlan s"
| "on_event ConfirmDelete s = (case ed_modal (fst s) of Some (DeleteModal _) \<Rightarrow> confirmDelete s | _ \<Rightarrow> s)"
| "on_event RenamePlan s = on_editor handleRenamePlan s"
| "on_event CancelModal s = on_editor (\<lambda>e. e\<lparr> ed_modal := None \<rparr>) s"

definition ed_step :: "ed_event \<Rightarrow> handler" where
  "ed_step ev s = render (fst s) (on_event ev s)"

text \<open>The page with the component, if it is mounted.\<close>

type_synonym app = "editor option \<times> page"

definition rerender :: "(editor \<Rightarrow> editor) \<Rightarrow> editor option \<Rightarrow> page \<Rightarrow> app" where
  "rerender f eo p =
     (case eo of None \<Rightarrow> (None, p) | Some e \<Rightarrow> (case render e (f e, p) of (e', p') \<Rightarrow> (Some e', p')))"

text \<open>The \<open>i\<close>-th compilation in flight is answered. Updates of a component that is gone have no effect.\<close>

definition compileAnswer :: "vis_env \<Rightarrow> nat \<Rightarrow> compile_response \<Rightarrow> app \<Rightarrow> app" where
  "compileAnswer env i resp s =
     (case s of (eo, p) \<Rightarrow>
        if i < length (pg_compiles p) then
          let c = pg_compiles p ! i
          in rerender (\<lambda>e. if cp_owner c = ed_instance e then compileDone resp e else e) eo
               (compiledPlan env c resp (p\<lparr> pg_compiles := remove_at i (pg_compiles p) \<rparr>))
        else (eo, p))"

text \<open>The time an event carries is a safe integer.\<close>

fun in_time :: "ed_event \<Rightarrow> bool" where
  "in_time (Autosave now) \<longleftrightarrow> now \<le> 2 ^ 53"
| "in_time (PromptOk _ _ now) \<longleftrightarrow> now \<le> 2 ^ 53"
| "in_time _ \<longleftrightarrow> True"

definition openPage :: "browser \<Rightarrow> local_storage \<Rightarrow> string \<Rightarrow> string \<Rightarrow> page" where
  "openPage b ls url hash = \<lparr> pg_browser = b, pg_storage = ls, pg_base = url, pg_hash = hash, pg_clipboard = None,
     pg_compiles = [], pg_mounts = 0 \<rparr>"

text \<open>
  All states: the component comes and goes, the other components use the store and write their own
  preferences, the fragment of the URL may change at any time.
\<close>

inductive ed_reachable :: "vis_env \<Rightarrow> app \<Rightarrow> bool" for env where
  opened: "ed_reachable env (None, openPage (initHistory q) ls url hash)"
| mounted: "ed_reachable env (None, p) \<Longrightarrow> mount p = Some (e, p') \<Longrightarrow> ed_reachable env (Some e, p')"
| unmounted: "ed_reachable env (Some e, p) \<Longrightarrow> ed_reachable env (None, p)"
| event: "ed_reachable env (Some e, p) \<Longrightarrow> in_time ev \<Longrightarrow> ed_step ev (e, p) = (e', p') \<Longrightarrow> ed_reachable env (Some e', p')"
| compiled: "ed_reachable env s \<Longrightarrow> ed_reachable env (compileAnswer env i resp s)"
| store: "ed_reachable env (eo, p) \<Longrightarrow> browser_step env (pg_browser p) b \<Longrightarrow>
    ed_reachable env (rerender id eo (p\<lparr> pg_browser := b \<rparr>))"
| layout: "ed_reachable env (eo, p) \<Longrightarrow> k \<noteq> KEY_editorCode \<Longrightarrow> k \<noteq> KEY_savedPlans \<Longrightarrow>
    ed_reachable env (eo, p\<lparr> pg_storage := set_item k v (pg_storage p) \<rparr>)"
| fragment: "ed_reachable env (eo, p) \<Longrightarrow> ed_reachable env (eo, p\<lparr> pg_hash := h \<rparr>)"

section \<open>Invariant\<close>

text \<open>A storage that can be read and takes every write.\<close>

definition open_storage :: "local_storage \<Rightarrow> bool" where
  "open_storage ls \<longleftrightarrow> ls_readable ls \<and> ls_writable ls = (\<lambda>_ _. True)"

definition stored :: "SavedPlansState \<Rightarrow> local_storage \<Rightarrow> bool" where
  "stored st ls \<longleftrightarrow> getSavedPlans js_json ls = plans_json st \<and> clocks_ok st"

text \<open>What is shown is saved: in the selected plan and as the editor's text.\<close>

definition saved_here :: "editor \<Rightarrow> local_storage \<Rightarrow> bool" where
  "saved_here e ls \<longleftrightarrow>
     (\<forall>q \<in> set (st_plans (ed_savedPlans e)). present (ed_currentPlanId e) = Some (sp_id q) \<longrightarrow> sp_code q = ed_code e) \<and>
     (getEditorCode ls = Some (ed_code e) \<or> getEditorCode ls = None \<and> ed_code e = DEFAULT_PLAN)"

definition timer_ok :: "editor \<Rightarrow> local_storage \<Rightarrow> bool" where
  "timer_ok e ls \<longleftrightarrow>
     (case ed_timer e of
        Some captured \<Rightarrow> captured = (ed_code e, ed_currentPlanId e)
      | None \<Rightarrow> saved_here e ls)"

definition plans_ok :: "editor \<Rightarrow> local_storage \<Rightarrow> bool" where
  "plans_ok e ls \<longleftrightarrow> stored (ed_savedPlans e) ls \<and> ed_currentPlanId e \<in> {None, st_currentId (ed_savedPlans e)}"

definition saved_inv :: "editor \<Rightarrow> local_storage \<Rightarrow> bool" where
  "saved_inv e ls \<longleftrightarrow> plans_ok e ls \<and> timer_ok e ls"

definition unchanged :: "editor \<Rightarrow> editor \<Rightarrow> bool" where
  "unchanged old e \<longleftrightarrow> ed_code e = ed_code old \<and> ed_currentPlanId e = ed_currentPlanId old"

lemma json_data_plans: "clocks_ok st \<Longrightarrow> json_data (plans_json st)"
proof -
  assume ok: "clocks_ok st"
  have "json_data (plan_json q)" if "q \<in> set (st_plans st)" for q
  proof -
    have "of_nat (sp_updatedAt q) \<le> (of_nat (2 ^ 53) :: rat)"
      using ok that by (intro of_nat_mono) (auto simp: clocks_ok_def list_all_iff)
    then show ?thesis by (simp add: plan_json_def)
  qed
  then show ?thesis by (auto simp: plans_json_def id_json_def list_all_iff split: option.splits)
qed

lemma stored_setSavedPlans: "open_storage ls \<Longrightarrow> clocks_ok st \<Longrightarrow> stored st (setSavedPlans js_json (plans_json st) ls)"
proof -
  assume ls: "open_storage ls" and ok: "clocks_ok st"
  have rt: "JSON_parse (JSON_stringify (plans_json st)) = Some (plans_json st)" "JSON_stringify (plans_json st) \<noteq> []"
    using JSON_roundtrip [OF json_data_plans [OF ok]] by blast+
  have "pref_get js_json KEY_savedPlans (setSavedPlans js_json (plans_json st) ls) = plans_json st"
    by (rule pref_get_written)
      (use ls rt in \<open>simp_all add: open_storage_def plans_slot.written plans_slot.permissions js_json_def\<close>)
  then show ?thesis using ok by (simp add: stored_def getSavedPlans_def nullish_def plans_json_def)
qed

lemma getEditorCode_simps [simp]:
  "getEditorCode (setSavedPlans jt v ls) = getEditorCode ls"
  "open_storage ls \<Longrightarrow> getEditorCode (setEditorCode c ls) = Some c"
  "getEditorCode (removeEditorCode ls) = None"
  by (simp_all add: getEditorCode_def plans_slot.frame plans_slot.permissions editor_slot.written editor_slot.permissions
      open_storage_def removeEditorCode_def pref_remove_def)

lemma getSavedPlans_simps [simp]:
  "getSavedPlans jt (setEditorCode c ls) = getSavedPlans jt ls"
  "getSavedPlans jt (removeEditorCode ls) = getSavedPlans jt ls"
  by (simp_all add: getSavedPlans_def pref_get_def editor_slot.frame editor_slot.permissions removeEditorCode_def pref_remove_def)

lemma open_storage_simps [simp]:
  "open_storage (setSavedPlans jt v ls) = open_storage ls" "open_storage (setEditorCode c ls) = open_storage ls"
  "open_storage (removeEditorCode ls) = open_storage ls" "open_storage (set_item k w ls) = open_storage ls"
  by (simp_all add: open_storage_def plans_slot.permissions editor_slot.permissions removeEditorCode_def pref_remove_def set_item_def)

lemma stored_simps [simp]:
  "stored st (setEditorCode c ls) = stored st ls" "stored st (removeEditorCode ls) = stored st ls"
  by (simp_all add: stored_def)

lemma present_simps [simp]: "present None = None" "present (Some t) = (if t = [] then None else Some t)"
  by (simp_all add: present_def)

lemma present_Some [simp]: "present s = Some t \<longleftrightarrow> s = Some t \<and> t \<noteq> []"
  by (auto simp: present_def split: option.splits)


text \<open>The invariant looks at four fields of the component only; several handlers leave them alone.\<close>

definition core :: "editor \<Rightarrow> string \<times> string option \<times> SavedPlansState \<times> (string \<times> string option) option" where
  "core e = (ed_code e, ed_currentPlanId e, ed_savedPlans e, ed_timer e)"

lemma core_inv_cong:
  assumes "core e' = core e"
  shows "plans_ok e' ls = plans_ok e ls" and "timer_ok e' ls = timer_ok e ls" and "saved_inv e' ls = saved_inv e ls"
  using assms by (simp_all add: core_def saved_inv_def plans_ok_def timer_ok_def saved_here_def split: option.splits)

fun quiet :: "ed_event \<Rightarrow> bool" where
  "quiet ev \<longleftrightarrow> ev \<in> {Compile, Share, Copied, ToastOver, SaveAs, DeletePlan, RenamePlan, CancelModal}"

lemma core_quiet [simp]:
  "core (copied e) = core e" "core (toastOver e) = core e" "core (handleSaveAs e) = core e"
  "core (e\<lparr> ed_modal := m \<rparr>) = core e" "core (showToastWithMessage t e) = core e"
  by (simp_all add: core_def copied_def toastOver_def handleSaveAs_def showToastWithMessage_def)

lemma core_dialogs [simp]: "core (handleDeletePlan e) = core e" "core (handleRenamePlan e) = core e"
  by (cases "selected e"; simp add: handleDeletePlan_def handleRenamePlan_def)+

lemma core_requests [simp]:
  "core (fst (handleCompile (e, p))) = core e" "pg_storage (snd (handleCompile (e, p))) = pg_storage p"
  "core (fst (handleShare (e, p))) = core e" "pg_storage (snd (handleShare (e, p))) = pg_storage p"
  by (simp_all add: handleCompile_def handleShare_def Let_def core_def)

lemma quiet_core:
  "quiet ev \<Longrightarrow> core (fst (on_event ev (e, p))) = core e \<and> pg_storage (snd (on_event ev (e, p))) = pg_storage p"
  by (cases ev) (simp_all add: on_editor_def)

text \<open>The event \<open>s'\<close> from \<open>e\<close> keeps the plans in order, and the timer unless the effect restarts it.\<close>

definition keeps :: "editor \<Rightarrow> editor \<times> page \<Rightarrow> bool" where
  "keeps e s' \<longleftrightarrow> open_storage (pg_storage (snd s')) \<and> plans_ok (fst s') (pg_storage (snd s')) \<and>
     (unchanged e (fst s') \<longrightarrow> timer_ok (fst s') (pg_storage (snd s')))"

lemma keeps_same: "saved_inv e (pg_storage p) \<Longrightarrow> open_storage (pg_storage p) \<Longrightarrow> keeps e (e, p)"
  by (simp add: keeps_def saved_inv_def)

lemma keeps_core:
  assumes "saved_inv e (pg_storage p)" and "open_storage (pg_storage p)" and "core (fst s') = core e"
    and "pg_storage (snd s') = pg_storage p"
  shows "keeps e s'"
  using assms(1,2,4) core_inv_cong(1,2) [OF assms(3)] by (simp add: keeps_def saved_inv_def)

lemma clocks_ok_simps [simp]: "clocks_ok (st\<lparr> st_currentId := i \<rparr>) = clocks_ok st"
  by (simp add: clocks_ok_def)

lemma clocks_ok_map:
  assumes "clocks_ok st" and "\<And>q. sp_updatedAt (f q) \<in> {sp_updatedAt q, now}" and "now \<le> 2 ^ 53"
  shows "clocks_ok (st\<lparr> st_plans := map f (st_plans st) \<rparr>)"
proof -
  have "sp_updatedAt (f q) \<le> 2 ^ 53" if "q \<in> set (st_plans st)" for q
    using assms(1,3) assms(2) [of q] that unfolding clocks_ok_def list_all_iff by auto
  then show ?thesis by (simp add: clocks_ok_def list_all_iff)
qed

lemma saved_clocks: "saved_inv e ls \<Longrightarrow> clocks_ok (ed_savedPlans e)"
  by (simp add: saved_inv_def plans_ok_def stored_def)

lemma saved_current: "saved_inv e ls \<Longrightarrow> ed_currentPlanId e \<in> {None, st_currentId (ed_savedPlans e)}"
  by (simp add: saved_inv_def plans_ok_def)

text \<open>A handler that ends by storing the plans it shows.\<close>

lemma keeps_stored:
  assumes "pg_storage (snd s') = setSavedPlans js_json (plans_json (ed_savedPlans (fst s'))) ls"
    and "open_storage ls" and "clocks_ok (ed_savedPlans (fst s'))"
    and "ed_currentPlanId (fst s') \<in> {None, st_currentId (ed_savedPlans (fst s'))}"
    and "unchanged e (fst s') \<Longrightarrow> timer_ok (fst s') ls"
  shows "keeps e s'"
proof -
  have "timer_ok (fst s') (setSavedPlans js_json w ls) = timer_ok (fst s') ls" for w
    by (cases "ed_timer (fst s')") (simp_all add: timer_ok_def saved_here_def)
  with assms stored_setSavedPlans [OF assms(2,3)] show ?thesis by (simp add: keeps_def plans_ok_def)
qed

text \<open>Where text and selection stay, a plan that keeps the code of the selected one keeps the timer valid.\<close>

lemma timer_ok_unchanged:
  assumes "saved_inv e ls" and "unchanged e e'" and "ed_timer e' = ed_timer e" and "getEditorCode ls' = getEditorCode ls"
    and "\<And>q. q \<in> set (st_plans (ed_savedPlans e')) \<Longrightarrow> ed_currentPlanId e = Some (sp_id q) \<Longrightarrow> sp_code q \<noteq> ed_code e \<Longrightarrow>
      \<exists>r \<in> set (st_plans (ed_savedPlans e)). sp_id r = sp_id q \<and> sp_code r = sp_code q"
  shows "timer_ok e' ls'"
proof (cases "ed_timer e")
  case None
  with assms(1) have "saved_here e ls" by (simp add: saved_inv_def timer_ok_def)
  with assms(2,4,5) have "saved_here e' ls'" unfolding saved_here_def unchanged_def by fastforce
  with None assms(3) show ?thesis by (simp add: timer_ok_def)
next
  case (Some c)
  with assms(1-3) show ?thesis by (simp add: saved_inv_def timer_ok_def unchanged_def)
qed

lemma keeps_autosave:
  assumes "saved_inv e (pg_storage p)" and "open_storage (pg_storage p)" and "now \<le> 2 ^ 53"
  shows "keeps e (autosave now (e, p))"
proof (cases "ed_timer e")
  case None
  with assms keeps_same show ?thesis by (simp add: autosave_def)
next
  case (Some t)
  with assms(1) have t: "t = (ed_code e, ed_currentPlanId e)" by (simp add: saved_inv_def timer_ok_def)
  show ?thesis
  proof (cases "present (ed_currentPlanId e)")
    case None
    with assms(1,2) Some t show ?thesis
      by (simp add: autosave_def keeps_def saved_inv_def plans_ok_def timer_ok_def saved_here_def)
  next
    case (Some i)
    with \<open>ed_timer e = Some t\<close> t have s: "autosave now (e, p) = storePlans ((ed_savedPlans e)\<lparr> st_plans :=
        map (\<lambda>q. if sp_id q = i then q\<lparr> sp_code := ed_code e, sp_updatedAt := now \<rparr> else q) (st_plans (ed_savedPlans e)) \<rparr>)
        (e\<lparr> ed_timer := None \<rparr>, p\<lparr> pg_storage := setEditorCode (ed_code e) (pg_storage p) \<rparr>)"
      by (auto simp: autosave_def Let_def present_def)
    show ?thesis unfolding s
    proof (rule keeps_stored [where ls = "setEditorCode (ed_code e) (pg_storage p)"], goal_cases)
      case 3
      have "clocks_ok ((ed_savedPlans e)\<lparr> st_plans :=
          map (\<lambda>q. if sp_id q = i then q\<lparr> sp_code := ed_code e, sp_updatedAt := now \<rparr> else q) (st_plans (ed_savedPlans e)) \<rparr>)"
        by (rule clocks_ok_map [OF saved_clocks [OF assms(1)] _ assms(3)]) simp
      then show ?case by (simp add: storePlans_def)
    next
      case 5
      have "sp_code q = ed_code e" if "i = sp_id q" and "q \<in> (\<lambda>x. x\<lparr> sp_code := ed_code e, sp_updatedAt := now \<rparr>) ` X" for q X
        using that by (elim imageE) simp
      with assms(2) Some show ?case by (simp add: storePlans_def timer_ok_def saved_here_def) blast
    qed (use assms(2) saved_current [OF assms(1)] in \<open>simp_all add: storePlans_def\<close>)
  qed
qed

lemma keeps_reset: "saved_inv e (pg_storage p) \<Longrightarrow> open_storage (pg_storage p) \<Longrightarrow> keeps e (handleReset (e, p))"
proof -
  assume inv: "saved_inv e (pg_storage p)" and ls: "open_storage (pg_storage p)"
  have "timer_ok e' (removeEditorCode (pg_storage p))"
    if "unchanged e e'" "ed_code e' = DEFAULT_PLAN" "ed_currentPlanId e' = None" "ed_timer e' = ed_timer e" for e'
    using that inv by (auto simp: timer_ok_def saved_here_def saved_inv_def unchanged_def present_def split: option.splits)
  then show ?thesis
    by (intro keeps_stored [where ls = "removeEditorCode (pg_storage p)"])
      (simp_all add: handleReset_def storePlans_def ls saved_clocks [OF inv])
qed

lemma keeps_choice:
  assumes "saved_inv e (pg_storage p)" and "open_storage (pg_storage p)"
  shows "keeps e (storePlans ((ed_savedPlans e)\<lparr> st_currentId := i \<rparr>) (e\<lparr> ed_code := c, ed_currentPlanId := i \<rparr>, p))"
proof (rule keeps_stored [where ls = "pg_storage p"], goal_cases)
  case 5
  then show ?case by (rule timer_ok_unchanged [OF assms(1)]) (auto simp: storePlans_def)
qed (use assms(2) saved_clocks [OF assms(1)] in \<open>simp_all add: storePlans_def\<close>)

lemma keeps_select:
  assumes "saved_inv e (pg_storage p)" and "open_storage (pg_storage p)"
  shows "keeps e (handleSelectPlan i (e, p))"
  using keeps_choice [OF assms] keeps_same [OF assms] by (simp add: handleSelectPlan_def split: option.splits)

lemma keeps_saveAs:
  assumes "saved_inv e (pg_storage p)" and "open_storage (pg_storage p)" and "now \<le> 2 ^ 53"
  shows "keeps e (confirmSaveAs i now n (e, p))"
proof (rule keeps_stored [where ls = "pg_storage p"], goal_cases)
  case 3
  then show ?case using saved_clocks [OF assms(1)] assms(3)
    by (simp add: confirmSaveAs_def Let_def storePlans_def on_editor_def showToastWithMessage_def clocks_ok_def)
next
  case 5
  then show ?case
    by (rule timer_ok_unchanged [OF assms(1)])
      (auto simp: confirmSaveAs_def Let_def storePlans_def on_editor_def showToastWithMessage_def)
qed (use assms(2) in \<open>simp_all add: confirmSaveAs_def Let_def storePlans_def on_editor_def showToastWithMessage_def\<close>)

lemma delete_fields:
  assumes "present (ed_currentPlanId e) = Some i"
  shows "ed_savedPlans (fst (confirmDelete (e, p))) =
      \<lparr> st_plans = filter (\<lambda>q. sp_id q \<noteq> i) (st_plans (ed_savedPlans e)), st_currentId = None \<rparr>"
    and "ed_currentPlanId (fst (confirmDelete (e, p))) = None" and "ed_code (fst (confirmDelete (e, p))) = ed_code e"
    and "pg_storage (snd (confirmDelete (e, p))) =
      setSavedPlans js_json (plans_json (ed_savedPlans (fst (confirmDelete (e, p))))) (pg_storage p)"
  using assms
  by (simp_all add: confirmDelete_def storePlans_def on_editor_def showToastWithMessage_def split: option.split)

lemma keeps_delete:
  assumes "saved_inv e (pg_storage p)" and "open_storage (pg_storage p)"
  shows "keeps e (confirmDelete (e, p))"
proof (cases "present (ed_currentPlanId e)")
  case None
  with keeps_same [OF assms] show ?thesis by (simp add: confirmDelete_def)
next
  case (Some i)
  note f = delete_fields [OF Some]
  from Some have "\<not> unchanged e (fst (confirmDelete (e, p)))" by (auto simp: unchanged_def f)
  moreover have "clocks_ok (ed_savedPlans (fst (confirmDelete (e, p))))"
    using saved_clocks [OF assms(1)] by (auto simp: f(1) clocks_ok_def list_all_iff)
  ultimately show ?thesis by (intro keeps_stored [OF f(4) assms(2)]) (simp_all add: f)
qed

lemma rename_fields:
  assumes "present (ed_currentPlanId e) = Some i"
  shows "ed_savedPlans (fst (confirmRename n (e, p))) = (ed_savedPlans e)\<lparr> st_plans :=
      map (\<lambda>q. if sp_id q = i then q\<lparr> sp_name := n \<rparr> else q) (st_plans (ed_savedPlans e)) \<rparr>"
    and "ed_currentPlanId (fst (confirmRename n (e, p))) = ed_currentPlanId e"
    and "ed_code (fst (confirmRename n (e, p))) = ed_code e" and "ed_timer (fst (confirmRename n (e, p))) = ed_timer e"
    and "pg_storage (snd (confirmRename n (e, p))) =
      setSavedPlans js_json (plans_json (ed_savedPlans (fst (confirmRename n (e, p))))) (pg_storage p)"
  using assms
  by (simp_all add: confirmRename_def storePlans_def on_editor_def showToastWithMessage_def split: option.split)

lemma keeps_rename:
  assumes "saved_inv e (pg_storage p)" and "open_storage (pg_storage p)"
  shows "keeps e (confirmRename n (e, p))"
proof (cases "present (ed_currentPlanId e)")
  case None
  with keeps_same [OF assms] show ?thesis by (simp add: confirmRename_def)
next
  case (Some i)
  note f = rename_fields [OF Some]
  have clocks: "clocks_ok (ed_savedPlans (fst (confirmRename n (e, p))))"
    unfolding f(1) by (rule clocks_ok_map [OF saved_clocks [OF assms(1)], of _ 0]) simp_all
  have "\<exists>r \<in> set (st_plans (ed_savedPlans e)). sp_id r = sp_id q \<and> sp_code r = sp_code q"
    if "q \<in> set (st_plans (ed_savedPlans (fst (confirmRename n (e, p)))))" for q
    using that unfolding f(1) by force
  then have "timer_ok (fst (confirmRename n (e, p))) (pg_storage p)"
    by (intro timer_ok_unchanged [OF assms(1)]) (simp_all add: unchanged_def f(2-4))
  with clocks saved_current [OF assms(1)] show ?thesis
    by (intro keeps_stored [OF f(5) assms(2)]) (simp_all add: f(1,2))
qed

lemma keeps_typed:
  assumes "saved_inv e (pg_storage p)" and "open_storage (pg_storage p)"
  shows "keeps e (e\<lparr> ed_code := c \<rparr>, p)"
proof -
  have "timer_ok (e\<lparr> ed_code := c \<rparr>) (pg_storage p)" if "unchanged e (e\<lparr> ed_code := c \<rparr>)"
    by (rule timer_ok_unchanged [OF assms(1) that]) auto
  with assms show ?thesis by (simp add: keeps_def saved_inv_def plans_ok_def)
qed

lemma keeps_event:
  assumes "saved_inv e (pg_storage p)" and "open_storage (pg_storage p)" and "in_time ev"
  shows "keeps e (on_event ev (e, p))"
proof (cases "quiet ev")
  case True
  with assms show ?thesis using quiet_core [of ev e p] keeps_core by blast
next
  case False
  with assms show ?thesis
    using keeps_same [OF assms(1,2)] keeps_autosave [OF assms(1,2)] keeps_reset [OF assms(1,2)] keeps_select [OF assms(1,2)]
      keeps_saveAs [OF assms(1,2)] keeps_delete [OF assms(1,2)] keeps_rename [OF assms(1,2)] keeps_typed [OF assms(1,2)]
    by (cases ev) (auto simp: promptConfirm_def on_editor_def split: option.splits modal_state.splits)
qed


text \<open>Rendering.\<close>

lemma rearm_inv: "keeps e s' \<Longrightarrow> saved_inv (rearm e (fst s')) (pg_storage (snd s'))"
  unfolding keeps_def unchanged_def rearm_def
  by (auto simp: saved_inv_def plans_ok_def timer_ok_def)

lemma pg_storage_takeSource [simp]: "pg_storage (snd (takeSource (e, p))) = pg_storage p"
  by (simp add: takeSource_def split: option.split)

lemma takeSource_inv:
  assumes "saved_inv e (pg_storage p)" and "open_storage (pg_storage p)"
  shows "saved_inv (fst (takeSource (e, p))) (pg_storage p)"
proof (cases "present (editSourceCode (b_store (pg_browser p)))")
  case None
  with assms show ?thesis by (simp add: takeSource_def)
next
  case (Some src)
  have "timer_ok (e\<lparr> ed_code := src, ed_currentPlanId := None \<rparr>) (pg_storage p)"
    if "unchanged e (e\<lparr> ed_code := src, ed_currentPlanId := None \<rparr>)"
    by (rule timer_ok_unchanged [OF assms(1) that]) auto
  with assms have "keeps e (e\<lparr> ed_code := src, ed_currentPlanId := None \<rparr>, p)"
    by (simp add: keeps_def saved_inv_def plans_ok_def)
  from rearm_inv [OF this] Some show ?thesis by (simp add: takeSource_def)
qed

lemma render_inv:
  assumes "keeps e s'"
  shows "saved_inv (fst (render e s')) (pg_storage (snd (render e s')))"
  using takeSource_inv [OF rearm_inv [OF assms]] assms by (simp add: render_def keeps_def)

lemma pg_storage_render [simp]: "pg_storage (snd (render e s)) = pg_storage (snd s)"
  by (simp add: render_def)

text \<open>Mounting reads what is stored.\<close>

lemma plans_of_stored: "plans_of (getSavedPlans js_json ls) = Some st \<Longrightarrow> stored st ls"
  by (auto simp: plans_of_def stored_def Let_def split: if_splits)

lemma getInitialCode_storage [simp]: "pg_storage (snd (getInitialCode p)) = pg_storage p"
  by (simp add: getInitialCode_def split: option.split)

lemma mountD:
  assumes "mount p = Some s"
  obtains st where "plans_of (getSavedPlans js_json (pg_storage p)) = Some st"
    and "s = takeSource (initialEditor (Suc (pg_mounts p)) (fst (getInitialCode p)) st,
      (snd (getInitialCode p))\<lparr> pg_mounts := Suc (pg_mounts p) \<rparr>)"
proof -
  have "pg_mounts (snd (getInitialCode p)) = pg_mounts p" by (simp add: getInitialCode_def split: option.split)
  with assms that show ?thesis by (cases "plans_of (getSavedPlans js_json (pg_storage p))") (simp_all add: mount_def Let_def)
qed

lemma mount_inv:
  assumes "mount p = Some (e, p')" and "open_storage (pg_storage p)"
  shows "saved_inv e (pg_storage p')"
proof -
  let ?p = "(snd (getInitialCode p))\<lparr> pg_mounts := Suc (pg_mounts p) \<rparr>"
  let ?e = "initialEditor (Suc (pg_mounts p)) (fst (getInitialCode p))"
  from mountD [OF assms(1)] obtain st where st: "plans_of (getSavedPlans js_json (pg_storage p)) = Some st"
    and s: "(e, p') = takeSource (?e st, ?p)" .
  have "saved_inv (?e st) (pg_storage ?p)"
    using plans_of_stored [OF st] by (simp add: initialEditor_def saved_inv_def plans_ok_def timer_ok_def)
  then have "saved_inv (fst (takeSource (?e st, ?p))) (pg_storage ?p)" using assms(2) by (intro takeSource_inv) simp_all
  moreover have "pg_storage p' = pg_storage ?p" using pg_storage_takeSource [of "?e st" ?p] by (simp flip: s)
  ultimately show ?thesis by (simp flip: s)
qed

section \<open>Compilations in flight\<close>

text \<open>The part of the state that the compile button works on.\<close>

definition flight :: "editor \<times> page \<Rightarrow> nat \<times> bool \<times> bool \<times> compilation list \<times> nat" where
  "flight s = (ed_instance (fst s), ed_compiling (fst s), ed_status (fst s) = Compiling, pg_compiles (snd s), pg_mounts (snd s))"

lemma flight_simps [simp]:
  "flight (storePlans st s) = flight s" "flight (rearm old e, p) = flight (e, p)" "flight (takeSource (e, p)) = flight (e, p)"
  "flight (showToastWithMessage t e, p) = flight (e, p)"
  "flight (e\<lparr> ed_code := c \<rparr>, p) = flight (e, p)" "flight (e\<lparr> ed_currentPlanId := i \<rparr>, p) = flight (e, p)"
  "flight (e\<lparr> ed_modal := m \<rparr>, p) = flight (e, p)" "flight (e\<lparr> ed_timer := t' \<rparr>, p) = flight (e, p)"
  "flight (e, p\<lparr> pg_storage := ls \<rparr>) = flight (e, p)" "flight (e, p\<lparr> pg_hash := h \<rparr>) = flight (e, p)"
  "flight (e, p\<lparr> pg_browser := b \<rparr>) = flight (e, p)" "flight (e, p\<lparr> pg_clipboard := cl \<rparr>) = flight (e, p)"
  "flight (e\<lparr> ed_copies := k \<rparr>, p) = flight (e, p)" "flight (e\<lparr> ed_toasts := k, ed_showToast := b' \<rparr>, p) = flight (e, p)"
  by (simp_all add: flight_def storePlans_def rearm_def takeSource_def showToastWithMessage_def split: option.split)

lemma flight_render [simp]: "flight (render e s) = flight s"
  by (simp add: render_def)

lemma flight_actions [simp]:
  "flight (autosave now s) = flight s" "flight (handleShare s) = flight s" "flight (on_editor copied s) = flight s"
  "flight (on_editor toastOver s) = flight s" "flight (handleReset s) = flight s" "flight (on_editor handleSaveAs s) = flight s"
  "flight (confirmSaveAs i now n s) = flight s" "flight (handleSelectPlan i s) = flight s"
  "flight (on_editor handleDeletePlan s) = flight s" "flight (confirmDelete s) = flight s"
  "flight (on_editor handleRenamePlan s) = flight s" "flight (confirmRename n s) = flight s"
  by (cases s; simp add: autosave_def handleShare_def copied_def toastOver_def handleReset_def handleSaveAs_def confirmSaveAs_def
      handleSelectPlan_def handleDeletePlan_def confirmDelete_def handleRenamePlan_def confirmRename_def on_editor_def Let_def
      split: option.split)+

lemma flight_event: "ev \<noteq> Compile \<Longrightarrow> flight (on_event ev s) = flight s"
  by (cases ev) (simp_all add: promptConfirm_def split: option.split modal_state.split, simp_all add: on_editor_def)


text \<open>One compilation at most is in flight for the mounted component, and the button shows it.\<close>

definition flight_ok :: "nat \<times> bool \<times> bool \<times> compilation list \<times> nat \<Rightarrow> bool" where
  "flight_ok f =
     (case f of (n, compiling, busy, cs, mounts) \<Rightarrow>
        n = mounts \<and> busy = compiling \<and> length (filter (\<lambda>c. cp_owner c = n) cs) = (if compiling then 1 else 0))"

lemma flight_ok_compile: "flight_ok (flight s) \<Longrightarrow> flight_ok (flight (handleCompile s))"
  by (cases s) (auto simp: handleCompile_def flight_def flight_ok_def)

lemma flight_ok_event: "flight_ok (flight s) \<Longrightarrow> flight_ok (flight (on_event ev s))"
  using flight_ok_compile flight_event by (cases "ev = Compile") auto

lemma filter_remove_at: "i < length cs \<Longrightarrow>
    length (filter P cs) = length (filter P (remove_at i cs)) + (if P (cs ! i) then 1 else 0)"
  by (subst id_take_nth_drop [of i cs]) (simp_all add: remove_at_def)

text \<open>The effects on the store are those of its own actions.\<close>

lemma browser_actions [simp]:
  "pg_browser (snd (storePlans st s)) = pg_browser (snd s)" "pg_browser (snd (on_editor f s)) = pg_browser (snd s)"
  "pg_browser (snd (handleCompile s)) = pg_browser (snd s)" "pg_browser (snd (handleShare s)) = pg_browser (snd s)"
  by (cases s; simp add: storePlans_def on_editor_def handleCompile_def handleShare_def Let_def)+

lemma browser_handlers [simp]:
  "pg_browser (snd (autosave now s)) = pg_browser (snd s)" "pg_browser (snd (handleReset s)) = pg_browser (snd s)"
  "pg_browser (snd (confirmSaveAs i now n s)) = pg_browser (snd s)" "pg_browser (snd (handleSelectPlan i s)) = pg_browser (snd s)"
  "pg_browser (snd (confirmDelete s)) = pg_browser (snd s)" "pg_browser (snd (confirmRename n s)) = pg_browser (snd s)"
  by (cases s; simp add: autosave_def handleReset_def confirmSaveAs_def handleSelectPlan_def confirmDelete_def confirmRename_def
      Let_def split: option.split)+

lemma browser_event [simp]: "pg_browser (snd (on_event ev s)) = pg_browser (snd s)"
  by (cases ev) (simp_all add: promptConfirm_def split: option.split modal_state.split)

lemma takeSource_reachable: "reachable env (pg_browser p) \<Longrightarrow> reachable env (pg_browser (snd (takeSource (e, p))))"
  using reachable.action [of env "pg_browser p" "SetEditSourceCode None"]
  by (simp add: takeSource_def split: option.split)

lemma render_reachable: "reachable env (pg_browser (snd s)) \<Longrightarrow> reachable env (pg_browser (snd (render e s)))"
  using takeSource_reachable by (simp add: render_def)

lemma compiledPlan_fields [simp]:
  "pg_storage (compiledPlan env c r p) = pg_storage p" "pg_compiles (compiledPlan env c r p) = pg_compiles p"
  "pg_mounts (compiledPlan env c r p) = pg_mounts p"
  by (simp_all add: compiledPlan_def split: compile_response.split option.split bool.split)

lemma compiledPlan_reachable: "reachable env (pg_browser p) \<Longrightarrow> reachable env (pg_browser (compiledPlan env c r p))"
  using reachable.action [of env "pg_browser p" "LoadPlan _ _ True"]
  by (simp add: compiledPlan_def split: compile_response.split option.split bool.split)

lemma compileDone_fields [simp]:
  "core (compileDone r e) = core e" "ed_instance (compileDone r e) = ed_instance e" "\<not> ed_compiling (compileDone r e)"
  "ed_status (compileDone r e) \<noteq> Compiling"
  by (simp_all add: compileDone_def core_def split: compile_response.split option.split bool.split)


lemma permission_handlers [simp]:
  "open_storage (pg_storage (snd (storePlans st s))) = open_storage (pg_storage (snd s))"
  "pg_storage (snd (on_editor f s)) = pg_storage (snd s)"
  by (simp_all add: storePlans_def on_editor_def)

lemma permission_event [simp]: "open_storage (pg_storage (snd (on_event ev s))) = open_storage (pg_storage (snd s))"
proof (cases s)
  case (Pair e p)
  have "open_storage (pg_storage (snd (autosave now s))) = open_storage (pg_storage p)"
    "open_storage (pg_storage (snd (handleReset s))) = open_storage (pg_storage p)"
    "open_storage (pg_storage (snd (confirmSaveAs i now n s))) = open_storage (pg_storage p)"
    "open_storage (pg_storage (snd (handleSelectPlan i s))) = open_storage (pg_storage p)"
    "open_storage (pg_storage (snd (confirmDelete s))) = open_storage (pg_storage p)"
    "open_storage (pg_storage (snd (confirmRename n s))) = open_storage (pg_storage p)" for now i n
    by (simp add: Pair autosave_def handleReset_def confirmSaveAs_def handleSelectPlan_def confirmDelete_def confirmRename_def
        Let_def split: option.split)+
  then show ?thesis
    using quiet_core [of ev e p]
    by (cases ev) (simp_all add: Pair promptConfirm_def split: option.split modal_state.split)
qed

section \<open>Every reachable state\<close>

fun app_inv :: "vis_env \<Rightarrow> app \<Rightarrow> bool" where
  "app_inv env (eo, p) \<longleftrightarrow> reachable env (pg_browser p) \<and> list_all (\<lambda>c. cp_owner c \<le> pg_mounts p) (pg_compiles p) \<and>
     (case eo of None \<Rightarrow> True
      | Some e \<Rightarrow> flight_ok (flight (e, p)) \<and> (open_storage (pg_storage p) \<longrightarrow> saved_inv e (pg_storage p)))"

lemma owners_event:
  assumes "list_all (\<lambda>c. cp_owner c \<le> pg_mounts p) (pg_compiles p)" and "flight_ok (flight (e, p))"
  shows "list_all (\<lambda>c. cp_owner c \<le> pg_mounts (snd (on_event ev (e, p)))) (pg_compiles (snd (on_event ev (e, p))))"
proof (cases "ev = Compile")
  case True
  with assms show ?thesis by (simp add: handleCompile_def flight_def flight_ok_def)
next
  case False
  with flight_event [of ev "(e, p)"] assms(1) show ?thesis by (simp add: flight_def)
qed

lemma render_fields [simp]: "pg_compiles (snd (render e s)) = pg_compiles (snd s)" "pg_mounts (snd (render e s)) = pg_mounts (snd s)"
  using flight_render [of e s] by (simp_all add: flight_def)

lemma app_inv_event:
  assumes "app_inv env (Some e, p)" and "in_time ev" and "ed_step ev (e, p) = (e', p')"
  shows "app_inv env (Some e', p')"
proof -
  let ?s = "on_event ev (e, p)"
  have r: "(e', p') = render e ?s" using assms(3) by (simp add: ed_step_def)
  then have p': "p' = snd (render e ?s)" and e': "e' = fst (render e ?s)" by (metis fst_conv snd_conv)+
  have "saved_inv e' (pg_storage p')" if "open_storage (pg_storage p')"
  proof -
    from that have ls: "open_storage (pg_storage p)" by (simp add: p')
    with assms(1,2) have "keeps e ?s" by (intro keeps_event) simp_all
    then show ?thesis unfolding e' p' by (rule render_inv)
  qed
  moreover have "flight_ok (flight (e', p'))" using assms(1) flight_ok_event [of "(e, p)" ev] by (simp add: r)
  moreover have "reachable env (pg_browser p')" using assms(1) by (simp add: p' render_reachable)
  ultimately show ?thesis using owners_event [of p e ev] assms(1) by (simp add: p')
qed

lemma app_inv_rerender:
  assumes "reachable env (pg_browser p)" and "list_all (\<lambda>c. cp_owner c \<le> pg_mounts p) (pg_compiles p)"
    and "\<And>e. eo = Some e \<Longrightarrow> flight_ok (flight (f e, p)) \<and> (open_storage (pg_storage p) \<longrightarrow> keeps e (f e, p))"
  shows "app_inv env (rerender f eo p)"
proof (cases eo)
  case None
  with assms show ?thesis by (simp add: rerender_def)
next
  case (Some e)
  obtain e' p' where r: "render e (f e, p) = (e', p')" by (cases "render e (f e, p)")
  have "pg_storage p' = pg_storage p" "pg_compiles p' = pg_compiles p" "pg_mounts p' = pg_mounts p"
    using pg_storage_render [of e "(f e, p)"] render_fields [of e "(f e, p)"] by (simp_all add: r)
  moreover have "flight (e', p') = flight (f e, p)" using flight_render [of e "(f e, p)"] by (simp add: r)
  moreover have "reachable env (pg_browser p')" using render_reachable [of env "(f e, p)" e] assms(1) by (simp add: r)
  moreover have "saved_inv e' (pg_storage p')" if "keeps e (f e, p)" using render_inv [OF that] by (simp add: r)
  ultimately show ?thesis using assms(2,3) Some by (simp add: rerender_def r)
qed

lemma app_inv_answer:
  assumes "app_inv env s"
  shows "app_inv env (compileAnswer env i r s)"
proof (cases s)
  case (Pair eo p)
  show ?thesis
  proof (cases "i < length (pg_compiles p)")
    case True
    let ?c = "pg_compiles p ! i" and ?p = "p\<lparr> pg_compiles := remove_at i (pg_compiles p) \<rparr>"
    have sub: "set (remove_at i (pg_compiles p)) \<subseteq> set (pg_compiles p)"
      by (auto simp: remove_at_def dest: in_set_takeD in_set_dropD)
    have "app_inv env (rerender (\<lambda>e. if cp_owner ?c = ed_instance e then compileDone r e else e) eo (compiledPlan env ?c r ?p))"
    proof (rule app_inv_rerender, goal_cases)
      case 1
      then show ?case using assms Pair by (intro compiledPlan_reachable) simp
    next
      case 2
      then show ?case using assms Pair sub by (auto simp: list_all_iff)
    next
      case (3 e)
      with assms Pair have inv: "flight_ok (flight (e, p))" "open_storage (pg_storage p) \<longrightarrow> saved_inv e (pg_storage p)" by simp_all
      have "flight_ok (flight (if cp_owner ?c = ed_instance e then compileDone r e else e, compiledPlan env ?c r ?p))"
        using inv(1) filter_remove_at [OF True, of "\<lambda>c. cp_owner c = ed_instance e"]
        by (auto simp: flight_def flight_ok_def split: if_splits)
      moreover have "keeps e (if cp_owner ?c = ed_instance e then compileDone r e else e, compiledPlan env ?c r ?p)"
        if "open_storage (pg_storage p)"
        using inv(2) that by (intro keeps_core [of e p]) simp_all
      ultimately show ?case by simp
    qed
    with True Pair show ?thesis by (simp add: compileAnswer_def Let_def)
  next
    case False
    with assms Pair show ?thesis by (simp add: compileAnswer_def)
  qed
qed


lemma app_inv_mount:
  assumes "app_inv env (None, p)" and "mount p = Some (e, p')"
  shows "app_inv env (Some e, p')"
proof -
  let ?p = "(snd (getInitialCode p))\<lparr> pg_mounts := Suc (pg_mounts p) \<rparr>"
  from mountD [OF assms(2)] obtain st
    where s: "(e, p') = takeSource (initialEditor (Suc (pg_mounts p)) (fst (getInitialCode p)) st, ?p)" (is "_ = takeSource (?e, _)") .
  have kept: "pg_compiles ?p = pg_compiles p" "pg_browser ?p = pg_browser p"
    by (simp_all add: getInitialCode_def split: option.split)
  have fl: "flight (e, p') = flight (?e, ?p)" by (simp add: s)
  have none: "filter (\<lambda>c. cp_owner c = Suc (pg_mounts p)) (pg_compiles p) = []"
    using assms(1) by (auto simp: filter_empty_conv list_all_iff)
  have "flight_ok (flight (?e, ?p))"
    by (simp add: flight_def flight_ok_def initialEditor_def kept none)
  moreover have "pg_compiles p' = pg_compiles p" "pg_mounts p' = Suc (pg_mounts p)"
    using fl by (simp_all add: flight_def kept)
  moreover have "reachable env (pg_browser p')"
    using takeSource_reachable [of env ?p ?e] assms(1) by (simp add: kept flip: s)
  moreover have "open_storage (pg_storage p)" if "open_storage (pg_storage p')"
    using that pg_storage_takeSource [of ?e ?p] by (simp flip: s)
  ultimately show ?thesis using assms(1) mount_inv [OF assms(2)] by (auto simp: fl list_all_iff)
qed

lemma set_item_other:
  assumes "k \<noteq> KEY_editorCode" and "k \<noteq> KEY_savedPlans"
  shows "getEditorCode (set_item k v ls) = getEditorCode ls" and "getSavedPlans jt (set_item k v ls) = getSavedPlans jt ls"
  using assms by (simp_all add: set_item_def getEditorCode_def getSavedPlans_def pref_get_def)

lemma ed_reachable_inv: "ed_reachable env s \<Longrightarrow> app_inv env s"
proof (induction rule: ed_reachable.induct)
  case (opened q ls url hash)
  then show ?case by (simp add: openPage_def reachable.start)
next
  case (store eo p b)
  then have "reachable env b" using browser_step_reachable by auto
  moreover have "keeps e (e, p\<lparr> pg_browser := b \<rparr>)" if "saved_inv e (pg_storage p)" "open_storage (pg_storage p)" for e
    by (rule keeps_core [OF that]) simp_all
  ultimately show ?case using store(3) by (intro app_inv_rerender) (auto split: option.splits)
next
  case (layout eo p k v)
  have "saved_inv e (set_item k v ls) = saved_inv e ls" for e ls
    using set_item_other [OF layout(2,3)] by (simp add: saved_inv_def plans_ok_def stored_def timer_ok_def saved_here_def split: option.split)
  with layout show ?case by (auto split: option.splits)
next
  case (mounted p e p')
  show ?case by (rule app_inv_mount [OF mounted.IH mounted.hyps(2)])
next
  case (event e p ev e' p')
  show ?case by (rule app_inv_event [OF event.IH event.hyps(2,3)])
next
  case (compiled s i resp)
  show ?case by (rule app_inv_answer [OF compiled.IH])
qed (auto split: option.splits)

text \<open>
  Property C34. In every state the page can reach with the plan editor open, under any interleaving of typing,
  the autosave timer, dialogs, compilations, actions of other components and remounting, and with a storage
  that accepts every write: the library of saved plans in local storage is the one shown; the selected
  plan is the stored selection or none; a pending autosave is for the text and plan now shown; once
  none is pending, the selected plan holds the text shown and a new page without a link opens with
  that text; a compilation is in flight for the editor exactly while it shows so; and the
  store is in one of the states of the store's own transition system.
\<close>

theorem editor_saves:
  assumes "ed_reachable env (Some e, p)" and "open_storage (pg_storage p)"
  shows "getSavedPlans js_json (pg_storage p) = plans_json (ed_savedPlans e) \<and>
    ed_currentPlanId e \<in> {None, st_currentId (ed_savedPlans e)} \<and>
    ed_timer e \<in> {None, Some (ed_code e, ed_currentPlanId e)} \<and>
    (ed_timer e = None \<longrightarrow>
      (\<forall>q \<in> set (st_plans (ed_savedPlans e)). present (ed_currentPlanId e) = Some (sp_id q) \<longrightarrow> sp_code q = ed_code e) \<and>
      (ed_code e \<noteq> [] \<longrightarrow> fst (getInitialCode (p\<lparr> pg_hash := [] \<rparr>)) = ed_code e)) \<and>
    length (filter (\<lambda>c. cp_owner c = ed_instance e) (pg_compiles p)) = (if ed_compiling e then 1 else 0) \<and>
    reachable env (pg_browser p)"
proof -
  have inv: "saved_inv e (pg_storage p)" "flight_ok (flight (e, p))" "reachable env (pg_browser p)"
    using ed_reachable_inv [OF assms(1)] assms(2) by simp_all
  have reopen: "fst (getInitialCode (p\<lparr> pg_hash := [] \<rparr>)) = ed_code e" if "saved_here e (pg_storage p)" "ed_code e \<noteq> []"
    using that by (auto simp: saved_here_def getInitialCode_def linkedCode_def)
  from inv(2) have "length (filter (\<lambda>c. cp_owner c = ed_instance e) (pg_compiles p)) = (if ed_compiling e then 1 else 0)"
    unfolding flight_def flight_ok_def prod.case fst_conv snd_conv by blast
  with inv(1,3) reopen show ?thesis
    by (auto simp: saved_inv_def plans_ok_def stored_def timer_ok_def saved_here_def split: option.splits)
qed


lemma map_keeps: "q \<in> set qs \<Longrightarrow> f q = q \<Longrightarrow> q \<in> set (map f qs)"
  by force

text \<open>
  No event on the editor changes, renames or deletes a saved plan other than the selected one: in
  every reachable state every other plan is still in the library, as it was, after the event.
\<close>

theorem other_plans_kept:
  assumes "ed_reachable env (Some e, p)" and "open_storage (pg_storage p)"
    and "q \<in> set (st_plans (ed_savedPlans e))" and "ed_currentPlanId e \<noteq> Some (sp_id q)"
    and "ed_step ev (e, p) = (e', p')"
  shows "q \<in> set (st_plans (ed_savedPlans e'))"
proof -
  have timer: "ed_timer e \<in> {None, Some (ed_code e, ed_currentPlanId e)}"
    using ed_reachable_inv [OF assms(1)] assms(2) by (auto simp: saved_inv_def timer_ok_def split: option.splits)
  have rendered: "ed_savedPlans (fst (render e s)) = ed_savedPlans (fst s)" for s
    by (simp add: render_def takeSource_def rearm_def split: option.split)
  have "q \<in> set (st_plans (ed_savedPlans (fst (on_event ev (e, p)))))"
  proof (cases "quiet ev")
    case True
    with quiet_core [of ev e p] assms(3) show ?thesis by (simp add: core_def)
  next
    case False
    have other: "i \<noteq> sp_id q" if "present (ed_currentPlanId e) = Some i" for i using that assms(4) by auto
    have "q \<in> set (st_plans (ed_savedPlans (fst (autosave now (e, p)))))" for now
      using timer assms(3) other map_keeps [OF assms(3), of "\<lambda>r. if sp_id r = _ then _ r else r"]
      by (cases "present (ed_currentPlanId e)") (auto simp: autosave_def storePlans_def Let_def simp del: present_Some)
    moreover have "q \<in> set (st_plans (ed_savedPlans (fst (confirmRename n (e, p)))))" for n
      using assms(3) other rename_fields(1) [of e _ n p]
      by (cases "present (ed_currentPlanId e)") (auto simp: confirmRename_def simp del: present_Some intro!: map_keeps)
    moreover have "q \<in> set (st_plans (ed_savedPlans (fst (confirmDelete (e, p)))))"
      using assms(3) other delete_fields(1) [of e _ p]
      by (cases "present (ed_currentPlanId e)") (auto simp: confirmDelete_def simp del: present_Some)
    ultimately have "q \<in> set (st_plans (ed_savedPlans (fst (autosave now (e, p)))))"
      "q \<in> set (st_plans (ed_savedPlans (fst (confirmRename n (e, p)))))"
      "q \<in> set (st_plans (ed_savedPlans (fst (confirmDelete (e, p)))))" for now n by blast+
    with False assms(3) show ?thesis
      by (cases ev) (simp_all add: handleReset_def handleSelectPlan_def confirmSaveAs_def promptConfirm_def storePlans_def
        on_editor_def showToastWithMessage_def Let_def split: option.split modal_state.split)
  qed
  with assms(5) rendered [of "on_event ev (e, p)"] show ?thesis by (simp add: ed_step_def)
qed



section \<open>A concrete session\<close>

definition demo_app :: "ed_event list \<Rightarrow> editor \<times> page" where
  "demo_app evs = foldl (\<lambda>s ev. ed_step ev s)
     (takeSource (initialEditor 1 DEFAULT_PLAN \<lparr> st_plans = [], st_currentId = None \<rparr>,
        (openPage (initHistory []) demo_storage ''http://localhost/'' [])\<lparr> pg_mounts := 1 \<rparr>)) evs"

lemma demo_mount:
  "mount (openPage (initHistory []) demo_storage ''http://localhost/'' []) = Some (demo_app [])"
  by (simp add: mount_def Let_def demo_app_def getInitialCode_def openPage_def linkedCode_def demo_storage_def getEditorCode_def
      getSavedPlans_def pref_get_def nullish_def plans_of_def noSavedPlans_def plans_json_def id_json_def clocks_ok_def
      getp.simps obj_get_def List.map_filter_def)

lemma demo_snoc: "demo_app (evs @ [ev]) = ed_step ev (demo_app evs)"
  by (simp add: demo_app_def)

lemma demo_reachable: "list_all in_time evs \<Longrightarrow> ed_reachable still (Some (fst (demo_app evs)), snd (demo_app evs))"
proof (induction evs rule: rev_induct)
  case Nil
  show ?case
    by (rule ed_reachable.mounted [OF ed_reachable.opened [of still "[]" demo_storage "''http://localhost/''" "[]"]])
      (simp add: demo_mount)
next
  case (snoc ev evs)
  then have "ed_reachable still (Some (fst (demo_app evs)), snd (demo_app evs))" and "in_time ev" by simp_all
  then show ?case by (rule ed_reachable.event) (simp add: demo_snoc)
qed

lemma demo_open: "open_storage (pg_storage (snd (demo_app evs)))"
proof (induction evs rule: rev_induct)
  case (snoc ev evs)
  then show ?case by (simp add: demo_snoc ed_step_def)
qed (simp add: demo_app_def openPage_def demo_storage_def open_storage_def)

definition demo_events :: "ed_event list" where
  "demo_events = [SaveAs, PromptOk '' mine '' ''k1'' 7, Typed (Some ''x''), Autosave 9]"

lemma demo_no_source: "editSourceCode (b_store (pg_browser (snd (demo_app evs)))) = None"
proof (induction evs rule: rev_induct)
  case Nil
  have "editSourceCode (b_store (initHistory [])) = None"
    by (simp add: initHistory_def initialStore_def params_get_def)
  then show ?case by (simp add: demo_app_def takeSource_def openPage_def)
next
  case (snoc ev evs)
  then show ?case by (simp add: demo_snoc ed_step_def render_def takeSource_def)
qed

lemma demo_render: "demo_app (evs @ [ev]) =
    (rearm (fst (demo_app evs)) (fst (on_event ev (demo_app evs))), snd (on_event ev (demo_app evs)))"
  using demo_no_source [of evs] by (simp add: demo_snoc ed_step_def render_def takeSource_def)

lemma demo_Nil: "demo_app [] = (initialEditor 1 DEFAULT_PLAN \<lparr> st_plans = [], st_currentId = None \<rparr>,
    (openPage (initHistory []) demo_storage ''http://localhost/'' [])\<lparr> pg_mounts := 1 \<rparr>)"
proof -
  have "editSourceCode (b_store (initHistory [])) = None" by (simp add: initHistory_def initialStore_def params_get_def)
  then show ?thesis by (simp add: demo_app_def takeSource_def openPage_def)
qed

lemma demo_dialog: "core (fst (demo_app [SaveAs])) = (DEFAULT_PLAN, None, \<lparr> st_plans = [], st_currentId = None \<rparr>, Some (DEFAULT_PLAN, None))"
  "\<exists>n. ed_modal (fst (demo_app [SaveAs])) = Some (SaveAsModal n)"
  using demo_render [of "[]" SaveAs]
  by (simp_all add: demo_Nil initialEditor_def on_editor_def handleSaveAs_def rearm_def core_def)

lemma demo_named: "core (fst (demo_app [SaveAs, PromptOk '' mine '' ''k1'' 7])) =
    (DEFAULT_PLAN, Some ''k1'',
     \<lparr> st_plans = [\<lparr> sp_id = ''k1'', sp_name = ''mine'', sp_code = DEFAULT_PLAN, sp_updatedAt = 7 \<rparr>], st_currentId = Some ''k1'' \<rparr>,
     Some (DEFAULT_PLAN, Some ''k1''))"
proof -
  obtain n where "ed_modal (fst (demo_app [SaveAs])) = Some (SaveAsModal n)" using demo_dialog(2) by blast
  moreover have "trim '' mine '' = ''mine''" by code_simp
  ultimately have "on_event (PromptOk '' mine '' ''k1'' 7) (demo_app [SaveAs]) = confirmSaveAs ''k1'' 7 ''mine'' (demo_app [SaveAs])"
    by (simp add: promptConfirm_def)
  then show ?thesis
    using demo_render [of "[SaveAs]" "PromptOk '' mine '' ''k1'' 7"] demo_dialog(1)
    by (cases "demo_app [SaveAs]")
      (simp add: confirmSaveAs_def storePlans_def on_editor_def showToastWithMessage_def Let_def rearm_def core_def)
qed

lemma demo_typed: "core (fst (demo_app [SaveAs, PromptOk '' mine '' ''k1'' 7, Typed (Some ''x'')])) =
    (''x'', Some ''k1'',
     \<lparr> st_plans = [\<lparr> sp_id = ''k1'', sp_name = ''mine'', sp_code = DEFAULT_PLAN, sp_updatedAt = 7 \<rparr>], st_currentId = Some ''k1'' \<rparr>,
     Some (''x'', Some ''k1''))"
proof -
  have "DEFAULT_PLAN \<noteq> ''x''" by (simp add: DEFAULT_PLAN_def)
  then show ?thesis
    using demo_render [of "[SaveAs, PromptOk '' mine '' ''k1'' 7]" "Typed (Some ''x'')"] demo_named
    by (simp add: on_editor_def rearm_def core_def)
qed

lemma demo_saved: "core (fst (demo_app demo_events)) =
    (''x'', Some ''k1'',
     \<lparr> st_plans = [\<lparr> sp_id = ''k1'', sp_name = ''mine'', sp_code = ''x'', sp_updatedAt = 9 \<rparr>], st_currentId = Some ''k1'' \<rparr>, None)"
  using demo_render [of "[SaveAs, PromptOk '' mine '' ''k1'' 7, Typed (Some ''x'')]" "Autosave 9"] demo_typed
  by (simp add: demo_events_def autosave_def storePlans_def rearm_def core_def Let_def)

lemma demo_events_in_time: "list_all in_time demo_events"
  by (simp add: demo_events_def)

theorem editor_saves_witness:
  "sp_code (hd (st_plans (ed_savedPlans (fst (demo_app demo_events))))) = ''x'' \<and>
   fst (getInitialCode ((snd (demo_app demo_events))\<lparr> pg_hash := [] \<rparr>)) = ''x''"
  using editor_saves [OF demo_reachable [OF demo_events_in_time] demo_open] demo_saved
  by (simp add: core_def)

theorem other_plans_kept_witness:
  "hd (st_plans (ed_savedPlans (fst (demo_app demo_events)))) \<in>
     set (st_plans (ed_savedPlans (fst (ed_step (Autosave 11) (demo_app (demo_events @ [SelectPlan ''__new__''])))))) "
proof -
  let ?evs = "demo_events @ [SelectPlan ''__new__'']"
  have "ed_savedPlans (fst (demo_app ?evs)) = (ed_savedPlans (fst (demo_app demo_events)))\<lparr> st_currentId := None \<rparr>"
    and none: "ed_currentPlanId (fst (demo_app ?evs)) = None"
    using demo_render [of demo_events "SelectPlan ''__new__''"]
    by (cases "demo_app demo_events"; simp add: handleSelectPlan_def storePlans_def rearm_def)+
  then have mem: "hd (st_plans (ed_savedPlans (fst (demo_app demo_events)))) \<in> set (st_plans (ed_savedPlans (fst (demo_app ?evs))))"
    using demo_saved by (simp add: core_def)
  have "list_all in_time ?evs" using demo_events_in_time by simp
  from other_plans_kept [OF demo_reachable [OF this] demo_open mem] none show ?thesis
    by (metis option.distinct(1) prod.collapse)
qed


text \<open>
  Mounting takes the text from a link or from the last session, but the selection from the library. So
  the first autosave after opening a link writes the linked text into the plan that was
  selected last, although that plan was never opened.
\<close>

lemma link_overwrites_selected:
  assumes "linkedCode (pg_hash p) = Some c" and "mount p = Some (e, p')" and "editSourceCode (b_store (pg_browser p)) = None"
    and "st_currentId (ed_savedPlans e) = Some i" and "i \<noteq> []"
    and "q \<in> set (st_plans (ed_savedPlans (fst (autosave now (e, p')))))" and "sp_id q = i"
  shows "sp_code q = c"
proof -
  from mountD [OF assms(2)] assms(1,3) obtain st where "e = initialEditor (Suc (pg_mounts p)) c st"
    by (auto simp: takeSource_def getInitialCode_def)
  with assms(4,5) have f: "ed_timer e = Some (c, Some i)" by (simp add: initialEditor_def)
  then have "ed_savedPlans (fst (autosave now (e, p'))) = (ed_savedPlans e)\<lparr> st_plans :=
      map (\<lambda>q. if sp_id q = i then q\<lparr> sp_code := c, sp_updatedAt := now \<rparr> else q) (st_plans (ed_savedPlans e)) \<rparr>"
    using assms(5) by (simp add: autosave_def storePlans_def Let_def)
  with assms(6) have "q \<in> (\<lambda>q. if sp_id q = i then q\<lparr> sp_code := c, sp_updatedAt := now \<rparr> else q) ` set (st_plans (ed_savedPlans e))"
    by (simp del: image_eqI)
  with assms(7) show ?thesis by (elim imageE) (simp split: if_split_asm)
qed

end
