(* ===== verification/VisApp.thy ===== *)
theory VisApp
  imports VisStore VisPreferences
begin

text \<open>
  The top component of the visualizer (\<open>tools/visualizer/src/App.tsx\<close>): which page is shown, the editor
  mode, and the navigation handlers, on top of the store. The component's own calls of
  \<open>history.pushState\<close> are steps that the store's transition system does not have; the invariant of the
  store is shown to survive them. Fetching the source of a plan to edit is split at its \<open>await\<close>. The
  component handles \<open>popstate\<close> after the store does, and follows a change of the loaded plan.
\<close>

section \<open>State\<close>

datatype AppView = HomeView | PlanView | RegistriesView

record app_state =
  ap_mode :: dock_mode
  ap_view :: AppView
  ap_browser :: browser
  ap_fetches :: "string list"

abbreviation ap_store :: "app_state \<Rightarrow> store" where
  "ap_store a \<equiv> b_store (ap_browser a)"

definition updateViewFromUrl :: "query \<Rightarrow> AppView" where
  "updateViewFromUrl q =
     (if params_get q ''view'' = JStr ''registries'' then RegistriesView
      else if truthy (params_get q ''plan'') then PlanView
      else HomeView)"

text \<open>The effect on \<open>planJson\<close>.\<close>

definition syncView :: "app_state \<Rightarrow> app_state \<Rightarrow> app_state" where
  "syncView old a =
     (if planJson (ap_store a) \<noteq> planJson (ap_store old) \<and> planJson (ap_store a) \<noteq> None
      then a\<lparr> ap_view := PlanView \<rparr> else a)"

definition openApp :: "query \<Rightarrow> app_state" where
  "openApp q = \<lparr> ap_mode = ViewMode, ap_view = updateViewFromUrl q, ap_browser = initHistory q, ap_fetches = [] \<rparr>"

section \<open>Handlers\<close>

definition setEditSourceCode :: "string option \<Rightarrow> browser \<Rightarrow> browser" where
  "setEditSourceCode code b = setState (\<lambda>s. s\<lparr> editSourceCode := code \<rparr>) b"

definition handleGoHome :: "app_state \<Rightarrow> app_state" where
  "handleGoHome a =
     a\<lparr> ap_browser := pushState (JObj []) [] (setEditSourceCode None (clearPlan (ap_browser a))),
        ap_mode := ViewMode, ap_view := HomeView \<rparr>"

definition openEditor :: "string option \<Rightarrow> app_state \<Rightarrow> app_state" where
  "openEditor code a =
     a\<lparr> ap_browser := setEditSourceCode code (ap_browser a), ap_mode := EditMode, ap_view := PlanView \<rparr>"

definition handleCreateNew :: "app_state \<Rightarrow> app_state" where
  "handleCreateNew a = openEditor None a"

definition handleEditCurrent :: "app_state \<Rightarrow> app_state" where
  "handleEditCurrent a =
     (case sourceCode (ap_store a) of
        None \<Rightarrow> a
      | Some src \<Rightarrow> if src = [] then a else openEditor (Some src) a)"

definition handleEditPlanByName :: "string \<Rightarrow> app_state \<Rightarrow> app_state" where
  "handleEditPlanByName planName a = a\<lparr> ap_fetches := ap_fetches a @ [''/sources/'' @ planName @ ''.plan.ts''] \<rparr>"

text \<open>The fetched source arrives; \<open>None\<close> is a bad status or an exception.\<close>

definition sourceArrived :: "nat \<Rightarrow> string option \<Rightarrow> app_state \<Rightarrow> app_state" where
  "sourceArrived i code a =
     (if i < length (ap_fetches a) then openEditor code (a\<lparr> ap_fetches := remove_at i (ap_fetches a) \<rparr>) else a)"

definition handleBrowseRegistries :: "app_state \<Rightarrow> app_state" where
  "handleBrowseRegistries a =
     (let b1 = clearPlan (ap_browser a);
          b2 = (if registries (ap_store a) = None then loadRegistries Nothing b1 else b1)
      in a\<lparr> ap_browser := pushState (JObj [(''view'', JStr ''registries'')]) [(''view'', ''registries''), (''tab'', ''keys'')] b2,
            ap_mode := ViewMode, ap_view := RegistriesView \<rparr>)"

definition handleBrowsePlans :: "app_state \<Rightarrow> app_state" where
  "handleBrowsePlans a =
     a\<lparr> ap_browser := pushState (JObj []) [] (clearPlan (ap_browser a)), ap_mode := ViewMode, ap_view := HomeView \<rparr>"

definition handlePopState :: "jsval \<Rightarrow> query \<Rightarrow> app_state \<Rightarrow> app_state" where
  "handlePopState st q a = a\<lparr> ap_browser := popstate st q (ap_browser a), ap_view := updateViewFromUrl q \<rparr>"

section \<open>What is shown\<close>

definition showHomePage :: "app_state \<Rightarrow> bool" where
  "showHomePage a \<longleftrightarrow> ap_view a = HomeView \<and> ap_mode a = ViewMode \<and> planJson (ap_store a) = None"

definition showRegistries :: "app_state \<Rightarrow> bool" where
  "showRegistries a \<longleftrightarrow> ap_view a = RegistriesView"

definition showPlanView :: "app_state \<Rightarrow> bool" where
  "showPlanView a \<longleftrightarrow> \<not> showHomePage a \<and> \<not> showRegistries a"

definition activeNav :: "app_state \<Rightarrow> string" where
  "activeNav a = (if showRegistries a then ''registries'' else if ap_mode a = EditMode then ''editor'' else ''plans'')"

text \<open>The label beside the navigation bar.\<close>

definition contextLabel :: "app_state \<Rightarrow> string option" where
  "contextLabel a =
     (case fileName (ap_store a) of
        Some f \<Rightarrow> if f = [] then (if ap_mode a = EditMode then Some ''New Plan'' else None) else Some f
      | None \<Rightarrow> if ap_mode a = EditMode then Some ''New Plan'' else None)"

section \<open>Steps\<close>

datatype app_event =
    GoHome | CreateNew | EditCurrent | EditPlanByName string | SourceArrived nat "string option"
  | BrowseRegistries | BrowsePlans

fun on_app :: "app_event \<Rightarrow> app_state \<Rightarrow> app_state" where
  "on_app GoHome a = handleGoHome a"
| "on_app CreateNew a = handleCreateNew a"
| "on_app EditCurrent a = handleEditCurrent a"
| "on_app (EditPlanByName n) a = handleEditPlanByName n a"
| "on_app (SourceArrived i code) a = sourceArrived i code a"
| "on_app BrowseRegistries a = handleBrowseRegistries a"
| "on_app BrowsePlans a = handleBrowsePlans a"

text \<open>
  A history entry as the browser gives it back: its state object and its URL were pushed together, so
  they name the same page.
\<close>

definition entry_ok :: "jsval \<Rightarrow> query \<Rightarrow> bool" where
  "entry_ok st q \<longleftrightarrow>
     (js_or (opt_get st ''view'') (params_get q ''view'') = JStr ''registries'') = (params_get q ''view'' = JStr ''registries'') \<and>
     truthy (js_or (opt_get st ''plan'') (params_get q ''plan'')) = truthy (params_get q ''plan'')"

inductive app_reachable :: "vis_env \<Rightarrow> app_state \<Rightarrow> bool" for env where
  opened: "app_reachable env (openApp q)"
| handled: "app_reachable env a \<Longrightarrow> app_reachable env (syncView a (on_app ev a))"
| acted: "app_reachable env a \<Longrightarrow> app_reachable env (syncView a (a\<lparr> ap_browser := act env x (ap_browser a) \<rparr>))"
| answered: "app_reachable env a \<Longrightarrow> answer env i r (ap_browser a) = Some b \<Longrightarrow>
    app_reachable env (syncView a (a\<lparr> ap_browser := b \<rparr>))"
| navigated: "app_reachable env a \<Longrightarrow> entry_ok st q \<Longrightarrow> app_reachable env (syncView a (handlePopState st q a))"

section \<open>Invariant\<close>

definition app_ok :: "vis_env \<Rightarrow> app_state \<Rightarrow> bool" where
  "app_ok env a \<longleftrightarrow> page_inv env (ap_browser a) \<and> (planJson (ap_store a) \<noteq> None \<longrightarrow> ap_view a = PlanView)"

lemma page_pushState [simp]: "page_inv env (pushState st q b) = page_inv env b"
  by (simp add: pushState_def inv_defs)

lemma page_setEdit [simp]: "page_inv env (setEditSourceCode c b) = page_inv env b"
  by (simp add: setEditSourceCode_def setState_def inv_defs)

lemma page_clearPlan: "page_inv env b \<Longrightarrow> page_inv env (clearPlan b)"
  using act_page [of env b ClearPlan] by simp

lemma planJson_simps [simp]:
  "planJson (b_store (pushState st q b)) = planJson (b_store b)" "planJson (b_store (clearPlan b)) = None"
  "planJson (b_store (setEditSourceCode c b)) = planJson (b_store b)"
  "planJson (b_store (loadRegistries k b)) = planJson (b_store b)"
  "planJson (b_store (runAfter k b)) = planJson (b_store b)"
  by (simp_all add: pushState_def clearPlan_def setEditSourceCode_def loadRegistries_def fetching_def setState_def Let_def
      runAfter_def split: after.split)

lemma syncView_ok:
  assumes "app_ok env old" and "page_inv env (ap_browser a)"
    and "planJson (ap_store a) = planJson (ap_store old) \<Longrightarrow> planJson (ap_store a) \<noteq> None \<Longrightarrow> ap_view a = ap_view old \<or> ap_view a = PlanView"
  shows "app_ok env (syncView old a)"
  using assms by (auto simp: app_ok_def syncView_def)

lemma on_app_ok: "app_ok env a \<Longrightarrow> app_ok env (syncView a (on_app ev a))"
proof (rule syncView_ok)
  assume a: "app_ok env a"
  then have p: "page_inv env (ap_browser a)" by (simp add: app_ok_def)
  have "page_inv env (loadRegistries Nothing b)" if "page_inv env b" for b
    using act_page [OF that, of LoadRegistries] by simp
  with p page_clearPlan [OF p] show "page_inv env (ap_browser (on_app ev a))"
    by (cases ev) (simp_all add: handleGoHome_def handleCreateNew_def handleEditCurrent_def handleEditPlanByName_def
        sourceArrived_def handleBrowseRegistries_def handleBrowsePlans_def openEditor_def Let_def split: option.split)
  show "ap_view (on_app ev a) = ap_view a \<or> ap_view (on_app ev a) = PlanView"
    if "planJson (ap_store (on_app ev a)) \<noteq> None"
    using that by (cases ev) (simp_all add: handleGoHome_def handleCreateNew_def handleEditCurrent_def handleEditPlanByName_def
        sourceArrived_def handleBrowseRegistries_def handleBrowsePlans_def openEditor_def Let_def split: option.splits if_splits)
qed

lemma planJson_loadPlanByName [simp]: "planJson (b_store (loadPlanByName n k b)) = planJson (b_store b)"
  by (simp add: loadPlanByName_def fetching_def setState_def runAfter_def split: option.split after.split)

text \<open>Navigation keeps a plan only when the entry names one.\<close>

lemma popstate_plan:
  assumes "entry_ok st q" and "planJson (b_store (popstate st q b)) \<noteq> None"
  shows "updateViewFromUrl q = PlanView"
proof -
  let ?v = "js_or (opt_get st ''view'') (params_get q ''view'')" and ?n = "js_or (opt_get st ''plan'') (params_get q ''plan'')"
  have "?v \<noteq> JStr ''registries'' \<and> (\<exists>n. ?n = JStr n \<and> n \<noteq> [])"
    using assms(2) by (auto simp: popstate_def Let_def split: if_splits jsval.splits)
  with assms(1) show ?thesis by (auto simp: entry_ok_def updateViewFromUrl_def)
qed

lemma app_reachable_ok: "app_reachable env a \<Longrightarrow> app_ok env a"
proof (induction rule: app_reachable.induct)
  case (opened q)
  have "planJson (b_store (initHistory q)) = None"
    by (simp add: initHistory_def initialStore_def loadRegistries_def loadIndex_def fetching_def setState_def Let_def split: jsval.split)
  then show ?case by (simp add: openApp_def app_ok_def initHistory_page)
next
  case (handled a ev)
  then show ?case by (intro on_app_ok)
next
  case (acted a x)
  then show ?case by (intro syncView_ok) (simp_all add: app_ok_def act_page)
next
  case (answered a i r b)
  then show ?case by (intro syncView_ok) (auto simp: app_ok_def intro: answer_page)
next
  case (navigated a st q)
  then show ?case
    using popstate_plan [OF navigated(2), of "ap_browser a"]
    by (intro syncView_ok) (auto simp: app_ok_def handlePopState_def popstate_page)
qed

text \<open>
  Property C30. The page shown agrees with the store, in every state the visualizer can reach through its
  navigation bar, the actions of all components, server responses and the browser's history: exactly
  one of the home page, the registries and the plan view is shown; a loaded plan is always
  shown in the plan view, never hidden behind another page; the drawing is the one of that plan, also
  with the entries this component itself adds to the history; and no loading indicator is
  left on when nothing is in flight.
\<close>

theorem app_shows_plan:
  assumes "app_reachable env a"
  shows "length (filter id [showHomePage a, showRegistries a, showPlanView a]) = 1 \<and>
    (planJson (ap_store a) \<noteq> None \<longrightarrow> showPlanView a \<and> activeNav a \<noteq> ''registries'') \<and>
    graph (ap_store a) = map_option (\<lambda>j. layoutGraph (env_dagre env) defaultLayout (parsePlan j)) (planJson (ap_store a)) \<and>
    (b_pending (ap_browser a) = [] \<longrightarrow> \<not> planLoading (ap_store a) \<and> \<not> registriesLoading (ap_store a) \<and>
       \<not> isHandlingPopState (ap_browser a))"
proof -
  have ok: "page_inv env (ap_browser a)" "planJson (ap_store a) \<noteq> None \<Longrightarrow> ap_view a = PlanView"
    using app_reachable_ok [OF assms] by (simp_all add: app_ok_def)
  have one: "length (filter id [showHomePage a, showRegistries a, showPlanView a]) = 1"
    by (auto simp: showPlanView_def showHomePage_def showRegistries_def)
  have plan: "planJson (ap_store a) \<noteq> None \<longrightarrow> showPlanView a \<and> activeNav a \<noteq> ''registries''"
    using ok(2) by (auto simp: showPlanView_def showHomePage_def showRegistries_def activeNav_def)
  have "graph (ap_store a) = map_option (\<lambda>j. layoutGraph (env_dagre env) defaultLayout (parsePlan j)) (planJson (ap_store a))"
    using ok(1) by (auto simp: inv_defs shown_def split: option.splits)
  with one plan ok(1) show ?thesis by (auto simp: inv_defs backed_def)
qed

definition demo_visit :: app_state where
  "demo_visit = syncView (openApp []) (on_app BrowseRegistries (openApp []))"

definition demo_load :: app_state where
  "demo_load = syncView demo_visit (demo_visit\<lparr> ap_browser := act still (LoadPlan (demo_plan ''a'') ''f'' False) (ap_browser demo_visit) \<rparr>)"

lemma demo_load_reachable: "app_reachable still demo_load"
  unfolding demo_load_def demo_visit_def by (intro app_reachable.acted app_reachable.handled app_reachable.opened)

lemma demo_load_plan: "planJson (ap_store demo_load) = Some (demo_plan ''a'')"
  by (simp add: demo_load_def syncView_def loadPlan_def Let_def setState_def pushState_def)

theorem app_shows_plan_witness: "showPlanView demo_load \<and> activeNav demo_load \<noteq> ''registries''"
  using app_shows_plan [OF demo_load_reachable] demo_load_plan by simp

section \<open>History entries\<close>

text \<open>
  \<open>clearPlan\<close> already pushes the entry of the home page, and the handlers push theirs after it: leaving
  for the home page or the plan list adds two entries, so going back once stays on the home page.
\<close>

lemma home_pushes_twice:
  assumes "\<not> isHandlingPopState (ap_browser a)"
  shows "b_history (ap_browser (handleGoHome a)) = b_history (ap_browser a) @ [(JObj [], []), (JObj [], [])]"
    and "b_history (ap_browser (handleBrowsePlans a)) = b_history (ap_browser a) @ [(JObj [], []), (JObj [], [])]"
  using assms
  by (simp_all add: handleGoHome_def handleBrowsePlans_def clearPlan_def pushState_def setEditSourceCode_def setState_def Let_def)

text \<open>A plan that arrives late takes the user from the registries back to the plan view.\<close>

lemma late_plan_leaves_registries:
  assumes "ap_view a = RegistriesView" and "planJson (ap_store a) = None"
    and "answer env i (GotPlan j) (ap_browser a) = Some b" and "b_pending (ap_browser a) ! i = ReqPlan n path Nothing"
  shows "ap_view (syncView a (a\<lparr> ap_browser := b \<rparr>)) = PlanView"
proof -
  have "planJson (b_store b) = Some j"
    using assms(3,4) by (auto simp: answer_def planResponse_def runAfter_def loadSource_def fetching_def setState_def loadPlan_def
        pushState_def Let_def split: if_splits)
  with assms(2) show ?thesis by (simp add: syncView_def)
qed

end
