(* ===== verification/VisRegistry.thy ===== *)
theory VisRegistry
  imports VisStore JsonText
begin

text \<open>
  The registry browser of the visualizer (\<open>tools/visualizer/src/components/RegistryViewer.tsx\<close>): the
  search, the table and detail texts, and the floating detail panels as a state machine over the store.
  Registry entries are the JSON they came as; reading a field of the wrong type raises. Styles and
  colours are left out; a table row is its list of cell texts, a detail panel its list of labelled rows.
\<close>

section \<open>Tabs and search\<close>

text \<open>\<open>toLowerCase\<close> on code units below 256.\<close>

definition js_lower_char :: "char \<Rightarrow> char" where
  "js_lower_char c =
     (let n = of_char c :: nat in
      if 65 \<le> n \<and> n \<le> 90 \<or> 192 \<le> n \<and> n \<le> 222 \<and> n \<noteq> 215 then char_of (n + 32) else c)"

definition toLowerCase :: "string \<Rightarrow> string" where
  "toLowerCase s = map js_lower_char s"

definition tab_data :: "RegistryData \<Rightarrow> string \<Rightarrow> string \<Rightarrow> jsval" where
  "tab_data reg env tab =
     (if tab = ''keys'' then rd_keys reg
      else if tab = ''params'' then rd_params reg
      else if tab = ''features'' then rd_features reg
      else if tab = ''capabilities'' then rd_capabilities reg
      else if tab = ''tasks'' then rd_tasks reg
      else if tab = ''endpoints'' then
        (if env = ''dev'' then rd_endpoints_dev reg else if env = ''test'' then rd_endpoints_test reg
         else if env = ''prod'' then rd_endpoints_prod reg else JUndef)
      else JUndef)"

definition items_of :: "jsval \<Rightarrow> (dsl_error, jsval list) res" where
  "items_of v = (case v of JArr xs \<Rightarrow> Inr xs | _ \<Rightarrow> Inl TypeError)"

definition count_of :: "RegistryData option \<Rightarrow> string \<Rightarrow> string \<Rightarrow> nat" where
  "count_of reg env tab = (case reg of None \<Rightarrow> 0 | Some r \<Rightarrow> (case tab_data r env tab of JArr xs \<Rightarrow> length xs | _ \<Rightarrow> 0))"

definition tabs :: "RegistryData option \<Rightarrow> string \<Rightarrow> (string \<times> string \<times> nat) list" where
  "tabs reg env = map (\<lambda>(i, label). (i, label, count_of reg env i))
     [(''keys'', ''Keys''), (''params'', ''Params''), (''features'', ''Features''), (''capabilities'', ''Capabilities''),
      (''tasks'', ''Tasks''), (''endpoints'', ''Endpoints'')]"

text \<open>\<open>v.toLowerCase().includes(query)\<close>.\<close>

definition lower_includes :: "string \<Rightarrow> jsval \<Rightarrow> (dsl_error, bool) res" where
  "lower_includes query v = (case v of JStr s \<Rightarrow> Inr (str_includes (toLowerCase s) query) | _ \<Rightarrow> Inl TypeError)"

definition orR :: "(dsl_error, bool) res \<Rightarrow> (dsl_error, bool) res \<Rightarrow> (dsl_error, bool) res" where
  "orR a b = bindR a (\<lambda>x. if x then Inr True else b)"

fun filterR :: "('a \<Rightarrow> (dsl_error, bool) res) \<Rightarrow> 'a list \<Rightarrow> (dsl_error, 'a list) res" where
  "filterR f [] = Inr []"
| "filterR f (x # xs) = bindR (f x) (\<lambda>k. bindR (filterR f xs) (\<lambda>ys. Inr (if k then x # ys else ys)))"

text \<open>The entries' searched fields, as each case of the switch reads them.\<close>

definition filterFn :: "string \<Rightarrow> jsval \<Rightarrow> (dsl_error, bool) res" where
  "filterFn query item =
     orR (lower_includes query (getp item ''name''))
       (if truthy (getp item ''doc'') then lower_includes query (getp item ''doc'') else Inr False)"

definition matches :: "string \<Rightarrow> string \<Rightarrow> jsval \<Rightarrow> (dsl_error, bool) res" where
  "matches tab query item =
     (if query = [] then Inr True
      else if tab = ''capabilities'' then
        orR (lower_includes query (getp item ''name''))
          (orR (lower_includes query (getp item ''id'')) (lower_includes query (getp item ''doc'')))
      else if tab = ''tasks'' then
        orR (lower_includes query (getp item ''op'')) (lower_includes query (getp item ''output_pattern''))
      else if tab = ''endpoints'' then
        orR (lower_includes query (getp item ''name''))
          (orR (lower_includes query (getp item ''endpoint_id'')) (lower_includes query (getp item ''kind'')))
      else filterFn query item)"

definition filteredData :: "RegistryData option \<Rightarrow> string \<Rightarrow> string \<Rightarrow> string \<Rightarrow> (dsl_error, jsval list) res" where
  "filteredData reg env tab searchQuery =
     (case reg of
        None \<Rightarrow> Inr []
      | Some r \<Rightarrow>
          let query = toLowerCase searchQuery
          in if tab \<in> {''keys'', ''params'', ''features'', ''capabilities'', ''tasks'', ''endpoints''}
             then bindR (items_of (tab_data r env tab)) (filterR (matches tab query))
             else Inr [])"

section \<open>Table and details\<close>

text \<open>The text of a value as a React child; \<open>None\<close> for an object, which cannot be rendered.\<close>

definition child :: "jsval \<Rightarrow> string option" where
  "child v =
     (case v of
        JStr s \<Rightarrow> Some s
      | JNum x \<Rightarrow> Some (num_str x)
      | JNull \<Rightarrow> Some [] | JUndef \<Rightarrow> Some [] | JBool _ \<Rightarrow> Some []
      | _ \<Rightarrow> None)"

definition flag_text :: "string \<Rightarrow> string \<Rightarrow> jsval \<Rightarrow> string option" where
  "flag_text yes no v = Some (if truthy v then yes else no)"

abbreviation bool_text :: "jsval \<Rightarrow> string option" where
  "bool_text \<equiv> flag_text ''true'' ''false''"

text \<open>Texts of several children side by side.\<close>

fun cat_texts :: "string option list \<Rightarrow> string option" where
  "cat_texts [] = Some []"
| "cat_texts (t # ts) = (case (t, cat_texts ts) of (Some x, Some y) \<Rightarrow> Some (x @ y) | _ \<Rightarrow> None)"

definition array_items :: "jsval \<Rightarrow> jsval list" where
  "array_items v = (case v of JArr xs \<Rightarrow> xs | _ \<Rightarrow> [])"

definition join_comma :: "string list \<Rightarrow> string" where
  "join_comma ps = concat (case ps of [] \<Rightarrow> [] | p # ps' \<Rightarrow> p # map (\<lambda>q. '', '' @ q) ps')"

definition param_names :: "jsval \<Rightarrow> string" where
  "param_names v =
     (let t = join_comma (map (\<lambda>p. case child (getp p ''name'') of Some x \<Rightarrow> x | None \<Rightarrow> ''[object Object]'') (array_items v))
      in if t = [] then ''-'' else t)"

definition tableHead :: "string \<Rightarrow> string list" where
  "tableHead tab =
     (if tab = ''keys'' \<or> tab = ''params'' then [''ID'', ''Name'', ''Type'', ''Nullable'', ''Status'', ''Description'']
      else if tab = ''features'' then [''ID'', ''Stage'', ''Name'', ''Type'', ''Status'', ''Description'']
      else if tab = ''capabilities'' then [''ID'', ''RFC'', ''Name'', ''Status'', ''Description'']
      else if tab = ''tasks'' then [''Op'', ''Output Pattern'', ''Params'', ''Has writes_effect'']
      else if tab = ''endpoints'' then [''ID'', ''Name'', ''Kind'', ''Host:Port'', ''Timeouts'']
      else [])"

text \<open>The field that identifies an entry of a tab.\<close>

definition id_field :: "string \<Rightarrow> string" where
  "id_field tab =
     (if tab = ''keys'' then ''key_id'' else if tab = ''params'' then ''param_id'' else if tab = ''features'' then ''feature_id''
      else if tab = ''capabilities'' then ''id'' else if tab = ''tasks'' then ''op'' else ''endpoint_id'')"

definition keyCells :: "string \<Rightarrow> jsval \<Rightarrow> string option list" where
  "keyCells idf e =
     [child (getp e idf), child (getp e ''name''), child (getp e ''type''), bool_text (getp e ''nullable''),
      child (getp e ''status''), child (getp e ''doc'')]"

definition featureCells :: "jsval \<Rightarrow> string option list" where
  "featureCells e =
     [child (getp e ''feature_id''), child (getp e ''stage''), child (getp e ''name''), child (getp e ''type''),
      child (getp e ''status''), child (getp e ''doc'')]"

definition capabilityCells :: "jsval \<Rightarrow> string option list" where
  "capabilityCells e =
     [child (getp e ''id''), child (getp e ''rfc''), child (getp e ''name''), child (getp e ''status''), child (getp e ''doc'')]"

definition taskCells :: "jsval \<Rightarrow> string option list" where
  "taskCells e =
     [child (getp e ''op''), child (getp e ''output_pattern''), Some (param_names (getp e ''params'')),
      flag_text ''yes'' ''no'' (getp e ''writes_effect'')]"

definition endpointCells :: "jsval \<Rightarrow> string option list" where
  "endpointCells e =
     [child (getp e ''endpoint_id''), child (getp e ''name''), child (getp e ''kind''),
      cat_texts [child (getp (getp e ''resolver'') ''host''), Some '':'', child (getp (getp e ''resolver'') ''port'')],
      cat_texts [Some ''conn: '', child (getp (getp e ''policy'') ''connect_timeout_ms''), Some ''ms, req: '',
        child (getp (getp e ''policy'') ''request_timeout_ms''), Some ''ms'']]"

definition tableCells :: "string \<Rightarrow> jsval \<Rightarrow> string option list" where
  "tableCells tab e =
     (if tab = ''keys'' then keyCells ''key_id'' e
      else if tab = ''params'' then keyCells ''param_id'' e
      else if tab = ''features'' then featureCells e
      else if tab = ''capabilities'' then capabilityCells e
      else if tab = ''tasks'' then taskCells e
      else if tab = ''endpoints'' then endpointCells e
      else [])"

type_synonym detail_row = "string \<times> string option"

text \<open>\<open>JSON.stringify(v)\<close> and \<open>JSON.stringify(v, null, 2)\<close> as children; \<open>undefined\<close> renders as nothing.\<close>

definition json_child :: "(dsl_error, string option) res \<Rightarrow> string option" where
  "json_child r = (case r of Inl _ \<Rightarrow> None | Inr None \<Rightarrow> Some [] | Inr (Some s) \<Rightarrow> Some s)"

definition row_unless_null :: "string \<Rightarrow> jsval \<Rightarrow> string option \<Rightarrow> detail_row list" where
  "row_unless_null label v t = (if v = JNull then [] else [(label, t)])"

definition accessRows :: "jsval \<Rightarrow> detail_row list" where
  "accessRows e =
     [(''Nullable'', bool_text (getp e ''nullable'')), (''Allow Read'', bool_text (getp e ''allow_read'')),
      (''Allow Write'', bool_text (getp e ''allow_write''))]"

definition renderKeyDetails :: "jsval \<Rightarrow> detail_row list" where
  "renderKeyDetails e =
     [(''Key ID'', child (getp e ''key_id'')), (''Name'', child (getp e ''name'')), (''Type'', child (getp e ''type'')),
      (''Status'', child (getp e ''status''))] @ accessRows e @
     row_unless_null ''Default'' (getp e ''default'') (json_child (json_compact (getp e ''default''))) @
     row_unless_null ''Replaced By'' (getp e ''replaced_by'') (child (getp e ''replaced_by'')) @
     [(''Description'', child (getp e ''doc''))]"

definition renderParamDetails :: "jsval \<Rightarrow> detail_row list" where
  "renderParamDetails e =
     [(''Param ID'', child (getp e ''param_id'')), (''Name'', child (getp e ''name'')), (''Type'', child (getp e ''type'')),
      (''Status'', child (getp e ''status''))] @ accessRows e @
     row_unless_null ''Replaced By'' (getp e ''replaced_by'') (child (getp e ''replaced_by'')) @
     [(''Description'', child (getp e ''doc''))]"

definition renderFeatureDetails :: "jsval \<Rightarrow> detail_row list" where
  "renderFeatureDetails e =
     [(''Feature ID'', child (getp e ''feature_id'')), (''Stage'', child (getp e ''stage'')), (''Name'', child (getp e ''name'')),
      (''Type'', child (getp e ''type'')), (''Status'', child (getp e ''status'')), (''Nullable'', bool_text (getp e ''nullable'')),
      (''Description'', child (getp e ''doc''))]"

definition renderCapabilityDetails :: "jsval \<Rightarrow> detail_row list" where
  "renderCapabilityDetails e =
     [(''Capability ID'', child (getp e ''id'')), (''RFC'', child (getp e ''rfc'')), (''Name'', child (getp e ''name'')),
      (''Status'', child (getp e ''status'')), (''Description'', child (getp e ''doc''))] @
     (if truthy (getp e ''payload_schema'')
      then [(''Payload Schema'', json_child (json_text ''  '' [] (getp e ''payload_schema'')))] else [])"

definition paramBlock :: "jsval \<Rightarrow> string option" where
  "paramBlock p = cat_texts [child (getp p ''name''), Some ''type: '', child (getp p ''type''), Some '' | required: '',
     flag_text ''yes'' ''no'' (getp p ''required''), Some '' | nullable: '', flag_text ''yes'' ''no'' (getp p ''nullable'')]"

definition renderTaskDetails :: "jsval \<Rightarrow> detail_row list" where
  "renderTaskDetails e =
     [(''Op'', child (getp e ''op'')), (''Output Pattern'', child (getp e ''output_pattern'')),
      (''Parameters'', if array_items (getp e ''params'') \<noteq> [] then cat_texts (map paramBlock (array_items (getp e ''params'')))
        else Some ''None'')] @
     (if truthy (getp e ''writes_effect'')
      then [(''Writes Effect'', json_child (json_text ''  '' [] (getp e ''writes_effect'')))] else [])"

definition renderEndpointDetails :: "jsval \<Rightarrow> detail_row list" where
  "renderEndpointDetails e =
     (let r = getp e ''resolver''; p = getp e ''policy'' in
     [(''Endpoint ID'', child (getp e ''endpoint_id'')), (''Name'', child (getp e ''name'')), (''Kind'', child (getp e ''kind'')),
      (''Resolver'', cat_texts [Some ''type: '', child (getp r ''type''), child (getp r ''host''), Some '':'', child (getp r ''port'')]),
      (''Policy'', cat_texts [Some ''max_inflight: '', child (getp p ''max_inflight''),
         Some ''connect_timeout: '', child (getp p ''connect_timeout_ms''), Some ''ms'',
         Some ''request_timeout: '', child (getp p ''request_timeout_ms''), Some ''ms''])])"

definition renderDetails :: "string \<Rightarrow> jsval \<Rightarrow> detail_row list" where
  "renderDetails tab e =
     (if tab = ''keys'' then renderKeyDetails e
      else if tab = ''params'' then renderParamDetails e
      else if tab = ''features'' then renderFeatureDetails e
      else if tab = ''capabilities'' then renderCapabilityDetails e
      else if tab = ''tasks'' then renderTaskDetails e
      else if tab = ''endpoints'' then renderEndpointDetails e
      else [])"

section \<open>Panels\<close>

record OpenPanel =
  pn_id :: jsval
  pn_tab :: string
  pn_x :: jnum
  pn_y :: jnum
  pn_z :: nat

record viewer =
  rv_panels :: "OpenPanel list"
  rv_nextZIndex :: nat

definition initialViewer :: viewer where
  "initialViewer = \<lparr> rv_panels = [], rv_nextZIndex = 100 \<rparr>"

definition is_panel :: "jsval \<Rightarrow> string \<Rightarrow> OpenPanel \<Rightarrow> bool" where
  "is_panel i tab p \<longleftrightarrow> pn_id p = i \<and> pn_tab p = tab"

definition newPanel :: "jnum \<Rightarrow> jsval \<Rightarrow> string \<Rightarrow> viewer \<Rightarrow> OpenPanel" where
  "newPanel innerWidth i tab v =
     (let offset = int (length (rv_panels v) mod 5) * 30
      in \<lparr> pn_id = i, pn_tab = tab, pn_x = js_sub (js_sub innerWidth (jint 360)) (jint offset), pn_y = jint (80 + offset),
           pn_z = rv_nextZIndex v \<rparr>)"

definition openNew :: "jnum \<Rightarrow> jsval \<Rightarrow> string \<Rightarrow> viewer \<Rightarrow> viewer" where
  "openNew w i tab v = \<lparr> rv_panels = rv_panels v @ [newPanel w i tab v], rv_nextZIndex = Suc (rv_nextZIndex v) \<rparr>"

definition bringToFront :: "jsval \<Rightarrow> string \<Rightarrow> viewer \<Rightarrow> viewer" where
  "bringToFront i tab v =
     \<lparr> rv_panels = map (\<lambda>p. if is_panel i tab p then p\<lparr> pn_z := rv_nextZIndex v \<rparr> else p) (rv_panels v),
       rv_nextZIndex = Suc (rv_nextZIndex v) \<rparr>"

definition clickPanels :: "jnum \<Rightarrow> jsval \<Rightarrow> string \<Rightarrow> viewer \<Rightarrow> viewer" where
  "clickPanels w i tab v = (if list_ex (is_panel i tab) (rv_panels v) then bringToFront i tab v else openNew w i tab v)"

definition handleClosePanel :: "jsval \<Rightarrow> string \<Rightarrow> viewer \<Rightarrow> viewer" where
  "handleClosePanel i tab v = v\<lparr> rv_panels := filter (\<lambda>p. \<not> is_panel i tab p) (rv_panels v) \<rparr>"

definition handlePanelDragStart :: "jsval \<Rightarrow> string \<Rightarrow> viewer \<Rightarrow> viewer" where
  "handlePanelDragStart i tab v = bringToFront i tab v"

definition handlePanelDrag :: "jsval \<Rightarrow> string \<Rightarrow> jnum \<Rightarrow> jnum \<Rightarrow> viewer \<Rightarrow> viewer" where
  "handlePanelDrag i tab dx dy v =
     v\<lparr> rv_panels := map (\<lambda>p. if is_panel i tab p then p\<lparr> pn_x := js_add (pn_x p) dx, pn_y := js_add (pn_y p) dy \<rparr> else p)
          (rv_panels v) \<rparr>"

text \<open>
  The mouse on a panel's header (\<open>DraggableDetailsPanel\<close>): the position of the last event is kept while the
  button is down, and the panel moves by the difference.
\<close>

type_synonym point = "jnum \<times> jnum"

definition handleMouseDown :: "jsval \<Rightarrow> string \<Rightarrow> bool \<Rightarrow> point \<Rightarrow> point option \<times> viewer \<Rightarrow> point option \<times> viewer" where
  "handleMouseDown i tab onButton pos s = (if onButton then s else (Some pos, handlePanelDragStart i tab (snd s)))"

definition handleMouseMove :: "jsval \<Rightarrow> string \<Rightarrow> point \<Rightarrow> point option \<times> viewer \<Rightarrow> point option \<times> viewer" where
  "handleMouseMove i tab pos s =
     (case fst s of
        None \<Rightarrow> s
      | Some start \<Rightarrow> (Some pos, handlePanelDrag i tab (js_sub (fst pos) (fst start)) (js_sub (snd pos) (snd start)) (snd s)))"

definition handleMouseUp :: "point option \<times> viewer \<Rightarrow> point option \<times> viewer" where
  "handleMouseUp s = (None, snd s)"

definition getPanelDetails :: "RegistryData option \<Rightarrow> string \<Rightarrow> OpenPanel \<Rightarrow> jsval" where
  "getPanelDetails reg env p =
     (case reg of
        None \<Rightarrow> JNull
      | Some r \<Rightarrow>
          if pn_tab p \<in> {''keys'', ''params'', ''features'', ''capabilities'', ''tasks'', ''endpoints''} then
            (case List.find (\<lambda>e. getp e (id_field (pn_tab p)) = pn_id p) (array_items (tab_data r env (pn_tab p))) of
               Some e \<Rightarrow> e | None \<Rightarrow> JUndef)
          else JNull)"

definition getPanelTitle :: "RegistryData option \<Rightarrow> string \<Rightarrow> OpenPanel \<Rightarrow> string option" where
  "getPanelTitle reg env p =
     (let details = getPanelDetails reg env p
      in if \<not> truthy details then Some (id_text (pn_id p))
         else if pn_tab p = ''tasks'' then child (getp details ''op'')
         else if pn_tab p \<in> {''keys'', ''params'', ''features'', ''capabilities'', ''endpoints''} then child (getp details ''name'')
         else Some (id_text (pn_id p)))"

definition isPanelOpen :: "jsval \<Rightarrow> string \<Rightarrow> viewer \<Rightarrow> bool" where
  "isPanelOpen i selectedTab v \<longleftrightarrow> list_ex (is_panel i selectedTab) (rv_panels v)"

text \<open>The panels on the screen: those whose entry exists, with title and content.\<close>

definition shownPanels :: "RegistryData option \<Rightarrow> string \<Rightarrow> viewer \<Rightarrow> (string option \<times> detail_row list \<times> nat) list" where
  "shownPanels reg env v =
     map (\<lambda>p. (getPanelTitle reg env p, renderDetails (pn_tab p) (getPanelDetails reg env p), pn_z p))
       (filter (\<lambda>p. truthy (getPanelDetails reg env p)) (rv_panels v))"

section \<open>The component over the store\<close>

definition autoOpen :: "jnum \<Rightarrow> store \<Rightarrow> viewer \<Rightarrow> viewer" where
  "autoOpen w s v =
     (if selectedRegistryEntry s \<noteq> JNull \<and> registries s \<noteq> None \<and>
         \<not> isPanelOpen (selectedRegistryEntry s) (selectedRegistryTab s) v
      then openNew w (selectedRegistryEntry s) (selectedRegistryTab s) v else v)"

text \<open>
  The effect that requests the registries; it does nothing while they are being loaded, are present
  or could not be loaded.
\<close>

definition ensureRegistries :: "browser \<Rightarrow> browser" where
  "ensureRegistries b =
     (if registries (b_store b) = None \<and> \<not> registriesLoading (b_store b) \<and> registriesError (b_store b) \<in> {None, Some []}
      then loadRegistries Nothing b else b)"

definition panel_deps :: "browser \<Rightarrow> jsval \<times> string \<times> RegistryData option" where
  "panel_deps b = (selectedRegistryEntry (b_store b), selectedRegistryTab (b_store b), registries (b_store b))"

text \<open>The effects after a render; \<open>w\<close> is the width of the window.\<close>

definition rv_effects :: "jnum \<Rightarrow> browser \<Rightarrow> viewer \<times> browser \<Rightarrow> viewer \<times> browser" where
  "rv_effects w old s =
     (if panel_deps (snd s) = panel_deps old then fst s else autoOpen w (b_store (snd s)) (fst s), ensureRegistries (snd s))"

definition rv_mount :: "jnum \<Rightarrow> browser \<Rightarrow> viewer \<times> browser" where
  "rv_mount w b = (autoOpen w (b_store b) initialViewer, ensureRegistries b)"

definition handleRowClick :: "jnum \<Rightarrow> jsval \<Rightarrow> viewer \<times> browser \<Rightarrow> viewer \<times> browser" where
  "handleRowClick w i s =
     (clickPanels w i (selectedRegistryTab (b_store (snd s))) (fst s), setSelectedRegistryEntry i (snd s))"

datatype rv_event = RowClick jsval | ClosePanel jsval string | DragStart jsval string | Drag jsval string jnum jnum

fun on_viewer :: "jnum \<Rightarrow> rv_event \<Rightarrow> viewer \<times> browser \<Rightarrow> viewer \<times> browser" where
  "on_viewer w (RowClick i) s = handleRowClick w i s"
| "on_viewer w (ClosePanel i tab) s = (handleClosePanel i tab (fst s), snd s)"
| "on_viewer w (DragStart i tab) s = (handlePanelDragStart i tab (fst s), snd s)"
| "on_viewer w (Drag i tab dx dy) s = (handlePanelDrag i tab dx dy (fst s), snd s)"

inductive rv_reachable :: "vis_env \<Rightarrow> viewer \<times> browser \<Rightarrow> bool" for env where
  rv_mounted: "rv_reachable env (rv_mount w b)"
| rv_event: "rv_reachable env s \<Longrightarrow> rv_reachable env (rv_effects w (snd s) (on_viewer w ev s))"
| rv_store: "rv_reachable env (v, b) \<Longrightarrow> browser_step env b b' \<Longrightarrow> rv_reachable env (rv_effects w b (v, b'))"

section \<open>Panels stack\<close>

text \<open>No entry has two panels, no two panels are at the same height, and all are below the next one.\<close>

definition panels_ok :: "viewer \<Rightarrow> bool" where
  "panels_ok v \<longleftrightarrow> distinct (map (\<lambda>p. (pn_id p, pn_tab p)) (rv_panels v)) \<and> distinct (map pn_z (rv_panels v)) \<and>
     (\<forall>p \<in> set (rv_panels v). pn_z p < rv_nextZIndex v)"

lemma panels_openNew:
  assumes "panels_ok v" and "\<not> list_ex (is_panel i tab) (rv_panels v)"
  shows "panels_ok (openNew w i tab v)"
proof -
  have "(i, tab) \<notin> (\<lambda>p. (pn_id p, pn_tab p)) ` set (rv_panels v)" using assms(2) by (auto simp: list_ex_iff is_panel_def)
  moreover have "rv_nextZIndex v \<notin> pn_z ` set (rv_panels v)" using assms(1) by (auto simp: panels_ok_def)
  moreover have "pn_id (newPanel w i tab v) = i" "pn_tab (newPanel w i tab v) = tab" "pn_z (newPanel w i tab v) = rv_nextZIndex v"
    by (simp_all add: newPanel_def Let_def)
  ultimately show ?thesis using assms(1) by (auto simp: panels_ok_def openNew_def less_Suc_eq)
qed

lemma panels_map:
  assumes "panels_ok v" and "\<And>p. pn_id (f p) = pn_id p \<and> pn_tab (f p) = pn_tab p"
    and "inj_on (\<lambda>p. pn_z (f p)) (set (rv_panels v))" and "\<And>p. p \<in> set (rv_panels v) \<Longrightarrow> pn_z (f p) < n"
  shows "panels_ok \<lparr> rv_panels = map f (rv_panels v), rv_nextZIndex = n \<rparr>"
proof -
  have "distinct (rv_panels v)" using assms(1) by (auto simp: panels_ok_def distinct_map)
  with assms(3) have "distinct (map (\<lambda>p. pn_z (f p)) (rv_panels v))" by (simp add: distinct_map)
  with assms(1,2,4) show ?thesis by (simp add: panels_ok_def comp_def)
qed

lemma is_panel_unique: "panels_ok v \<Longrightarrow> p \<in> set (rv_panels v) \<Longrightarrow> q \<in> set (rv_panels v) \<Longrightarrow>
    is_panel i tab p \<Longrightarrow> is_panel i tab q \<Longrightarrow> p = q"
  by (rule inj_onD [of "\<lambda>p. (pn_id p, pn_tab p)" "set (rv_panels v)"]) (simp_all add: panels_ok_def distinct_map is_panel_def)

lemma panels_bringToFront:
  assumes ok: "panels_ok v"
  shows "panels_ok (bringToFront i tab v)"
proof -
  let ?f = "\<lambda>p. if is_panel i tab p then p\<lparr> pn_z := rv_nextZIndex v \<rparr> else p"
  have dz: "inj_on pn_z (set (rv_panels v))" and less: "\<forall>p \<in> set (rv_panels v). pn_z p < rv_nextZIndex v"
    using ok by (auto simp: panels_ok_def distinct_map)
  have "inj_on (\<lambda>p. pn_z (?f p)) (set (rv_panels v))"
  proof (rule inj_onI)
    fix p q assume pq: "p \<in> set (rv_panels v)" "q \<in> set (rv_panels v)" "pn_z (?f p) = pn_z (?f q)"
    then have "pn_z p < rv_nextZIndex v" "pn_z q < rv_nextZIndex v" using less by auto
    with pq(3) have "is_panel i tab p = is_panel i tab q" by (cases "is_panel i tab p"; cases "is_panel i tab q") simp_all
    then show "p = q"
    proof (cases "is_panel i tab p")
      case True
      with \<open>is_panel i tab p = is_panel i tab q\<close> show ?thesis using is_panel_unique [OF ok pq(1,2)] by blast
    next
      case False
      with \<open>is_panel i tab p = is_panel i tab q\<close> pq(3) have "pn_z p = pn_z q" by simp
      then show ?thesis using dz pq(1,2) by (blast dest: inj_onD)
    qed
  qed
  then show ?thesis
    unfolding bringToFront_def by (intro panels_map [OF ok]) (use less in \<open>simp_all add: less_Suc_eq\<close>)
qed

lemma panels_close: "panels_ok v \<Longrightarrow> panels_ok (handleClosePanel i tab v)"
  by (auto simp: panels_ok_def handleClosePanel_def distinct_map_filter)

lemma panels_drag:
  assumes ok: "panels_ok v"
  shows "panels_ok (handlePanelDrag i tab dx dy v)"
proof -
  let ?f = "\<lambda>p. if is_panel i tab p then p\<lparr> pn_x := js_add (pn_x p) dx, pn_y := js_add (pn_y p) dy \<rparr> else p"
  have z: "pn_z (?f p) = pn_z p" for p by simp
  have "panels_ok \<lparr> rv_panels = map ?f (rv_panels v), rv_nextZIndex = rv_nextZIndex v \<rparr>"
    by (rule panels_map [OF ok]) (use ok in \<open>simp_all only: z, auto simp: panels_ok_def distinct_map\<close>)
  then show ?thesis by (cases v) (simp add: handlePanelDrag_def)
qed

lemma panels_autoOpen: "panels_ok v \<Longrightarrow> panels_ok (autoOpen w s v)"
  by (simp add: autoOpen_def isPanelOpen_def panels_openNew)

lemma panels_click: "panels_ok v \<Longrightarrow> panels_ok (clickPanels w i tab v)"
  by (simp add: clickPanels_def panels_openNew panels_bringToFront)

lemma rv_reachable_ok: "rv_reachable env s \<Longrightarrow> panels_ok (fst s)"
proof (induction rule: rv_reachable.induct)
  case (rv_mounted w b)
  have "panels_ok initialViewer" by (simp add: panels_ok_def initialViewer_def)
  then show ?case by (simp add: rv_mount_def panels_autoOpen)
next
  case (rv_event s w ev)
  then have "panels_ok (fst (on_viewer w ev s))"
    by (cases ev) (simp_all add: handleRowClick_def panels_click panels_close handlePanelDragStart_def panels_bringToFront panels_drag)
  then show ?case by (simp add: rv_effects_def panels_autoOpen)
next
  case (rv_store v b b' w)
  then show ?case by (simp add: rv_effects_def panels_autoOpen)
qed

text \<open>The panel just clicked is open, once, and above all others.\<close>

lemma click_on_top:
  assumes "panels_ok v"
  shows "\<exists>p \<in> set (rv_panels (clickPanels w i tab v)). is_panel i tab p \<and>
    (\<forall>q \<in> set (rv_panels (clickPanels w i tab v)). q = p \<or> pn_z q < pn_z p)"
proof (cases "list_ex (is_panel i tab) (rv_panels v)")
  case True
  then obtain p where p: "p \<in> set (rv_panels v)" "is_panel i tab p" by (auto simp: list_ex_iff)
  let ?p = "p\<lparr> pn_z := rv_nextZIndex v \<rparr>"
  have mem: "?p \<in> set (rv_panels (bringToFront i tab v))" using p by (force simp: bringToFront_def)
  have "q = ?p \<or> pn_z q < pn_z ?p" if "q \<in> set (rv_panels (bringToFront i tab v))" for q
  proof -
    from that obtain r where r: "r \<in> set (rv_panels v)" "q = (if is_panel i tab r then r\<lparr> pn_z := rv_nextZIndex v \<rparr> else r)"
      by (auto simp: bringToFront_def)
    show ?thesis
    proof (cases "is_panel i tab r")
      case True
      with is_panel_unique [OF assms r(1) p(1) True p(2)] r(2) show ?thesis by simp
    next
      case False
      with r assms show ?thesis by (simp add: panels_ok_def)
    qed
  qed
  moreover have "is_panel i tab ?p" using p(2) by (simp add: is_panel_def)
  ultimately have "\<exists>p \<in> set (rv_panels (bringToFront i tab v)). is_panel i tab p \<and>
      (\<forall>q \<in> set (rv_panels (bringToFront i tab v)). q = p \<or> pn_z q < pn_z p)"
    using mem by blast
  with True show ?thesis by (simp add: clickPanels_def)
next
  case False
  with assms show ?thesis
    by (auto simp: clickPanels_def openNew_def newPanel_def is_panel_def panels_ok_def Let_def)
qed



section \<open>Dragging\<close>

text \<open>A panel follows the mouse, whatever way it takes: coordinates are whole pixels of a screen.\<close>

definition on_screen :: "int \<times> int \<Rightarrow> bool" where
  "on_screen pos \<longleftrightarrow> \<bar>fst pos\<bar> \<le> 2 ^ 50 \<and> \<bar>snd pos\<bar> \<le> 2 ^ 50"

abbreviation jpoint :: "int \<times> int \<Rightarrow> point" where
  "jpoint pos \<equiv> (jint (fst pos), jint (snd pos))"

definition panel_at :: "jsval \<Rightarrow> string \<Rightarrow> int \<times> int \<Rightarrow> viewer \<Rightarrow> bool" where
  "panel_at i tab pos v \<longleftrightarrow> list_ex (is_panel i tab) (rv_panels v) \<and>
     list_all (\<lambda>p. is_panel i tab p \<longrightarrow> (pn_x p, pn_y p) = jpoint pos) (rv_panels v)"

lemma panel_at_map:
  assumes "panel_at i tab pos v" and "rv_panels u = map f (rv_panels v)" and "\<And>p. is_panel i tab (f p) = is_panel i tab p"
    and "\<And>p. is_panel i tab p \<Longrightarrow> pn_x p = jint (fst pos) \<Longrightarrow> pn_y p = jint (snd pos) \<Longrightarrow>
      pn_x (f p) = jint (fst pos') \<and> pn_y (f p) = jint (snd pos')"
  shows "panel_at i tab pos' u"
  using assms by (simp add: panel_at_def list_ex_iff list_all_iff)

lemma panel_at_drag:
  assumes "panel_at i tab (x, y) v" and "\<bar>x + dx\<bar> \<le> 2 ^ 53" and "\<bar>y + dy\<bar> \<le> 2 ^ 53"
  shows "panel_at i tab (x + dx, y + dy) (handlePanelDrag i tab (jint dx) (jint dy) v)"
proof (rule panel_at_map [OF assms(1)])
  show "rv_panels (handlePanelDrag i tab (jint dx) (jint dy) v) =
      map (\<lambda>p. if is_panel i tab p then p\<lparr> pn_x := js_add (pn_x p) (jint dx), pn_y := js_add (pn_y p) (jint dy) \<rparr> else p) (rv_panels v)"
    by (simp add: handlePanelDrag_def)
qed (simp_all add: is_panel_def js_int_ops(1) [OF assms(2)] js_int_ops(1) [OF assms(3)] del: js_add.simps)

lemma panel_at_front: "panel_at i tab pos v \<Longrightarrow> panel_at i tab pos (bringToFront i tab v)"
  by (erule panel_at_map [where f = "\<lambda>p. if is_panel i tab p then p\<lparr> pn_z := rv_nextZIndex v \<rparr> else p"])
    (simp_all add: bringToFront_def is_panel_def)

lemma drag_follows:
  assumes "panel_at i tab pos v" and "on_screen pos" and "on_screen start" and "list_all on_screen path"
  shows "panel_at i tab (fst pos + fst (last (start # path)) - fst start, snd pos + snd (last (start # path)) - snd start)
    (snd (fold (\<lambda>to. handleMouseMove i tab (jpoint to)) path (handleMouseDown i tab False (jpoint start) (None, v))))"
proof -
  have "panel_at i tab (fst pos + fst (last (c # path)) - fst start, snd pos + snd (last (c # path)) - snd start)
      (snd (fold (\<lambda>to. handleMouseMove i tab (jpoint to)) path (Some (jpoint c), u)))"
    if "on_screen c" "list_all on_screen path" "panel_at i tab (fst pos + fst c - fst start, snd pos + snd c - snd start) u" for c u path
    using that
  proof (induction path arbitrary: c u)
    case (Cons to path)
    have c: "\<bar>fst c\<bar> \<le> 2 ^ 50" "\<bar>snd c\<bar> \<le> 2 ^ 50" "\<bar>fst to\<bar> \<le> 2 ^ 50" "\<bar>snd to\<bar> \<le> 2 ^ 50" using Cons.prems by (simp_all add: on_screen_def)
    have f: "\<bar>fst pos\<bar> \<le> 2 ^ 50" "\<bar>snd pos\<bar> \<le> 2 ^ 50" "\<bar>fst start\<bar> \<le> 2 ^ 50" "\<bar>snd start\<bar> \<le> 2 ^ 50"
      using assms(2,3) by (simp_all add: on_screen_def)
    have pow: "(2::int) ^ 53 = 8 * 2 ^ 50" by simp
    have d: "js_sub (jint (fst to)) (jint (fst c)) = jint (fst to - fst c)" using c pow by (intro js_int_ops(2)) linarith
    have e: "js_sub (jint (snd to)) (jint (snd c)) = jint (snd to - snd c)" using c pow by (intro js_int_ops(2)) linarith
    have "panel_at i tab (fst pos + fst c - fst start + (fst to - fst c), snd pos + snd c - snd start + (snd to - snd c))
        (handlePanelDrag i tab (jint (fst to - fst c)) (jint (snd to - snd c)) u)"
      using c f pow by (intro panel_at_drag [OF Cons.prems(3)]; linarith)
    then have "panel_at i tab (fst pos + fst to - fst start, snd pos + snd to - snd start)
        (handlePanelDrag i tab (jint (fst to - fst c)) (jint (snd to - snd c)) u)" by (simp add: algebra_simps)
    from Cons.IH [OF _ _ this] Cons.prems show ?case by (simp add: handleMouseMove_def d e)
  qed simp
  from this [OF assms(3,4)] assms(1) show ?thesis
    by (simp add: handleMouseDown_def handlePanelDragStart_def panel_at_front)
qed

section \<open>Search\<close>

text \<open>The fields a search looks at, and entries that have them as texts; documentation may be missing.\<close>

definition search_fields :: "string \<Rightarrow> string list" where
  "search_fields tab =
     (if tab = ''capabilities'' then [''name'', ''id'', ''doc'']
      else if tab = ''tasks'' then [''op'', ''output_pattern'']
      else if tab = ''endpoints'' then [''name'', ''endpoint_id'', ''kind'']
      else [''name'', ''doc''])"

definition searchable :: "string \<Rightarrow> jsval \<Rightarrow> bool" where
  "searchable tab e \<longleftrightarrow>
     list_all (\<lambda>f. (\<exists>s. getp e f = JStr s) \<or>
       f = ''doc'' \<and> tab \<notin> {''capabilities'', ''tasks'', ''endpoints''} \<and> \<not> truthy (getp e f)) (search_fields tab)"

definition hit :: "string \<Rightarrow> jsval \<Rightarrow> bool" where
  "hit query v = (case v of JStr s \<Rightarrow> str_includes (toLowerCase s) (toLowerCase query) | _ \<Rightarrow> False)"

definition found :: "string \<Rightarrow> string \<Rightarrow> jsval \<Rightarrow> bool" where
  "found tab query e \<longleftrightarrow> query = [] \<or> list_ex (\<lambda>f. hit query (getp e f)) (search_fields tab)"

lemma hit_iff: "hit query v \<longleftrightarrow> (\<exists>s. v = JStr s \<and> str_includes (toLowerCase s) (toLowerCase query))"
  by (cases v) (simp_all add: hit_def)

lemma filterR_pure: "(\<And>x. x \<in> set xs \<Longrightarrow> f x = Inr (g x)) \<Longrightarrow> filterR f xs = Inr (filter g xs)"
  by (induction xs) auto

lemma toLowerCase_Nil [simp]: "toLowerCase s = [] \<longleftrightarrow> s = []"
  by (simp add: toLowerCase_def)

lemma includes_empty: "str_includes [] q \<longleftrightarrow> q = []"
  by (auto simp: str_includes_iff)

lemma lower_includes_hit: "\<exists>s. v = JStr s \<Longrightarrow> lower_includes (toLowerCase query) v = Inr (hit query v)"
  by (auto simp: lower_includes_def hit_def)

lemma orR_Inr [simp]: "orR (Inr a) (Inr b) = Inr (a \<or> b)"
  by (simp add: orR_def)

lemma falsy_no_hit: "\<not> truthy v \<Longrightarrow> query \<noteq> [] \<Longrightarrow> \<not> hit query v"
  by (cases v) (auto simp: hit_def toLowerCase_def includes_empty)

lemma doc_hit:
  assumes "(\<exists>s. v = JStr s) \<or> \<not> truthy v" and "query \<noteq> []"
  shows "(if truthy v then lower_includes (toLowerCase query) v else Inr False) = Inr (hit query v)"
proof (cases "truthy v")
  case True
  with assms(1) have "\<exists>s. v = JStr s" by blast
  with True show ?thesis by (simp add: lower_includes_hit)
next
  case False
  with falsy_no_hit [OF False assms(2)] show ?thesis by simp
qed

lemma matches_found:
  assumes "searchable tab e"
  shows "matches tab (toLowerCase query) e = Inr (found tab query e)"
proof (cases "query = []")
  case True
  then show ?thesis by (simp add: matches_def found_def)
next
  case False
  have "filterFn (toLowerCase query) e = Inr (hit query (getp e ''name'') \<or> hit query (getp e ''doc''))"
    if "\<exists>s. getp e ''name'' = JStr s" and "(\<exists>s. getp e ''doc'' = JStr s) \<or> \<not> truthy (getp e ''doc'')"
    unfolding filterFn_def doc_hit [OF that(2) False] lower_includes_hit [OF that(1)] by simp
  with False assms show ?thesis
    by (simp add: searchable_def matches_def found_def search_fields_def lower_includes_hit split: if_splits)
qed

lemma str_includes_trans: "str_includes s p \<Longrightarrow> str_includes p q \<Longrightarrow> str_includes s q"
  unfolding str_includes_iff by (metis append.assoc)

lemma found_narrows:
  assumes "str_includes (toLowerCase q') (toLowerCase q)" and "found tab q' e"
  shows "found tab q e"
proof (cases "q' = []")
  case True
  with assms(1) show ?thesis by (simp add: found_def toLowerCase_def includes_empty)
next
  case False
  with assms(2) obtain f where f: "f \<in> set (search_fields tab)" "hit q' (getp e f)" by (auto simp: found_def list_ex_iff)
  then have "hit q (getp e f)" using str_includes_trans [OF _ assms(1)] by (auto simp: hit_iff)
  with f(1) show ?thesis by (auto simp: found_def list_ex_iff)
qed

text \<open>
  The search of the registry browser: for entries with the fields of their tab, the list shown
  is, in the order of the registry, exactly the entries of which some searched field contains the query
  regardless of case; all of them for the empty query; and extending the query never shows an
  entry that was not shown before.
\<close>

theorem registry_search:
  assumes "tab \<in> {''keys'', ''params'', ''features'', ''capabilities'', ''tasks'', ''endpoints''}"
    and "tab_data r env tab = JArr items" and "list_all (searchable tab) items"
  shows "filteredData (Some r) env tab query = Inr (filter (found tab query) items) \<and>
    filteredData (Some r) env tab [] = Inr items \<and>
    (\<forall>query'. str_includes (toLowerCase query') (toLowerCase query) \<longrightarrow>
       (\<exists>shown. filteredData (Some r) env tab query' = Inr (filter shown (filter (found tab query) items))))"
proof -
  have all: "filteredData (Some r) env tab q = Inr (filter (found tab q) items)" for q
  proof -
    have "filterR (matches tab (toLowerCase q)) items = Inr (filter (found tab q) items)"
      using assms(3) by (intro filterR_pure matches_found) (simp add: list_all_iff)
    with assms(1,2) show ?thesis by (simp add: filteredData_def items_of_def Let_def)
  qed
  have "filter (found tab q') items = filter (found tab q') (filter (found tab query) items)"
    if "str_includes (toLowerCase q') (toLowerCase query)" for q'
    using found_narrows [OF that, of tab] by (auto simp: filter_filter intro: filter_cong)
  moreover have "filter (found tab []) items = items" by (simp add: found_def)
  ultimately show ?thesis using all by metis
qed

definition demo_registry :: RegistryData where
  "demo_registry = no_registries\<lparr> rd_keys := JArr [
     JObj [(''key_id'', JNum (jint 1)), (''name'', JStr ''User_Id''), (''doc'', JStr ''the viewer'')],
     JObj [(''key_id'', JNum (jint 2)), (''name'', JStr ''score'')]] \<rparr>"

theorem registry_search_witness:
  "filteredData (Some demo_registry) ''dev'' ''keys'' ''user'' =
     Inr [JObj [(''key_id'', JNum (jint 1)), (''name'', JStr ''User_Id''), (''doc'', JStr ''the viewer'')]]"
proof -
  let ?k1 = "JObj [(''key_id'', JNum (jint 1)), (''name'', JStr ''User_Id''), (''doc'', JStr ''the viewer'')]"
    and ?k2 = "JObj [(''key_id'', JNum (jint 2)), (''name'', JStr ''score'')]"
  have data: "tab_data demo_registry ''dev'' ''keys'' = JArr [?k1, ?k2]" by (simp add: tab_data_def demo_registry_def)
  have "getp ?k2 ''doc'' = JUndef" by (simp add: obj_get_def proto_get_def object_proto_def)
  then have "list_all (searchable ''keys'') [?k1, ?k2]" by (simp add: searchable_def search_fields_def obj_get_def)
  moreover have "found ''keys'' ''user'' ?k1" and "\<not> found ''keys'' ''user'' ?k2" by code_simp+
  ultimately show ?thesis using registry_search [OF _ data, of "''user''"] by simp
qed

section \<open>Tables and details\<close>

text \<open>A row has a cell for every column, and row and details begin with the id of the entry.\<close>

lemma table_rows:
  assumes "tab \<in> {''keys'', ''params'', ''features'', ''capabilities'', ''tasks'', ''endpoints''}"
  shows "length (tableCells tab e) = length (tableHead tab)" and "hd (tableCells tab e) = child (getp e (id_field tab))"
    and "snd (hd (renderDetails tab e)) = child (getp e (id_field tab))"
  using assms
  by (auto simp: tableCells_def tableHead_def keyCells_def featureCells_def capabilityCells_def taskCells_def endpointCells_def
      id_field_def renderDetails_def renderKeyDetails_def renderParamDetails_def renderFeatureDetails_def
      renderCapabilityDetails_def renderTaskDetails_def renderEndpointDetails_def Let_def)

text \<open>A panel shows the entry it was opened for.\<close>

lemma panel_shows_entry:
  assumes "truthy (getPanelDetails reg env p)"
  shows "getp (getPanelDetails reg env p) (id_field (pn_tab p)) = pn_id p"
    and "snd (hd (renderDetails (pn_tab p) (getPanelDetails reg env p))) = child (pn_id p)"
proof -
  obtain r e where r: "reg = Some r" and tab: "pn_tab p \<in> {''keys'', ''params'', ''features'', ''capabilities'', ''tasks'', ''endpoints''}"
    and e: "List.find (\<lambda>e. getp e (id_field (pn_tab p)) = pn_id p) (array_items (tab_data r env (pn_tab p))) = Some e"
    using assms by (auto simp: getPanelDetails_def split: option.splits if_splits)
  then have d: "getPanelDetails reg env p = e" by (simp add: getPanelDetails_def)
  from e show i: "getp (getPanelDetails reg env p) (id_field (pn_tab p)) = pn_id p" by (simp add: d find_Some_iff) blast
  with table_rows(3) [OF tab, of "getPanelDetails reg env p"]
  show "snd (hd (renderDetails (pn_tab p) (getPanelDetails reg env p))) = child (pn_id p)" by simp
qed

end
