(* ===== verification/VisDetails.thy ===== *)
theory VisDetails
  imports VisApp VisRegistry JsonParse
begin

text \<open>
  The details of a selected node (\<open>tools/visualizer/src/components/DetailsPanel.tsx\<close>): its sections, the
  notation for expressions and predicates with links into the registry browser, and what following
  such a link leads to. Content is a list of pieces, texts and links; \<open>None\<close> is an exception
  while rendering. Styles and the collapse button are left out.
\<close>

section \<open>Notation\<close>

datatype piece = Txt string | Ref string jsval

text \<open>The text of a piece: \<open>Key[id]\<close> and \<open>Param[id]\<close> for the two kinds of links.\<close>

fun piece_text :: "piece \<Rightarrow> string option" where
  "piece_text (Txt t) = Some t"
| "piece_text (Ref tab i) = cat_texts [Some (if tab = ''keys'' then ''Key['' else ''Param[''), child i, Some '']'']"

definition txt_opt :: "string option \<Rightarrow> piece list option" where
  "txt_opt t = map_option (\<lambda>s. [Txt s]) t"

text \<open>Fragments in sequence; an exception in one is an exception of the whole.\<close>

fun cat_pieces :: "piece list option list \<Rightarrow> piece list option" where
  "cat_pieces [] = Some []"
| "cat_pieces (p # ps) = (case (p, cat_pieces ps) of (Some x, Some y) \<Rightarrow> Some (x @ y) | _ \<Rightarrow> None)"

abbreviation lit_piece :: "string \<Rightarrow> piece list option" where
  "lit_piece s \<equiv> Some [Txt s]"

lemma size_sub:
  assumes "getp v ''op'' = JStr op" and "k \<in> {''a'', ''b'', ''x'', ''lhs''}"
  shows "size (getp v k) < size v"
proof (cases v)
  case (JObj kvs)
  show ?thesis
  proof (cases "map_of kvs k")
    case None
    with assms(2) JObj have "getp v k = JUndef" by (auto simp: obj_get_def proto_get_def object_proto_def)
    with JObj show ?thesis by simp
  next
    case (Some w)
    with size_obj [OF map_of_SomeD [OF Some]] JObj show ?thesis by (simp add: obj_get_def)
  qed
qed (use assms(1) in \<open>auto split: if_splits\<close>)

function formatExprJsx :: "jsval \<Rightarrow> piece list option" where
  "formatExprJsx expr =
     (if expr = JUndef \<or> expr = JNull then None
      else let op = getp expr ''op'' in
        if op = JStr ''const_number'' then txt_opt (child (getp expr ''value''))
        else if op = JStr ''const_null'' then lit_piece ''null''
        else if op = JStr ''key_ref'' then Some [Ref ''keys'' (getp expr ''key_id'')]
        else if op = JStr ''param_ref'' then Some [Ref ''params'' (getp expr ''param_id'')]
        else if op \<in> {JStr ''add'', JStr ''sub'', JStr ''mul''} then
          cat_pieces [lit_piece ''('', formatExprJsx (getp expr ''a''),
            lit_piece (if op = JStr ''add'' then '' + '' else if op = JStr ''sub'' then '' - '' else '' * ''),
            formatExprJsx (getp expr ''b''), lit_piece '')'']
        else if op = JStr ''neg'' then cat_pieces [lit_piece ''-'', formatExprJsx (getp expr ''x'')]
        else if op = JStr ''coalesce'' then
          cat_pieces [lit_piece ''coalesce('', formatExprJsx (getp expr ''a''), lit_piece '', '', formatExprJsx (getp expr ''b''), lit_piece '')'']
        else txt_opt (json_child (json_compact expr)))"
  by pat_completeness auto
termination
  by (relation "measure size") (auto dest: size_sub size_sub [OF sym])

declare formatExprJsx.simps [simp del]

text \<open>\<open>String(v)\<close> of a primitive value; objects other than arrays do not occur.\<close>

definition js_String :: "jsval \<Rightarrow> string" where
  "js_String v =
     (case v of
        JStr s \<Rightarrow> s | JNum x \<Rightarrow> num_str x | JBool b \<Rightarrow> (if b then ''true'' else ''false'')
      | JNull \<Rightarrow> ''null'' | JUndef \<Rightarrow> ''undefined'' | _ \<Rightarrow> ''[object Object]'')"

text \<open>\<open>list.join(', ')\<close>, where \<open>null\<close> and \<open>undefined\<close> are empty.\<close>

definition js_join :: "jsval \<Rightarrow> string option" where
  "js_join v =
     (case v of
        JArr xs \<Rightarrow> Some (join_comma (map (\<lambda>x. if x = JNull \<or> x = JUndef then [] else js_String x) xs))
      | _ \<Rightarrow> None)"

definition patternJsx :: "jsval \<Rightarrow> piece list option" where
  "patternJsx pattern =
     (if opt_get pattern ''kind'' = JStr ''literal''
      then cat_pieces [lit_piece [CHR 0x22], txt_opt (child (getp pattern ''value'')), lit_piece [CHR 0x22]]
      else Some [Ref ''params'' (opt_get pattern ''param_id'')])"

function formatPredJsx :: "jsval \<Rightarrow> piece list option" where
  "formatPredJsx pred =
     (if pred = JUndef \<or> pred = JNull then None
      else let op = getp pred ''op'' in
        if op = JStr ''const_bool'' then lit_piece (js_String (getp pred ''value''))
        else if op = JStr ''and'' then
          cat_pieces [lit_piece ''('', formatPredJsx (getp pred ''a''), lit_piece '' AND '', formatPredJsx (getp pred ''b''), lit_piece '')'']
        else if op = JStr ''or'' then
          cat_pieces [lit_piece ''('', formatPredJsx (getp pred ''a''), lit_piece '' OR '', formatPredJsx (getp pred ''b''), lit_piece '')'']
        else if op = JStr ''not'' then cat_pieces [lit_piece ''NOT '', formatPredJsx (getp pred ''x'')]
        else if op = JStr ''cmp'' then
          cat_pieces [lit_piece ''('', formatExprJsx (getp pred ''a''), lit_piece '' '', txt_opt (child (getp pred ''cmp'')),
            lit_piece '' '', formatExprJsx (getp pred ''b''), lit_piece '')'']
        else if op = JStr ''in'' then
          cat_pieces [formatExprJsx (getp pred ''lhs''), lit_piece '' IN ['', txt_opt (js_join (getp pred ''list'')), lit_piece '']'']
        else if op = JStr ''is_null'' then cat_pieces [lit_piece ''IS_NULL('', formatExprJsx (getp pred ''x''), lit_piece '')'']
        else if op = JStr ''not_null'' then cat_pieces [lit_piece ''NOT_NULL('', formatExprJsx (getp pred ''x''), lit_piece '')'']
        else if op = JStr ''regex'' then
          cat_pieces [Some [Ref ''keys'' (getp pred ''key_id'')], lit_piece '' REGEX '', patternJsx (getp pred ''pattern'')]
        else txt_opt (json_child (json_compact pred)))"
  by pat_completeness auto
termination
  by (relation "measure size") (auto dest: size_sub size_sub [OF sym])

declare formatPredJsx.simps [simp del]

section \<open>The panel\<close>

datatype details_view = Hidden | Hint | Blank | Details string "(string \<times> piece list option) list"

definition nodeFlags :: "VisNode \<Rightarrow> string" where
  "nodeFlags n = (if vn_isSource n then ''Source'' else []) @ (if vn_isOutput n then ''Output'' else [])"

definition edgeList :: "string list \<Rightarrow> string" where
  "edgeList ends = (if ends \<noteq> [] then join_comma ends else ''None'')"

text \<open>\<open>id ? table?.[id] : undefined\<close> for the two tables of the plan.\<close>

definition tableEntry :: "jsval \<Rightarrow> jsval \<Rightarrow> jsval" where
  "tableEntry table i = (if truthy i then opt_get table (id_text i) else JUndef)"

definition detailsPanel :: "jsval \<Rightarrow> jsval \<Rightarrow> store \<Rightarrow> details_view" where
  "detailsPanel expr_table pred_table s =
     (if detailsCollapsed s then Hidden
      else case (selectedNodeId s, graph s, planJson s) of
        (Some i, Some g, Some j) \<Rightarrow>
          if i = [] then Hint
          else (case map_of (vg_nodes g) i of
             None \<Rightarrow> Blank
           | Some n \<Rightarrow>
               let ins = map ve_from (filter (\<lambda>e. ve_to e = i) (vg_edges g));
                   outs = map ve_to (filter (\<lambda>e. ve_from e = i) (vg_edges g));
                   exprId = obj_get (vn_params n) ''expr_id'';
                   predId = obj_get (vn_params n) ''pred_id'';
                   expr = tableEntry expr_table exprId;
                   pred = tableEntry pred_table predId
               in Details (vn_label n)
                    ([(''Node ID'', lit_piece (vn_id n)), (''Operation'', lit_piece (vn_op n)), (''Flags'', lit_piece (nodeFlags n)),
                      (''Inputs ('' @ nat_str (length ins) @ '')'', lit_piece (edgeList ins)),
                      (''Outputs ('' @ nat_str (length outs) @ '')'', lit_piece (edgeList outs)),
                      (''Params'', txt_opt (json_child (json_text ''  '' [] (JObj (vn_params n)))))] @
                     (if truthy expr then [(''Expression ('' @ id_text exprId @ '')'', formatExprJsx expr)] else []) @
                     (if truthy pred then [(''Predicate ('' @ id_text predId @ '')'', formatPredJsx pred)] else [])))
      | _ \<Rightarrow> Hint)"

text \<open>Following a link loads the page anew at the registry entry.\<close>

definition navigateToRegistry :: "string \<Rightarrow> jsval \<Rightarrow> query \<Rightarrow> query" where
  "navigateToRegistry tab i q =
     params_set ''selected'' (js_String i) (params_set ''tab'' tab (params_set ''view'' ''registries'' q))"

section \<open>Every compiled expression is shown in its own notation\<close>

fun show_expr :: "expr_node \<Rightarrow> piece list" where
  "show_expr (ConstNumber x) = [Txt (num_str x)]"
| "show_expr ConstNull = [Txt ''null'']"
| "show_expr (KeyRef i) = [Ref ''keys'' (JNum i)]"
| "show_expr (ParamRef i) = [Ref ''params'' (JNum i)]"
| "show_expr (EAdd a b) = Txt ''('' # show_expr a @ Txt '' + '' # show_expr b @ [Txt '')'']"
| "show_expr (ESub a b) = Txt ''('' # show_expr a @ Txt '' - '' # show_expr b @ [Txt '')'']"
| "show_expr (EMul a b) = Txt ''('' # show_expr a @ Txt '' * '' # show_expr b @ [Txt '')'']"
| "show_expr (ENeg x) = Txt ''-'' # show_expr x"
| "show_expr (ECoalesce a b) = Txt ''coalesce('' # show_expr a @ Txt '', '' # show_expr b @ [Txt '')'']"

fun lit_text :: "lit \<Rightarrow> string" where
  "lit_text (LitNum x) = num_str x"
| "lit_text (LitStr s) = s"

fun show_pattern :: "regex_pattern \<Rightarrow> piece list" where
  "show_pattern (RegexLiteral s) = [Txt [CHR 0x22], Txt s, Txt [CHR 0x22]]"
| "show_pattern (RegexParam i) = [Ref ''params'' (JNum i)]"

fun show_pred :: "pred_node \<Rightarrow> piece list" where
  "show_pred (ConstBool b) = [Txt (if b then ''true'' else ''false'')]"
| "show_pred (PAnd a b) = Txt ''('' # show_pred a @ Txt '' AND '' # show_pred b @ [Txt '')'']"
| "show_pred (POr a b) = Txt ''('' # show_pred a @ Txt '' OR '' # show_pred b @ [Txt '')'']"
| "show_pred (PNot x) = Txt ''NOT '' # show_pred x"
| "show_pred (PCmp c a b) = Txt ''('' # show_expr a @ Txt '' '' # Txt (cmp_str c) # Txt '' '' # show_expr b @ [Txt '')'']"
| "show_pred (PIn l vs) = show_expr l @ [Txt '' IN ['', Txt (join_comma (map lit_text vs)), Txt '']'']"
| "show_pred (IsNull x) = Txt ''IS_NULL('' # show_expr x @ [Txt '')'']"
| "show_pred (NotNull x) = Txt ''NOT_NULL('' # show_expr x @ [Txt '')'']"
| "show_pred (PRegex k p fl) = Ref ''keys'' (JNum k) # Txt '' REGEX '' # show_pattern p"

text \<open>The references of an expression or predicate, from left to right.\<close>

fun expr_links :: "expr_node \<Rightarrow> (string \<times> jsval) list" where
  "expr_links (ConstNumber x) = []"
| "expr_links ConstNull = []"
| "expr_links (KeyRef i) = [(''keys'', JNum i)]"
| "expr_links (ParamRef i) = [(''params'', JNum i)]"
| "expr_links (EAdd a b) = expr_links a @ expr_links b"
| "expr_links (ESub a b) = expr_links a @ expr_links b"
| "expr_links (EMul a b) = expr_links a @ expr_links b"
| "expr_links (ENeg x) = expr_links x"
| "expr_links (ECoalesce a b) = expr_links a @ expr_links b"

fun pred_links :: "pred_node \<Rightarrow> (string \<times> jsval) list" where
  "pred_links (ConstBool b) = []"
| "pred_links (PAnd a b) = pred_links a @ pred_links b"
| "pred_links (POr a b) = pred_links a @ pred_links b"
| "pred_links (PNot x) = pred_links x"
| "pred_links (PCmp c a b) = expr_links a @ expr_links b"
| "pred_links (PIn l vs) = expr_links l"
| "pred_links (IsNull x) = expr_links x"
| "pred_links (NotNull x) = expr_links x"
| "pred_links (PRegex k p fl) = (''keys'', JNum k) # (case p of RegexLiteral _ \<Rightarrow> [] | RegexParam i \<Rightarrow> [(''params'', JNum i)])"

fun links :: "piece list \<Rightarrow> (string \<times> jsval) list" where
  "links [] = []"
| "links (Txt t # ps) = links ps"
| "links (Ref tab i # ps) = (tab, i) # links ps"

lemma links_append [simp]: "links (ps @ qs) = links ps @ links qs"
  by (induction ps rule: links.induct) simp_all

lemma formatExpr_shows: "formatExprJsx (expr_js e) = Some (show_expr e)"
  by (induction e) (subst formatExprJsx.simps, simp add: obj_get_def txt_opt_def child_def)+

lemma js_join_lits: "js_join (JArr (map lit_js vs)) = Some (join_comma (map lit_text vs))"
proof -
  have "(if lit_js v = JNull \<or> lit_js v = JUndef then [] else js_String (lit_js v)) = lit_text v" for v
    by (cases v) (simp_all add: js_String_def)
  then show ?thesis by (simp add: js_join_def comp_def)
qed

lemma patternJsx_shows: "patternJsx (pattern_js p) = Some (show_pattern p)"
  by (cases p) (simp_all add: patternJsx_def opt_get_def obj_get_def txt_opt_def child_def)

lemma formatPred_shows: "formatPredJsx (pred_js p) = Some (show_pred p)"
  by (induction p)
    (subst formatPredJsx.simps, simp add: obj_get_def txt_opt_def child_def formatExpr_shows js_join_lits patternJsx_shows js_String_def)+

lemma links_shown [simp]: "links (show_expr e) = expr_links e" "links (show_pattern q) = (case q of RegexLiteral _ \<Rightarrow> [] | RegexParam i \<Rightarrow> [(''params'', JNum i)])"
  "links (show_pred p) = pred_links p"
proof -
  show e: "links (show_expr e) = expr_links e" for e by (induction e) simp_all
  show q: "links (show_pattern q) = (case q of RegexLiteral _ \<Rightarrow> [] | RegexParam i \<Rightarrow> [(''params'', JNum i)])" for q by (cases q) simp_all
  show "links (show_pred p) = pred_links p" by (induction p) (simp_all add: e q)
qed

text \<open>
  The details panel shows every expression and every predicate of the intermediate
  representation, as the compilers and builders write it into a plan: rendering never raises and never
  falls back to raw JSON, operators and arguments appear in order, and the links are exactly the key and
  parameter references, from left to right.
\<close>

theorem details_show_ir:
  "formatExprJsx (expr_js e) = Some (show_expr e) \<and> links (show_expr e) = expr_links e \<and>
   formatPredJsx (pred_js p) = Some (show_pred p) \<and> links (show_pred p) = pred_links p"
  by (simp add: formatExpr_shows formatPred_shows)

section \<open>Following a link\<close>

lemma trim_digits: "list_all is_digit s \<Longrightarrow> trim s = s"
proof -
  assume s: "list_all is_digit s"
  have ws: "\<not> is_ws c" if "is_digit c" for c
  proof -
    have "list_all (\<lambda>c. \<not> is_digit c) [CHR '' '', CHR 0x09, CHR 0x0A, CHR 0x0B, CHR 0x0C, CHR 0x0D, CHR 0xA0]" by code_simp
    with that show ?thesis by (auto simp: is_ws_def)
  qed
  have "dropWhile is_ws t = t" if "list_all is_digit t" for t
    using that ws by (cases t) auto
  from this [OF s] this [of "rev s"] s show ?thesis by (simp add: trim_def)
qed

lemma digits_no_prefix: "list_all is_digit s \<Longrightarrow> \<not> is_digit c \<Longrightarrow> \<not> startsWith s [d, c]"
  by (auto simp: startsWith_iff)

lemma js_Number_nat: "n \<le> 2 ^ 53 \<Longrightarrow> js_Number (nat_str n) = jint (int n)"
proof -
  assume n: "n \<le> 2 ^ 53"
  have ds: "list_all is_digit (nat_str n)" using nat_str_digits by blast
  have "\<not> is_digit CHR ''x'' \<and> \<not> is_digit CHR ''X'' \<and> \<not> is_digit CHR ''o'' \<and> \<not> is_digit CHR ''O'' \<and>
      \<not> is_digit CHR ''b'' \<and> \<not> is_digit CHR ''B''" by code_simp
  with digits_no_prefix [OF ds] str_decimal_nat [OF n] show ?thesis
    by (simp add: js_Number_def trim_digits [OF ds] Let_def)
qed

lemma navigate_query:
  "params_get (navigateToRegistry tab i q) ''view'' = JStr ''registries''"
  "params_get (navigateToRegistry tab i q) ''tab'' = JStr tab"
  "params_get (navigateToRegistry tab i q) ''selected'' = JStr (js_String i)"
  by (simp_all add: navigateToRegistry_def params_get_def params_set_get)

text \<open>
  A link of the details panel leads to its registry entry: the page it loads shows the registry
  browser, and once the registries have arrived the entry's tab and id are selected and its panel
  is open.
\<close>

theorem link_opens_entry:
  fixes q :: query and w :: jnum
  assumes "n \<le> 2 ^ 53" and "tab \<in> {''keys'', ''params''}"
  defines "q' \<equiv> navigateToRegistry tab (JNum (jint (int n))) q"
  defines "s \<equiv> rv_mount w (initHistory q')"
  shows "updateViewFromUrl q' = RegistriesView \<and>
    (\<exists>b. answer env 0 (GotRegistries d) (snd s) = Some b \<and> selectedRegistryTab (b_store b) = tab \<and>
       selectedRegistryEntry (b_store b) = JNum (jint (int n)) \<and>
       list_ex (is_panel (JNum (jint (int n))) tab) (rv_panels (fst (rv_effects w (snd s) (fst s, b)))))"
proof -
  let ?i = "JNum (jint (int n))"
  have str: "js_String ?i = nat_str n" using num_str_nat [OF assms(1)] by (simp add: js_String_def)
  have q: "params_get q' ''view'' = JStr ''registries''" "params_get q' ''tab'' = JStr tab" "params_get q' ''selected'' = JStr (nat_str n)"
    unfolding q'_def navigate_query str by (rule HOL.refl)+
  have sel: "selectedFromUrl (JStr (nat_str n)) = ?i"
    using js_Number_nat [OF assms(1)] by (simp add: selectedFromUrl_def)
  have tab: "the_tab (js_or (JStr tab) (JStr ''keys'')) = tab" using assms(2) by (auto simp: js_or_def the_tab_def)
  let ?b = "initHistory q'"
  have b: "?b = loadRegistries (ShowRegistry tab (JStr (nat_str n)))
      \<lparr> b_store = initialStore, isHandlingPopState = True, b_query = q', b_history = [], b_pending = [] \<rparr>"
    by (simp add: initHistory_def Let_def q tab)
  have pend: "b_pending ?b = [ReqRegistries (ShowRegistry tab (JStr (nat_str n)))]"
    and st: "registriesLoading (b_store ?b)" "registries (b_store ?b) = None"
    by (simp_all add: b loadRegistries_def fetching_def setState_def initialStore_def)
  have s: "s = (initialViewer, ?b)"
    using st by (simp add: s_def rv_mount_def autoOpen_def ensureRegistries_def)
  obtain b' where b': "answer env 0 (GotRegistries d) ?b = Some b'" and store: "selectedRegistryTab (b_store b') = tab"
    "selectedRegistryEntry (b_store b') = ?i" "registries (b_store b') = Some d"
    by (simp add: answer_def pend registriesResponse_def runAfter_def setState_def sel)
  have "list_ex (is_panel ?i tab) (rv_panels (fst (rv_effects w ?b (initialViewer, b'))))"
    using store st by (simp add: rv_effects_def panel_deps_def autoOpen_def isPanelOpen_def initialViewer_def openNew_def newPanel_def
        is_panel_def Let_def)
  with b' store q show ?thesis by (simp add: s updateViewFromUrl_def)
qed

theorem link_opens_entry_witness:
  "updateViewFromUrl (navigateToRegistry ''keys'' (JNum (jint (int 7))) [(''plan'', ''a'')]) = RegistriesView \<and>
   (\<exists>b. answer still 0 (GotRegistries no_registries)
       (snd (rv_mount (jint 800) (initHistory (navigateToRegistry ''keys'' (JNum (jint (int 7))) [(''plan'', ''a'')])))) = Some b \<and>
     selectedRegistryEntry (b_store b) = JNum (jint (int 7)))"
  using link_opens_entry [of 7 "''keys''" "[(''plan'', ''a'')]" still no_registries "jint 800"] by fastforce

end
