(* ===== verification/JsonStable.thy ===== *)
theory JsonStable
  imports JsonParse
begin

text \<open>
  What \<open>JSON.parse\<close> reads from the text that \<open>stableStringify\<close> writes: the value itself with the properties of
  every object in sorted order, without the properties that JSON leaves out. Proved for every
  indentation and every value whose numbers can be printed and read bk.
\<close>

section \<open>The value that a text stands for\<close>

text \<open>\<open>None\<close> is a value that JSON leaves out.\<close>

function json_image :: "jsval \<Rightarrow> jsval option" where
  "json_image value =
     (case stableReplacer value of
        JNull \<Rightarrow> Some JNull
      | JBool b \<Rightarrow> Some (JBool b)
      | JStr s \<Rightarrow> Some (JStr s)
      | JNum x \<Rightarrow> Some (if is_finite_num x then JNum x else JNull)
      | JArr vs \<Rightarrow> Some (JArr (map (\<lambda>v. case json_image v of None \<Rightarrow> JNull | Some w \<Rightarrow> w) vs))
      | JObj kvs \<Rightarrow> Some (JObj (concat (map (\<lambda>(k, v). case json_image v of None \<Rightarrow> [] | Some w \<Rightarrow> [(k, w)]) kvs)))
      | _ \<Rightarrow> None)"
  by pat_completeness auto
termination
proof (relation "measure json_size", goal_cases)
  case (2 u vs v)
  then show ?case using size_arr [of v vs] by (simp add: stableReplacer_arr json_size_less)
next
  case (3 u kvs x k v)
  then show ?case using json_size_member [of u k v] by (auto simp: stableReplacer_obj)
qed simp

declare json_image.simps [simp del]

text \<open>
  A number that reads bk as printed, and values all of whose numbers do. Property names of one
  object are different.
\<close>

definition num_reads :: "jnum \<Rightarrow> bool" where
  "num_reads x \<longleftrightarrow> list_all num_char (num_str x) \<and> json_number (num_str x) \<and> str_decimal (num_str x) = x"

fun readable :: "jsval \<Rightarrow> bool" where
  "readable (JNum x) \<longleftrightarrow> (is_finite_num x \<longrightarrow> num_reads x)"
| "readable (JArr vs) \<longleftrightarrow> list_all readable vs"
| "readable (JObj kvs) \<longleftrightarrow> distinct (map fst kvs) \<and> list_all (\<lambda>(k, v). readable v) kvs"
| "readable v \<longleftrightarrow> True"

section \<open>Reading indented text\<close>

abbreviation blank :: "string \<Rightarrow> bool" where
  "blank \<equiv> list_all json_ws"

lemma skip_blank [simp]: "blank u \<Longrightarrow> skip (u @ s) = skip s"
  by (simp add: skip_def dropWhile_append2 list_all_iff)

lemma ws_newline [simp]: "json_ws newline" "json_ws CHR '' ''"
  by (simp_all add: json_ws_def newline_def)

lemma stops_newline [simp]: "stops (newline # r)"
  by (simp add: stops_def newline_def num_char_def is_digit_def)

lemma parse_value_blank: "blank u \<Longrightarrow> parse_value (u @ s) = parse_value s"
proof -
  assume u: "blank u"
  have guard: "length r < length s \<and> length r < length (u @ s)" if "skip s = c # r" for c r
    using skip_Cons [OF that] by simp
  show ?thesis
  proof (cases "skip s")
    case Nil
    with u show ?thesis by (simp add: parse_value.simps [of s] parse_value.simps [of "u @ s"])
  next
    case (Cons c r)
    with u guard [OF Cons] show ?thesis by (simp add: parse_value.simps [of s] parse_value.simps [of "u @ s"])
  qed
qed

lemma join_lines_simps [simp]:
  "join_lines ind [] = []" "join_lines ind [p] = p"
  "join_lines ind (p # q # ps) = p @ CHR '','' # newline # ind @ join_lines ind (q # ps)"
  by (simp_all add: join_lines_def)

lemma reads_parse: "reads v t \<Longrightarrow> stops r \<Longrightarrow> blank u \<Longrightarrow> parse_value (u @ t @ r) = Some (v, r)"
  by (simp add: parse_value_blank reads_def)

lemma parse_elems_lines:
  assumes "list_all2 reads vs ts" and "vs \<noteq> []" and "blank ind" and "blank bk" and "blank u"
  shows "parse_elems (u @ join_lines ind ts @ newline # bk @ CHR '']'' # r) = Some (vs, r)"
  using assms
proof (induction vs ts arbitrary: u rule: list_all2_induct)
  case (Cons v vs t ts)
  note pv = reads_parse [OF Cons(1) _ Cons(7)]
  have nl: "skip (newline # bk @ CHR '']'' # r) = CHR '']'' # r"
    using Cons(6) skip_blank [of "newline # bk" "CHR '']'' # r"] by simp
  show ?case
  proof (cases ts)
    case Nil
    with Cons have "vs = []" by simp
    with Nil pv [of "newline # bk @ CHR '']'' # r"] nl show ?thesis by (subst parse_elems.simps) simp
  next
    case (Cons t' ts')
    with Cons.hyps have "vs \<noteq> []" by auto
    with Cons.IH [of "newline # ind"] Cons.prems
    have "parse_elems (newline # ind @ join_lines ind ts @ newline # bk @ CHR '']'' # r) = Some (vs, r)" by simp
    with Cons pv [of "CHR '','' # newline # ind @ join_lines ind ts @ newline # bk @ CHR '']'' # r"]
    show ?thesis by (subst parse_elems.simps) simp
  qed
qed simp

definition line_text :: "string \<times> string \<Rightarrow> string" where
  "line_text m = json_quote (fst m) @ '': '' @ snd m"

lemma parse_members_lines:
  assumes "list_all2 (\<lambda>(k, v) (k', t). k = k' \<and> reads v t) kvs ts" and "kvs \<noteq> []" and "distinct (map fst (acc @ kvs))"
    and "blank ind" and "blank bk" and "blank u"
  shows "parse_members acc (u @ join_lines ind (map line_text ts) @ newline # bk @ CHR ''}'' # r) = Some (acc @ kvs, r)"
  using assms
proof (induction kvs ts arbitrary: acc u rule: list_all2_induct)
  case (Cons kv kvs m ts)
  obtain k v t where kv: "kv = (k, v)" and m: "m = (k, t)" using Cons(1) by (cases kv; cases m) auto
  with Cons(1) have pv: "parse_value (CHR '' '' # t @ x) = Some (v, x)" if "stops x" for x
    using reads_parse [of v t x "'' ''"] that by simp
  have set: "alist_set k v acc = acc @ [(k, v)]" using Cons(5) kv by (intro alist_set_fresh) auto
  have key: "parse_chars (concat (map json_char k) @ CHR 0x22 # x) = Some (k, x)" for x using parse_quoted [of k x] by simp
  have mt: "line_text (k, t) = CHR 0x22 # concat (map json_char k) @ CHR 0x22 # CHR '':'' # CHR '' '' # t"
    by (simp add: line_text_def json_quote_def)
  have nl: "skip (newline # bk @ CHR ''}'' # r) = CHR ''}'' # r"
    using Cons(7) skip_blank [of "newline # bk" "CHR ''}'' # r"] by simp
  show ?case
  proof (cases ts)
    case Nil
    with Cons have "kvs = []" by simp
    with Nil Cons(8) nl show ?thesis by (subst parse_members.simps) (simp add: mt kv m key pv set)
  next
    case (Cons m' ts')
    with Cons.hyps have "kvs \<noteq> []" by auto
    with Cons.IH [of "acc @ [(k, v)]" "newline # ind"] Cons.prems kv
    have "parse_members (acc @ [(k, v)]) (newline # ind @ join_lines ind (map line_text ts) @ newline # bk @ CHR ''}'' # r)
        = Some (acc @ kv # kvs, r)" by simp
    with Cons Cons.prems(5) show ?thesis by (subst parse_members.simps) (simp add: mt kv m key pv set)
  qed
qed simp

section \<open>Printed values read bk\<close>

lemma reads_number: "num_reads x \<Longrightarrow> reads (JNum x) (num_str x)"
proof -
  assume x: "num_reads x"
  let ?s = "num_str x"
  have "takeWhile is_digit [] = []" by simp
  with x obtain c cs where s: "?s = c # cs" and c: "is_digit c \<or> c = CHR ''-''"
    by (cases ?s) (auto simp: num_reads_def json_number_def Let_def split: if_splits)
  have vis: "c \<notin> set (''Intf{[]}'' @ [CHR 0x22, CHR 0x09, CHR 0x0A, CHR 0x0D, CHR '' ''])"
    using c is_digit_not_sign [of c] by (elim disjE) simp_all
  have "parse_value (?s @ r) = Some (JNum x, r)" if r: "stops r" for r
  proof -
    have "takeWhile num_char r = []" "dropWhile num_char r = r" using r by (cases r; simp add: stops_def)+
    with x have "parse_number (?s @ r) = Some (JNum x, r)"
      by (simp add: parse_number_def num_reads_def list_all_iff takeWhile_append2 dropWhile_append2)
    moreover have "skip (?s @ r) = c # cs @ r" using vis by (simp add: s skip_def json_ws_def)
    moreover have "parse_literal (c # cs @ r) = parse_number (c # cs @ r)"
      using vis by (auto simp: parse_literal_def startsWith_iff)
    ultimately show ?thesis using vis by (subst parse_value.simps) (simp add: s)
  qed
  with vis show ?thesis by (auto simp: reads_def s json_ws_def)
qed

lemma reads_literals: "reads JNull ''null''" "reads (JBool b) (if b then ''true'' else ''false'')" "reads (JStr s) (json_quote s)"
  using parse_string [of s]
  by (auto simp: reads_def parse_value.simps [of "_ # _"] json_ws_def parse_literal_def startsWith_iff json_quote_def)

lemma reads_block_arr:
  assumes "list_all2 reads vs ts" and "blank ind" and "blank bk"
  shows "reads (JArr vs) (json_block CHR ''['' CHR '']'' bk ind ts)"
proof (cases ts)
  case Nil
  with assms(1) show ?thesis by (simp add: json_block_def reads_def parse_value.simps [of "_ # _"])
next
  case (Cons t ts')
  let ?body = "\<lambda>r. newline # ind @ join_lines ind ts @ newline # bk @ CHR '']'' # r"
  have ne: "vs \<noteq> []" using assms(1) Cons by auto
  have t: "t \<noteq> []" "hd t \<noteq> CHR '']''" "\<not> json_ws (hd t)" using assms(1) Cons by (auto simp: reads_def list_all2_Cons2)
  obtain rest where "join_lines ind ts = t @ rest" using Cons by (cases ts') auto
  with t assms(2) have hd: "skip (?body r) \<noteq> [] \<and> hd (skip (?body r)) \<noteq> CHR '']''" for r
    using skip_blank [of "newline # ind" "join_lines ind ts @ newline # bk @ CHR '']'' # r"] by (cases t) simp_all
  have "parse_elems (?body r) = Some (vs, r)" for r
    using parse_elems_lines [OF assms(1) ne assms(2,3), of "newline # ind" r] assms(2) by simp
  with hd have "parse_value (CHR ''['' # ?body r) = Some (JArr vs, r)" for r by (subst parse_value.simps) simp
  with Cons show ?thesis by (simp add: json_block_def reads_def)
qed

lemma reads_block_obj:
  assumes "list_all2 (\<lambda>(k, v) (k', t). k = k' \<and> reads v t) kvs ts" and "distinct (map fst kvs)" and "blank ind" and "blank bk"
  shows "reads (JObj kvs) (json_block CHR ''{'' CHR ''}'' bk ind (map line_text ts))"
proof (cases ts)
  case Nil
  with assms(1) show ?thesis by (simp add: json_block_def reads_def parse_value.simps [of "_ # _"])
next
  case (Cons m ts')
  let ?body = "\<lambda>r. newline # ind @ join_lines ind (map line_text ts) @ newline # bk @ CHR ''}'' # r"
  have ne: "kvs \<noteq> []" using assms(1) Cons by auto
  obtain rest where "join_lines ind (map line_text ts) = CHR 0x22 # rest"
    using Cons by (cases ts') (simp_all add: line_text_def json_quote_def)
  with assms(3) have hd: "hd (skip (?body r)) \<noteq> CHR ''}''" for r
    using skip_blank [of "newline # ind" "join_lines ind (map line_text ts) @ newline # bk @ CHR ''}'' # r"] by simp
  have "parse_members [] (?body r) = Some (kvs, r)" for r
    using parse_members_lines [OF assms(1) ne, of "[]" ind bk "newline # ind" r] assms(2-4) by simp
  with hd have "parse_value (CHR ''{'' # ?body r) = Some (JObj kvs, r)" for r by (subst parse_value.simps) simp
  with Cons show ?thesis by (simp add: json_block_def reads_def)
qed

text \<open>A printed text, if there is one, is read as the value it stands for.\<close>

definition read_as :: "string option \<Rightarrow> jsval option \<Rightarrow> bool" where
  "read_as t w \<longleftrightarrow> rel_option (\<lambda>t w. reads w t) t w"

lemma image_elems:
  assumes "\<And>v r. v \<in> set vs \<Longrightarrow> f v = Inr r \<Longrightarrow> read_as r (json_image v)" and "mapR f vs = Inr parts"
  shows "list_all2 reads (map (\<lambda>v. case json_image v of None \<Rightarrow> JNull | Some w \<Rightarrow> w) vs)
    (map (\<lambda>p. case p of None \<Rightarrow> ''null'' | Some s \<Rightarrow> s) parts)"
  using assms
proof (induction vs arbitrary: parts)
  case (Cons v vs)
  then obtain p ps where p: "f v = Inr p" "mapR f vs = Inr ps" "parts = p # ps" by (auto simp: bindR_Inr_iff)
  from Cons.prems(1) [OF _ p(1)] have "read_as p (json_image v)" by simp
  then have "reads (case json_image v of None \<Rightarrow> JNull | Some w \<Rightarrow> w) (case p of None \<Rightarrow> ''null'' | Some s \<Rightarrow> s)"
    by (auto simp: read_as_def reads_literals elim: option.rel_cases)
  moreover have "list_all2 reads (map (\<lambda>v. case json_image v of None \<Rightarrow> JNull | Some w \<Rightarrow> w) vs)
      (map (\<lambda>p. case p of None \<Rightarrow> ''null'' | Some s \<Rightarrow> s) ps)"
    by (rule Cons.IH [OF _ p(2)]) (use Cons.prems(1) in simp)
  ultimately show ?case by (simp add: p(3))
qed simp

abbreviation image_members :: "(string \<times> jsval) list \<Rightarrow> (string \<times> jsval) list" where
  "image_members kvs \<equiv> concat (map (\<lambda>(k, v). case json_image v of None \<Rightarrow> [] | Some w \<Rightarrow> [(k, w)]) kvs)"

lemma image_members:
  assumes "\<And>k v r. (k, v) \<in> set kvs \<Longrightarrow> f v = Inr r \<Longrightarrow> read_as r (json_image v)"
    and "mapR (\<lambda>(k, v). bindR (f v) (\<lambda>r. Inr (map_option (\<lambda>s. json_quote k @ '': '' @ s) r))) kvs = Inr ms"
  shows "\<exists>ts. concat (map (\<lambda>m. case m of None \<Rightarrow> [] | Some s \<Rightarrow> [s]) ms) = map line_text ts \<and>
    list_all2 (\<lambda>(k, v) (k', t). k = k' \<and> reads v t) (image_members kvs) ts"
  using assms
proof (induction kvs arbitrary: ms)
  case (Cons kv kvs)
  obtain k v where kv: "kv = (k, v)" by (cases kv)
  from Cons.prems(2) obtain r ms' where r: "f v = Inr r" "ms = map_option (\<lambda>s. json_quote k @ '': '' @ s) r # ms'"
    and ms': "mapR (\<lambda>(k, v). bindR (f v) (\<lambda>r. Inr (map_option (\<lambda>s. json_quote k @ '': '' @ s) r))) kvs = Inr ms'"
    by (auto simp: kv bindR_Inr_iff)
  obtain ts where ts: "concat (map (\<lambda>m. case m of None \<Rightarrow> [] | Some s \<Rightarrow> [s]) ms') = map line_text ts"
    "list_all2 (\<lambda>(k, v) (k', t). k = k' \<and> reads v t) (image_members kvs) ts"
    using Cons.IH [OF _ ms'] Cons.prems(1) by (metis list.set_intros(2))
  have "read_as r (json_image v)" using Cons.prems(1) [OF _ r(1), of k] kv by simp
  then show ?case
  proof (cases r)
    case None
    with \<open>read_as r (json_image v)\<close> ts r kv show ?thesis by (auto simp: read_as_def)
  next
    case (Some s)
    with \<open>read_as r (json_image v)\<close> obtain w where "json_image v = Some w" "reads w s" by (auto simp: read_as_def option_rel_Some1)
    with Some ts r kv show ?thesis by (intro exI [of _ "(k, s) # ts"]) (simp add: line_text_def)
  qed
qed simp

lemma distinct_image_members: "distinct (map fst kvs) \<Longrightarrow> distinct (map fst (image_members kvs))"
proof (induction kvs)
  case (Cons kv kvs)
  obtain k v where kv: "kv = (k, v)" by (cases kv)
  have "k \<notin> fst ` set (image_members kvs)" using Cons.prems kv by (force split: option.splits)
  with Cons kv show ?case by (cases "json_image v") simp_all
qed simp

lemma distinct_sort_entries [simp]: "distinct (map fst (sort_entries kvs)) = distinct (map fst kvs)"
  unfolding sort_entries_key by (metis mset_eq_imp_distinct_iff mset_map mset_sort)

lemma readable_members:
  assumes "readable v" and "is_plain v"
  shows "distinct (map fst (own_entries v))" and "(k, w) \<in> set (own_entries v) \<Longrightarrow> readable w"
  using assms by (cases v; auto simp: list_all_iff)+

theorem json_value_reads:
  assumes "json_value gap cur v = Inr r" and "readable v" and "blank gap" and "blank cur"
  shows "read_as r (json_image v)"
  using assms
proof (induction gap cur v arbitrary: r rule: json_value.induct)
  case (1 gap cur v)
  note jv = "1.prems"(1) [unfolded json_value.simps [of gap cur v]] and ji = json_image.simps [of v]
  show ?case
  proof (cases "stableReplacer v")
    case (JArr vs)
    then have v: "v = JArr vs" by (simp add: stableReplacer_arr)
    from jv JArr obtain parts where parts: "mapR (json_value gap (cur @ gap)) vs = Inr parts"
      "r = Some (json_block CHR ''['' CHR '']'' cur (cur @ gap) (map (\<lambda>p. case p of None \<Rightarrow> ''null'' | Some s \<Rightarrow> s) parts))"
      by (auto simp: bindR_Inr_iff)
    have "read_as p (json_image u)" if "u \<in> set vs" "json_value gap (cur @ gap) u = Inr p" for u p
      using "1.IH"(1) [OF JArr that] "1.prems"(2-4) that(1) v by (auto simp: list_all_iff)
    from image_elems [OF this parts(1)] "1.prems"(3,4) show ?thesis
      by (simp add: ji JArr parts(2) read_as_def reads_block_arr)
  next
    case (JObj kvs)
    then have v: "is_plain v" "kvs = sort_entries (own_entries v)" by (simp_all add: stableReplacer_obj)
    from jv JObj obtain ms where ms: "mapR (\<lambda>(k, v). bindR (json_value gap (cur @ gap) v) (\<lambda>r.
        Inr (map_option (\<lambda>s. json_quote k @ '': '' @ s) r))) kvs = Inr ms"
      "r = Some (json_block CHR ''{'' CHR ''}'' cur (cur @ gap) (concat (map (\<lambda>m. case m of None \<Rightarrow> [] | Some s \<Rightarrow> [s]) ms)))"
      by (auto simp: bindR_Inr_iff)
    have mem: "read_as p (json_image u)" if "(k, u) \<in> set kvs" "json_value gap (cur @ gap) u = Inr p" for k u p
      using "1.IH"(2) [OF JObj that(1) HOL.refl that(2)] "1.prems"(2-4) readable_members(2) [OF "1.prems"(2) v(1), of k u] that(1) v(2) by simp
    obtain ts where
      ts: "concat (map (\<lambda>m. case m of None \<Rightarrow> [] | Some s \<Rightarrow> [s]) ms) = map line_text ts"
        "list_all2 (\<lambda>(k, v) (k', t). k = k' \<and> reads v t) (image_members kvs) ts"
      using image_members [OF _ ms(1)] mem by blast
    have "distinct (map fst kvs)" using readable_members(1) [OF "1.prems"(2) v(1)] v(2) by simp
    from reads_block_obj [OF ts(2) distinct_image_members [OF this], of "cur @ gap" cur] "1.prems"(3,4) show ?thesis
      by (simp add: ji JObj ms(2) ts(1) read_as_def)
  next
    case (JNum x)
    then have "v = JNum x" by (cases v) (auto simp: stableReplacer_def split: if_splits)
    with "1.prems"(2) jv JNum show ?thesis
      by (auto simp: json_image.simps [of "JNum x"] read_as_def reads_number reads_literals)
  qed (use jv in \<open>auto simp: ji read_as_def reads_literals\<close>)
qed

text \<open>
  The text of any value, with any indentation and also with a line break at its end, is read as the value it
  stands for.
\<close>

theorem stable_roundtrip:
  assumes "stableStringify v n = Inr (Some t)" and "readable v"
  shows "\<exists>w. json_image v = Some w \<and> JSON_parse t = Some w \<and> JSON_parse (t @ [newline]) = Some w"
proof -
  have "read_as (Some t) (json_image v)"
    using assms json_value_reads [of "replicate n CHR '' ''" "[]" v "Some t"] by (simp add: stableStringify_def list_all_iff)
  then obtain w where w: "json_image v = Some w" "reads w t" by (auto simp: read_as_def option_rel_Some1)
  then have "parse_value (t @ []) = Some (w, [])" "parse_value (t @ [newline]) = Some (w, [newline])"
    unfolding reads_def using stops_simps(1) stops_newline by blast+
  with w(1) show ?thesis by (simp add: JSON_parse_def skip_def)
qed

section \<open>Fields of the value read\<close>

lemma json_image_simps [simp]:
  "json_image JNull = Some JNull" "json_image (JBool b) = Some (JBool b)" "json_image (JStr s) = Some (JStr s)"
  "json_image (JNum x) = Some (if is_finite_num x then JNum x else JNull)" "json_image JUndef = None"
  "json_image (JArr vs) = Some (JArr (map (\<lambda>v. case json_image v of None \<Rightarrow> JNull | Some w \<Rightarrow> w) vs))"
  "json_image (JObj kvs) = Some (JObj (image_members (sort_entries kvs)))"
  by (subst json_image.simps; simp add: stableReplacer_def)+

lemma json_image_str: "json_image v = Some (JStr s) \<longleftrightarrow> v = JStr s"
proof (cases "stableReplacer v")
  case (JStr t)
  then have "v = JStr t" by (cases v) (auto simp: stableReplacer_def split: if_splits)
  then show ?thesis by simp
next
  case (JNum x)
  then have "v = JNum x" by (cases v) (auto simp: stableReplacer_def split: if_splits)
  then show ?thesis by simp
qed (auto simp: json_image.simps [of v], auto simp: stableReplacer_def)

lemma map_of_image_members:
  "distinct (map fst kvs) \<Longrightarrow> map_of (image_members kvs) k = Option.bind (map_of kvs k) json_image"
proof (induction kvs)
  case (Cons kv kvs)
  obtain i v where kv: "kv = (i, v)" by (cases kv)
  have "map_of kvs i = None" using Cons.prems kv by (simp add: map_of_eq_None_iff)
  with Cons kv show ?case by (cases "json_image v") auto
qed simp

lemma map_of_sort_entries: "distinct (map fst kvs) \<Longrightarrow> map_of (sort_entries kvs) = map_of kvs"
  by (rule map_of_inject_set [THEN iffD2]) simp_all

lemma map_of_image:
  "distinct (map fst kvs) \<Longrightarrow> map_of (image_members (sort_entries kvs)) k = Option.bind (map_of kvs k) json_image"
  by (simp add: map_of_image_members map_of_sort_entries)

text \<open>Counters, and with them all ids and versions, read back.\<close>

lemma num_reads_counter: "n \<le> 2 ^ 53 \<Longrightarrow> num_reads (jint (int n))"
proof -
  assume n: "n \<le> 2 ^ 53"
  have ds: "list_all is_digit (nat_str n)" "hd (nat_str n) = CHR ''0'' \<longrightarrow> n = 0" using nat_str_digits by blast+
  have ne: "nat_str n \<noteq> []" by simp
  have hd: "is_digit (hd (nat_str n))" using ds(1) ne by (cases "nat_str n") auto
  have "hd (nat_str n) \<noteq> CHR ''-''" using is_digit_not_sign [OF hd] by auto
  moreover have "length (nat_str 0) = 1" by (simp add: nat_str.simps [of 0])
  ultimately have "json_number (nat_str n)"
    using ds ne unfolding json_number_def Let_def by (auto simp: digits_take [OF ds(1)] exponent_part_def)
  moreover have "list_all num_char (nat_str n)" using ds(1) by (auto simp: list_all_iff num_char_def)
  ultimately show ?thesis using str_decimal_nat [OF n] num_str_nat [OF n] by (simp add: num_reads_def)
qed

end
