(* ===== verification/VisFile.thy ===== *)
theory VisFile
  imports JsonStable CompileCorrect VisStore
begin

text \<open>
  The home page of the visualizer (\<open>tools/visualizer/src/components/PlanSelector.tsx\<close>): the list of plans,
  and plan files that are dropped on the page or chosen in a dialog. Reading a file is split at its \<open>await\<close>. What
  the compiler writes is shown to open here, and a plan to keep its drawing on the way through
  the file.
\<close>

section \<open>Files\<close>

datatype file_error = NotJsonFile | MissingFields | UnsupportedVersion jsval | ParseFailed

text \<open>The call a file leads to: an error message, or \<open>loadPlan\<close> with the value read from it.\<close>

definition checkPlanFile :: "string \<Rightarrow> (file_error, jsval) res" where
  "checkPlanFile content =
     (case JSON_parse content of
        None \<Rightarrow> Inl ParseFailed
      | Some json \<Rightarrow>
          if typeof_js json \<noteq> ''object'' \<or> json = JNull \<or> \<not> hasp json ''schema_version'' \<or> \<not> hasp json ''plan_name'' \<or>
             \<not> hasp json ''nodes''
          then Inl MissingFields
          else if getp json ''schema_version'' \<noteq> JNum (jint 1) then Inl (UnsupportedVersion (getp json ''schema_version''))
          else Inr json)"

text \<open>The value as a \<open>PlanJson\<close>, to which the code casts it unchecked; \<open>None\<close> when it does not have that type.\<close>

definition strings_of :: "jsval \<Rightarrow> string list option" where
  "strings_of v = (case v of JArr vs \<Rightarrow> those (map (\<lambda>w. case w of JStr s \<Rightarrow> Some s | _ \<Rightarrow> None) vs) | _ \<Rightarrow> None)"

definition plan_node_of :: "jsval \<Rightarrow> plan_node option" where
  "plan_node_of v =
     (case (getp v ''node_id'', getp v ''op'', strings_of (getp v ''inputs''), getp v ''params'') of
        (JStr i, JStr op, Some ins, JObj ps) \<Rightarrow>
          Some \<lparr> node_id = i, node_op = op, node_inputs = ins, node_params = ps,
                 node_extensions = (case getp v ''extensions'' of JUndef \<Rightarrow> None | e \<Rightarrow> Some e) \<rparr>
      | _ \<Rightarrow> None)"

definition plan_of :: "jsval \<Rightarrow> PlanJson option" where
  "plan_of v =
     (case (getp v ''schema_version'', getp v ''plan_name'', getp v ''nodes'', strings_of (getp v ''outputs'')) of
        (JNum x, JStr name, JArr ns, Some outs) \<Rightarrow>
          map_option (\<lambda>nodes. \<lparr> pj_schema_version = x, pj_plan_name = name, pj_nodes = nodes, pj_outputs = outs \<rparr>)
            (those (map plan_node_of ns))
      | _ \<Rightarrow> None)"

section \<open>The component\<close>

record selector =
  ps_isDragging :: bool
  ps_localError :: "file_error option"
  ps_reading :: "string list"

definition initialSelector :: selector where
  "initialSelector = \<lparr> ps_isDragging = False, ps_localError = None, ps_reading = [] \<rparr>"

definition handleFile :: "string \<Rightarrow> selector \<Rightarrow> selector" where
  "handleFile name s =
     (if \<not> endsWith name ''.json'' then s\<lparr> ps_localError := Some NotJsonFile \<rparr>
      else s\<lparr> ps_localError := None, ps_reading := ps_reading s @ [name] \<rparr>)"

text \<open>
  The text of a file that is being read arrives; \<open>None\<close> is a read that failed. What is drawn for a value
  outside the type \<open>PlanJson\<close> is not followed: the step has no result.
\<close>

definition fileRead :: "vis_env \<Rightarrow> nat \<Rightarrow> string option \<Rightarrow> selector \<times> browser \<Rightarrow> (selector \<times> browser) option" where
  "fileRead env i content sb =
     (let (s, b) = sb; s' = s\<lparr> ps_reading := remove_at i (ps_reading s) \<rparr> in
      if i < length (ps_reading s) then
        (case content of
           None \<Rightarrow> Some (s'\<lparr> ps_localError := Some ParseFailed \<rparr>, b)
         | Some c \<Rightarrow>
             (case checkPlanFile c of
                Inl e \<Rightarrow> Some (s'\<lparr> ps_localError := Some e \<rparr>, b)
              | Inr json \<Rightarrow> map_option (\<lambda>plan. (s', loadPlan env plan (ps_reading s ! i) False b)) (plan_of json)))
      else None)"

definition handleDrop :: "string list \<Rightarrow> selector \<Rightarrow> selector" where
  "handleDrop files s =
     (let s' = s\<lparr> ps_isDragging := False \<rparr> in case files of [] \<Rightarrow> s' | f # _ \<Rightarrow> handleFile f s')"

definition handleDragOver :: "selector \<Rightarrow> selector" where
  "handleDragOver s = s\<lparr> ps_isDragging := True \<rparr>"

definition handleDragLeave :: "selector \<Rightarrow> selector" where
  "handleDragLeave s = s\<lparr> ps_isDragging := False \<rparr>"

definition handleBrowse :: "string list \<Rightarrow> selector \<Rightarrow> selector" where
  "handleBrowse chosen s = (case chosen of [] \<Rightarrow> s | f # _ \<Rightarrow> handleFile f s)"

text \<open>The effect on mounting, and a click on a plan of the list.\<close>

definition mountSelector :: "browser \<Rightarrow> selector \<times> browser" where
  "mountSelector b = (initialSelector, loadIndex IndexOnly b)"

definition selectPlan :: "string \<Rightarrow> browser \<Rightarrow> browser" where
  "selectPlan name b = (if planLoading (b_store b) then b else loadPlanByName name Nothing b)"

text \<open>The message below the page, and the list of plans.\<close>

datatype shown_error = Local file_error | Remote string

definition shownError :: "selector \<Rightarrow> store \<Rightarrow> shown_error option" where
  "shownError s st =
     (case ps_localError s of
        Some e \<Rightarrow> Some (Local e)
      | None \<Rightarrow>
          (case planError st of
             Some (c # cs) \<Rightarrow> Some (Remote (c # cs))
           | _ \<Rightarrow> (case indexError st of Some (c # cs) \<Rightarrow> Some (Remote (c # cs)) | _ \<Rightarrow> None)))"

datatype plan_list = LoadingPlans | NoPlans | Plans "string list"

definition planList :: "store \<Rightarrow> plan_list" where
  "planList st =
     (if indexLoading st then LoadingPlans
      else case planIndex st of
        Some (e # es) \<Rightarrow> Plans (map pie_name (e # es))
      | _ \<Rightarrow> NoPlans)"

section \<open>Fields of a file\<close>

definition img :: "jsval \<Rightarrow> jsval" where
  "img v = (case json_image v of None \<Rightarrow> JUndef | Some w \<Rightarrow> w)"

lemma img_simps [simp]:
  "img (JStr s) = JStr s" "img (JNum x) = (if is_finite_num x then JNum x else JNull)" "img JUndef = JUndef"
  "img (JObj kvs) = JObj (image_members (sort_entries kvs))"
  "img (JArr vs) = JArr (map (\<lambda>v. case json_image v of None \<Rightarrow> JNull | Some w \<Rightarrow> w) vs)"
  by (simp_all add: img_def)

lemma img_str: "img v = JStr s \<longleftrightarrow> v = JStr s"
  using json_image_str [of v s] by (auto simp: img_def split: option.splits)

lemma obj_get_image:
  assumes "distinct (map fst kvs)" and "k \<notin> set object_proto"
  shows "obj_get (image_members (sort_entries kvs)) k = img (obj_get kvs k)"
proof -
  have "proto_get k = JUndef" using assms(2) by (auto simp: proto_get_def object_proto_def)
  then show ?thesis by (simp add: obj_get_def map_of_image [OF assms(1)] img_def split: option.split)
qed

lemma plain_fields:
  "''schema_version'' \<notin> set object_proto" "''plan_name'' \<notin> set object_proto" "''nodes'' \<notin> set object_proto"
  "''outputs'' \<notin> set object_proto" "''node_id'' \<notin> set object_proto" "''op'' \<notin> set object_proto" "''inputs'' \<notin> set object_proto"
  "''params'' \<notin> set object_proto" "''extensions'' \<notin> set object_proto" "''trace'' \<notin> set object_proto" "''rhs'' \<notin> set object_proto"
  by (simp_all add: object_proto_def)

lemma hasp_image:
  assumes "distinct (map fst kvs)" and "k \<notin> set object_proto"
  shows "hasp (JObj (image_members (sort_entries kvs))) k \<longleftrightarrow> img (obj_get kvs k) \<noteq> JUndef"
proof -
  have p: "proto_get k = JUndef" using assms(2) by (auto simp: proto_get_def object_proto_def)
  have u: "json_image v \<noteq> Some JUndef" for v
    by (subst json_image.simps) (auto split: jsval.split)
  have "k \<in> fst ` set (image_members (sort_entries kvs)) \<longleftrightarrow> map_of (image_members (sort_entries kvs)) k \<noteq> None"
    by (metis map_of_eq_None_iff)
  with p u assms(2) show ?thesis
    by (auto simp: hasp_def map_of_image [OF assms(1)] obj_get_def img_def split: option.splits)
qed

text \<open>What the check says of the stable text of an object.\<close>

lemma checkPlanFile_stable:
  assumes "stableStringify (JObj kvs) n = Inr (Some t)" and "readable (JObj kvs)"
  shows "checkPlanFile (t @ [newline]) =
    (if img (obj_get kvs ''schema_version'') = JUndef \<or> img (obj_get kvs ''plan_name'') = JUndef \<or> img (obj_get kvs ''nodes'') = JUndef
     then Inl MissingFields
     else if img (obj_get kvs ''schema_version'') \<noteq> JNum (jint 1) then Inl (UnsupportedVersion (img (obj_get kvs ''schema_version'')))
     else Inr (img (JObj kvs)))"
proof -
  have d: "distinct (map fst kvs)" using assms(2) by simp
  obtain w where w: "json_image (JObj kvs) = Some w" "JSON_parse (t @ [newline]) = Some w"
    using stable_roundtrip [OF assms] by blast
  then have "w = JObj (image_members (sort_entries kvs))" by simp
  then show ?thesis
    using w(2) by (simp add: checkPlanFile_def hasp_image [OF d plain_fields(1)] hasp_image [OF d plain_fields(2)]
        hasp_image [OF d plain_fields(3)] obj_get_image [OF d plain_fields(1)])
qed

section \<open>What the compiler writes, the page accepts\<close>



section \<open>A plan keeps its drawing on the way through a file\<close>

text \<open>The node as it comes back: parameters and extensions sorted, without undefined properties.\<close>

definition read_node :: "plan_node \<Rightarrow> plan_node" where
  "read_node n = n\<lparr> node_params := image_members (sort_entries (node_params n)),
     node_extensions := Option.bind (node_extensions n) json_image \<rparr>"

definition read_plan :: "PlanJson \<Rightarrow> PlanJson" where
  "read_plan p = p\<lparr> pj_nodes := map read_node (pj_nodes p) \<rparr>"

lemma strings_of_strs: "strings_of (JArr (map JStr xs)) = Some xs"
  by (induction xs) (simp_all add: strings_of_def)

lemma img_strs: "img (JArr (map JStr xs)) = JArr (map JStr xs)"
  by (simp add: comp_def)

lemma node_fields:
  "obj_get ([(''node_id'', a), (''op'', b), (''inputs'', c), (''params'', d)] @ e) ''node_id'' = a"
  "obj_get ([(''node_id'', a), (''op'', b), (''inputs'', c), (''params'', d)] @ e) ''op'' = b"
  "obj_get ([(''node_id'', a), (''op'', b), (''inputs'', c), (''params'', d)] @ e) ''inputs'' = c"
  "obj_get ([(''node_id'', a), (''op'', b), (''inputs'', c), (''params'', d)] @ e) ''params'' = d"
  "obj_get ([(''node_id'', a), (''op'', b), (''inputs'', c), (''params'', d)] @ e) ''extensions'' = obj_get e ''extensions''"
  by (simp_all add: obj_get_def)

lemma plan_node_of_image:
  assumes "readable (node_js n)"
  shows "plan_node_of (img (node_js n)) = Some (read_node n)"
proof -
  let ?e = "case node_extensions n of None \<Rightarrow> [] | Some e \<Rightarrow> [(''extensions'', e)]"
  let ?kvs = "[(''node_id'', JStr (node_id n)), (''op'', JStr (node_op n)), (''inputs'', JArr (map JStr (node_inputs n))),
    (''params'', JObj (node_params n))] @ ?e"
  have js: "node_js n = JObj ?kvs" by (simp add: node_js_def)
  have d: "distinct (map fst ?kvs)" using assms unfolding js by simp
  note get = obj_get_image [OF d]
  have ext: "obj_get (image_members (sort_entries ?kvs)) ''extensions'' = img (obj_get ?e ''extensions'')"
    by (subst get) (simp_all only: plain_fields node_fields not_False_eq_True)
  have u: "json_image v \<noteq> Some JUndef" for v
    by (subst json_image.simps) (auto split: jsval.split)
  have e: "(case img (obj_get ?e ''extensions'') of JUndef \<Rightarrow> None | e \<Rightarrow> Some e) = Option.bind (node_extensions n) json_image"
    using u by (cases "node_extensions n")
      (auto simp: obj_get_def proto_get_def object_proto_def img_def split: option.splits jsval.splits)
  have fields: "getp (img (node_js n)) ''node_id'' = JStr (node_id n)" "getp (img (node_js n)) ''op'' = JStr (node_op n)"
    "getp (img (node_js n)) ''inputs'' = JArr (map JStr (node_inputs n))"
    "getp (img (node_js n)) ''params'' = JObj (image_members (sort_entries (node_params n)))"
    unfolding js img_simps(4) getp.simps
    by (subst get, simp_all only: plain_fields node_fields img_strs img_simps(1,4) not_False_eq_True)+
  show ?thesis
    unfolding plan_node_of_def fields strings_of_strs
    by (simp add: js ext e read_node_def del: append_Cons append_Nil)
qed

lemma those_map: "(\<And>x. x \<in> set xs \<Longrightarrow> f x = Some (g x)) \<Longrightarrow> those (map f xs) = Some (map g xs)"
  by (induction xs) simp_all

lemma finalize_fields:
  "obj_get ([(''schema_version'', a), (''plan_name'', b), (''nodes'', c), (''outputs'', d)] @ e) ''schema_version'' = a"
  "obj_get ([(''schema_version'', a), (''plan_name'', b), (''nodes'', c), (''outputs'', d)] @ e) ''plan_name'' = b"
  "obj_get ([(''schema_version'', a), (''plan_name'', b), (''nodes'', c), (''outputs'', d)] @ e) ''nodes'' = c"
  "obj_get ([(''schema_version'', a), (''plan_name'', b), (''nodes'', c), (''outputs'', d)] @ e) ''outputs'' = d"
  by (simp_all add: obj_get_def)

lemma finalize_split:
  "\<exists>e. finalize h (JStr name) ctx = JObj ([(''schema_version'', JNum (jint 1)), (''plan_name'', JStr name),
     (''nodes'', JArr (map node_js (ctx_nodes ctx))), (''outputs'', JArr (map JStr [h]))] @ e)"
  by (simp add: finalize_def)

lemma opened_plan:
  assumes "stableStringify (finalize h (JStr name) ctx) n = Inr (Some t)" and "readable (finalize h (JStr name) ctx)"
  shows "\<exists>json. checkPlanFile (t @ [newline]) = Inr json \<and> plan_of json = Some (read_plan (finalized h name ctx))"
proof -
  obtain e where e: "finalize h (JStr name) ctx = JObj ([(''schema_version'', JNum (jint 1)), (''plan_name'', JStr name),
     (''nodes'', JArr (map node_js (ctx_nodes ctx))), (''outputs'', JArr (map JStr [h]))] @ e)"
    (is "_ = JObj ?kvs") using finalize_split by blast
  have d: "distinct (map fst ?kvs)" using assms(2) unfolding e by simp
  have nodes: "readable (node_js m)" if "m \<in> set (ctx_nodes ctx)" for m using assms(2) that unfolding e by (simp add: list_all_iff)
  have elem: "(case json_image v of None \<Rightarrow> JNull | Some w \<Rightarrow> w) = img v" if "is_plain v" for v
    using that by (cases v) (simp_all add: img_def json_image.simps [of "JCand _ _"] json_image.simps [of "JCtx _"] stableReplacer_def)
  have arr: "img (JArr (map node_js (ctx_nodes ctx))) = JArr (map (\<lambda>m. img (node_js m)) (ctx_nodes ctx))"
    by (simp add: node_js_def)
  have one: "img (JNum (jint 1)) = JNum (jint 1)" by simp
  note get = obj_get_image [OF d]
  have fields: "getp (img (JObj ?kvs)) ''schema_version'' = JNum (jint 1)" "getp (img (JObj ?kvs)) ''plan_name'' = JStr name"
    "getp (img (JObj ?kvs)) ''nodes'' = JArr (map (\<lambda>m. img (node_js m)) (ctx_nodes ctx))"
    "getp (img (JObj ?kvs)) ''outputs'' = JArr (map JStr [h])"
    unfolding img_simps(4) getp.simps
    by (subst get, simp_all only: plain_fields finalize_fields img_strs img_simps(1) one arr not_False_eq_True)+
  have "checkPlanFile (t @ [newline]) = Inr (img (JObj ?kvs))"
    unfolding checkPlanFile_stable [OF assms(1) [unfolded e] assms(2) [unfolded e]] finalize_fields one arr img_simps(1) by simp
  moreover have "plan_of (img (JObj ?kvs)) = Some (read_plan (finalized h name ctx))"
    unfolding plan_of_def fields strings_of_strs
    using those_map [of "ctx_nodes ctx" "plan_node_of \<circ> (\<lambda>m. img (node_js m))" read_node] nodes
    by (simp add: plan_node_of_image read_plan_def finalized_def comp_def)
  ultimately show ?thesis by blast
qed

text \<open>A graph without the parameters of its nodes, which only the details panel shows.\<close>

definition outline_node :: "VisNode \<Rightarrow> VisNode" where
  "outline_node n = n\<lparr> vn_params := [] \<rparr>"

definition outline :: "VisGraph \<Rightarrow> VisGraph" where
  "outline g = \<lparr> vg_nodes = map (\<lambda>(i, n). (i, outline_node n)) (vg_nodes g), vg_edges = vg_edges g \<rparr>"

lemma alist_set_map: "map (\<lambda>(i, n). (i, f n)) (alist_set k v kvs) = alist_set k (f v) (map (\<lambda>(i, n). (i, f n)) kvs)"
  by (induction k v kvs rule: alist_set.induct) simp_all

lemma read_node_fields:
  assumes "distinct (map fst (node_params n))"
  shows "outline_node (visNode outs (read_node n)) = outline_node (visNode outs n)" "inputEdges (read_node n) = inputEdges n"
    "rhsEdges (read_node n) = rhsEdges n" "node_id (read_node n) = node_id n"
proof -
  let ?p = "image_members (sort_entries (node_params n))"
  have get: "obj_get ?p ''trace'' = JStr s \<longleftrightarrow> obj_get (node_params n) ''trace'' = JStr s"
    "obj_get ?p ''rhs'' = JStr s \<longleftrightarrow> obj_get (node_params n) ''rhs'' = JStr s" for s
    by (simp_all only: obj_get_image [OF assms plain_fields(10)] obj_get_image [OF assms plain_fields(11)] img_str)
  have str: "(case v of JStr s \<Rightarrow> f s | _ \<Rightarrow> z) = (if \<exists>s. v = JStr s then f (THE s. v = JStr s) else z)" for v and f :: "string \<Rightarrow> 'c" and z
    by (cases v) simp_all
  have tr: "traceOf (read_node n) = traceOf n" unfolding traceOf_def str by (simp add: read_node_def get)
  then show "outline_node (visNode outs (read_node n)) = outline_node (visNode outs n)"
    by (simp add: outline_node_def visNode_def nodeWidth_def) (simp add: read_node_def)
  show "rhsEdges (read_node n) = rhsEdges n" unfolding rhsEdges_def str by (simp add: read_node_def get)
qed (simp_all add: inputEdges_def read_node_def)

lemma outline_parse:
  assumes "\<And>n. n \<in> set (pj_nodes p) \<Longrightarrow> distinct (map fst (node_params n))"
  shows "outline (parsePlan (read_plan p)) = outline (parsePlan p)"
proof -
  have step: "outline (addVisNode outs g' (read_node n)) = outline (addVisNode outs g n)"
    if "outline g' = outline g" "distinct (map fst (node_params n))" for outs g g' n
    using that(1) read_node_fields [OF that(2)] by (simp add: outline_def addVisNode_def alist_set_map)
  have "outline (foldl (addVisNode outs) g' (map read_node ns)) = outline (foldl (addVisNode outs) g ns)"
    if "outline g' = outline g" "\<And>n. n \<in> set ns \<Longrightarrow> distinct (map fst (node_params n))" for outs g g' ns
    using that
  proof (induction ns arbitrary: g g')
    case (Cons n ns)
    from Cons.IH [OF step [OF Cons.prems(1), of n]] Cons.prems(2) show ?case by simp
  qed simp
  with assms show ?thesis by (simp add: parsePlan_def read_plan_def Let_def)
qed

lemma outline_layout: "outline (layoutGraph d opts g) = layoutGraph d opts (outline g)"
proof -
  have place: "outline_node (placeNode pos i n) = placeNode pos i (outline_node n)" for pos i n
    by (simp add: placeNode_def outline_node_def split: option.split)
  have fold: "map (\<lambda>(i, n). (i, outline_node n)) (foldl (\<lambda>m (i, node). alist_set i (placeNode pos i node) m) acc ns) =
      foldl (\<lambda>m (i, node). alist_set i (placeNode pos i node) m) (map (\<lambda>(i, n). (i, outline_node n)) acc)
        (map (\<lambda>(i, n). (i, outline_node n)) ns)" for pos acc ns
    by (induction ns arbitrary: acc) (auto simp: alist_set_map place split: prod.split)
  have "vn_width (outline_node n) = vn_width n" "vn_height (outline_node n) = vn_height n" for n by (simp_all add: outline_node_def)
  then show ?thesis by (simp add: layoutGraph_def outline_def Let_def fold [unfolded case_prod_unfold] comp_def case_prod_unfold)
qed

lemma opened_params:
  assumes "readable (finalize h (JStr name) ctx)" and "n \<in> set (ctx_nodes ctx)"
  shows "distinct (map fst (node_params n))"
proof -
  have "readable (node_js n)" using assms by (auto simp: finalize_def list_all_iff)
  then show ?thesis by (simp add: node_js_def)
qed

text \<open>
  Property C23. A plan keeps its drawing on the way through a file. The artifact that the runtime finalizes from any
  context, written as stable JSON and dropped on the page, opens without an error under its own
  name, and the page draws the graph of the context: the same nodes in the same order with the same labels, traces,
  flags and boxes, and the same edges. Numbers are assumed to read back as printed, and
  objects to have different property names.
\<close>

theorem plan_file_opens:
  assumes "stableStringify (finalize h (JStr name) ctx) n = Inr (Some t)" and "readable (finalize h (JStr name) ctx)"
    and "endsWith file ''.json''" and "ps_reading s = []"
  shows "\<exists>s' b'. fileRead env 0 (Some (t @ [newline])) (handleFile file s, b) = Some (s', b') \<and> ps_localError s' = None \<and>
    fileName (b_store b') = Some file \<and> map_option pj_plan_name (planJson (b_store b')) = Some name \<and>
    map_option outline (graph (b_store b')) =
      Some (outline (layoutGraph (env_dagre env) defaultLayout (parsePlan (finalized h name ctx))))"
proof -
  let ?p = "read_plan (finalized h name ctx)"
  obtain json where json: "checkPlanFile (t @ [newline]) = Inr json" "plan_of json = Some ?p" using opened_plan [OF assms(1,2)] by blast
  have hf: "handleFile file s = s\<lparr> ps_localError := None, ps_reading := [file] \<rparr>" using assms(3,4) by (simp add: handleFile_def)
  have draw: "outline (parsePlan ?p) = outline (parsePlan (finalized h name ctx))"
    by (rule outline_parse) (use opened_params [OF assms(2)] in \<open>simp add: finalized_def\<close>)
  have name: "pj_plan_name ?p = name" by (simp add: read_plan_def finalized_def)
  let ?b = "loadPlan env ?p file False b"
  have b: "fileName (b_store ?b) = Some file" "planJson (b_store ?b) = Some ?p"
    "graph (b_store ?b) = Some (layoutGraph (env_dagre env) defaultLayout (parsePlan ?p))"
    by (simp_all add: loadPlan_def Let_def setState_def pushState_def)
  have step: "fileRead env 0 (Some (t @ [newline])) (handleFile file s, b)
      = Some (s\<lparr> ps_localError := None, ps_reading := remove_at 0 [file] \<rparr>, ?b)"
    unfolding hf by (simp add: fileRead_def json Let_def)
  show ?thesis
    by (rule exI [of _ "s\<lparr> ps_localError := None, ps_reading := remove_at 0 [file] \<rparr>"], rule exI [of _ ?b])
      (simp add: step b name outline_layout draw)
qed

text \<open>A plan of one call.\<close>

lemma demo_file:
  "readable (finalize ''n0'' (JStr ''demo'') (ex_ctx 1))" "\<exists>t. stableStringify (finalize ''n0'' (JStr ''demo'') (ex_ctx 1)) 2 = Inr (Some t)"
proof -
  show "readable (finalize ''n0'' (JStr ''demo'') (ex_ctx 1))" by code_simp
  have "(case stableStringify (finalize ''n0'' (JStr ''demo'') (ex_ctx 1)) 2 of Inr (Some t) \<Rightarrow> True | _ \<Rightarrow> False)" by code_simp
  then show "\<exists>t. stableStringify (finalize ''n0'' (JStr ''demo'') (ex_ctx 1)) 2 = Inr (Some t)"
    by (auto split: sum.splits option.splits)
qed

theorem plan_file_opens_witness:
  "\<exists>t s' b'. fileRead still 0 (Some (t @ [newline])) (handleFile ''demo.plan.json'' initialSelector, initHistory []) = Some (s', b') \<and>
     map_option outline (graph (b_store b')) =
       Some (outline (layoutGraph (env_dagre still) defaultLayout (parsePlan (finalized ''n0'' ''demo'' (ex_ctx 1)))))"
proof -
  obtain t where t: "stableStringify (finalize ''n0'' (JStr ''demo'') (ex_ctx 1)) 2 = Inr (Some t)" using demo_file(2) by blast
  have "endsWith ''demo.plan.json'' ''.json''" "ps_reading initialSelector = []" by (simp_all add: endsWith_def initialSelector_def)
  from plan_file_opens [OF t demo_file(1) this, of still "initHistory []"] show ?thesis by blast
qed

end
