(* ===== verification/VisCanvas.thy ===== *)
theory VisCanvas
  imports VisStore
begin

text \<open>
  The drawing area of the visualizer (\<open>tools/visualizer/src/components/Canvas.tsx\<close>) and the tool bar on it
  (\<open>Toolbar.tsx\<close>): what is drawn for a graph, highlighting, selection, panning and zooming. A node's handler
  runs before the handler of the surrounding element, and the component renders again between two
  events. The shapes that the graphics library draws, arrow heads and the position of labels, which depend on
  font metrics, are left out.
\<close>

section \<open>Drawing\<close>

definition active :: "string option \<Rightarrow> bool" where
  "active hovered \<longleftrightarrow> hovered \<noteq> None \<and> hovered \<noteq> Some []"

definition connectedNodes :: "string option \<Rightarrow> VisGraph \<Rightarrow> string list" where
  "connectedNodes hovered g =
     (case hovered of
        Some h \<Rightarrow>
          if h = [] then []
          else foldl (\<lambda>ns e.
                 let ns' = (if ve_from e = h then set_add (ve_to e) ns else ns)
                 in if ve_to e = h then set_add (ve_from e) ns' else ns') [h] (vg_edges g)
      | None \<Rightarrow> [])"

record drawn_edge =
  de_from :: string
  de_to :: string
  de_line :: "(jnum \<times> jnum) \<times> (jnum \<times> jnum)"
  de_highlighted :: bool
  de_faded :: bool

definition isHighlighted :: "string option \<Rightarrow> VisEdge \<Rightarrow> bool" where
  "isHighlighted hovered e \<longleftrightarrow> active hovered \<and> (Some (ve_from e) = hovered \<or> Some (ve_to e) = hovered)"

definition drawEdge :: "string option \<Rightarrow> VisGraph \<Rightarrow> VisEdge \<Rightarrow> drawn_edge option" where
  "drawEdge hovered g e =
     (case (map_of (vg_nodes g) (ve_from e), map_of (vg_nodes g) (ve_to e)) of
        (Some fromNode, Some toNode) \<Rightarrow>
          Some \<lparr> de_from = ve_from e, de_to = ve_to e,
            de_line = ((js_add (vn_x fromNode) (js_div (vn_width fromNode) (jint 2)), js_add (vn_y fromNode) (vn_height fromNode)),
                       (js_add (vn_x toNode) (js_div (vn_width toNode) (jint 2)), vn_y toNode)),
            de_highlighted = isHighlighted hovered e, de_faded = (active hovered \<and> \<not> isHighlighted hovered e) \<rparr>
      | _ \<Rightarrow> None)"

definition drawnEdges :: "string option \<Rightarrow> VisGraph \<Rightarrow> drawn_edge list" where
  "drawnEdges hovered g = List.map_filter (drawEdge hovered g) (vg_edges g)"

record drawn_node =
  dn_id :: string
  dn_box :: "(jnum \<times> jnum) \<times> (jnum \<times> jnum)"
  dn_fill :: int
  dn_dimmed :: bool
  dn_texts :: "string list"
  dn_selected :: bool

definition drawNode :: "string option \<Rightarrow> string option \<Rightarrow> VisGraph \<Rightarrow> string \<times> VisNode \<Rightarrow> drawn_node" where
  "drawNode selected hovered g m =
     (let (i, node) = m in
      \<lparr> dn_id = i, dn_box = ((vn_x node, vn_y node), (vn_width node, vn_height node)),
        dn_fill = getNodeColor (vn_op node) (vn_isOutput node),
        dn_dimmed = (active hovered \<and> i \<notin> set (connectedNodes hovered g)),
        dn_texts = vn_label node # (case vn_trace node of Some (c # cs) \<Rightarrow> [''trace: '' @ c # cs] | _ \<Rightarrow> []),
        dn_selected = (Some i = selected) \<rparr>)"

definition drawnNodes :: "string option \<Rightarrow> string option \<Rightarrow> VisGraph \<Rightarrow> drawn_node list" where
  "drawnNodes selected hovered g = map (drawNode selected hovered g) (vg_nodes g)"

section \<open>Events\<close>

record canvas =
  cv_isReady :: bool
  cv_isDragging :: bool
  cv_lastPos :: "jnum \<times> jnum"
  cv_nodeClicked :: bool

definition initialCanvas :: canvas where
  "initialCanvas = \<lparr> cv_isReady = False, cv_isDragging = False, cv_lastPos = (jint 0, jint 0), cv_nodeClicked = False \<rparr>"

abbreviation setView :: "jnum option \<Rightarrow> jnum option \<Rightarrow> jnum option \<Rightarrow> store \<Rightarrow> store" where
  "setView x y sc s \<equiv> s\<lparr> view := mergeView x y sc (view s) \<rparr>"

text \<open>The handlers of a node.\<close>

definition nodePointerDown :: "string \<Rightarrow> canvas \<times> store \<Rightarrow> canvas \<times> store" where
  "nodePointerDown i cs = ((fst cs)\<lparr> cv_nodeClicked := True \<rparr>, (snd cs)\<lparr> selectedNodeId := Some i \<rparr>)"

definition nodePointerEnter :: "string \<Rightarrow> canvas \<times> store \<Rightarrow> canvas \<times> store" where
  "nodePointerEnter i cs = (fst cs, (snd cs)\<lparr> hoveredNodeId := Some i \<rparr>)"

definition nodePointerLeave :: "canvas \<times> store \<Rightarrow> canvas \<times> store" where
  "nodePointerLeave cs = (fst cs, (snd cs)\<lparr> hoveredNodeId := None \<rparr>)"

text \<open>The handlers of the surrounding element; \<open>onCanvas\<close> tells whether the event's target is the drawing.\<close>

definition handlePointerDown :: "bool \<Rightarrow> jnum \<times> jnum \<Rightarrow> canvas \<times> store \<Rightarrow> canvas \<times> store" where
  "handlePointerDown onCanvas pos cs =
     (let (c, s) = cs in
      if onCanvas
      then (c\<lparr> cv_isDragging := True, cv_lastPos := pos, cv_nodeClicked := False \<rparr>,
            if \<not> cv_nodeClicked c then s\<lparr> selectedNodeId := None \<rparr> else s)
      else cs)"

definition handlePointerMove :: "jnum \<times> jnum \<Rightarrow> canvas \<times> store \<Rightarrow> canvas \<times> store" where
  "handlePointerMove pos cs =
     (let (c, s) = cs in
      if \<not> cv_isDragging c then cs
      else let dx = js_sub (fst pos) (fst (cv_lastPos c)); dy = js_sub (snd pos) (snd (cv_lastPos c))
           in (c\<lparr> cv_lastPos := pos \<rparr>,
               setView (Some (js_add (vw_x (view s)) dx)) (Some (js_add (vw_y (view s)) dy)) None s))"

definition handlePointerUp :: "canvas \<times> store \<Rightarrow> canvas \<times> store" where
  "handlePointerUp cs = ((fst cs)\<lparr> cv_isDragging := False \<rparr>, snd cs)"

definition minScale :: jnum where "minScale = to_double (1 / 10)"
definition maxScale :: jnum where "maxScale = jint 4"

definition handleWheel :: "jnum \<times> jnum \<Rightarrow> jnum \<times> jnum \<Rightarrow> jnum \<Rightarrow> store \<Rightarrow> store" where
  "handleWheel pos corner deltaY s =
     (let v = view s;
          mouseX = js_sub (fst pos) (fst corner);
          mouseY = js_sub (snd pos) (snd corner);
          zoomFactor = (if num_gt deltaY (jint 0) then to_double (9 / 10) else to_double (11 / 10));
          newScale = js_max minScale (js_min maxScale (js_mul (vw_scale v) zoomFactor));
          scaleRatio = js_div newScale (vw_scale v);
          newX = js_sub mouseX (js_mul (js_sub mouseX (vw_x v)) scaleRatio);
          newY = js_sub mouseY (js_mul (js_sub mouseY (vw_y v)) scaleRatio)
      in setView (Some newX) (Some newY) (Some newScale) s)"

text \<open>The effect that fits the drawing when it becomes ready and when the graph changes.\<close>

definition fitEffect :: "jnum \<times> jnum \<Rightarrow> canvas \<times> store \<Rightarrow> canvas \<times> store" where
  "fitEffect dims cs =
     (if cv_isReady (fst cs) \<and> graph (snd cs) \<noteq> None then (fst cs, fitToView (fst dims) (snd dims) (snd cs)) else cs)"

definition pixiReady :: "jnum \<times> jnum \<Rightarrow> canvas \<times> store \<Rightarrow> canvas \<times> store" where
  "pixiReady dims cs = fitEffect dims ((fst cs)\<lparr> cv_isReady := True \<rparr>, snd cs)"

section \<open>Tool bar\<close>

definition toolbarText :: "store \<Rightarrow> string option" where
  "toolbarText s =
     (if planJson s = None then None
      else let nodeCount = (case graph s of Some g \<Rightarrow> length (vg_nodes g) | None \<Rightarrow> 0);
               edgeCount = (case graph s of Some g \<Rightarrow> length (vg_edges g) | None \<Rightarrow> 0)
           in Some (nat_str nodeCount @ '' nodes, '' @ nat_str edgeCount @ '' edges''))"

definition handleFit :: "(jnum \<times> jnum) option \<Rightarrow> store \<Rightarrow> store" where
  "handleFit container s = (case container of Some (w, h) \<Rightarrow> fitToView w h s | None \<Rightarrow> s)"

definition offersEdit :: "bool \<Rightarrow> store \<Rightarrow> bool" where
  "offersEdit hasOnEdit s \<longleftrightarrow> planJson s \<noteq> None \<and> sourceCode s \<noteq> None \<and> sourceCode s \<noteq> Some [] \<and> hasOnEdit"

section \<open>Steps\<close>

datatype canvas_event =
    Ready "jnum \<times> jnum" | Refit "jnum \<times> jnum" | ClickNode string "jnum \<times> jnum" | ClickBackground "jnum \<times> jnum" | EnterNode string
  | LeaveNode | PointerMove "jnum \<times> jnum" | PointerUp | Wheel "jnum \<times> jnum" "jnum \<times> jnum" jnum | Fit "(jnum \<times> jnum) option"

fun on_canvas :: "canvas_event \<Rightarrow> canvas \<times> store \<Rightarrow> canvas \<times> store" where
  "on_canvas (Ready dims) cs = pixiReady dims cs"
| "on_canvas (Refit dims) cs = fitEffect dims cs"
| "on_canvas (ClickNode i pos) cs = handlePointerDown True pos (nodePointerDown i cs)"
| "on_canvas (ClickBackground pos) cs = handlePointerDown True pos cs"
| "on_canvas (EnterNode i) cs = nodePointerEnter i cs"
| "on_canvas LeaveNode cs = nodePointerLeave cs"
| "on_canvas (PointerMove pos) cs = handlePointerMove pos cs"
| "on_canvas PointerUp cs = handlePointerUp cs"
| "on_canvas (Wheel pos corner deltaY) cs = (fst cs, handleWheel pos corner deltaY (snd cs))"
| "on_canvas (Fit container) cs = (fst cs, handleFit container (snd cs))"

text \<open>
  The component within the page. It may be mounted anew at any time; meanwhile the rest of the page acts, but no other
  component sets the view (\<open>quiet\<close>).
\<close>

definition quiet :: "vis_action \<Rightarrow> bool" where
  "quiet a \<longleftrightarrow> (case a of SetView _ _ _ \<Rightarrow> False | _ \<Rightarrow> True)"

inductive canvas_reachable :: "vis_env \<Rightarrow> canvas \<times> browser \<Rightarrow> bool" for env where
  cv_start: "canvas_reachable env (initialCanvas, initHistory q)"
| cv_mount: "canvas_reachable env (c, b) \<Longrightarrow> canvas_reachable env (initialCanvas, b)"
| cv_event: "canvas_reachable env (c, b) \<Longrightarrow> on_canvas ev (c, b_store b) = (c', s') \<Longrightarrow>
    canvas_reachable env (c', b\<lparr> b_store := s' \<rparr>)"
| cv_action: "canvas_reachable env (c, b) \<Longrightarrow> quiet a \<Longrightarrow> canvas_reachable env (c, act env a b)"
| cv_answer: "canvas_reachable env (c, b) \<Longrightarrow> answer env i r b = Some b' \<Longrightarrow> canvas_reachable env (c, b')"
| cv_navigate: "canvas_reachable env (c, b) \<Longrightarrow> canvas_reachable env (c, popstate st q b)"

section \<open>The scale stays bounded\<close>

definition capped :: "ViewState \<Rightarrow> bool" where
  "capped v \<longleftrightarrow> \<not> num_gt (vw_scale v) maxScale"

lemma view_frame [simp]:
  "view (b_store (pushState st q b)) = view (b_store b)" "view (b_store (fetching r b)) = view (b_store b)"
  "view (b_store (runAfter k b)) = view (b_store b)" "view (b_store (loadRegistries k b)) = view (b_store b)"
  "view (b_store (loadSource n b)) = view (b_store b)" "view (b_store (loadPlanByName n k b)) = view (b_store b)"
  "view (b_store (loadPlan env j f sk b)) = view (b_store b)" "view (b_store (loadIndex ki b)) = view (b_store b)"
  "view (b_store (clearPlan b)) = initialView"
proof -
  show fetch: "view (b_store (fetching r b)) = view (b_store b)" and push: "view (b_store (pushState st q b)) = view (b_store b)" for r st q b
    by (simp_all add: fetching_def pushState_def)
  show run: "view (b_store (runAfter k b)) = view (b_store b)" for k b
    by (simp add: runAfter_def setState_def split: after.split)
  show "view (b_store (loadRegistries k b)) = view (b_store b)" "view (b_store (loadSource n b)) = view (b_store b)"
    "view (b_store (loadIndex ki b)) = view (b_store b)"
    by (simp_all add: loadRegistries_def loadSource_def loadIndex_def setState_def fetch)
  show "view (b_store (loadPlanByName n k b)) = view (b_store b)"
    by (simp add: loadPlanByName_def setState_def fetch run split: option.split)
  show "view (b_store (loadPlan env j f sk b)) = view (b_store b)" "view (b_store (clearPlan b)) = initialView"
    by (simp_all add: loadPlan_def clearPlan_def Let_def setState_def push)
qed

lemma capped_initial: "capped initialView"
  by (simp add: capped_def initialView_def maxScale_def)

lemma capped_fit: "capped (view s) \<Longrightarrow> capped (view (fitToView w h s))"
proof -
  have m: "\<not> num_gt (js_min x (jint 2)) maxScale" for x by (cases x) (auto simp: js_min_def maxScale_def)
  assume "capped (view s)"
  moreover have "fitToView w h s = s \<or> (\<exists>x. vw_scale (view (fitToView w h s)) = js_min x (jint 2))"
  proof (cases "\<exists>g. graph s = Some g \<and> vg_nodes g \<noteq> []")
    case True
    then show ?thesis using fitToView_scale by blast
  next
    case False
    then have "fitToView w h s = s" by (cases "graph s") (simp_all add: fitToView_def)
    then show ?thesis by blast
  qed
  ultimately show ?thesis using m by (auto simp: capped_def)
qed

lemma floor_logs: "floor_log 2 (1 / 10) = - 4" "floor_log 2 (9 / 10) = - 1" "floor_log 2 (11 / 10) = 0"
proof -
  have q: "quotient_of (1 / 10) = (1, 10)" "quotient_of (9 / 10) = (9, 10)" "quotient_of (11 / 10) = (11, 10)" by code_simp+
  have n: "ndigits 2 1 = 1" "ndigits 2 9 = 4" "ndigits 2 10 = 4" "ndigits 2 11 = 4" by code_simp+
  show "floor_log 2 (1 / 10) = - 4" "floor_log 2 (9 / 10) = - 1" "floor_log 2 (11 / 10) = 0"
    by (simp_all add: floor_log_def q n rat_pow_def)
qed

lemma zoom_doubles:
  "to_double (1 / 10) = Fin (3602879701896397 / 36028797018963968)" "to_double (9 / 10) = Fin (8106479329266893 / 9007199254740992)"
  "to_double (11 / 10) = Fin (2476979795053773 / 2251799813685248)"
proof -
  have f: "\<lfloor>36028797018963968 / 5 :: rat\<rfloor> = 7205759403792793" "\<lfloor>40532396646334464 / 5 :: rat\<rfloor> = 8106479329266892"
    "\<lfloor>24769797950537728 / 5 :: rat\<rfloor> = 4953959590107545" by (simp_all add: floor_eq_iff)
  show "to_double (1 / 10) = Fin (3602879701896397 / 36028797018963968)"
    by (subst to_double_by [OF _ floor_logs(1), where m = 7205759403792794]) (simp_all add: rat_pow_def round_half_even_def Let_def f)
  show "to_double (9 / 10) = Fin (8106479329266893 / 9007199254740992)"
    by (subst to_double_by [OF _ floor_logs(2), where m = 8106479329266893]) (simp_all add: rat_pow_def round_half_even_def Let_def f)
  show "to_double (11 / 10) = Fin (2476979795053773 / 2251799813685248)"
    by (subst to_double_by [OF _ floor_logs(3), where m = 4953959590107546]) (simp_all add: rat_pow_def round_half_even_def Let_def f)
qed

lemma clamp_range:
  assumes "x \<noteq> NaN"
  shows "js_max minScale (js_min maxScale x) \<noteq> NaN \<and> \<not> num_gt (js_max minScale (js_min maxScale x)) maxScale \<and>
    \<not> num_gt minScale (js_max minScale (js_min maxScale x))"
proof -
  have mn: "minScale = Fin (3602879701896397 / 36028797018963968)" by (simp only: minScale_def zoom_doubles)
  have mx: "maxScale = Fin 4" by (simp add: maxScale_def)
  show ?thesis using assms by (cases x) (auto simp: js_max_def js_min_def mn mx)
qed

lemma factor_not_NaN: "x \<noteq> NaN \<Longrightarrow> js_mul x (to_double (9 / 10)) \<noteq> NaN \<and> js_mul x (to_double (11 / 10)) \<noteq> NaN"
proof -
  assume x: "x \<noteq> NaN"
  show ?thesis using x unfolding zoom_doubles by (cases x) (auto simp: signed_inf_def)
qed

lemma wheel_scale:
  "vw_scale (view s) \<noteq> NaN \<Longrightarrow> vw_scale (view (handleWheel pos corner d s)) \<noteq> NaN \<and>
     \<not> num_gt (vw_scale (view (handleWheel pos corner d s))) maxScale \<and> \<not> num_gt minScale (vw_scale (view (handleWheel pos corner d s)))"
  using clamp_range factor_not_NaN by (auto simp: handleWheel_def Let_def mergeView_def)

lemma wheel_NaN: "vw_scale (view s) = NaN \<Longrightarrow> vw_scale (view (handleWheel pos corner d s)) = NaN"
  by (simp add: handleWheel_def Let_def mergeView_def js_max_def js_min_def)

lemma capped_event: "capped (view s) \<Longrightarrow> capped (view (snd (on_canvas ev (c, s))))"
proof (cases ev)
  case (Wheel pos corner d)
  then show ?thesis using wheel_scale [of s pos corner d] wheel_NaN [of s pos corner d]
    by (cases "vw_scale (view s) = NaN") (simp_all add: capped_def)
next
  case (Fit container)
  assume "capped (view s)"
  with Fit show ?thesis by (simp add: handleFit_def capped_fit split: option.split prod.split)
qed (auto simp: pixiReady_def fitEffect_def capped_fit [unfolded capped_def] nodePointerDown_def handlePointerDown_def nodePointerEnter_def nodePointerLeave_def
    handlePointerMove_def handlePointerUp_def capped_def mergeView_def Let_def split: if_splits)

lemma capped_action: "capped (view (b_store b)) \<Longrightarrow> quiet a \<Longrightarrow> capped (view (b_store (act env a b)))"
proof (cases a)
  case (FitToView w h)
  assume "capped (view (b_store b))"
  with FitToView show ?thesis by (simp add: setState_def capped_fit)
next
  case (ToggleFragment f)
  assume "capped (view (b_store b))"
  with ToggleFragment show ?thesis by (simp add: setState_def toggleFragment_def Let_def)
qed (auto simp: quiet_def setState_def capped_initial setRegistryTab_def setSelectedRegistryEntry_def navigateToRegistryEntry_def Let_def)

lemma capped_answer: "answer env i r b = Some b' \<Longrightarrow> view (b_store b') = view (b_store b)"
  by (cases "b_pending b ! i"; cases r)
    (auto simp: answer_def indexResponse_def planResponse_def sourceResponse_def registriesResponse_def setState_def Let_def
      split: if_splits after_index.splits)

lemma capped_navigate: "capped (view (b_store b)) \<Longrightarrow> capped (view (b_store (popstate st q b)))"
  by (auto simp: popstate_def Let_def capped_initial split: jsval.split)

lemma canvas_capped: "canvas_reachable env cb \<Longrightarrow> capped (view (b_store (snd cb))) \<and> \<not> cv_nodeClicked (fst cb)"
proof (induction rule: canvas_reachable.induct)
  case (cv_start q)
  have "view (b_store (initHistory q)) = initialView"
    by (simp add: initHistory_def initialStore_def Let_def split: jsval.split)
  then show ?case by (simp add: capped_initial initialCanvas_def)
next
  case (cv_event c b ev c' s')
  then have "capped (view s')" using capped_event [of "b_store b" ev c] by simp
  moreover have "\<not> cv_nodeClicked c'"
    using cv_event by (cases ev) (auto simp: pixiReady_def fitEffect_def nodePointerDown_def handlePointerDown_def nodePointerEnter_def
        nodePointerLeave_def handlePointerMove_def handlePointerUp_def Let_def split: if_splits)
  ultimately show ?case by simp
qed (simp_all add: initialCanvas_def capped_action capped_answer capped_navigate)

text \<open>
  Property C31. Zooming is bounded. In every state the page can reach, with any events on the canvas, actions of other components,
  server responses and navigation, the drawing is never scaled by more than 4; and whenever the scale is a
  number, a turn of the wheel gives a scale between 0.1 and 4 and changes nothing but the view. A scale that is not
  a number stays so until the drawing is fitted again.
\<close>

theorem canvas_zoom_bounded:
  assumes "canvas_reachable env (c, b)"
  shows "\<not> num_gt (vw_scale (view (b_store b))) (jint 4) \<and>
    (let s' = snd (on_canvas (Wheel pos corner d) (c, b_store b)); z = vw_scale (view s') in
       s'\<lparr> view := view (b_store b) \<rparr> = b_store b \<and>
       (if vw_scale (view (b_store b)) = NaN then z = NaN else z \<noteq> NaN \<and> \<not> num_gt (to_double (1 / 10)) z \<and> \<not> num_gt z (jint 4)))"
proof -
  have "\<not> num_gt (vw_scale (view (b_store b))) (jint 4)"
    using canvas_capped [OF assms] unfolding capped_def maxScale_def by simp
  moreover have "(handleWheel pos corner d (b_store b))\<lparr> view := view (b_store b) \<rparr> = b_store b"
    by (simp add: handleWheel_def Let_def)
  ultimately show ?thesis
    using wheel_scale [of "b_store b" pos corner d] wheel_NaN [of "b_store b" pos corner d]
    unfolding Let_def on_canvas.simps snd_conv fst_conv minScale_def maxScale_def by presburger
qed

theorem canvas_zoom_bounded_witness:
  "\<not> num_gt (vw_scale (view (b_store (initHistory [])))) (jint 4)"
  using canvas_zoom_bounded [OF canvas_reachable.cv_start [of still "[]"]] by blast

text \<open>
  A click on a node selects it and a click beside the nodes clears the selection, whatever happened before: the flag
  that a node's handler leaves for the surrounding one is never left over.
\<close>

lemma canvas_click_selects:
  assumes "canvas_reachable env (c, b)"
  shows "selectedNodeId (snd (on_canvas (ClickNode i pos) (c, b_store b))) = Some i"
    and "selectedNodeId (snd (on_canvas (ClickBackground pos) (c, b_store b))) = None"
  using canvas_capped [OF assms] by (simp_all add: nodePointerDown_def handlePointerDown_def Let_def)

text \<open>Dragging moves the drawing exactly as far as the pointer, on whole pixels.\<close>

lemma pan_follows_pointer:
  assumes "cv_isDragging c" and "cv_lastPos c = (jint px, jint py)" and "vw_x (view s) = jint vx" and "vw_y (view s) = jint vy"
    and "\<bar>x - px\<bar> \<le> 2 ^ 53" and "\<bar>y - py\<bar> \<le> 2 ^ 53" and "\<bar>vx + (x - px)\<bar> \<le> 2 ^ 53" and "\<bar>vy + (y - py)\<bar> \<le> 2 ^ 53"
  shows "handlePointerMove (jint x, jint y) (c, s) =
    (c\<lparr> cv_lastPos := (jint x, jint y) \<rparr>,
     s\<lparr> view := \<lparr> vw_x = jint (vx + (x - px)), vw_y = jint (vy + (y - py)), vw_scale = vw_scale (view s) \<rparr> \<rparr>)"
  unfolding handlePointerMove_def Let_def assms(2-4) prod.case fst_conv snd_conv js_int_ops(2) [OF assms(5)] js_int_ops(2) [OF assms(6)]
    js_int_ops(1) [OF assms(7)] js_int_ops(1) [OF assms(8)]
  using assms(1) by (simp add: mergeView_def)

section \<open>What is drawn\<close>

lemma set_connectedNodes:
  assumes "h \<noteq> []"
  shows "set (connectedNodes (Some h) g) = {i. i = h \<or> (h, i) \<in> arcs g \<or> (i, h) \<in> arcs g}"
proof -
  have "set (foldl (\<lambda>ns e. let ns' = (if ve_from e = h then set_add (ve_to e) ns else ns)
        in if ve_to e = h then set_add (ve_from e) ns' else ns') ns es) =
      set ns \<union> {i. \<exists>e \<in> set es. ve_from e = h \<and> ve_to e = i \<or> ve_to e = h \<and> ve_from e = i}" for ns es
    by (induction es arbitrary: ns) (auto simp: Let_def)
  with assms show ?thesis by (auto simp: connectedNodes_def arcs_def image_iff)
qed

lemma drawEdge_Some: "drawEdge hovered g e = Some d \<Longrightarrow> de_from d = ve_from e \<and> de_to d = ve_to e \<and>
    de_highlighted d = isHighlighted hovered e \<and> de_faded d = (active hovered \<and> \<not> isHighlighted hovered e)"
  by (auto simp: drawEdge_def split: option.splits)

lemma drawnEdges_all:
  assumes "arcs g \<subseteq> fst ` set (vg_nodes g) \<times> fst ` set (vg_nodes g)"
  shows "map (\<lambda>d. (de_from d, de_to d)) (drawnEdges hovered g) = map (\<lambda>e. (ve_from e, ve_to e)) (vg_edges g)"
proof -
  have some: "\<exists>d. drawEdge hovered g e = Some d" if "e \<in> set (vg_edges g)" for e
  proof -
    have "(ve_from e, ve_to e) \<in> arcs g" using that by (simp add: arcs_def)
    with assms obtain m n where "map_of (vg_nodes g) (ve_from e) = Some m" "map_of (vg_nodes g) (ve_to e) = Some n"
      by (metis SigmaE2 in_mono map_of_eq_None_iff option.exhaust)
    then show ?thesis by (simp add: drawEdge_def)
  qed
  have "map (\<lambda>d. (de_from d, de_to d)) (List.map_filter (drawEdge hovered g) es) = map (\<lambda>e. (ve_from e, ve_to e)) es"
    if "\<And>e. e \<in> set es \<Longrightarrow> \<exists>d. drawEdge hovered g e = Some d" for es
    using that
  proof (induction es)
    case (Cons e es)
    then obtain d where "drawEdge hovered g e = Some d" by auto
    with Cons drawEdge_Some [of hovered g e d] show ?case by (simp add: List.map_filter_def)
  qed (simp add: List.map_filter_def)
  from this [OF some] show ?thesis by (simp add: drawnEdges_def)
qed

text \<open>
  What the canvas draws for any plan a build function can produce, wherever the layout puts the boxes: one
  box per node in plan order, and a line for every edge. While the pointer is on a node, exactly that node and its direct
  neighbours keep their full colour, the lines at that node are highlighted and all others faded.
\<close>

theorem canvas_draws_plan:
  fixes name :: string and dagre :: dagre and opts :: LayoutOptions
  assumes "session c ctx hs" and "h \<in> hs" and "x \<noteq> []"
  defines "g \<equiv> layoutGraph dagre opts (parsePlan (finalized h name ctx))"
  shows "map dn_id (drawnNodes sel hov g) = map node_id (ctx_nodes ctx) \<and>
    map (\<lambda>d. (de_from d, de_to d)) (drawnEdges hov g) = map (\<lambda>e. (ve_from e, ve_to e)) (vg_edges (parsePlan (finalized h name ctx))) \<and>
    (\<forall>n \<in> set (drawnNodes sel (Some x) g). dn_dimmed n \<longleftrightarrow>
       dn_id n \<noteq> x \<and> (x, dn_id n) \<notin> arcs (parsePlan (finalized h name ctx)) \<and> (dn_id n, x) \<notin> arcs (parsePlan (finalized h name ctx))) \<and>
    (\<forall>d \<in> set (drawnEdges (Some x) g). de_highlighted d = (de_from d = x \<or> de_to d = x) \<and> de_faded d = (\<not> de_highlighted d))"
proof -
  let ?p = "parsePlan (finalized h name ctx)"
  note sg = session_graph(1-4) [OF assms(1,2), where name = name]
  have "distinct (map fst (vg_nodes ?p))" using sg(1) session_graph(5) [OF assms(1,2)] by simp
  from layoutGraph_nodes [OF this] obtain pos where
    "g = \<lparr> vg_nodes = map (\<lambda>(i, n). (i, placeNode pos i n)) (vg_nodes ?p), vg_edges = vg_edges ?p \<rparr>" unfolding g_def by blast
  then have keys: "map fst (vg_nodes g) = map node_id (ctx_nodes ctx)" and es: "vg_edges g = vg_edges ?p"
    using sg(1) by (simp_all add: comp_def case_prod_unfold)
  have arcs: "arcs g = arcs ?p" by (simp add: arcs_def es)
  have "fst ` set (vg_nodes g) = ids ctx" using arg_cong [OF keys, of set] by (simp add: ids_def)
  with sg(4) have "arcs g \<subseteq> fst ` set (vg_nodes g) \<times> fst ` set (vg_nodes g)" by (simp add: arcs)
  from drawnEdges_all [OF this] have edges: "map (\<lambda>d. (de_from d, de_to d)) (drawnEdges hov g) = map (\<lambda>e. (ve_from e, ve_to e)) (vg_edges ?p)"
    by (simp add: es)
  have boxes: "map dn_id (drawnNodes sel hov g) = map node_id (ctx_nodes ctx)"
    unfolding keys [symmetric] by (simp add: drawnNodes_def drawNode_def comp_def case_prod_unfold)
  have dim: "\<forall>n \<in> set (drawnNodes sel (Some x) g). dn_dimmed n \<longleftrightarrow> dn_id n \<noteq> x \<and> (x, dn_id n) \<notin> arcs ?p \<and> (dn_id n, x) \<notin> arcs ?p"
    using assms(3) by (auto simp: drawnNodes_def drawNode_def active_def set_connectedNodes arcs)
  have "\<forall>d \<in> set (drawnEdges (Some x) g). de_highlighted d = (de_from d = x \<or> de_to d = x) \<and> de_faded d = (\<not> de_highlighted d)"
    using assms(3) drawEdge_Some [of "Some x" g]
    by (fastforce simp: drawnEdges_def List.map_filter_def isHighlighted_def active_def)
  with boxes edges dim show ?thesis by blast
qed

theorem canvas_draws_plan_witness:
  "map dn_id (drawnNodes None None (layoutGraph (env_dagre still) defaultLayout (parsePlan (finalized ''n2'' ''demo'' (ex_ctx 3))))) =
     map node_id (ctx_nodes (ex_ctx 3))"
  using canvas_draws_plan [OF ex_sessions(3), of "''n2''" "''n0''" None None] by blast

text \<open>The tool bar counts the nodes and edges of the plan shown.\<close>

lemma toolbar_counts:
  assumes "distinct (map node_id (pj_nodes j))" and "planJson s = Some j" and "graph s = Some (layoutGraph d opts (parsePlan j))"
  shows "toolbarText s = Some (nat_str (length (pj_nodes j)) @ '' nodes, '' @ nat_str (length (vg_edges (parsePlan j))) @ '' edges'')"
proof -
  have "distinct (map fst (vg_nodes (parsePlan j)))" using assms(1) by (simp add: parsePlan_distinct comp_def)
  from layoutGraph_nodes [OF this, of d opts] have "length (vg_nodes (layoutGraph d opts (parsePlan j))) = length (pj_nodes j)"
    "vg_edges (layoutGraph d opts (parsePlan j)) = vg_edges (parsePlan j)" using assms(1) by (auto simp: parsePlan_distinct)
  then show ?thesis by (simp add: toolbarText_def assms(2,3))
qed

end
