(* ===== verification/VisDock.thy ===== *)
theory VisDock
  imports VisPreferences VisStore JsonParse
begin

text \<open>
  The plan view of the visualizer: the dock layout with its panels (\<open>DockLayout.tsx\<close>), its menu (\<open>MenuBar.tsx\<close>), the
  drop-down list (\<open>Dropdown.tsx\<close>) and the source panel (\<open>SourcePanel.tsx\<close>), all under
  \<open>tools/visualizer/src/components\<close>. The docking library is a parameter: a type of layouts with the operations
  that the component calls. It notifies the component of changes later, as separate events.
\<close>

section \<open>Dock layout\<close>

datatype dock_position = Anywhere | InGroup string jsval | RightOf string

record panel_request =
  pq_id :: string
  pq_title :: string
  pq_position :: dock_position

text \<open>
  The library: panels with the group they are in, panels of a group, adding, clearing, and the two conversions; reading a
  layout may raise, which leaves some layout behind.
\<close>

record 'd dockview =
  dv_panels :: "'d \<Rightarrow> (string \<times> string option) list"
  dv_group_panels :: "'d \<Rightarrow> string \<Rightarrow> string list"
  dv_groups :: "'d \<Rightarrow> string list"
  dv_addPanel :: "panel_request \<Rightarrow> 'd \<Rightarrow> 'd"
  dv_clear :: "'d \<Rightarrow> 'd"
  dv_toJSON :: "'d \<Rightarrow> jsval"
  dv_fromJSON :: "jsval \<Rightarrow> 'd \<Rightarrow> bool \<times> 'd"

record 'd dock =
  dk_api :: "'d option"
  dk_initializedMode :: "dock_mode option"
  dk_modeRef :: dock_mode
  dk_existing :: "string list"
  dk_storage :: local_storage

definition panelTitles :: "string \<Rightarrow> string" where
  "panelTitles p =
     (if p = ''canvas'' then ''Canvas'' else if p = ''details'' then ''Details'' else if p = ''editor'' then ''Editor''
      else if p = ''source'' then ''Source'' else [])"

text \<open>\<open>findIndex\<close> with \<open>-1\<close> replaced by 0.\<close>

definition panel_index :: "string \<Rightarrow> string list \<Rightarrow> nat" where
  "panel_index p ps = (if p \<in> set ps then length (takeWhile (\<lambda>q. q \<noteq> p) ps) else 0)"

definition savePanelPositions :: "json_text \<Rightarrow> 'd dockview \<Rightarrow> 'd \<Rightarrow> dock_mode \<Rightarrow> local_storage \<Rightarrow> local_storage" where
  "savePanelPositions jt dv api mode ls =
     setPanelPositions jt mode
       (JObj (foldl (\<lambda>positions (p, group).
          case group of
            None \<Rightarrow> positions
          | Some g \<Rightarrow> alist_set p (JObj [(''groupId'', JStr g), (''index'', JNum (jint (int (panel_index p (dv_group_panels dv api g)))))]) positions)
          (own_entries (getPanelPositions jt mode ls)) (dv_panels dv api))) ls"

definition panelRequest :: "string \<Rightarrow> dock_position \<Rightarrow> panel_request" where
  "panelRequest p pos = \<lparr> pq_id = p, pq_title = panelTitles p, pq_position = pos \<rparr>"

definition buildDefaultLayout :: "'d dockview \<Rightarrow> dock_mode \<Rightarrow> 'd \<Rightarrow> 'd" where
  "buildDefaultLayout dv mode api =
     (let a = dv_clear dv api in
      if mode = EditMode
      then dv_addPanel dv (panelRequest ''details'' (RightOf ''canvas''))
             (dv_addPanel dv (panelRequest ''canvas'' (RightOf ''editor'')) (dv_addPanel dv (panelRequest ''editor'' Anywhere) a))
      else dv_addPanel dv (panelRequest ''details'' (RightOf ''canvas'')) (dv_addPanel dv (panelRequest ''canvas'' Anywhere) a))"

definition panel_ids :: "'d dockview \<Rightarrow> 'd \<Rightarrow> string list" where
  "panel_ids dv api = map fst (dv_panels dv api)"

definition updateExistingPanels :: "'d dockview \<Rightarrow> 'd \<Rightarrow> 'd dock \<Rightarrow> 'd dock" where
  "updateExistingPanels dv api k = k\<lparr> dk_api := Some api, dk_existing := js_set (panel_ids dv api) \<rparr>"

text \<open>Restoring the saved layout of a mode, with the default layout as fallback.\<close>

definition restoreLayout :: "json_text \<Rightarrow> 'd dockview \<Rightarrow> dock_mode \<Rightarrow> local_storage \<Rightarrow> 'd \<Rightarrow> 'd" where
  "restoreLayout jt dv mode ls api =
     (let saved = getDockLayout jt mode ls in
      if truthy saved
      then (case dv_fromJSON dv saved api of (raised, api') \<Rightarrow> if raised then buildDefaultLayout dv mode api' else api')
      else buildDefaultLayout dv mode api)"

text \<open>The position for a panel that is added again.\<close>

definition panelPosition :: "json_text \<Rightarrow> 'd dockview \<Rightarrow> dock_mode \<Rightarrow> local_storage \<Rightarrow> 'd \<Rightarrow> string \<Rightarrow> dock_position" where
  "panelPosition jt dv mode ls api p =
     (let savedPos = getp (getPanelPositions jt mode ls) p;
          fallback = (case panel_ids dv api of [] \<Rightarrow> Anywhere | q # _ \<Rightarrow> RightOf q)
      in if truthy savedPos then
           (case getp savedPos ''groupId'' of
              JStr g \<Rightarrow> if g \<in> set (dv_groups dv api) then InGroup g (getp savedPos ''index'') else fallback
            | _ \<Rightarrow> fallback)
         else fallback)"

definition addPanel :: "json_text \<Rightarrow> 'd dockview \<Rightarrow> dock_mode \<Rightarrow> string \<Rightarrow> 'd dock \<Rightarrow> 'd dock" where
  "addPanel jt dv mode p k =
     (case dk_api k of
        None \<Rightarrow> k
      | Some api \<Rightarrow>
          if p \<in> set (panel_ids dv api) then k
          else let api' = dv_addPanel dv (panelRequest p (panelPosition jt dv mode (dk_storage k) api p)) api
               in (updateExistingPanels dv api' k)\<lparr> dk_storage := setDockLayout jt mode (dv_toJSON dv api') (dk_storage k) \<rparr>)"

definition resetLayout :: "'d dockview \<Rightarrow> dock_mode \<Rightarrow> 'd dock \<Rightarrow> 'd dock" where
  "resetLayout dv mode k =
     (case dk_api k of
        None \<Rightarrow> k
      | Some api \<Rightarrow>
          (updateExistingPanels dv (buildDefaultLayout dv mode api) k)
            \<lparr> dk_storage := removePanelPositions mode (removeDockLayout mode (dk_storage k)) \<rparr>)"

definition handleReady :: "json_text \<Rightarrow> 'd dockview \<Rightarrow> dock_mode \<Rightarrow> 'd \<Rightarrow> 'd dock \<Rightarrow> 'd dock" where
  "handleReady jt dv mode api k =
     (let api' = restoreLayout jt dv mode (dk_storage k) api
      in (updateExistingPanels dv api' k)
           \<lparr> dk_initializedMode := Some mode, dk_storage := savePanelPositions jt dv api' mode (dk_storage k) \<rparr>)"

text \<open>The library reports a change of the layout, or that a panel was removed.\<close>

definition onDidLayoutChange :: "json_text \<Rightarrow> 'd dockview \<Rightarrow> 'd \<Rightarrow> 'd dock \<Rightarrow> 'd dock" where
  "onDidLayoutChange jt dv api k =
     (let m = dk_modeRef k
      in (updateExistingPanels dv api k)
           \<lparr> dk_storage := savePanelPositions jt dv api m (setDockLayout jt m (dv_toJSON dv api) (dk_storage k)) \<rparr>)"

definition onDidRemovePanel :: "'d dockview \<Rightarrow> 'd \<Rightarrow> 'd dock \<Rightarrow> 'd dock" where
  "onDidRemovePanel dv api k = updateExistingPanels dv api k"

text \<open>The two effects of a change of the mode, in order.\<close>

definition modeEffects :: "json_text \<Rightarrow> 'd dockview \<Rightarrow> dock_mode \<Rightarrow> 'd dock \<Rightarrow> 'd dock" where
  "modeEffects jt dv mode k0 =
     (let k = k0\<lparr> dk_modeRef := mode \<rparr> in
      case dk_api k of
        None \<Rightarrow> k
      | Some api \<Rightarrow>
          if dk_initializedMode k = Some mode then k
          else let ls = (case dk_initializedMode k of
                      Some old \<Rightarrow> setDockLayout jt old (dv_toJSON dv api) (dk_storage k) | None \<Rightarrow> dk_storage k)
               in (updateExistingPanels dv (restoreLayout jt dv mode ls api) k)\<lparr> dk_initializedMode := Some mode, dk_storage := ls \<rparr>)"

datatype 'd dock_event = AddPanel string | ResetLayout | LayoutChanged 'd | PanelRemoved 'd

fun on_dock :: "json_text \<Rightarrow> 'd dockview \<Rightarrow> dock_mode \<Rightarrow> 'd dock_event \<Rightarrow> 'd dock \<Rightarrow> 'd dock" where
  "on_dock jt dv mode (AddPanel p) k = addPanel jt dv mode p k"
| "on_dock jt dv mode ResetLayout k = resetLayout dv mode k"
| "on_dock jt dv mode (LayoutChanged api) k = onDidLayoutChange jt dv api k"
| "on_dock jt dv mode (PanelRemoved api) k = onDidRemovePanel dv api k"

section \<open>Menu\<close>

record menu_item =
  mi_label :: string
  mi_panel :: string
  mi_disabled :: bool

definition addItems :: "string list \<Rightarrow> dock_mode \<Rightarrow> menu_item list" where
  "addItems existing mode =
     [\<lparr> mi_label = ''Editor'', mi_panel = ''editor'', mi_disabled = (''editor'' \<in> set existing \<or> mode = ViewMode) \<rparr>,
      \<lparr> mi_label = ''Canvas'', mi_panel = ''canvas'', mi_disabled = (''canvas'' \<in> set existing) \<rparr>,
      \<lparr> mi_label = ''Details'', mi_panel = ''details'', mi_disabled = (''details'' \<in> set existing) \<rparr>,
      \<lparr> mi_label = ''Source'', mi_panel = ''source'', mi_disabled = (''source'' \<in> set existing \<or> mode = EditMode) \<rparr>]"

text \<open>A click on an item: the event it causes, and whether the menu stays open.\<close>

definition clickItem :: "menu_item \<Rightarrow> bool \<Rightarrow> 'd dock_event option \<times> bool" where
  "clickItem item isOpen = (if \<not> mi_disabled item then (Some (AddPanel (mi_panel item)), False) else (None, isOpen))"

section \<open>Drop-down list\<close>

type_synonym drop_option = "string \<times> string"

record dropdown =
  dd_isOpen :: bool
  dd_hovered :: "int option"

definition initialDropdown :: dropdown where
  "initialDropdown = \<lparr> dd_isOpen = False, dd_hovered = None \<rparr>"

text \<open>A key while the list is open: the value chosen, if any. Reading an option that does not exist raises.\<close>

definition handleKeyDown :: "drop_option list \<Rightarrow> string \<Rightarrow> dropdown \<Rightarrow> (dsl_error, string option \<times> dropdown) res" where
  "handleKeyDown options key d =
     (if \<not> dd_isOpen d then Inr (None, d)
      else if key = ''Escape'' then Inr (None, d\<lparr> dd_isOpen := False \<rparr>)
      else if key = ''ArrowDown'' then
        Inr (None, d\<lparr> dd_hovered := Some (case dd_hovered d of None \<Rightarrow> 0 | Some i \<Rightarrow> min (i + 1) (int (length options) - 1)) \<rparr>)
      else if key = ''ArrowUp'' then
        Inr (None, d\<lparr> dd_hovered := Some (case dd_hovered d of None \<Rightarrow> int (length options) - 1 | Some i \<Rightarrow> max (i - 1) 0) \<rparr>)
      else if key = ''Enter'' then
        (case dd_hovered d of
           None \<Rightarrow> Inr (None, d)
         | Some i \<Rightarrow>
             if 0 \<le> i \<and> i < int (length options) then Inr (Some (fst (options ! nat i)), d\<lparr> dd_isOpen := False \<rparr>)
             else Inl TypeError)
      else Inr (None, d))"

definition toggleOpen :: "dropdown \<Rightarrow> dropdown" where
  "toggleOpen d = d\<lparr> dd_isOpen := \<not> dd_isOpen d \<rparr>"

definition handleClickOutside :: "dropdown \<Rightarrow> dropdown" where
  "handleClickOutside d = d\<lparr> dd_isOpen := False \<rparr>"

definition handleSelect :: "string \<Rightarrow> dropdown \<Rightarrow> string option \<times> dropdown" where
  "handleSelect v d = (Some v, d\<lparr> dd_isOpen := False \<rparr>)"

definition hoverOption :: "int option \<Rightarrow> dropdown \<Rightarrow> dropdown" where
  "hoverOption i d = d\<lparr> dd_hovered := i \<rparr>"

definition triggerLabel :: "drop_option list \<Rightarrow> string \<Rightarrow> string \<Rightarrow> string" where
  "triggerLabel options value placeholder =
     (case List.find (\<lambda>opt. fst opt = value) options of Some opt \<Rightarrow> snd opt | None \<Rightarrow> placeholder)"

section \<open>Source panel\<close>

datatype source_view = SourceCollapsed | SourceLoading string | SourceCode string string | SourceMissing string

definition sourcePanel :: "store \<Rightarrow> source_view" where
  "sourcePanel s =
     (let planName = (case planJson s of Some j \<Rightarrow> if pj_plan_name j = [] then ''unknown'' else pj_plan_name j | None \<Rightarrow> ''unknown'') in
      if sourceCollapsed s then SourceCollapsed
      else if sourceLoading s then SourceLoading planName
      else case sourceCode s of
        Some (c # cs) \<Rightarrow> SourceCode planName (c # cs)
      | _ \<Rightarrow> SourceMissing planName)"

section \<open>Each mode keeps its layout\<close>

text \<open>A storage that can be read and written.\<close>

definition open_storage :: "local_storage \<Rightarrow> bool" where
  "open_storage ls \<longleftrightarrow> ls_readable ls \<and> ls_writable ls = (\<lambda>_ _. True)"

text \<open>What an event in one mode leaves alone.\<close>

definition same_for :: "dock_mode \<Rightarrow> 'd dock \<Rightarrow> 'd dock \<Rightarrow> bool" where
  "same_for m k k' \<longleftrightarrow> ls_items (dk_storage k') (KEY_dockLayout m) = ls_items (dk_storage k) (KEY_dockLayout m) \<and>
     ls_items (dk_storage k') (KEY_panelPositions m) = ls_items (dk_storage k) (KEY_panelPositions m) \<and>
     open_storage (dk_storage k') = open_storage (dk_storage k) \<and> dk_modeRef k' = dk_modeRef k \<and>
     dk_initializedMode k' = dk_initializedMode k \<and> (dk_api k' = None \<longrightarrow> dk_api k = None)"

lemma same_for_trans: "same_for m a b \<Longrightarrow> same_for m b c \<Longrightarrow> same_for m a c"
  by (auto simp: same_for_def)

lemma same_for_refl: "same_for m k k"
  by (simp add: same_for_def)

lemma slot_frames:
  "m \<noteq> m' \<Longrightarrow> ls_items (setDockLayout jt m' v ls) (KEY_dockLayout m) = ls_items ls (KEY_dockLayout m)"
  "ls_items (setDockLayout jt m' v ls) (KEY_panelPositions m) = ls_items ls (KEY_panelPositions m)"
  "ls_items (savePanelPositions jt dv api m' ls) (KEY_dockLayout m) = ls_items ls (KEY_dockLayout m)"
  "m \<noteq> m' \<Longrightarrow> ls_items (savePanelPositions jt dv api m' ls) (KEY_panelPositions m) = ls_items ls (KEY_panelPositions m)"
  "open_storage (setDockLayout jt m' v ls) = open_storage ls" "open_storage (savePanelPositions jt dv api m' ls) = open_storage ls"
  by (simp_all add: layout_slot.frame panels_slot.frame savePanelPositions_def open_storage_def layout_slot.permissions panels_slot.permissions)

lemma removed_frames:
  "m \<noteq> m' \<Longrightarrow> ls_items (removePanelPositions m' (removeDockLayout m' ls)) (KEY_dockLayout m) = ls_items ls (KEY_dockLayout m)"
  "m \<noteq> m' \<Longrightarrow> ls_items (removePanelPositions m' (removeDockLayout m' ls)) (KEY_panelPositions m) = ls_items ls (KEY_panelPositions m)"
  "open_storage (removePanelPositions m' (removeDockLayout m' ls)) = open_storage ls"
  by (simp_all add: removePanelPositions_def removeDockLayout_def pref_remove_def open_storage_def)

lemma event_same_for:
  assumes "dk_modeRef k = m'" and "m \<noteq> m'"
  shows "same_for m k (on_dock jt dv m' ev k)"
proof (cases ev)
  case (AddPanel p)
  with assms show ?thesis
    by (simp add: same_for_def addPanel_def updateExistingPanels_def Let_def slot_frames split: option.split)
next
  case ResetLayout
  with assms show ?thesis
    by (simp add: same_for_def resetLayout_def updateExistingPanels_def removed_frames split: option.split)
next
  case (LayoutChanged api)
  with assms show ?thesis by (simp add: same_for_def onDidLayoutChange_def updateExistingPanels_def Let_def slot_frames)
next
  case (PanelRemoved api)
  then show ?thesis by (simp add: same_for_def onDidRemovePanel_def updateExistingPanels_def)
qed

lemma events_same_for:
  assumes "dk_modeRef k = m'" and "m \<noteq> m'"
  shows "same_for m k (fold (on_dock jt dv m') evs k)"
  using assms(1)
proof (induction evs arbitrary: k)
  case (Cons ev evs)
  have s: "same_for m k (on_dock jt dv m' ev k)" by (rule event_same_for [OF Cons.prems assms(2)])
  then have "dk_modeRef (on_dock jt dv m' ev k) = m'" using Cons.prems by (simp add: same_for_def)
  from same_for_trans [OF s Cons.IH [OF this]] show ?case by simp
qed (simp add: same_for_refl)

text \<open>
  Property C32. The view mode and the edit mode keep their own layouts: after switching to the other mode, any use of
  the layout there (panels added, removed and moved, also the layout reset), and switching back, the panels are
  arranged exactly as they were. The library is assumed to read its own layouts back, the storage to be
  available, and the layout to survive its text.
\<close>

theorem dock_modes_separate:
  assumes "dk_api k = Some d" and "dk_initializedMode k = Some m" and "m' \<noteq> m" and "open_storage (dk_storage k)"
    and "\<And>x. dv_fromJSON dv (dv_toJSON dv d) x = (False, d)" and "truthy (dv_toJSON dv d)"
    and "jt_parse jt (jt_stringify jt (dv_toJSON dv d)) = Some (dv_toJSON dv d)" and "jt_stringify jt (dv_toJSON dv d) \<noteq> []"
  shows "dk_api (modeEffects jt dv m (fold (on_dock jt dv m') evs (modeEffects jt dv m' k))) = Some d"
proof -
  define k1 where "k1 = modeEffects jt dv m' k"
  define k2 where "k2 = fold (on_dock jt dv m') evs k1"
  let ?j = "dv_toJSON dv d"
  have k1: "dk_modeRef k1 = m'" "dk_initializedMode k1 = Some m'" "dk_storage k1 = setDockLayout jt m ?j (dk_storage k)" "dk_api k1 \<noteq> None"
    using assms(1-3) by (simp_all add: k1_def modeEffects_def updateExistingPanels_def Let_def)
  have same: "same_for m k1 k2" unfolding k2_def by (rule events_same_for [OF k1(1)]) (use assms(3) in simp)
  have item: "ls_items (dk_storage k2) (KEY_dockLayout m) = Some (jt_stringify jt ?j)"
    using same assms(4) by (simp add: same_for_def k1(3) layout_slot.written open_storage_def)
  have op: "open_storage (dk_storage k2)" using same assms(4) by (simp add: same_for_def k1(3) slot_frames)
  from same k1 obtain api where api: "dk_api k2 = Some api" "dk_initializedMode k2 = Some m'" by (auto simp: same_for_def)
  let ?ls = "setDockLayout jt m' (dv_toJSON dv api) (dk_storage k2)"
  have "getDockLayout jt m ?ls = ?j"
    unfolding getDockLayout_def
  proof (rule pref_get_written)
    show "ls_items ?ls (KEY_dockLayout m) = Some (jt_stringify jt ?j)" using item assms(3) by (simp add: slot_frames)
    show "ls_readable ?ls" using op by (simp add: open_storage_def layout_slot.permissions)
  qed (rule assms(7,8))+
  then have "restoreLayout jt dv m ?ls api = d" using assms(5,6) by (simp add: restoreLayout_def Let_def)
  then show ?thesis
    using api assms(3) by (simp add: k1_def [symmetric] k2_def [symmetric] modeEffects_def [of jt dv m] updateExistingPanels_def Let_def)
qed

text \<open>A library whose layouts are lists of panel ids, in one group.\<close>

definition list_dock :: "string list dockview" where
  "list_dock = \<lparr> dv_panels = map (\<lambda>p. (p, Some ''g'')), dv_group_panels = (\<lambda>ps g. ps), dv_groups = (\<lambda>ps. [''g'']),
     dv_addPanel = (\<lambda>q ps. ps @ [pq_id q]), dv_clear = (\<lambda>ps. []), dv_toJSON = (\<lambda>ps. JArr (map JStr ps)),
     dv_fromJSON = (\<lambda>j ps. case j of JArr vs \<Rightarrow> (False, map (\<lambda>v. case v of JStr s \<Rightarrow> s | _ \<Rightarrow> []) vs) | _ \<Rightarrow> (True, ps)) \<rparr>"

definition real_json :: json_text where
  "real_json = \<lparr> jt_parse = JSON_parse, jt_stringify = JSON_stringify \<rparr>"

theorem dock_modes_separate_witness:
  "dk_api (modeEffects real_json list_dock ViewMode (on_dock real_json list_dock EditMode ResetLayout
     (modeEffects real_json list_dock EditMode
       \<lparr> dk_api = Some [''source'', ''canvas''], dk_initializedMode = Some ViewMode, dk_modeRef = ViewMode, dk_existing = [],
         dk_storage = demo_storage \<rparr>))) = Some [''source'', ''canvas'']"
proof -
  let ?d = "[''source'', ''canvas'']"
  have read: "dv_fromJSON list_dock (dv_toJSON list_dock ?d) x = (False, ?d)" for x by (simp add: list_dock_def)
  have "json_data (dv_toJSON list_dock ?d)" by (simp add: list_dock_def)
  from JSON_roundtrip [OF this] dock_modes_separate [of "\<lparr> dk_api = Some ?d, dk_initializedMode = Some ViewMode, dk_modeRef = ViewMode,
      dk_existing = [], dk_storage = demo_storage \<rparr>" ?d ViewMode EditMode list_dock real_json "[ResetLayout]", OF _ _ _ _ read]
  show ?thesis by (simp add: real_json_def open_storage_def demo_storage_def list_dock_def truthy_def)
qed

section \<open>Menu and drop-down list\<close>

text \<open>The menu offers exactly panels that are missing: an enabled item always adds its panel.\<close>

lemma menu_adds_missing:
  assumes "dk_api k = Some api" and "dk_existing k = js_set (panel_ids dv api)" and "item \<in> set (addItems (dk_existing k) mode)"
    and "clickItem item True = (Some ev, stay)"
  shows "\<exists>pos. dk_api (on_dock jt dv mode ev k) = Some (dv_addPanel dv (panelRequest (mi_panel item) pos) api)"
proof -
  have "mi_panel item \<notin> set (panel_ids dv api)" and "ev = AddPanel (mi_panel item)"
    using assms(2-4) by (auto simp: addItems_def clickItem_def split: if_splits)
  with assms(1) show ?thesis by (auto simp: addPanel_def updateExistingPanels_def Let_def)
qed

lemma existing_follows_panels:
  "dk_api k = Some api \<Longrightarrow> dk_existing k = js_set (panel_ids dv api) \<Longrightarrow> dk_api (on_dock jt dv mode ev k) = Some api' \<Longrightarrow>
     dk_existing (on_dock jt dv mode ev k) = js_set (panel_ids dv api')"
  by (cases ev) (auto simp: addPanel_def resetLayout_def onDidLayoutChange_def onDidRemovePanel_def updateExistingPanels_def Let_def split: if_splits)

text \<open>As long as the options stay the same, the keyboard never leaves the list, and what it chooses is one of the options.\<close>

definition hover_ok :: "drop_option list \<Rightarrow> dropdown \<Rightarrow> bool" where
  "hover_ok options d \<longleftrightarrow> (case dd_hovered d of None \<Rightarrow> True | Some i \<Rightarrow> 0 \<le> i \<and> i < int (length options))"

lemma keyboard_in_range:
  assumes "options \<noteq> []" and "hover_ok options d"
  shows "\<exists>r d'. handleKeyDown options key d = Inr (r, d') \<and> hover_ok options d' \<and> (\<forall>v. r = Some v \<longrightarrow> v \<in> fst ` set options)"
  using assms by (auto simp: handleKeyDown_def hover_ok_def split: option.split)

text \<open>The highlighted index outlives the options: when one has gone, \<open>Enter\<close> raises.\<close>

lemma stale_hover_raises:
  "handleKeyDown [(''a'', ''A'')] ''Enter'' (toggleOpen (handleClickOutside \<lparr> dd_isOpen = True, dd_hovered = Some 1 \<rparr>)) = Inl TypeError"
  by (simp add: handleKeyDown_def toggleOpen_def handleClickOutside_def)

lemma empty_list_raises:
  "handleKeyDown [] ''ArrowDown'' (toggleOpen initialDropdown) = Inr (None, \<lparr> dd_isOpen = True, dd_hovered = Some 0 \<rparr>)"
  "handleKeyDown [] ''Enter'' \<lparr> dd_isOpen = True, dd_hovered = Some 0 \<rparr> = Inl TypeError"
  by (simp_all add: handleKeyDown_def toggleOpen_def initialDropdown_def)

end
