(* ===== verification/VisServer.thy ===== *)
theory VisServer
  imports VisFile FileTree
begin

text \<open>
  The development server of the visualizer (\<open>tools/visualizer/vite.config.ts\<close>): the compile request of the editor, from
  its body to the response and the cleanup, and the two routes for files. A request is split where the server waits:
  for the child process to run and to end. Other requests may come in between. The random name of an output
  directory makes it the child's own, so it is part of the child's result.
\<close>

section \<open>Compile requests\<close>

text \<open>\<open>path.basename\<close>, which ignores slashes at the end.\<close>

definition node_basename :: "string \<Rightarrow> string" where
  "node_basename p = basename (rev (dropWhile (\<lambda>c. c = CHR ''/'') (rev p)))"

datatype post = BadRequest | CompileRequest jsval string

definition parseBody :: "string \<Rightarrow> post" where
  "parseBody body =
     (case JSON_parse body of
        None \<Rightarrow> BadRequest
      | Some parsed \<Rightarrow>
          if parsed = JNull then BadRequest
          else let f = getp parsed ''filename'' in
            if \<not> truthy f then CompileRequest (getp parsed ''source'') ''live_plan.plan.ts''
            else (case f of JStr s \<Rightarrow> CompileRequest (getp parsed ''source'') (node_basename s) | _ \<Rightarrow> BadRequest))"

text \<open>
  What the child process leaves: its exit code (\<open>None\<close> when a signal ended it), its error output and the files in the output directory, or the
  error that it could not be started.
\<close>

datatype child_result = Closed "nat option" string "(string \<times> string) list" | SpawnFailed string

definition failure :: "string \<Rightarrow> string \<Rightarrow> jsval" where
  "failure err phase = JObj [(''success'', JBool False), (''error'', JStr err), (''phase'', JStr phase)]"

definition success :: "jsval \<Rightarrow> jsval" where
  "success artifact = JObj [(''success'', JBool True), (''artifact'', artifact)]"

text \<open>The response to the editor; \<open>None\<close> when the written artifact cannot be parsed, which raises in the callback.\<close>

definition compileResult :: "string \<Rightarrow> child_result \<Rightarrow> jsval option" where
  "compileResult filename r =
     (case r of
        Closed code stderr files \<Rightarrow>
          if code = Some 0 then
            (case map_of files (stripPlanSuffix filename @ ''.plan.json'') of
               Some content \<Rightarrow> map_option success (JSON_parse content)
             | None \<Rightarrow> Some (failure ''Artifact not found after compilation'' ''output''))
          else Some (failure (if trim stderr \<noteq> [] then trim stderr else ''Compilation failed with exit code '' @ (case code of Some n \<Rightarrow> nat_str n | None \<Rightarrow> ''null'')) ''compile'')
      | SpawnFailed msg \<Rightarrow> Some (failure msg ''spawn''))"

text \<open>A request in progress: its file and source, and the child's result once it has run.\<close>

record job =
  jb_filename :: string
  jb_source :: string
  jb_result :: "child_result option"

record server =
  sv_temp :: "string \<Rightarrow> string option"
  sv_jobs :: "job list"
  sv_responses :: "jsval list"
  sv_hanging :: nat

definition initialServer :: server where
  "initialServer = \<lparr> sv_temp = (\<lambda>_. None), sv_jobs = [], sv_responses = [], sv_hanging = 0 \<rparr>"

text \<open>
  A request arrives. Writing the source raises when it is not a text or when the name is not that of a file
  in the directory; then the cleanup removes the file and nobody answers the request.
\<close>

definition compilePost :: "string \<Rightarrow> server \<Rightarrow> server" where
  "compilePost body sv =
     (case parseBody body of
        BadRequest \<Rightarrow> sv\<lparr> sv_responses := sv_responses sv @ [failure ''Invalid JSON body'' ''parse''] \<rparr>
      | CompileRequest source filename \<Rightarrow>
          (case source of
             JStr src \<Rightarrow>
               if filename \<in> {[], ''.'', ''..''} then sv\<lparr> sv_hanging := Suc (sv_hanging sv) \<rparr>
               else sv\<lparr> sv_temp := (sv_temp sv)(filename \<mapsto> src),
                        sv_jobs := sv_jobs sv @ [\<lparr> jb_filename = filename, jb_source = src, jb_result = None \<rparr>] \<rparr>
           | _ \<Rightarrow> sv\<lparr> sv_temp := (sv_temp sv)(filename := None), sv_hanging := Suc (sv_hanging sv) \<rparr>))"

text \<open>The child of a request reads the source and runs; \<open>child\<close> is the compiler's command line.\<close>

definition childRuns :: "(string \<Rightarrow> string option \<Rightarrow> child_result) \<Rightarrow> nat \<Rightarrow> server \<Rightarrow> server" where
  "childRuns child i sv =
     (if i < length (sv_jobs sv) \<and> jb_result (sv_jobs sv ! i) = None
      then let j = sv_jobs sv ! i
           in sv\<lparr> sv_jobs := (sv_jobs sv)[i := j\<lparr> jb_result := Some (child (jb_filename j) (sv_temp sv (jb_filename j))) \<rparr>] \<rparr>
      else sv)"

text \<open>The child has ended: the response, and the cleanup of the \<open>finally\<close> block.\<close>

definition childClosed :: "nat \<Rightarrow> server \<Rightarrow> server" where
  "childClosed i sv =
     (if i < length (sv_jobs sv) then
        (case jb_result (sv_jobs sv ! i) of
           None \<Rightarrow> sv
         | Some r \<Rightarrow>
             let f = jb_filename (sv_jobs sv ! i);
                 sv' = sv\<lparr> sv_jobs := remove_at i (sv_jobs sv) \<rparr>
             in (case compileResult f r of
                   Some response \<Rightarrow> sv'\<lparr> sv_temp := (sv_temp sv)(f := None), sv_responses := sv_responses sv @ [response] \<rparr>
                 | None \<Rightarrow> sv'\<lparr> sv_hanging := Suc (sv_hanging sv) \<rparr>))
      else sv)"

section \<open>Files\<close>

datatype served = Content string | NextHandler | ReadRaised

definition strip_slash :: "string \<Rightarrow> string" where
  "strip_slash url = (case url of c # cs \<Rightarrow> if c = CHR ''/'' then cs else url | [] \<Rightarrow> [])"

definition servePlanSources :: "path \<Rightarrow> file_tree \<Rightarrow> string \<Rightarrow> served" where
  "servePlanSources dir tree url =
     (let urlPath = strip_slash url;
          possiblePaths = [resolve (resolve dir ''../../plans'') urlPath, resolve (resolve dir ''../../examples/plans'') urlPath]
      in case List.find (\<lambda>p. lookup p tree \<noteq> None) possiblePaths of
           None \<Rightarrow> NextHandler
         | Some p \<Rightarrow> (case readFile tree p of Some c \<Rightarrow> Content c | None \<Rightarrow> ReadRaised))"

definition serveLocalPublic :: "path \<Rightarrow> file_tree \<Rightarrow> string \<Rightarrow> served" where
  "serveLocalPublic dir tree url =
     (let urlPath = takeWhile (\<lambda>c. c \<noteq> CHR ''?'') url;
          localPath = resolve (resolve dir ''public'') (drop 1 urlPath)
      in case readFile tree localPath of Some c \<Rightarrow> Content c | None \<Rightarrow> NextHandler)"

section \<open>Requests do not mix while their file names differ\<close>

text \<open>
  Every state of a server to which a request comes only when none with the same file name is in progress.
\<close>

definition names_file :: "string \<Rightarrow> string list \<Rightarrow> bool" where
  "names_file body fs = (case parseBody body of CompileRequest _ f \<Rightarrow> f \<in> set fs | BadRequest \<Rightarrow> False)"

inductive serving :: "(string \<Rightarrow> string option \<Rightarrow> child_result) \<Rightarrow> server \<Rightarrow> bool" for child where
  idle: "serving child initialServer"
| posted: "serving child sv \<Longrightarrow> \<not> names_file body (map jb_filename (sv_jobs sv)) \<Longrightarrow> serving child (compilePost body sv)"
| ran: "serving child sv \<Longrightarrow> serving child (childRuns child i sv)"
| closed: "serving child sv \<Longrightarrow> serving child (childClosed i sv)"

definition job_ok :: "(string \<Rightarrow> string option \<Rightarrow> child_result) \<Rightarrow> (string \<Rightarrow> string option) \<Rightarrow> job \<Rightarrow> bool" where
  "job_ok child temp j \<longleftrightarrow>
     (case jb_result j of None \<Rightarrow> temp (jb_filename j) = Some (jb_source j)
      | Some r \<Rightarrow> r = child (jb_filename j) (Some (jb_source j)))"

definition server_ok :: "(string \<Rightarrow> string option \<Rightarrow> child_result) \<Rightarrow> server \<Rightarrow> bool" where
  "server_ok child sv \<longleftrightarrow> distinct (map jb_filename (sv_jobs sv)) \<and> (\<forall>j \<in> set (sv_jobs sv). job_ok child (sv_temp sv) j)"

lemma map_remove_at: "map f (remove_at i xs) = remove_at i (map f xs)"
  by (simp add: remove_at_def take_map drop_map)

lemma set_remove_at: "set (remove_at i xs) \<subseteq> set xs"
  by (auto simp: remove_at_def dest: in_set_takeD in_set_dropD)

lemma distinct_remove_at: "distinct xs \<Longrightarrow> i < length xs \<Longrightarrow> distinct (remove_at i xs) \<and> xs ! i \<notin> set (remove_at i xs)"
  using distinct_append [of "take i xs" "xs ! i # drop (Suc i) xs"] by (simp add: remove_at_def id_take_nth_drop [symmetric])

lemma job_ok_frame: "jb_filename j \<noteq> f \<Longrightarrow> job_ok child (temp(f := x)) j = job_ok child temp j"
  by (simp add: job_ok_def split: option.split)

lemma serving_ok: "serving child sv \<Longrightarrow> server_ok child sv"
proof (induction rule: serving.induct)
  case idle
  then show ?case by (simp add: server_ok_def initialServer_def)
next
  case (posted sv body)
  show ?case
  proof (cases "sv_temp (compilePost body sv) = sv_temp sv \<and> sv_jobs (compilePost body sv) = sv_jobs sv")
    case True
    with posted show ?thesis by (simp add: server_ok_def)
  next
    case False
    then consider (job) src f where "parseBody body = CompileRequest (JStr src) f"
        "compilePost body sv = sv\<lparr> sv_temp := (sv_temp sv)(f \<mapsto> src),
          sv_jobs := sv_jobs sv @ [\<lparr> jb_filename = f, jb_source = src, jb_result = None \<rparr>] \<rparr>"
      | (raised) v f where "parseBody body = CompileRequest v f"
        "compilePost body sv = sv\<lparr> sv_temp := (sv_temp sv)(f := None), sv_hanging := Suc (sv_hanging sv) \<rparr>"
      by (auto simp: compilePost_def split: post.splits jsval.splits if_splits)
    then show ?thesis
    proof cases
      case (job src f)
      from posted(2) job(1) have f: "f \<notin> jb_filename ` set (sv_jobs sv)" by (simp add: names_file_def)
      have "job_ok child ((sv_temp sv)(f \<mapsto> src)) j" if "j \<in> set (sv_jobs sv)" for j
        using posted(3) f that job_ok_frame [of j f child "sv_temp sv" "Some src"] by (auto simp: server_ok_def)
      moreover have "job_ok child ((sv_temp sv)(f \<mapsto> src)) \<lparr> jb_filename = f, jb_source = src, jb_result = None \<rparr>" by (simp add: job_ok_def)
      ultimately show ?thesis using posted(3) f by (auto simp: job(2) server_ok_def)
    next
      case (raised v f)
      from posted(2) raised(1) have "f \<notin> jb_filename ` set (sv_jobs sv)" by (simp add: names_file_def)
      then have "job_ok child ((sv_temp sv)(f := None)) j" if "j \<in> set (sv_jobs sv)" for j
        using posted(3) that job_ok_frame [of j f child "sv_temp sv" None] by (auto simp: server_ok_def)
      then show ?thesis using posted(3) by (simp add: raised(2) server_ok_def)
    qed
  qed
next
  case (ran sv i)
  show ?case
  proof (cases "i < length (sv_jobs sv) \<and> jb_result (sv_jobs sv ! i) = None")
    case True
    let ?j = "sv_jobs sv ! i" and ?r = "child (jb_filename (sv_jobs sv ! i)) (sv_temp sv (jb_filename (sv_jobs sv ! i)))"
    have c: "childRuns child i sv = sv\<lparr> sv_jobs := (sv_jobs sv)[i := ?j\<lparr> jb_result := Some ?r \<rparr>] \<rparr>"
      using True by (simp add: childRuns_def Let_def)
    have "job_ok child (sv_temp sv) ?j" using ran(2) True by (simp add: server_ok_def)
    with True have "job_ok child (sv_temp sv) (?j\<lparr> jb_result := Some ?r \<rparr>)" by (simp add: job_ok_def)
    moreover have "map jb_filename ((sv_jobs sv)[i := ?j\<lparr> jb_result := Some ?r \<rparr>]) = map jb_filename (sv_jobs sv)"
      using True by (simp add: map_update list_update_same_conv)
    ultimately show ?thesis
      using ran(2) set_update_subset_insert [of "sv_jobs sv" i "?j\<lparr> jb_result := Some ?r \<rparr>"] unfolding c server_ok_def by auto
  next
    case False
    then have "childRuns child i sv = sv" by (simp only: childRuns_def if_False)
    with ran show ?thesis by simp
  qed
next
  case (closed sv i)
  show ?case
  proof (cases "i < length (sv_jobs sv) \<and> jb_result (sv_jobs sv ! i) \<noteq> None")
    case True
    let ?f = "jb_filename (sv_jobs sv ! i)"
    have jobs: "sv_jobs (childClosed i sv) = remove_at i (sv_jobs sv)"
      and temp: "\<exists>x. sv_temp (childClosed i sv) = (sv_temp sv)(?f := x)"
      using True by (auto simp: childClosed_def Let_def split: option.split intro: exI [of _ None] exI [of _ "sv_temp sv ?f"])
    have d: "distinct (map jb_filename (remove_at i (sv_jobs sv)))" "?f \<notin> jb_filename ` set (remove_at i (sv_jobs sv))"
      using distinct_remove_at [of "map jb_filename (sv_jobs sv)" i] closed(2) True
      by (simp_all add: server_ok_def map_remove_at [symmetric])
    have "job_ok child (sv_temp (childClosed i sv)) j" if "j \<in> set (remove_at i (sv_jobs sv))" for j
    proof -
      from d(2) that have "jb_filename j \<noteq> ?f" by (metis image_eqI)
      moreover have "job_ok child (sv_temp sv) j" using closed(2) that set_remove_at [of i "sv_jobs sv"] by (auto simp: server_ok_def)
      ultimately show ?thesis using temp by (auto simp: job_ok_frame)
    qed
    with d(1) show ?thesis by (simp add: server_ok_def jobs)
  next
    case False
    then have "childClosed i sv = sv" by (auto simp: childClosed_def)
    with closed show ?thesis by simp
  qed
qed

text \<open>
  Property C26. Compile requests do not mix: as long as requests that are in progress at the same time have different
  file names, every response comes from compiling exactly the source of its own request, in any
  interleaving of requests, running children and responses; afterwards its source file is gone.
\<close>

theorem compile_requests_isolated:
  assumes "serving child sv" and "i < length (sv_jobs sv)" and "jb_result (sv_jobs sv ! i) \<noteq> None"
    and "compileResult (jb_filename (sv_jobs sv ! i)) (child (jb_filename (sv_jobs sv ! i)) (Some (jb_source (sv_jobs sv ! i)))) = Some response"
  shows "sv_responses (childClosed i sv) = sv_responses sv @ [response] \<and> sv_temp (childClosed i sv) (jb_filename (sv_jobs sv ! i)) = None \<and>
    sv_jobs (childClosed i sv) = remove_at i (sv_jobs sv) \<and> sv_hanging (childClosed i sv) = sv_hanging sv"
proof -
  have "job_ok child (sv_temp sv) (sv_jobs sv ! i)" using serving_ok [OF assms(1)] assms(2) by (simp add: server_ok_def)
  with assms(3) have "jb_result (sv_jobs sv ! i) = Some (child (jb_filename (sv_jobs sv ! i)) (Some (jb_source (sv_jobs sv ! i))))"
    by (auto simp: job_ok_def)
  with assms(2,4) show ?thesis by (simp add: childClosed_def Let_def)
qed

definition echo_child :: "string \<Rightarrow> string option \<Rightarrow> child_result" where
  "echo_child f src = (case src of Some s \<Rightarrow> Closed (Some 1) s [] | None \<Rightarrow> Closed (Some 1) ''no source'' [])"

definition demo_body :: "string \<Rightarrow> string" where
  "demo_body src = JSON_stringify (JObj [(''source'', JStr src), (''filename'', JStr ''a.plan.ts'')])"

lemma demo_body_parse: "parseBody (demo_body src) = CompileRequest (JStr src) ''a.plan.ts''"
proof -
  have "json_data (JObj [(''source'', JStr src), (''filename'', JStr ''a.plan.ts'')])" by simp
  from JSON_roundtrip [OF this] have "JSON_parse (demo_body src) = Some (JObj [(''source'', JStr src), (''filename'', JStr ''a.plan.ts'')])"
    by (simp add: demo_body_def)
  moreover have "node_basename ''a.plan.ts'' = ''a.plan.ts''" by code_simp
  ultimately show ?thesis by (simp add: parseBody_def obj_get_def truthy_def)
qed

definition demo_server :: server where
  "demo_server = childRuns echo_child 0 (compilePost (demo_body ''x'') initialServer)"

lemma demo_server_serving: "serving echo_child demo_server"
  unfolding demo_server_def by (intro serving.ran serving.posted serving.idle) (simp add: names_file_def initialServer_def split: post.split)

theorem compile_requests_isolated_witness: "sv_responses (childClosed 0 demo_server) = [failure ''x'' ''compile'']"
proof -
  have s: "compilePost (demo_body ''x'') initialServer = initialServer\<lparr> sv_temp := [''a.plan.ts'' \<mapsto> ''x''],
      sv_jobs := [\<lparr> jb_filename = ''a.plan.ts'', jb_source = ''x'', jb_result = None \<rparr>] \<rparr>"
    by (simp add: compilePost_def demo_body_parse initialServer_def)
  have t: "trim ''x'' = ''x''" by code_simp
  have jobs: "sv_jobs demo_server = [\<lparr> jb_filename = ''a.plan.ts'', jb_source = ''x'', jb_result = Some (Closed (Some 1) ''x'' []) \<rparr>]"
    by (simp add: demo_server_def s childRuns_def echo_child_def)
  have "sv_responses demo_server = sv_responses initialServer" by (simp add: demo_server_def s childRuns_def)
  then have "sv_responses demo_server = []" by (simp add: initialServer_def)
  with compile_requests_isolated [OF demo_server_serving, of 0 "failure ''x'' ''compile''"]
  show ?thesis by (simp add: jobs compileResult_def echo_child_def t)
qed

text \<open>
  Two requests for the same file name do mix: the temporary file has the plain name, only the output directory is
  unique. The first editor gets the result of the second one's source, and the second child finds no source.
\<close>

lemma same_name_mixes:
  assumes "serving child sv" and "sv_jobs sv = []" and "sv_hanging sv = 0" and "sv_responses sv = []"
    and "\<And>s. compileResult ''a.plan.ts'' (child ''a.plan.ts'' s) \<noteq> None"
  shows "sv_responses (childClosed 0 (childRuns child 0 (childClosed 0 (childRuns child 0 (compilePost (demo_body t) (compilePost (demo_body s) sv)))))) =
    [the (compileResult ''a.plan.ts'' (child ''a.plan.ts'' (Some t))), the (compileResult ''a.plan.ts'' (child ''a.plan.ts'' None))]"
  using assms(2-4) assms(5) [of "Some t"] assms(5) [of None]
  by (auto simp: compilePost_def demo_body_parse childRuns_def childClosed_def Let_def remove_at_def)

section \<open>The compiler as the child\<close>

text \<open>
  The command line \<open>dslc build tempFile --out outDir\<close> as the compiler's model runs it; \<open>printed\<close> is what it prints for an error.
\<close>

definition dslc_child :: "toolchain \<Rightarrow> string \<Rightarrow> string \<Rightarrow> string \<Rightarrow> (cli_error \<Rightarrow> string) \<Rightarrow> string \<Rightarrow> string option \<Rightarrow> child_result" where
  "dslc_child tc tempDir outDir repo printed filename source =
     (case compilePlan (tc\<lparr> tc_readFile := (\<lambda>_. source) \<rparr>) (tempDir @ ''/'' @ filename) outDir repo of
        Inl e \<Rightarrow> Closed (Some 1) (printed e) []
      | Inr (path, contents) \<Rightarrow> Closed (Some 0) [] [(basename path, contents)])"

definition plain_name :: "string \<Rightarrow> bool" where
  "plain_name n \<longleftrightarrow> CHR ''/'' \<notin> set n \<and> n \<notin> {[], ''.'', ''..''}"


lemma basename_append: "CHR ''/'' \<notin> set n \<Longrightarrow> d = [] \<or> last d = CHR ''/'' \<Longrightarrow> basename (d @ n) = n"
proof -
  assume n: "CHR ''/'' \<notin> set n" and d: "d = [] \<or> last d = CHR ''/''"
  have "takeWhile (\<lambda>c. c \<noteq> CHR ''/'') (rev n @ rev d) = rev n @ takeWhile (\<lambda>c. c \<noteq> CHR ''/'') (rev d)"
    by (rule takeWhile_append2) (use n in auto)
  moreover have "takeWhile (\<lambda>c. c \<noteq> CHR ''/'') (rev d) = []" using d by (cases d rule: rev_cases) auto
  ultimately show ?thesis by (simp add: basename_def)
qed

lemma ex_api_written: "\<exists>path contents. compilePlan (ex_tc\<lparr> tc_readFile := (\<lambda>_. Some []) \<rparr>) (''/tmp'' @ ''/'' @ ''demo.plan.ts'') ''out'' ''/r'' = Inr (path, contents)"
proof -
  have "is_written (compilePlan (ex_tc\<lparr> tc_readFile := (\<lambda>_. Some []) \<rparr>) (''/tmp'' @ ''/'' @ ''demo.plan.ts'') ''out'' ''/r'')" by code_simp
  then show ?thesis by (auto simp: is_written_def split: sum.splits)
qed


section \<open>Routes for files\<close>

lemma resolve_parents:
  assumes "wf_path dir"
  shows "resolve (dir @ [a, b]) ''../../plans'' = dir @ [''plans'']" "resolve (dir @ [a, b]) ''../../examples/plans'' = dir @ [''examples'', ''plans'']"
  by (simp_all add: resolve_def push_segment_def butlast_append startsWith_iff)

text \<open>For a plain name the sources come from \<open>plans\<close>, and from \<open>examples/plans\<close> only when \<open>plans\<close> has none.\<close>

lemma sources_found:
  assumes "wf_path repoDir" and "wf_path [name]"
  shows "servePlanSources (repoDir @ [''tools'', ''visualizer'']) tree (CHR ''/'' # name) =
    (case (lookup (repoDir @ [''plans'', name]) tree, lookup (repoDir @ [''examples'', ''plans'', name]) tree) of
       (Some (File c), _) \<Rightarrow> Content c | (Some _, _) \<Rightarrow> ReadRaised
     | (None, Some (File c)) \<Rightarrow> Content c | (None, Some _) \<Rightarrow> ReadRaised | (None, None) \<Rightarrow> NextHandler)"
proof -
  have "split_slash acc n = [rev acc @ n]" if "CHR ''/'' \<notin> set n" for acc n using that by (induction n arbitrary: acc) auto
  with assms(2) have r: "resolve base name = base @ [name]" for base
    by (auto simp: resolve_def wf_path_def push_segment_def startsWith_iff)
  show ?thesis
    unfolding servePlanSources_def Let_def resolve_parents [OF assms(1)]
    by (simp add: strip_slash_def r readFile_def split: option.split file_tree.split)
qed

text \<open>A request that climbs out of the directory is served any file of the machine.\<close>

lemma sources_escape:
  "servePlanSources [''repo'', ''tools'', ''visualizer''] (Dir [(''secret'', File ''s''), (''repo'', Dir [(''plans'', Dir [])])]) ''/../../secret'' = Content ''s''"
  "serveLocalPublic [''repo'', ''tools'', ''visualizer''] (Dir [(''secret'', File ''s'')]) ''/../../../../secret'' = Content ''s''"
  by code_simp+

end
