(* ===== verification/RedisSeed.thy ===== *)
theory RedisSeed
  imports Prelude
begin

text \<open>
  \<open>dsl/tools/redis_seed.ts\<close>: the deterministic test data for the local Redis and the smoke checks after writing
  it. The client library is a parameter: a type of databases with the commands that the script sends, each of which may
  fail. Connecting and console output are left out.
\<close>

section \<open>Data\<close>

definition NUM_USERS :: nat where "NUM_USERS = 20"
definition FOLLOW_FANOUT :: nat where "FOLLOW_FANOUT = 5"
definition MEDIA_PER_USER :: nat where "MEDIA_PER_USER = 10"
definition RECOMMENDATION_PER_USER :: nat where "RECOMMENDATION_PER_USER = 10"

definition COUNTRIES :: "string list" where "COUNTRIES = [''US'', ''CA'', ''GB'']"

definition getCountry :: "nat \<Rightarrow> string" where
  "getCountry uid = COUNTRIES ! ((uid - 1) mod 3)"

definition getFollowees :: "nat \<Rightarrow> string list" where
  "getFollowees uid = map (\<lambda>i. nat_str ((uid + i - 1) mod NUM_USERS + 1)) [1..<FOLLOW_FANOUT + 1]"

definition getMediaIds :: "nat \<Rightarrow> string list" where
  "getMediaIds uid = map (\<lambda>j. nat_str (uid * 1000 + j)) [1..<MEDIA_PER_USER + 1]"

definition getRecommendationIds :: "nat \<Rightarrow> string list" where
  "getRecommendationIds uid = map (\<lambda>j. nat_str (uid * 1000 + j)) [1..<RECOMMENDATION_PER_USER + 1]"

section \<open>The script\<close>

text \<open>The commands; a command that fails raises.\<close>

record 'r redis =
  rc_flushDb :: "'r \<Rightarrow> 'r option"
  rc_hSet :: "string \<Rightarrow> (string \<times> string) list \<Rightarrow> 'r \<Rightarrow> 'r option"
  rc_rPush :: "string \<Rightarrow> string list \<Rightarrow> 'r \<Rightarrow> 'r option"
  rc_hGet :: "string \<Rightarrow> string \<Rightarrow> 'r \<Rightarrow> string option option"
  rc_lLen :: "string \<Rightarrow> 'r \<Rightarrow> nat option"
  rc_lRange :: "string \<Rightarrow> 'r \<Rightarrow> string list option"

datatype seed_error = ClientFailed | SmokeCheckFailed string

definition user_key :: "string \<Rightarrow> nat \<Rightarrow> string" where
  "user_key kind uid = kind @ '':'' @ nat_str uid"

definition users :: "nat list" where
  "users = [1..<NUM_USERS + 1]"

fun each :: "('a \<Rightarrow> 'r \<Rightarrow> 'r option) \<Rightarrow> 'a list \<Rightarrow> 'r \<Rightarrow> 'r option" where
  "each f [] r = Some r"
| "each f (x # xs) r = Option.bind (f x r) (each f xs)"

definition seedUsers :: "'r redis \<Rightarrow> 'r \<Rightarrow> 'r option" where
  "seedUsers rc = each (\<lambda>uid. rc_hSet rc (user_key ''user'' uid) [(''id'', nat_str uid), (''country'', getCountry uid)]) users"

definition seedLists :: "'r redis \<Rightarrow> string \<Rightarrow> (nat \<Rightarrow> string list) \<Rightarrow> 'r \<Rightarrow> 'r option" where
  "seedLists rc kind ids = each (\<lambda>uid. rc_rPush rc (user_key kind uid) (ids uid)) users"

definition seed_data :: "'r redis \<Rightarrow> 'r \<Rightarrow> 'r option" where
  "seed_data rc r =
     Option.bind (rc_flushDb rc r) (\<lambda>r.
     Option.bind (seedUsers rc r) (\<lambda>r.
     Option.bind (seedLists rc ''follow'' getFollowees r) (\<lambda>r.
     Option.bind (seedLists rc ''media'' getMediaIds r) (\<lambda>r.
     seedLists rc ''recommendation'' getRecommendationIds r))))"

definition smoke :: "'a option \<Rightarrow> 'a \<Rightarrow> string \<Rightarrow> (seed_error, unit) res" where
  "smoke got expected what =
     (case got of None \<Rightarrow> Inl ClientFailed | Some x \<Rightarrow> if x = expected then Inr () else Inl (SmokeCheckFailed what))"

definition smokeChecks :: "'r redis \<Rightarrow> 'r \<Rightarrow> (seed_error, unit) res" where
  "smokeChecks rc r =
     bindR (smoke (rc_hGet rc ''user:1'' ''country'' r) (Some ''US'') ''user:1 country'') (\<lambda>_.
     bindR (smoke (rc_lLen rc ''follow:1'' r) FOLLOW_FANOUT ''follow:1 length'') (\<lambda>_.
     bindR (smoke (rc_lRange rc ''follow:1'' r) (getFollowees 1) ''follow:1'') (\<lambda>_.
     bindR (smoke (rc_lLen rc ''media:1'' r) MEDIA_PER_USER ''media:1 length'') (\<lambda>_.
     smoke (rc_lLen rc ''recommendation:1'' r) RECOMMENDATION_PER_USER ''recommendation:1 length''))))"

text \<open>The result and the database left behind.\<close>

definition seed_main :: "'r redis \<Rightarrow> 'r \<Rightarrow> (seed_error, 'r) res" where
  "seed_main rc r = (case seed_data rc r of None \<Rightarrow> Inl ClientFailed | Some r' \<Rightarrow> bindR (smokeChecks rc r') (\<lambda>_. Inr r'))"

section \<open>Properties\<close>

text \<open>
  The documented behaviour of the commands, over the fields \<open>h\<close> of the hashes and the lists \<open>l\<close> of a database.
\<close>

definition behaves :: "'r redis \<Rightarrow> ('r \<Rightarrow> string \<Rightarrow> string \<Rightarrow> string option) \<Rightarrow> ('r \<Rightarrow> string \<Rightarrow> string list) \<Rightarrow> bool" where
  "behaves rc h l \<longleftrightarrow>
     (\<forall>r. \<exists>r'. rc_flushDb rc r = Some r' \<and> h r' = (\<lambda>_ _. None) \<and> l r' = (\<lambda>_. [])) \<and>
     (\<forall>k fs r. \<exists>r'. rc_hSet rc k fs r = Some r' \<and> h r' = (h r)(k := h r k ++ map_of (rev fs)) \<and> l r' = l r) \<and>
     (\<forall>k xs r. \<exists>r'. rc_rPush rc k xs r = Some r' \<and> l r' = (l r)(k := l r k @ xs) \<and> h r' = h r) \<and>
     (\<forall>k f r. rc_hGet rc k f r = Some (h r k f)) \<and> (\<forall>k r. rc_lLen rc k r = Some (length (l r k))) \<and> (\<forall>k r. rc_lRange rc k r = Some (l r k))"

lemma user_key_inj [simp]: "user_key a i = user_key a j \<longleftrightarrow> i = j"
  by (simp add: user_key_def)

lemma kinds_distinct [simp]:
  "user_key ''follow'' i \<noteq> user_key ''media'' j" "user_key ''media'' i \<noteq> user_key ''follow'' j"
  "user_key ''follow'' i \<noteq> user_key ''recommendation'' j" "user_key ''recommendation'' i \<noteq> user_key ''follow'' j"
  "user_key ''media'' i \<noteq> user_key ''recommendation'' j" "user_key ''recommendation'' i \<noteq> user_key ''media'' j"
  by (simp_all add: user_key_def)

lemma each_pushes:
  assumes "behaves rc h l" and "distinct us"
  shows "\<exists>r'. each (\<lambda>uid. rc_rPush rc (user_key kind uid) (ids uid)) us r = Some r' \<and> h r' = h r \<and>
    (\<forall>k. l r' k = (if \<exists>uid \<in> set us. k = user_key kind uid then l r k @ ids (THE uid. k = user_key kind uid) else l r k))"
  using assms(2)
proof (induction us arbitrary: r)
  case (Cons u us)
  obtain r1 where r1: "rc_rPush rc (user_key kind u) (ids u) r = Some r1" "l r1 = (l r)(user_key kind u := l r (user_key kind u) @ ids u)" "h r1 = h r"
    using assms(1) unfolding behaves_def by blast
  from Cons.IH [of r1] Cons.prems obtain r' where r': "each (\<lambda>uid. rc_rPush rc (user_key kind uid) (ids uid)) us r1 = Some r'" "h r' = h r1"
    "\<forall>k. l r' k = (if \<exists>uid \<in> set us. k = user_key kind uid then l r1 k @ ids (THE uid. k = user_key kind uid) else l r1 k)" by auto
  have "\<forall>k. l r' k = (if \<exists>uid \<in> set (u # us). k = user_key kind uid then l r k @ ids (THE uid. k = user_key kind uid) else l r k)"
    using r'(3) Cons.prems by (auto simp: r1(2))
  with r1 r' show ?case by auto
qed simp

lemma each_users:
  assumes "behaves rc h l" and "distinct us"
  shows "\<exists>r'. each (\<lambda>uid. rc_hSet rc (user_key ''user'' uid) [(''id'', nat_str uid), (''country'', getCountry uid)]) us r = Some r' \<and> l r' = l r \<and>
    (\<forall>uid \<in> set us. h r' (user_key ''user'' uid) ''id'' = Some (nat_str uid) \<and> h r' (user_key ''user'' uid) ''country'' = Some (getCountry uid)) \<and>
    (\<forall>k. k \<notin> user_key ''user'' ` set us \<longrightarrow> h r' k = h r k)"
  using assms(2)
proof (induction us arbitrary: r)
  case (Cons u us)
  let ?fs = "[(''id'', nat_str u), (''country'', getCountry u)]"
  obtain r1 where r1: "rc_hSet rc (user_key ''user'' u) ?fs r = Some r1"
      "h r1 = (h r)(user_key ''user'' u := h r (user_key ''user'' u) ++ map_of (rev ?fs))" "l r1 = l r"
    using assms(1) unfolding behaves_def by blast
  from Cons.IH [of r1] Cons.prems obtain r' where r':
    "each (\<lambda>uid. rc_hSet rc (user_key ''user'' uid) [(''id'', nat_str uid), (''country'', getCountry uid)]) us r1 = Some r'" "l r' = l r1"
    "\<forall>uid \<in> set us. h r' (user_key ''user'' uid) ''id'' = Some (nat_str uid) \<and> h r' (user_key ''user'' uid) ''country'' = Some (getCountry uid)"
    "\<forall>k. k \<notin> user_key ''user'' ` set us \<longrightarrow> h r' k = h r1 k" by auto
  have "user_key ''user'' u \<notin> user_key ''user'' ` set us" using Cons.prems by auto
  with r'(4) have u: "h r' (user_key ''user'' u) = h r1 (user_key ''user'' u)" by blast
  show ?case
    using r1 r' by (intro exI [of _ r']) (auto simp: u)
qed simp

text \<open>
  Seeding a Redis that behaves as documented always succeeds: the smoke checks pass whatever the database held
  before, every user has a country and its three lists and nothing else is in the lists, and each user follows five
  different users, all of them existing and none of them itself.
\<close>

theorem seed_complete:
  assumes "behaves rc h l"
  shows "\<exists>r'. seed_main rc r = Inr r' \<and>
    (\<forall>uid \<in> set users. h r' (user_key ''user'' uid) ''country'' = Some (getCountry uid) \<and>
       l r' (user_key ''follow'' uid) = getFollowees uid \<and> l r' (user_key ''media'' uid) = getMediaIds uid \<and>
       l r' (user_key ''recommendation'' uid) = getRecommendationIds uid \<and>
       length (getFollowees uid) = 5 \<and> distinct (getFollowees uid) \<and> set (getFollowees uid) \<subseteq> nat_str ` (set users - {uid}))"
proof -
  have d: "distinct users" and us: "users = [1..<21]" by (simp_all add: users_def NUM_USERS_def)
  obtain r0 where r0: "rc_flushDb rc r = Some r0" "h r0 = (\<lambda>_ _. None)" "l r0 = (\<lambda>_. [])" using assms unfolding behaves_def by blast
  obtain r1 where r1: "seedUsers rc r0 = Some r1" "l r1 = l r0" "\<forall>uid \<in> set users. h r1 (user_key ''user'' uid) ''country'' = Some (getCountry uid)"
    using each_users [OF assms d, of r0] unfolding seedUsers_def by blast
  obtain r2 where r2: "seedLists rc ''follow'' getFollowees r1 = Some r2" "h r2 = h r1"
    "\<forall>k. l r2 k = (if \<exists>uid \<in> set users. k = user_key ''follow'' uid then l r1 k @ getFollowees (THE uid. k = user_key ''follow'' uid) else l r1 k)"
    using each_pushes [OF assms d, of "''follow''" getFollowees r1] unfolding seedLists_def by blast
  obtain r3 where r3: "seedLists rc ''media'' getMediaIds r2 = Some r3" "h r3 = h r2"
    "\<forall>k. l r3 k = (if \<exists>uid \<in> set users. k = user_key ''media'' uid then l r2 k @ getMediaIds (THE uid. k = user_key ''media'' uid) else l r2 k)"
    using each_pushes [OF assms d, of "''media''" getMediaIds r2] unfolding seedLists_def by blast
  obtain r4 where r4: "seedLists rc ''recommendation'' getRecommendationIds r3 = Some r4" "h r4 = h r3"
    "\<forall>k. l r4 k = (if \<exists>uid \<in> set users. k = user_key ''recommendation'' uid
       then l r3 k @ getRecommendationIds (THE uid. k = user_key ''recommendation'' uid) else l r3 k)"
    using each_pushes [OF assms d, of "''recommendation''" getRecommendationIds r3] unfolding seedLists_def by blast
  have data: "seed_data rc r = Some r4" by (simp add: seed_data_def r0 r1 r2 r3 r4)
  have lists: "l r4 (user_key ''follow'' uid) = getFollowees uid" "l r4 (user_key ''media'' uid) = getMediaIds uid"
    "l r4 (user_key ''recommendation'' uid) = getRecommendationIds uid" if "uid \<in> set users" for uid
    using that by (auto simp: r4(3) r3(3) r2(3) r1(2) r0(3))
  have one: "1 \<in> set users" by (simp add: users_def NUM_USERS_def)
  have "nat_str 1 = ''1''" by code_simp
  then have keys: "user_key k 1 = k @ '':1''" for k by (simp add: user_key_def)
  have country: "h r4 (user_key ''user'' uid) ''country'' = Some (getCountry uid)" if "uid \<in> set users" for uid
    using that by (simp add: r4(2) r3(2) r2(2) r1(3))
  have "smokeChecks rc r4 = Inr ()"
    using assms lists [OF one] country [OF one] unfolding keys behaves_def
    by (simp add: smokeChecks_def smoke_def getCountry_def COUNTRIES_def getFollowees_def FOLLOW_FANOUT_def getMediaIds_def MEDIA_PER_USER_def
        getRecommendationIds_def RECOMMENDATION_PER_USER_def)
  then have run: "seed_main rc r = Inr r4" by (simp add: seed_main_def data)
  have "length (getFollowees uid) = 5 \<and> distinct (getFollowees uid) \<and> set (getFollowees uid) \<subseteq> nat_str ` (set users - {uid})"
    if "uid \<in> set users" for uid
  proof -
    have "list_all (\<lambda>u. distinct (map (\<lambda>i. (u + i - 1) mod 20 + 1) [1..<6]) \<and>
        list_all (\<lambda>n. n \<in> set [1..<21] - {u}) (map (\<lambda>i. (u + i - 1) mod 20 + 1) [1..<6])) [1..<21]" by code_simp
    with that have u: "distinct (map (\<lambda>i. (uid + i - 1) mod 20 + 1) [1..<6])"
      "list_all (\<lambda>n. n \<in> set [1..<21] - {uid}) (map (\<lambda>i. (uid + i - 1) mod 20 + 1) [1..<6])"
      unfolding list_all_iff us by blast+
    let ?ns = "map (\<lambda>i. (uid + i - 1) mod 20 + 1) [1..<6]"
    have f: "getFollowees uid = map nat_str ?ns" by (simp add: getFollowees_def NUM_USERS_def FOLLOW_FANOUT_def comp_def)
    have "inj nat_str" by (simp add: inj_def)
    then have "distinct (getFollowees uid)" unfolding f using u(1) by (simp only: distinct_map inj_on_def inj_def) blast
    moreover have "set (getFollowees uid) \<subseteq> nat_str ` (set users - {uid})"
      unfolding f set_map using u(2) unfolding list_all_iff us set_map by blast
    ultimately show ?thesis by (simp add: getFollowees_def FOLLOW_FANOUT_def)
  qed
  with run lists country show ?thesis by blast
qed

text \<open>A database of hashes and lists.\<close>

type_synonym db = "(string \<Rightarrow> string \<Rightarrow> string option) \<times> (string \<Rightarrow> string list)"

definition db_redis :: "db redis" where
  "db_redis = \<lparr> rc_flushDb = (\<lambda>r. Some (\<lambda>_ _. None, \<lambda>_. [])),
     rc_hSet = (\<lambda>k fs r. Some ((fst r)(k := fst r k ++ map_of (rev fs)), snd r)),
     rc_rPush = (\<lambda>k xs r. Some (fst r, (snd r)(k := snd r k @ xs))),
     rc_hGet = (\<lambda>k f r. Some (fst r k f)), rc_lLen = (\<lambda>k r. Some (length (snd r k))), rc_lRange = (\<lambda>k r. Some (snd r k)) \<rparr>"

theorem seed_complete_witness: "\<exists>r'. seed_main db_redis (\<lambda>_ _. None, \<lambda>_. [''old'']) = Inr r'"
proof -
  have "behaves db_redis fst snd" by (simp add: behaves_def db_redis_def)
  from seed_complete [OF this] show ?thesis by blast
qed

end
