(* ===== verification/Spec2Isabelle.thy ===== *)
theory Spec2Isabelle
  imports PlanSession WritesEffect CompileCorrect RegistryCorrect CodegenMain SyncManifest BuildPlans
    VisStore VisPreferences LintRules GenContract GenTsCorrect RepoRoot VisEditor VisDetails VisFile
    VisCanvas VisDock VisServer RedisSeed
begin

text \<open>
  A verification library for the Ranking DSL (\<open>dsl/\<close>): the TypeScript packages with which plan
  authors build ranking plans, the compiler \<open>dslc\<close> that turns a plan file into a JSON artifact
  for the engine, the tools around it (registries and their code generator, manifest and batch
  build, lint rules), and the plan visualizer (\<open>tools/visualizer\<close>).

  \<^bold>\<open>The program.\<close> A plan file calls \<open>definePlan\<close> with a \<open>build\<close> function. \<open>build\<close> receives a \<open>PlanCtx\<close> and
  chains method calls (\<open>ctx.viewer\<close>, \<open>cs.follow\<close>, \<open>cs.vm\<close>, \<open>cs.filter\<close>, \<dots>), each of which checks its options
  and appends one node to the context; expressions and predicates go to numbered tables. Natural
  expressions such as \<open>Key.id * P.w\<close> in the options are not run: before execution the AST extractor
  compiles them to IR and puts placeholders \<open>{ __expr_id: n }\<close> in the source. The rewritten source is
  bundled with esbuild and run in a QuickJS sandbox, where \<open>definePlan\<close> emits the finalized artifact.
  The driver validates the artifact, merges the extracted trees into its tables, checks the plan
  name and writes stable JSON. Keys, parameters, features, capabilities, tasks and endpoints come
  from TOML registries, from which the code generator produces the sources the other parts use.
  The batch build compiles the plans of a manifest and writes an index, from which the visualizer
  loads and draws them.

  \<^bold>\<open>Theories.\<close> In dependency order:
  \<^item> \<open>Prelude\<close>: results, strings, insertion-ordered collections, stable sort (locale \<open>js_comparator\<close>).
  \<^item> \<open>JsValue\<close>, \<open>JsNumber\<close>: run-time values of JavaScript, property lookup with inherited names,
    \<open>Number(string)\<close> and number printing; the error type of the runtime packages.
  \<^item> \<open>Guards\<close> (\<open>runtime/src/guards.ts\<close>), \<open>Capabilities\<close> (\<open>generated/capabilities.ts\<close>),
    \<open>ArtifactValidation\<close> (\<open>runtime/src/artifact-validation.ts\<close>): checks on untyped values, with the
    declarative shape \<open>wf_artifact\<close> that the validator decides.
  \<^item> \<open>ExprPred\<close> (\<open>runtime/src/expr.ts\<close>, \<open>pred.ts\<close>, IR types of \<open>generated/tasks.ts\<close>): builders.
  \<^item> \<open>PlanContext\<close> (class \<open>PlanCtx\<close> of \<open>runtime/src/plan.ts\<close>): the context as a record; operations
    return a result and the state they leave, also when they throw (locale \<open>id_table\<close>).
  \<^item> \<open>TaskImpl\<close> (\<open>generated/task-impl.ts\<close>) and \<open>TaskContract\<close>: the task implementations, the
    invariant \<open>plan_inv\<close> of a context, and the contract (locale \<open>task_impl\<close>) that every implementation
    satisfies.
  \<^item> \<open>PlanApi\<close> (rest of \<open>runtime/src/plan.ts\<close>) and \<open>PlanSession\<close>: the authoring methods, the
    relation \<open>session\<close> of all contexts a build function can reach (successful calls, caught
    failures, capability declarations in any order), and the properties of every plan.
  \<^item> \<open>WritesEffect\<close> (\<open>runtime/src/writes-effect.ts\<close>): the effect language, its evaluator, and a concrete
    semantics against which it is sound and exact.
  \<^item> \<open>TsAst\<close>, \<open>ExprCompiler\<close>, \<open>PredCompiler\<close> (\<open>compiler/src/expr-compiler.ts\<close>, \<open>pred-compiler.ts\<close>):
    natural syntax to IR, with meaning in an arbitrary algebra.
  \<^item> \<open>AstExtractor\<close> (\<open>compiler/src/ast-extractor.ts\<close>, registries) and \<open>ExtractionCorrect\<close>: what is found,
    recorded and rewritten.
  \<^item> \<open>StableStringify\<close>, \<open>Executor\<close>, \<open>Bundler\<close>, \<open>Cli\<close> (\<open>compiler/src\<close>, the same names) and
    \<open>CompileCorrect\<close>: serialization, sandbox protocol, import policy, driver, and the pipeline;
    \<open>RepoRoot\<close>: the driver's search loop on path strings (\<open>while_option\<close>).
  \<^item> \<open>LintRules\<close> (\<open>eslint-plugin/src/rules\<close>, \<open>ts-plugin/src/index.ts\<close>): the editor-side checks, related to
    the bundler and the extractor they anticipate.
  \<^item> \<open>RegistryTypes\<close>, \<open>RegistryParsers\<close>, \<open>RegistryCorrect\<close> (\<open>dsl/src/codegen/types.ts\<close>, \<open>parsers.ts\<close>): reading
    the TOML registries; every row loop is an instance of the locale \<open>row_loop\<close>.
  \<^item> \<open>CodegenUtils\<close> (\<open>codegen/utils.ts\<close>): canonical text, digests, names, C++ spellings.
  \<^item> \<open>GenText\<close>, \<open>GenTs\<close>, \<open>GenTasks\<close>, \<open>GenCpp\<close>, \<open>GenMonaco\<close> (\<open>codegen/gen-ts.ts\<close>, \<open>gen-cpp.ts\<close>, \<open>gen-monaco.ts\<close>):
    the generators, as functions from parsed registries to the text of each generated file.
  \<^item> \<open>TaskPrograms\<close>: the functions of \<open>task-impl.ts\<close> as programs of a small statement language, with
    their text (equal to the generator's lines) and their meaning; \<open>GenContract\<close>: what every generated
    function guarantees, for any task registry; \<open>GenTsCorrect\<close>: when the endpoint table exists, and the
    generated tables that other parts read.
  \<^item> \<open>FileTree\<close>, \<open>JsonText\<close>: the file system and path operations the tools use, and plain
    \<open>JSON.stringify\<close>.
  \<^item> \<open>CodegenMain\<close> (\<open>dsl/src/codegen.ts\<close>), \<open>SyncManifest\<close> and \<open>BuildPlans\<close> (\<open>dsl/tools\<close>): the batch
    programs as functions from arguments and a file tree to an exit code and a file tree.
  \<^item> \<open>JsArith\<close>, \<open>VisPlan\<close> (\<open>tools/visualizer/src/parser\<close>, \<open>layout\<close>): double arithmetic, and the graph
    drawn for a plan.
  \<^item> \<open>VisStore\<close> (\<open>tools/visualizer/src/state/store.ts\<close>): the page as a state machine whose steps are user
    actions, server responses and history navigation, in any order (relation \<open>reachable\<close>).
  \<^item> \<open>VisPreferences\<close> (\<open>state/preferences.ts\<close>): preferences over a storage that may fail (locale
    \<open>pref_slot\<close>).
  \<^item> \<open>JsonParse\<close>, \<open>JsonStable\<close>: \<open>JSON.parse\<close>, and what it reads from the texts of \<open>JSON.stringify\<close> and
    \<open>stableStringify\<close>.
  \<^item> \<open>VisShare\<close>, \<open>VisEditor\<close> (\<open>components/EditorPanel.tsx\<close>, \<open>Modal.tsx\<close>): shared links (UTF-8, base64, URL encoding),
    and the plan editor with its saved plans, autosave and compilations as a state machine.
  \<^item> \<open>VisApp\<close> (\<open>App.tsx\<close>): pages, modes and navigation over the store.
  \<^item> \<open>VisRegistry\<close> (\<open>components/RegistryViewer.tsx\<close>), \<open>VisDetails\<close> (\<open>DetailsPanel.tsx\<close>): search, tables and floating panels
    of the registry browser; the details of a node and its links into that browser.
  \<^item> \<open>VisFile\<close> (\<open>PlanSelector.tsx\<close>): plan files, related to what the compiler writes.
  \<^item> \<open>VisCanvas\<close> (\<open>Canvas.tsx\<close>, \<open>Toolbar.tsx\<close>): drawing, selection, panning and zooming.
  \<^item> \<open>VisDock\<close> (\<open>DockLayout.tsx\<close>, \<open>MenuBar.tsx\<close>, \<open>Dropdown.tsx\<close>, \<open>SourcePanel.tsx\<close>): the layout of panels per mode, over an
    arbitrary docking library, and the small controls.
  \<^item> \<open>VisServer\<close> (\<open>tools/visualizer/vite.config.ts\<close>): the compile requests of the editor as steps of the development server,
    with the compiler's model as the child process, and the routes for files.
  \<^item> \<open>RedisSeed\<close> (\<open>dsl/tools/redis_seed.ts\<close>): the test data and its smoke checks, over an arbitrary Redis client.

  \<^bold>\<open>Modelling.\<close> Every definition is executable. A \<open>throw\<close> is the left value of a sum, one constructor per
  message; state is passed explicitly. Types of the API are erased at run time, so options are
  arbitrary values of \<open>jsval\<close>. Values are finite trees: cyclic objects, getters and proxies are
  outside. No definition uses fuel except the printing of non-integer numbers (\<open>shortest_from\<close>), where
  17 digits always suffice for a double. All loops are total functions; the one loop of the source
  that may run forever (\<open>findRepoRoot\<close>) is in addition a \<open>while_option\<close>, with a proof of when it ends.

  \<^bold>\<open>Parameters.\<close> The TypeScript parser, esbuild, QuickJS, the compiler driver's file system and path
  resolution, SHA-256, the TOML parser, the collation of \<open>localeCompare\<close>, the dagre layout
  library, the docking library, \<open>clang-format\<close>, the browser's storage and the child processes of the batch build and of the compile requests, and the Redis client, are arguments of the
  definitions that use them (\<open>source_file\<close>, \<open>sandbox\<close>, \<open>toolchain\<close>, \<open>reg_env\<close>, \<open>build_env\<close>, \<open>vis_env\<close>, \<open>dockview\<close>,
  \<open>local_storage\<close>, \<open>redis\<close>). \<open>JSON.parse\<close> is a definition for the editor and for plan files, and an argument where a component only
  stores or displays what it returns. What is assumed of the parser is \<open>wf_tree\<close>: nested ordered spans, non-empty nodes, a
  parenthesis in a call and a dot in a property access. Of the collation it is assumed, where
  stated, that it is a consistent comparator (\<open>js_comparator\<close>).

  \<^bold>\<open>Properties.\<close> Plans: DAG in topological order with unique ids; one node per successful call and
  none per failed one; closed tables; finalized artifacts pass validation by construction up to
  names and extensions. Compiler: meaning is preserved and unsupported syntax rejected; rewriting is
  a splice of disjoint spans; placeholders are bound to their trees by the merge; only valid
  artifacts are written. Further: soundness and exactness of the effect evaluator, the acceptance
  conditions of validator, executor and bundler, deterministic output, the command line.
  Registries: parsers accept exactly the sound registries and read them back; environments agree,
  and so do their digests (below). Tools: check mode accepts what write mode wrote; the manifest is
  a function of the set of plan files; the index lists exactly what was compiled; both canonical
  serializations agree. Code generation: the generated task functions are those of the checked-in
  file, and for any registry they keep the plan invariant and check their required options; the
  endpoint table exists exactly for nameable endpoints. The search for the repository root ends.
  Visualizer: the drawing is the plan's graph; in every reachable state it
  belongs to the plan shown; every load settles. The page shown agrees with the store; the editor saves what it
  shows, and a shared link opens the same text; registry panels stack, and a link from a node opens its registry
  entry; the scale of the drawing is bounded; each mode keeps its layout. Across the system: what the compiler
  writes, the visualizer accepts, a plan keeps its drawing on the way through a file, and a compile request of the editor gives what the compiler
  gives, without mixing requests for different files. Lemmas beside these show that
  navigation keeps the history, that preferences survive, what the details panel and the canvas show for any plan, when the
  endpoint table exists, that a seeded database passes its checks, that two requests for one file name do mix, and that the lint rule agrees with the bundler. For a number in a plan file it is assumed that
  it reads back as printed (\<open>num_reads\<close>), which is proved for counters.

  \<^bold>\<open>Not modelled.\<close> The C++ engine (another language). Of the visualizer's
  components the styles, hover colours and markup, the set-up of the text editor and of the graphics library,
  arrow heads and label positions, and initial panel widths; plug-in options, MIME types and status codes of its development server. Console output and
  the type declarations of editor support. These are not meant to be modelled: they hold no state that another part reads.
\<close>

section \<open>Endpoint digests across environments\<close>

text \<open>Under an order that separates its elements, a sorted list is determined by its elements.\<close>

lemma sorted_wrt_unique:
  assumes "sorted_wrt R xs" and "sorted_wrt R ys" and "distinct xs" and "distinct ys" and "set xs = set ys"
    and "\<And>a b. a \<in> set xs \<Longrightarrow> b \<in> set xs \<Longrightarrow> R a b \<Longrightarrow> R b a \<Longrightarrow> a = b"
  shows "xs = ys"
  using assms
proof (induction xs arbitrary: ys)
  case (Cons x xs)
  then obtain y zs where ys: "ys = y # zs" by (cases ys) auto
  have "x = y"
  proof (rule ccontr)
    assume "x \<noteq> y"
    with Cons.prems(5) ys have "x \<in> set zs" "y \<in> set xs" by auto
    with Cons.prems(1,2) ys have "R y x" "R x y" by auto
    with Cons.prems(6) [of x y] \<open>y \<in> set xs\<close> \<open>x \<noteq> y\<close> show False by simp
  qed
  moreover have "set xs = set zs" using Cons.prems(3-5) ys \<open>x = y\<close> by auto
  ultimately show ?case using Cons ys by auto
qed simp

definition separates :: "(string \<Rightarrow> string \<Rightarrow> bool) \<Rightarrow> EndpointEntry list \<Rightarrow> bool" where
  "separates gt es \<longleftrightarrow> (\<forall>a \<in> set es. \<forall>b \<in> set es. ee_endpoint_id a \<noteq> ee_endpoint_id b \<longrightarrow>
     gt (ee_endpoint_id a) (ee_endpoint_id b) \<or> gt (ee_endpoint_id b) (ee_endpoint_id a))"

lemma endpoint_file_sorted:
  assumes "js_comparator (re_locale_gt env) UNIV" and "parseEndpointFile env p n = Inr es"
  shows "sorted_wrt (\<lambda>s t. \<not> re_locale_gt env (fst s) (fst t)) (map endpoint_sig es)" and "distinct (map endpoint_sig es)"
proof -
  have cmp: "js_comparator (\<lambda>a b. re_locale_gt env (ee_endpoint_id a) (ee_endpoint_id b)) UNIV"
    using assms(1) unfolding js_comparator_def by blast
  from assms(2) obtain rows where "es = js_sort_by (\<lambda>a b. re_locale_gt env (ee_endpoint_id a) (ee_endpoint_id b)) rows"
    by (auto simp: parseEndpointFile_def bindR_Inr_iff split: if_splits prod.splits)
  with js_comparator.sorted_js_sort_by [OF cmp, of rows]
  show "sorted_wrt (\<lambda>s t. \<not> re_locale_gt env (fst s) (fst t)) (map endpoint_sig es)"
    by (simp add: sorted_wrt_map endpoint_sig_def)
  have "distinct (map fst (map endpoint_sig es))"
    using parseEndpointFile_ok [OF assms(2)] by (simp add: wf_endpoints_def endpoint_sig_def comp_def)
  then show "distinct (map endpoint_sig es)" by (rule distinct_map [THEN iffD1, THEN conjunct1])
qed

lemma identity_sig:
  assumes "map endpoint_sig ds = map endpoint_sig es"
  shows "map endpointIdentity ds = map endpointIdentity es"
proof -
  define f where "f = (\<lambda>(i, n, k). JObj [(''endpoint_id'', JStr i), (''name'', JStr n), (''kind'', JStr k)])"
  have "endpointIdentity = f \<circ> endpoint_sig" by (simp add: fun_eq_iff f_def endpointIdentity_def endpoint_sig_def)
  with assms show ?thesis by (metis map_map)
qed

lemma same_identities:
  assumes "js_comparator (re_locale_gt env) UNIV" and "parseEndpointFile env p n = Inr ds" and "parseEndpointFile env q m = Inr es"
    and "endpoint_sig ` set ds = endpoint_sig ` set es" and "separates (re_locale_gt env) ds"
  shows "endpointRegistryCanonical ds = endpointRegistryCanonical es"
proof -
  let ?le = "\<lambda>s t. \<not> re_locale_gt env (fst s) (fst t)"
  have "s = t" if st: "s \<in> set (map endpoint_sig ds)" "t \<in> set (map endpoint_sig ds)" "?le s t" "?le t s" for s t
  proof -
    from st(1,2) obtain a b where ab: "a \<in> set ds" "b \<in> set ds" "s = endpoint_sig a" "t = endpoint_sig b" by auto
    with st(3,4) assms(5) have "ee_endpoint_id a = ee_endpoint_id b" by (auto simp: separates_def endpoint_sig_def)
    with ab parseEndpointFile_ok [OF assms(2)] show ?thesis by (auto simp: wf_endpoints_def distinct_map inj_on_def)
  qed
  moreover have "set (map endpoint_sig ds) = set (map endpoint_sig es)" using assms(4) by simp
  ultimately have "map endpoint_sig ds = map endpoint_sig es"
    by (rule sorted_wrt_unique [OF endpoint_file_sorted(1) [OF assms(1,2)] endpoint_file_sorted(1) [OF assms(1,3)]
          endpoint_file_sorted(2) [OF assms(1,2)] endpoint_file_sorted(2) [OF assms(1,3)], rotated])
  from identity_sig [OF this] show ?thesis by (simp add: endpointRegistryCanonical_def)
qed


text \<open>One endpoint whose host differs from environment to environment.\<close>

definition host_toml :: "string \<Rightarrow> jsval" where
  "host_toml host = JObj [(''version'', JNum (jint 1)), (''endpoint'', JArr [JObj [(''endpoint_id'', JStr ''ep_0001''),
     (''name'', JStr ''redis_default''), (''kind'', JStr ''redis''),
     (''resolver'', JObj [(''type'', JStr ''static''), (''host'', JStr host), (''port'', JNum (jint 6379))]),
     (''policy'', JObj [(''max_inflight'', JNum (jint 64))])]])]"

definition host_env :: reg_env where
  "host_env = \<lparr> re_read = (\<lambda>p. Some p), re_toml = (\<lambda>s. Some (host_toml s)), re_json = (\<lambda>s. None), re_locale_gt = (\<lambda>x y. x > y) \<rparr>"


end
